(* ===== verification/Prelude.thy ===== *)
theory Prelude
  imports Main
begin

text \<open>
  What every component shares: the small part of Python's built-in behaviour that the
  modelled code relies on (strings, truth values, the \<open>value or default\<close> idiom,
  errors as values), the development's collections of simplification rules, and the
  generic lemmas on lists that several components use.

  A Python \<open>str\<close> is a \<^typ>\<open>string\<close>, one \<^typ>\<open>char\<close> per code point, so the model
  covers the strings whose code points lie below 256; white space and lower case follow
  Python's Unicode tables on that range. A call that raises is the \<open>Inl\<close> side of a sum.
\<close>

named_theorems py_eval \<open>unfolding of the built-in operations, for concrete inputs\<close>
named_theorems step_defs \<open>definitions of the guarded steps of a component\<close>

section \<open>Strings\<close>

text \<open>\<open>str.isspace\<close> on the code points below 256.\<close>

definition py_space :: "char \<Rightarrow> bool" where
  "py_space c \<longleftrightarrow>
     (let n = (of_char c :: nat)
      in 9 \<le> n \<and> n \<le> 13 \<or> 28 \<le> n \<and> n \<le> 32 \<or> n = 133 \<or> n = 160)"

definition py_lstrip :: "string \<Rightarrow> string" where
  "py_lstrip s = dropWhile py_space s"

definition py_strip :: "string \<Rightarrow> string" where
  "py_strip s = rev (dropWhile py_space (rev (dropWhile py_space s)))"

text \<open>\<open>str.lower\<close> and \<open>str.upper\<close>, on the letters whose other case also lies below 256.\<close>

definition py_lower_char :: "char \<Rightarrow> char" where
  "py_lower_char c =
     (let n = (of_char c :: nat)
      in if 65 \<le> n \<and> n \<le> 90 \<or> 192 \<le> n \<and> n \<le> 222 \<and> n \<noteq> 215 then char_of (n + 32) else c)"

definition py_lower :: "string \<Rightarrow> string" where
  "py_lower s = map py_lower_char s"

text \<open>\<open>str(value or "")\<close> for an optional string: a missing value counts as empty.\<close>

definition text_or_empty :: "string option \<Rightarrow> string" where
  "text_or_empty v = (case v of None \<Rightarrow> [] | Some s \<Rightarrow> s)"

definition norm_text :: "string option \<Rightarrow> string" where
  "norm_text v = py_lower (py_strip (text_or_empty v))"

text \<open>\<open>sep.join(parts)\<close>.\<close>

fun py_join :: "string \<Rightarrow> string list \<Rightarrow> string" where
  "py_join sep [] = []"
| "py_join sep [x] = x"
| "py_join sep (x # y # ys) = x @ sep @ py_join sep (y # ys)"

definition has_prefix :: "string \<Rightarrow> string \<Rightarrow> bool" where
  "has_prefix p s \<longleftrightarrow> take (length p) s = p"

definition has_suffix :: "string \<Rightarrow> string \<Rightarrow> bool" where
  "has_suffix p s \<longleftrightarrow> length p \<le> length s \<and> drop (length s - length p) s = p"

text \<open>\<open>needle in haystack\<close>.\<close>

fun has_infix :: "string \<Rightarrow> string \<Rightarrow> bool" where
  "has_infix p [] = (p = [])"
| "has_infix p (c # cs) = (take (length p) (c # cs) = p \<or> has_infix p cs)"

lemmas [py_eval] =
  py_space_def py_lstrip_def py_strip_def py_lower_char_def py_lower_def
  text_or_empty_def norm_text_def has_prefix_def has_suffix_def Let_def

lemma text_or_empty_simps [simp]:
  "text_or_empty None = []" "text_or_empty (Some s) = s"
  by (simp_all add: text_or_empty_def)

lemma py_strip_Nil [simp]: "py_strip [] = []"
  by (simp add: py_strip_def)

lemma py_lower_Nil [simp]: "py_lower [] = []"
  by (simp add: py_lower_def)

lemma dropWhile_hd: "dropWhile P s = [] \<or> \<not> P (hd (dropWhile P s))"
  by (induction s) auto

lemma dropWhile_keep: "s = [] \<or> \<not> P (hd s) \<Longrightarrow> dropWhile P s = s"
  by (cases s) auto

lemma dropWhile_rev_keeps_hd:
  assumes "s = [] \<or> \<not> P (hd s)"
  shows "dropWhile P (rev s) = [] \<and> s = [] \<or> hd (rev (dropWhile P (rev s))) = hd s"
proof (cases s)
  case Nil
  then show ?thesis by simp
next
  case (Cons c cs)
  with assms have "\<not> P c" by simp
  then have "dropWhile P (rev s) = dropWhile P (rev cs) @ [c]"
    using Cons by (cases "dropWhile P (rev cs) = []")
      (auto simp: dropWhile_append dropWhile_eq_Nil_conv split: if_splits)
  then show ?thesis using Cons by simp
qed

text \<open>Stripping twice is stripping once.\<close>

lemma py_strip_idem [simp]: "py_strip (py_strip s) = py_strip s"
proof -
  define a where "a = dropWhile py_space s"
  define b where "b = dropWhile py_space (rev a)"
  have a: "a = [] \<or> \<not> py_space (hd a)"
    unfolding a_def by (rule dropWhile_hd)
  have b: "b = [] \<or> \<not> py_space (hd b)"
    unfolding b_def by (rule dropWhile_hd)
  have "dropWhile py_space (rev b) = rev b"
  proof (rule dropWhile_keep)
    show "rev b = [] \<or> \<not> py_space (hd (rev b))"
      using dropWhile_rev_keeps_hd [of a py_space] a unfolding b_def by auto
  qed
  moreover have "dropWhile py_space b = b"
    using b by (rule dropWhile_keep)
  ultimately have "py_strip (rev b) = rev b"
    by (simp add: py_strip_def)
  then show ?thesis
    by (simp add: py_strip_def a_def b_def)
qed

section \<open>Decimal digits\<close>

text \<open>\<open>str(n)\<close> of a natural number, and reading digits back.\<close>

definition is_digit :: "char \<Rightarrow> bool" where
  "is_digit c \<longleftrightarrow> 48 \<le> (of_char c :: nat) \<and> (of_char c :: nat) \<le> 57"

definition digit_val :: "char \<Rightarrow> nat" where
  "digit_val c = of_char c - 48"

definition digit_char :: "nat \<Rightarrow> char" where
  "digit_char d = char_of (48 + d)"

fun nat_digits :: "nat \<Rightarrow> string" where
  "nat_digits n =
     (if n < 10 then [digit_char n] else nat_digits (n div 10) @ [digit_char (n mod 10)])"

declare nat_digits.simps [simp del]

definition nat_of_digits :: "string \<Rightarrow> nat" where
  "nat_of_digits s = foldl (\<lambda>a c. a * 10 + digit_val c) 0 s"

lemma of_digit_char [simp]: "d < 10 \<Longrightarrow> (of_char (digit_char d) :: nat) = 48 + d"
  by (simp add: digit_char_def)

lemma is_digit_char [simp]: "d < 10 \<Longrightarrow> is_digit (digit_char d)"
  by (simp add: is_digit_def)

lemma digit_val_char [simp]: "d < 10 \<Longrightarrow> digit_val (digit_char d) = d"
  by (simp add: digit_val_def)

lemma nat_digits_all [simp]: "list_all is_digit (nat_digits n)"
  by (induction n rule: nat_digits.induct) (subst nat_digits.simps, auto)

lemma nat_digits_not_Nil [simp]: "nat_digits n \<noteq> []"
  by (subst nat_digits.simps) simp

lemma nat_of_digits_append:
  "nat_of_digits (xs @ ys) = nat_of_digits xs * 10 ^ length ys + nat_of_digits ys"
proof (induction ys rule: rev_induct)
  case Nil
  then show ?case by (simp add: nat_of_digits_def)
next
  case (snoc y ys)
  then show ?case by (simp add: nat_of_digits_def algebra_simps)
qed

lemma nat_of_digits_simps [simp]:
  "nat_of_digits [] = 0" "nat_of_digits [c] = digit_val c"
  by (simp_all add: nat_of_digits_def)

lemma nat_of_digits_nat_digits [simp]: "nat_of_digits (nat_digits n) = n"
proof (induction n rule: nat_digits.induct)
  case (1 n)
  then show ?case
    by (subst nat_digits.simps) (auto simp: nat_of_digits_append)
qed

lemma nat_of_digits_zeros [simp]: "nat_of_digits (replicate k (CHR ''0'') @ s) = nat_of_digits s"
proof -
  have "nat_of_digits (replicate k (CHR ''0'')) = 0"
    unfolding nat_of_digits_def by (induction k) (simp_all add: digit_val_def)
  then show ?thesis by (simp add: nat_of_digits_append)
qed

section \<open>Errors as values\<close>

text \<open>Sequencing of calls that may raise: the first error ends the computation.\<close>

definition sbind :: "'e + 'a \<Rightarrow> ('a \<Rightarrow> 'e + 'b) \<Rightarrow> 'e + 'b" where
  "sbind m f = (case m of Inl e \<Rightarrow> Inl e | Inr x \<Rightarrow> f x)"

lemma sbind_simps [simp]:
  "sbind (Inl e) f = Inl e" "sbind (Inr x) f = f x"
  by (simp_all add: sbind_def)

lemma sbind_eq_Inr: "sbind m f = Inr y \<longleftrightarrow> (\<exists>x. m = Inr x \<and> f x = Inr y)"
  by (cases m) auto

lemma sbind_eq_Inl: "sbind m f = Inl e \<longleftrightarrow> m = Inl e \<or> (\<exists>x. m = Inr x \<and> f x = Inl e)"
  by (cases m) auto

text \<open>A comprehension whose element expression may raise.\<close>

fun smap :: "('a \<Rightarrow> 'e + 'b) \<Rightarrow> 'a list \<Rightarrow> 'e + 'b list" where
  "smap f [] = Inr []"
| "smap f (x # xs) = sbind (f x) (\<lambda>y. sbind (smap f xs) (\<lambda>ys. Inr (y # ys)))"

lemma smap_Inr_length: "smap f xs = Inr ys \<Longrightarrow> length ys = length xs"
  by (induction xs arbitrary: ys) (auto simp: sbind_eq_Inr)

lemma smap_Inr_set: "smap f xs = Inr ys \<Longrightarrow> y \<in> set ys \<Longrightarrow> \<exists>x \<in> set xs. f x = Inr y"
  by (induction xs arbitrary: ys) (auto simp: sbind_eq_Inr)

end
