(* ===== verification/Paths.thy ===== *)
theory Paths
  imports Prelude
begin

text \<open>
  The part of Python's \<open>pathlib\<close> (POSIX flavour) and of \<open>os\<close> that the start-up checks
  use: parsing and printing a path, its name, suffix and parent, \<open>with_name\<close>, joining,
  and the four questions asked of the file system. The file system itself is the
  environment's, so its answers are a record of functions that the checks take as argument.
\<close>

fun split_on :: "char \<Rightarrow> string \<Rightarrow> string list" where
  "split_on c [] = [[]]"
| "split_on c (x # xs) =
     (if x = c then [] # split_on c xs
      else case split_on c xs of [] \<Rightarrow> [[x]] | y # ys \<Rightarrow> (x # y) # ys)"

datatype path = Path (p_root: string) (p_parts: "string list")

definition path_root_of :: "string \<Rightarrow> string" where
  "path_root_of s =
     (if has_prefix ''//'' s \<and> \<not> has_prefix ''///'' s then ''//''
      else if has_prefix ''/'' s then ''/'' else [])"

definition path_of :: "string \<Rightarrow> path" where
  "path_of s =
     Path (path_root_of s)
       (filter (\<lambda>x. x \<noteq> [] \<and> x \<noteq> ''.'') (split_on (CHR ''/'') s))"

definition path_str :: "path \<Rightarrow> string" where
  "path_str p =
     (if p_root p = [] \<and> p_parts p = [] then ''.''
      else p_root p @ py_join ''/'' (p_parts p))"

definition is_absolute :: "path \<Rightarrow> bool" where
  "is_absolute p \<longleftrightarrow> p_root p \<noteq> []"

definition path_name :: "path \<Rightarrow> string" where
  "path_name p = (if p_parts p = [] then [] else last (p_parts p))"

text \<open>\<open>PurePath.suffix\<close>: the text from the last dot on, unless that dot is the first or the
  last character of the name.\<close>

definition path_suffix :: "path \<Rightarrow> string" where
  "path_suffix p =
     (let n = path_name p;
          ext = rev (takeWhile (\<lambda>c. c \<noteq> CHR ''.'') (rev n));
          i = length n - length ext - 1
      in if CHR ''.'' \<in> set n \<and> 0 < i \<and> ext \<noteq> [] then CHR ''.'' # ext else [])"

definition path_parent :: "path \<Rightarrow> path" where
  "path_parent p = Path (p_root p) (butlast (p_parts p))"

text \<open>\<open>with_name\<close> raises \<open>ValueError\<close> (here \<open>None\<close>) on a path without a name.\<close>

definition with_name :: "path \<Rightarrow> string \<Rightarrow> path option" where
  "with_name p n =
     (if path_name p = [] then None else Some (Path (p_root p) (butlast (p_parts p) @ [n])))"

definition path_join :: "path \<Rightarrow> string \<Rightarrow> path" where
  "path_join p s =
     (let q = path_of s
      in if is_absolute q then q else Path (p_root p) (p_parts p @ p_parts q))"

record file_system =
  fs_exists :: "path \<Rightarrow> bool"
  fs_is_file :: "path \<Rightarrow> bool"
  fs_is_dir :: "path \<Rightarrow> bool"
  fs_writable :: "path \<Rightarrow> bool"

lemmas [py_eval] =
  path_root_of_def path_of_def path_str_def is_absolute_def path_name_def path_suffix_def
  path_parent_def with_name_def path_join_def

lemma split_on_not_Nil [simp]: "split_on c s \<noteq> []"
  by (cases s) (auto split: list.splits)

lemma with_name_None_iff: "with_name p n = None \<longleftrightarrow> path_name p = []"
  by (simp add: with_name_def)

lemma path_parent_with_name:
  "with_name p n = Some q \<Longrightarrow> path_parent q = path_parent p \<and> path_name q = n"
  by (auto simp: with_name_def path_parent_def path_name_def split: if_splits)

end
