(* ===== verification/Live_Control.thy ===== *)
theory Live_Control
  imports Paths
begin

text \<open>
  \<^verbatim>\<open>src/live_control.py\<close>: the start-up policy that decides whether the bot may trade with
  real money. The environment variables, the file system, the configured directories and
  the kill switch \<open>LIVE_TRADING_DISABLED\<close> are the record \<open>live_env\<close>; the three lists
  \<open>checks\<close>, \<open>errors\<close>, \<open>warnings\<close> that the checks mutate are the record \<open>check_log\<close>, passed
  from check to check in the order of the calls. The lemmas show that the two lists of
  messages are exactly the failed checks, and characterise when real mode becomes effective.
\<close>

section \<open>Modes and environment\<close>

datatype live_mode = LM_off | LM_dry_run | LM_real

fun mode_name :: "live_mode \<Rightarrow> string" where
  "mode_name LM_off = ''off''"
| "mode_name LM_dry_run = ''dry-run''"
| "mode_name LM_real = ''real''"

record live_env =
  le_environ :: "string \<Rightarrow> string option"
  le_fs :: file_system
  le_models_dir :: path
  le_logs_dir :: path
  le_utcnow :: string
  le_disabled :: bool

text \<open>\<open>str(os.environ.get(name, "") or "").strip()\<close>\<close>

definition configured :: "live_env \<Rightarrow> string \<Rightarrow> string" where
  "configured E n = py_strip (text_or_empty (le_environ E n))"

abbreviation "LIVE_MODE_ENV \<equiv> ''LIVE_TRADING_MODE''"
abbreviation "LIVE_MODEL_ENV \<equiv> ''LIVE_MODEL''"
abbreviation "REAL_TRADING_ARM_ENV \<equiv> ''LIVE_TRADING_ARMED''"
abbreviation "REAL_TRADING_CONFIRM_ENV \<equiv> ''LIVE_TRADING_CONFIRMATION''"
abbreviation "REAL_TRADING_CONFIRM_VALUE \<equiv> ''REAL_TRADING_ENABLED''"

definition is_truthy :: "string option \<Rightarrow> bool" where
  "is_truthy v \<longleftrightarrow> norm_text v \<in> set [''1'', ''true'', ''yes'', ''on'', ''armed'']"

definition is_public_bind :: "string option \<Rightarrow> bool" where
  "is_public_bind host \<longleftrightarrow> norm_text host \<notin> set [''127.0.0.1'', ''localhost'', ''::1'']"

definition normalize_live_mode :: "string option \<Rightarrow> live_mode option" where
  "normalize_live_mode v =
     (let n = norm_text v
      in if n \<in> set ['''', ''0'', ''false'', ''disabled'', ''none''] then Some LM_off
         else if n \<in> set [''off'', ''no'', ''stop''] then Some LM_off
         else if n \<in> set [''dry-run'', ''dry_run'', ''dryrun'', ''paper'', ''paper-trading'']
           then Some LM_dry_run
         else if n \<in> set [''real'', ''live''] then Some LM_real
         else None)"

definition resolve_live_mode_from_env :: "live_env \<Rightarrow> live_mode" where
  "resolve_live_mode_from_env E =
     (let raw = (case le_environ E LIVE_MODE_ENV of None \<Rightarrow> mode_name LM_off | Some s \<Rightarrow> s)
      in case normalize_live_mode (Some raw) of Some m \<Rightarrow> m | None \<Rightarrow> LM_off)"

section \<open>Model artifacts\<close>

definition resolve_live_model_name :: "live_env \<Rightarrow> string option \<Rightarrow> string" where
  "resolve_live_model_name E model =
     (let given = text_or_empty model;
          chosen = (if given \<noteq> [] then given
                    else case le_environ E LIVE_MODEL_ENV of None \<Rightarrow> ''xgboost'' | Some s \<Rightarrow> s);
          resolved = py_strip chosen
      in if resolved \<noteq> [] then resolved else ''xgboost'')"

definition explicit_model_path :: "string \<Rightarrow> path option" where
  "explicit_model_path model =
     (let c = path_of model
      in if path_suffix c = ''.pkl'' \<or> is_absolute c
            \<or> CHR ''/'' \<in> set model \<or> CHR 0x5C \<in> set model
         then Some c else None)"

definition resolve_model_artifact_path :: "live_env \<Rightarrow> string \<Rightarrow> path" where
  "resolve_model_artifact_path E model =
     (case explicit_model_path model of
        Some p \<Rightarrow> p
      | None \<Rightarrow> path_join (le_models_dir E) (model @ ''_model.pkl''))"

text \<open>The errors that end an evaluation: \<open>with_name\<close> on a path without a name, and the
  refusal of \<open>assert_real_trading_allowed\<close>.\<close>

datatype live_error = ValueError_empty_name | RuntimeError string

definition resolve_no_odds_model_name :: "live_env \<Rightarrow> string \<Rightarrow> live_error + string option" where
  "resolve_no_odds_model_name E model =
     (case explicit_model_path model of
        None \<Rightarrow> Inr (Some ''xgboost_no_odds'')
      | Some p \<Rightarrow>
          (case with_name p ''xgboost_no_odds_model.pkl'' of
             None \<Rightarrow> Inl ValueError_empty_name
           | Some sibling \<Rightarrow>
               Inr (if fs_exists (le_fs E) sibling then Some (path_str sibling) else None)))"

section \<open>Recording checks\<close>

datatype severity = Sev_error | Sev_warning

record check_entry =
  ck_name :: string
  ck_ok :: bool
  ck_message :: string
  ck_severity :: severity
  ck_extra :: "(string \<times> string) list"

record check_log =
  cl_checks :: "check_entry list"
  cl_errors :: "string list"
  cl_warnings :: "string list"

definition empty_log :: check_log where
  "empty_log = \<lparr>cl_checks = [], cl_errors = [], cl_warnings = []\<rparr>"

definition record_check ::
  "string \<Rightarrow> bool \<Rightarrow> string \<Rightarrow> severity \<Rightarrow> (string \<times> string) list \<Rightarrow> check_log \<Rightarrow> check_log" where
  "record_check n ok msg sev extra L =
     (let entry = \<lparr>ck_name = n, ck_ok = ok, ck_message = msg, ck_severity = sev, ck_extra = extra\<rparr>;
          L' = L\<lparr>cl_checks := cl_checks L @ [entry]\<rparr>
      in if ok then L'
         else if sev = Sev_warning then L'\<lparr>cl_warnings := cl_warnings L' @ [msg]\<rparr>
         else L'\<lparr>cl_errors := cl_errors L' @ [msg]\<rparr>)"

definition check_env_present ::
  "live_env \<Rightarrow> string \<Rightarrow> severity \<Rightarrow> string option \<Rightarrow> check_log \<Rightarrow> check_log" where
  "check_env_present E n sev msg L =
     record_check (py_lower n) (configured E n \<noteq> [])
       (case msg of Some (c # cs) \<Rightarrow> c # cs | _ \<Rightarrow> n @ '' is not configured.'')
       sev [(''env'', n)] L"

definition check_exact_env_value ::
  "live_env \<Rightarrow> string \<Rightarrow> string \<Rightarrow> string \<Rightarrow> check_log \<Rightarrow> check_log" where
  "check_exact_env_value E n expected msg L =
     record_check (py_lower n) (configured E n = expected) msg Sev_error
       [(''env'', n), (''expected_value'', expected)] L"

definition check_model_artifact ::
  "live_env \<Rightarrow> string \<Rightarrow> string \<Rightarrow> check_log \<Rightarrow> check_log" where
  "check_model_artifact E label model L =
     (let p = resolve_model_artifact_path E model
      in record_check label (fs_exists (le_fs E) p \<and> fs_is_file (le_fs E) p)
           (''Missing required model artifact: '' @ path_str p) Sev_error
           [(''path'', path_str p), (''model_name'', model)] L)"

definition check_writable_file_path ::
  "live_env \<Rightarrow> string \<Rightarrow> path \<Rightarrow> check_log \<Rightarrow> check_log" where
  "check_writable_file_path E label p L =
     (let F = le_fs E; parent = path_parent p
      in if \<not> fs_exists F parent then
           record_check label False (''Missing parent directory for '' @ path_str p) Sev_error
             [(''path'', path_str p)] L
         else if fs_exists F p \<and> fs_is_dir F p then
           record_check label False
             (''Expected a file path but found a directory: '' @ path_str p) Sev_error
             [(''path'', path_str p)] L
         else
           (let target = (if fs_exists F p then p else parent)
            in record_check label (fs_writable F target)
                 (''Path is not writable: '' @ path_str p) Sev_error
                 [(''path'', path_str p)] L))"

section \<open>The status report\<close>

record live_status =
  ls_startup_source :: string
  ls_requested_raw :: string
  ls_requested :: live_mode
  ls_effective :: live_mode
  ls_trading_enabled :: bool
  ls_trading_live :: bool
  ls_model_name :: string
  ls_host :: string
  ls_public_bind :: bool
  ls_armed_for_real :: bool
  ls_ready :: bool
  ls_errors :: "string list"
  ls_warnings :: "string list"
  ls_checks :: "check_entry list"
  ls_updated_at :: string

definition base_status ::
  "live_env \<Rightarrow> string \<Rightarrow> string \<Rightarrow> live_mode \<Rightarrow> live_mode \<Rightarrow> string \<Rightarrow> string \<Rightarrow> bool \<Rightarrow> bool
   \<Rightarrow> check_entry list \<Rightarrow> string list \<Rightarrow> string list \<Rightarrow> live_status" where
  "base_status E source raw requested effective model host ready enabled checks errors warnings =
     \<lparr>ls_startup_source = source, ls_requested_raw = raw, ls_requested = requested,
      ls_effective = effective, ls_trading_enabled = enabled,
      ls_trading_live = (effective = LM_real), ls_model_name = model, ls_host = host,
      ls_public_bind = is_public_bind (Some host),
      ls_armed_for_real = is_truthy (le_environ E REAL_TRADING_ARM_ENV),
      ls_ready = ready, ls_errors = errors, ls_warnings = warnings, ls_checks = checks,
      ls_updated_at = le_utcnow E\<rparr>"

definition invalid_mode_message :: "string \<Rightarrow> string" where
  "invalid_mode_message raw =
     ''Invalid '' @ LIVE_MODE_ENV @ '' value '' @ [CHR 0x27] @ raw @ [CHR 0x27]
     @ ''. Allowed values: off, dry-run, real.''"

definition disabled_warning :: string where
  "disabled_warning =
     ''Live trading is disabled via LIVE_TRADING_DISABLED flag in live_control.py.''"

definition requested_raw :: "live_env \<Rightarrow> string option \<Rightarrow> string" where
  "requested_raw E requested =
     py_strip (case requested of
        Some m \<Rightarrow> m
      | None \<Rightarrow> (case le_environ E LIVE_MODE_ENV of None \<Rightarrow> mode_name LM_off | Some s \<Rightarrow> s))"

definition or_mode :: "string \<Rightarrow> live_mode \<Rightarrow> string" where
  "or_mode raw m = (if raw \<noteq> [] then raw else mode_name m)"

section \<open>UFC start-up\<close>

definition token_check :: "live_env \<Rightarrow> string \<Rightarrow> live_mode \<Rightarrow> string \<Rightarrow> check_log \<Rightarrow> check_log" where
  "token_check E host mode msg L =
     (if is_public_bind (Some host)
      then record_check ''dashboard_token'' (configured E ''WEB_DASHBOARD_TOKEN'' \<noteq> []) msg
             (if mode = LM_real then Sev_error else Sev_warning)
             [(''env'', ''WEB_DASHBOARD_TOKEN'')] L
      else L)"

definition arm_message :: string where
  "arm_message = ''Set '' @ REAL_TRADING_ARM_ENV @ ''=1 to arm real-money trading.''"

definition confirm_message :: string where
  "confirm_message =
     ''Set '' @ REAL_TRADING_CONFIRM_ENV @ ''='' @ REAL_TRADING_CONFIRM_VALUE
     @ '' to confirm real-money startup.''"

definition funder_message :: string where
  "funder_message =
     ''POLYMARKET_FUNDER_ADDRESS is not configured. The bot will rely on ''
     @ ''proxy-wallet auto-discovery at runtime.''"

definition real_mode_checks :: "live_env \<Rightarrow> string \<Rightarrow> check_log \<Rightarrow> check_log" where
  "real_mode_checks E key_message L =
     (let L1 = check_env_present E ''POLYMARKET_PRIVATE_KEY'' Sev_error (Some key_message) L;
          L2 = check_exact_env_value E REAL_TRADING_ARM_ENV ''1'' arm_message L1;
          L3 = check_exact_env_value E REAL_TRADING_CONFIRM_ENV REAL_TRADING_CONFIRM_VALUE
                 confirm_message L2
      in check_env_present E ''POLYMARKET_FUNDER_ADDRESS'' Sev_warning (Some funder_message) L3)"

definition ufc_log_paths :: "live_env \<Rightarrow> (string \<times> path) list" where
  "ufc_log_paths E =
     [(''bot_log_path'', path_join (le_logs_dir E) ''bot.log''),
      (''predictions_cache_path'', path_join (le_logs_dir E) ''predictions_cache.json''),
      (''single_ledger_path'', path_join (le_logs_dir E) ''bet_ledger_single.json''),
      (''conviction_ledger_path'', path_join (le_logs_dir E) ''bet_ledger_conviction.json'')]"

definition check_paths :: "live_env \<Rightarrow> (string \<times> path) list \<Rightarrow> check_log \<Rightarrow> check_log" where
  "check_paths E ps L = fold (\<lambda>(label, p). check_writable_file_path E label p) ps L"

definition ufc_checks :: "live_env \<Rightarrow> string \<Rightarrow> string \<Rightarrow> live_mode \<Rightarrow> live_error + check_log" where
  "ufc_checks E model host mode =
     (let L1 = check_env_present E ''ODDS_API_KEY'' Sev_error
                 (Some ''ODDS_API_KEY is required before the live trading loop may start.'')
                 empty_log;
          L2 = check_model_artifact E ''primary_model_artifact'' model L1
      in sbind (resolve_no_odds_model_name E model) (\<lambda>no_odds.
           let L3 = (case no_odds of None \<Rightarrow> L2
                     | Some m \<Rightarrow> check_model_artifact E ''no_odds_model_artifact'' m L2);
               L4 = check_paths E (ufc_log_paths E) L3;
               L5 = token_check E host mode
                      (''WEB_DASHBOARD_TOKEN must be set on public binds before the hosted service ''
                       @ ''may run in '' @ mode_name mode @ '' mode.'') L4
           in Inr (if mode = LM_real
                   then real_mode_checks E
                          ''POLYMARKET_PRIVATE_KEY is required for real-money trading.'' L5
                   else L5)))"

definition conclude ::
  "live_env \<Rightarrow> string \<Rightarrow> string \<Rightarrow> live_mode \<Rightarrow> string \<Rightarrow> string \<Rightarrow> check_log \<Rightarrow> live_status" where
  "conclude E source raw mode model host L =
     (let ready = (cl_errors L = []);
          effective = (if ready then mode else LM_off)
      in base_status E source (or_mode raw mode) mode effective model host ready
           (ready \<and> (mode = LM_dry_run \<or> mode = LM_real))
           (cl_checks L) (cl_errors L) (cl_warnings L))"

definition evaluate_live_startup ::
  "live_env \<Rightarrow> string option \<Rightarrow> string \<Rightarrow> string option \<Rightarrow> string \<Rightarrow> live_error + live_status" where
  "evaluate_live_startup E requested host model source =
     (if le_disabled E then
        Inr (base_status E source ''disabled'' LM_off LM_off (resolve_live_model_name E model) host
               True False [] [] [disabled_warning])
      else
        (let raw = requested_raw E requested; resolved = resolve_live_model_name E model
         in case normalize_live_mode (Some raw) of
              None \<Rightarrow>
                (let L = record_check ''live_mode'' False (invalid_mode_message raw) Sev_error
                           [(''env'', LIVE_MODE_ENV)] empty_log
                 in Inr (base_status E source raw LM_off LM_off resolved host False False
                           (cl_checks L) (cl_errors L) (cl_warnings L)))
            | Some LM_off \<Rightarrow>
                Inr (base_status E source (or_mode raw LM_off) LM_off LM_off resolved host
                       True False [] [] [])
            | Some mode \<Rightarrow>
                sbind (ufc_checks E resolved host mode)
                  (\<lambda>L. Inr (conclude E source raw mode resolved host L))))"

section \<open>Start-up of the other Polymarket traders\<close>

text \<open>\<open>f"ledger_path_{index}"\<close>, numbered from 1.\<close>

definition ledger_labels :: "path list \<Rightarrow> (string \<times> path) list" where
  "ledger_labels ps =
     map (\<lambda>(i, p). (''ledger_path_'' @ nat_digits i, p)) (zip [1 ..< Suc (length ps)] ps)"

definition polymarket_checks ::
  "live_env \<Rightarrow> string \<Rightarrow> path list \<Rightarrow> live_mode \<Rightarrow> check_log" where
  "polymarket_checks E host ledgers mode =
     (let L1 = check_paths E (ledger_labels ledgers) empty_log;
          L2 = token_check E host mode
                 (''WEB_DASHBOARD_TOKEN must be set on public binds before hosted ''
                  @ ''Polymarket execution may run in '' @ mode_name mode @ '' mode.'') L1
      in if mode = LM_real
         then real_mode_checks E
                ''POLYMARKET_PRIVATE_KEY is required for real-money Polymarket trading.'' L2
         else L2)"

definition evaluate_polymarket_live_startup ::
  "live_env \<Rightarrow> string option \<Rightarrow> string \<Rightarrow> string \<Rightarrow> path list \<Rightarrow> live_status" where
  "evaluate_polymarket_live_startup E requested host source ledgers =
     (if le_disabled E then
        base_status E source ''disabled'' LM_off LM_off ''polymarket'' host
          True False [] [] [disabled_warning]
      else
        (let raw = requested_raw E requested
         in case normalize_live_mode (Some raw) of
              None \<Rightarrow>
                (let L = record_check ''live_mode'' False (invalid_mode_message raw) Sev_error
                           [(''env'', LIVE_MODE_ENV)] empty_log
                 in base_status E source raw LM_off LM_off ''polymarket'' host False False
                      (cl_checks L) (cl_errors L) (cl_warnings L))
            | Some LM_off \<Rightarrow>
                base_status E source (or_mode raw LM_off) LM_off LM_off ''polymarket'' host
                  True False [] [] []
            | Some mode \<Rightarrow>
                conclude E source raw mode ''polymarket'' host
                  (polymarket_checks E host ledgers mode)))"

section \<open>Refusing to start\<close>

definition blocked_message :: "string \<Rightarrow> string list \<Rightarrow> string" where
  "blocked_message what errors =
     (let joined = py_join ''; '' errors;
          details = (if joined \<noteq> [] then joined else ''real-money trading is not armed.'')
      in what @ details @ '' Set '' @ REAL_TRADING_ARM_ENV @ ''=1 and ''
         @ REAL_TRADING_CONFIRM_ENV @ ''='' @ REAL_TRADING_CONFIRM_VALUE
         @ '' only after verifying readiness.'')"

definition assert_polymarket_real_trading_allowed ::
  "live_env \<Rightarrow> string \<Rightarrow> string \<Rightarrow> path list \<Rightarrow> live_error + live_status" where
  "assert_polymarket_real_trading_allowed E host source ledgers =
     (let st = evaluate_polymarket_live_startup E (Some (mode_name LM_real)) host source ledgers
      in if ls_effective st = LM_real then Inr st
         else Inl (RuntimeError
                (blocked_message ''Real-money Polymarket trading blocked. '' (ls_errors st))))"

definition assert_real_trading_allowed ::
  "live_env \<Rightarrow> string option \<Rightarrow> string \<Rightarrow> string \<Rightarrow> live_error + live_status" where
  "assert_real_trading_allowed E model host source =
     sbind (evaluate_live_startup E (Some (mode_name LM_real)) host model source)
       (\<lambda>st. if ls_effective st = LM_real then Inr st
             else Inl (RuntimeError
                    (blocked_message ''Real-money live trading blocked. '' (ls_errors st))))"

section \<open>The log and the checks agree\<close>

definition failed :: "severity \<Rightarrow> check_entry list \<Rightarrow> string list" where
  "failed sev cs = map ck_message (filter (\<lambda>c. \<not> ck_ok c \<and> ck_severity c = sev) cs)"

definition log_ok :: "check_log \<Rightarrow> bool" where
  "log_ok L \<longleftrightarrow> cl_errors L = failed Sev_error (cl_checks L)
              \<and> cl_warnings L = failed Sev_warning (cl_checks L)"

named_theorems log_intros \<open>checks keep the log consistent\<close>
named_theorems log_errors \<open>when a check leaves the error list empty\<close>

lemma log_ok_empty [log_intros, simp]: "log_ok empty_log"
  by (simp add: log_ok_def empty_log_def failed_def)

lemma log_ok_record [log_intros]: "log_ok L \<Longrightarrow> log_ok (record_check n ok msg sev extra L)"
  by (cases sev) (auto simp: log_ok_def record_check_def failed_def Let_def)

lemma log_ok_env [log_intros]: "log_ok L \<Longrightarrow> log_ok (check_env_present E n sev msg L)"
  by (simp add: check_env_present_def log_ok_record)

lemma log_ok_exact [log_intros]: "log_ok L \<Longrightarrow> log_ok (check_exact_env_value E n v msg L)"
  by (simp add: check_exact_env_value_def log_ok_record)

lemma log_ok_artifact [log_intros]: "log_ok L \<Longrightarrow> log_ok (check_model_artifact E l m L)"
  by (simp add: check_model_artifact_def log_ok_record Let_def)

lemma log_ok_writable [log_intros]: "log_ok L \<Longrightarrow> log_ok (check_writable_file_path E l p L)"
  by (simp add: check_writable_file_path_def log_ok_record Let_def)

lemma log_ok_paths [log_intros]: "log_ok L \<Longrightarrow> log_ok (check_paths E ps L)"
  unfolding check_paths_def by (induction ps arbitrary: L) (auto intro: log_ok_writable)

lemma log_ok_token [log_intros]: "log_ok L \<Longrightarrow> log_ok (token_check E h m msg L)"
  by (simp add: token_check_def log_ok_record)

lemma log_ok_real [log_intros]: "log_ok L \<Longrightarrow> log_ok (real_mode_checks E msg L)"
  by (simp add: real_mode_checks_def log_ok_env log_ok_exact Let_def)

lemma log_ok_ufc: "ufc_checks E model host mode = Inr L \<Longrightarrow> log_ok L"
  by (auto simp: ufc_checks_def Let_def sbind_eq_Inr split: option.splits if_splits
      intro!: log_intros)

lemma log_ok_polymarket [log_intros]: "log_ok (polymarket_checks E host ledgers mode)"
  by (auto simp: polymarket_checks_def Let_def intro!: log_intros)

section \<open>When no error is recorded\<close>

lemma record_check_errors [log_errors]:
  "cl_errors (record_check n ok msg sev extra L) = []
   \<longleftrightarrow> cl_errors L = [] \<and> (ok \<or> sev = Sev_warning)"
  by (cases sev) (auto simp: record_check_def Let_def)

lemma env_present_errors [log_errors]:
  "cl_errors (check_env_present E n sev msg L) = []
   \<longleftrightarrow> cl_errors L = [] \<and> (configured E n \<noteq> [] \<or> sev = Sev_warning)"
  by (simp add: check_env_present_def log_errors)

lemma exact_env_errors [log_errors]:
  "cl_errors (check_exact_env_value E n v msg L) = []
   \<longleftrightarrow> cl_errors L = [] \<and> configured E n = v"
  by (simp add: check_exact_env_value_def log_errors)

definition artifact_present :: "live_env \<Rightarrow> string \<Rightarrow> bool" where
  "artifact_present E model \<longleftrightarrow>
     (let p = resolve_model_artifact_path E model
      in fs_exists (le_fs E) p \<and> fs_is_file (le_fs E) p)"

lemma artifact_errors [log_errors]:
  "cl_errors (check_model_artifact E label model L) = []
   \<longleftrightarrow> cl_errors L = [] \<and> artifact_present E model"
  by (simp add: check_model_artifact_def artifact_present_def log_errors Let_def)

definition file_writable :: "live_env \<Rightarrow> path \<Rightarrow> bool" where
  "file_writable E p \<longleftrightarrow>
     fs_exists (le_fs E) (path_parent p)
     \<and> (if fs_exists (le_fs E) p then \<not> fs_is_dir (le_fs E) p \<and> fs_writable (le_fs E) p
        else fs_writable (le_fs E) (path_parent p))"

lemma writable_errors [log_errors]:
  "cl_errors (check_writable_file_path E label p L) = []
   \<longleftrightarrow> cl_errors L = [] \<and> file_writable E p"
  by (auto simp: check_writable_file_path_def file_writable_def log_errors Let_def)

definition paths_writable :: "live_env \<Rightarrow> path list \<Rightarrow> bool" where
  "paths_writable E ps \<longleftrightarrow> (\<forall>p \<in> set ps. file_writable E p)"

lemma paths_errors [log_errors]:
  "cl_errors (check_paths E ps L) = [] \<longleftrightarrow> cl_errors L = [] \<and> paths_writable E (map snd ps)"
  unfolding check_paths_def paths_writable_def
  by (induction ps arbitrary: L) (auto simp: log_errors)

lemma token_errors [log_errors]:
  "cl_errors (token_check E host mode msg L) = []
   \<longleftrightarrow> cl_errors L = []
     \<and> (is_public_bind (Some host) \<and> mode = LM_real
        \<longrightarrow> configured E ''WEB_DASHBOARD_TOKEN'' \<noteq> [])"
  by (auto simp: token_check_def log_errors)

definition real_money_armed :: "live_env \<Rightarrow> bool" where
  "real_money_armed E \<longleftrightarrow>
     configured E ''POLYMARKET_PRIVATE_KEY'' \<noteq> []
     \<and> configured E REAL_TRADING_ARM_ENV = ''1''
     \<and> configured E REAL_TRADING_CONFIRM_ENV = REAL_TRADING_CONFIRM_VALUE"

lemma real_mode_errors [log_errors]:
  "cl_errors (real_mode_checks E msg L) = [] \<longleftrightarrow> cl_errors L = [] \<and> real_money_armed E"
  by (auto simp: real_mode_checks_def real_money_armed_def log_errors Let_def)

lemma empty_log_errors [log_errors, simp]: "cl_errors empty_log = []"
  by (simp add: empty_log_def)

text \<open>The start-up requirements as one predicate, independent of the order of the checks.\<close>

definition no_odds_ok :: "live_env \<Rightarrow> string \<Rightarrow> bool" where
  "no_odds_ok E model \<longleftrightarrow>
     (case resolve_no_odds_model_name E model of
        Inl _ \<Rightarrow> False | Inr None \<Rightarrow> True | Inr (Some m) \<Rightarrow> artifact_present E m)"

definition ufc_requirements :: "live_env \<Rightarrow> string \<Rightarrow> string \<Rightarrow> live_mode \<Rightarrow> bool" where
  "ufc_requirements E model host mode \<longleftrightarrow>
     configured E ''ODDS_API_KEY'' \<noteq> []
     \<and> artifact_present E model \<and> no_odds_ok E model
     \<and> paths_writable E (map snd (ufc_log_paths E))
     \<and> (mode = LM_real \<longrightarrow>
          real_money_armed E
          \<and> (is_public_bind (Some host) \<longrightarrow> configured E ''WEB_DASHBOARD_TOKEN'' \<noteq> []))"

lemma ufc_checks_errors:
  assumes "ufc_checks E model host mode = Inr L"
  shows "cl_errors L = [] \<longleftrightarrow> ufc_requirements E model host mode"
proof -
  from assms obtain no_odds where
    no_odds: "resolve_no_odds_model_name E model = Inr no_odds"
    by (auto simp: ufc_checks_def Let_def sbind_eq_Inr)
  show ?thesis
    using assms
    by (cases no_odds; cases "mode = LM_real")
       (auto simp: ufc_checks_def no_odds Let_def log_errors ufc_requirements_def no_odds_ok_def)
qed

lemma polymarket_checks_errors:
  "cl_errors (polymarket_checks E host ledgers mode) = []
   \<longleftrightarrow> paths_writable E ledgers
     \<and> (mode = LM_real \<longrightarrow>
          real_money_armed E
          \<and> (is_public_bind (Some host) \<longrightarrow> configured E ''WEB_DASHBOARD_TOKEN'' \<noteq> []))"
proof -
  have "map snd (ledger_labels ledgers) = ledgers"
    by (simp add: ledger_labels_def case_prod_unfold comp_def del: upt_Suc)
  then show ?thesis
    by (auto simp: polymarket_checks_def Let_def log_errors)
qed

section \<open>Properties\<close>

lemma base_status_simps [simp]:
  "ls_effective (base_status E src raw rq eff m h rdy en cs es ws) = eff"
  "ls_requested (base_status E src raw rq eff m h rdy en cs es ws) = rq"
  "ls_ready (base_status E src raw rq eff m h rdy en cs es ws) = rdy"
  "ls_trading_enabled (base_status E src raw rq eff m h rdy en cs es ws) = en"
  "ls_trading_live (base_status E src raw rq eff m h rdy en cs es ws) = (eff = LM_real)"
  "ls_errors (base_status E src raw rq eff m h rdy en cs es ws) = es"
  "ls_warnings (base_status E src raw rq eff m h rdy en cs es ws) = ws"
  "ls_checks (base_status E src raw rq eff m h rdy en cs es ws) = cs"
  by (simp_all add: base_status_def)

lemma conclude_simps [simp]:
  "ls_effective (conclude E src raw mode m h L) = (if cl_errors L = [] then mode else LM_off)"
  "ls_requested (conclude E src raw mode m h L) = mode"
  "ls_ready (conclude E src raw mode m h L) = (cl_errors L = [])"
  "ls_trading_live (conclude E src raw mode m h L) = (cl_errors L = [] \<and> mode = LM_real)"
  "ls_errors (conclude E src raw mode m h L) = cl_errors L"
  "ls_warnings (conclude E src raw mode m h L) = cl_warnings L"
  "ls_checks (conclude E src raw mode m h L) = cl_checks L"
  by (auto simp: conclude_def Let_def)

lemma conclude_enabled [simp]:
  "ls_trading_enabled (conclude E src raw mode m h L) = (cl_errors L = [] \<and> mode \<noteq> LM_off)"
  by (cases mode) (auto simp: conclude_def Let_def)

lemma ufc_checks_Inl:
  "ufc_checks E model host mode = Inl e \<longleftrightarrow> resolve_no_odds_model_name E model = Inl e"
  by (simp add: ufc_checks_def Let_def sbind_eq_Inl)

lemma resolve_no_odds_Inl:
  "resolve_no_odds_model_name E model = Inl e
   \<longleftrightarrow> e = ValueError_empty_name
     \<and> (\<exists>p. explicit_model_path model = Some p \<and> path_name p = [])"
  by (auto simp: resolve_no_odds_model_name_def with_name_def split: option.splits if_splits)

lemma normalize_requested_real:
  "normalize_live_mode (Some (requested_raw E (Some ''real''))) = Some LM_real"
  by (simp add: normalize_live_mode_def requested_raw_def py_eval)

definition token_ok :: "live_env \<Rightarrow> string \<Rightarrow> bool" where
  "token_ok E host \<longleftrightarrow>
     (is_public_bind (Some host) \<longrightarrow> configured E ''WEB_DASHBOARD_TOKEN'' \<noteq> [])"

text \<open>
  C11: A trading mode becomes effective exactly when the kill switch is off, that mode was
  requested, and every start-up requirement for it holds: for the real mode the odds key, both
  model artifacts, the four writable accounting paths, the private key, the arming variable
  equal to 1, the confirmation phrase, and on a public bind the dashboard token.
\<close>

theorem live_mode_effective_iff:
  assumes "evaluate_live_startup E requested host model source = Inr st" and "m \<noteq> LM_off"
  shows "ls_effective st = m
    \<longleftrightarrow> \<not> le_disabled E
      \<and> normalize_live_mode (Some (requested_raw E requested)) = Some m
      \<and> configured E ''ODDS_API_KEY'' \<noteq> []
      \<and> artifact_present E (resolve_live_model_name E model)
      \<and> no_odds_ok E (resolve_live_model_name E model)
      \<and> paths_writable E (map snd (ufc_log_paths E))
      \<and> (m = LM_real \<longrightarrow>
           configured E ''POLYMARKET_PRIVATE_KEY'' \<noteq> []
           \<and> configured E ''LIVE_TRADING_ARMED'' = ''1''
           \<and> configured E ''LIVE_TRADING_CONFIRMATION'' = ''REAL_TRADING_ENABLED''
           \<and> (is_public_bind (Some host) \<longrightarrow> configured E ''WEB_DASHBOARD_TOKEN'' \<noteq> []))"
proof (cases "normalize_live_mode (Some (requested_raw E requested))")
  case None
  with assms show ?thesis by (auto simp: evaluate_live_startup_def Let_def split: if_splits)
next
  case (Some mode)
  show ?thesis
  proof (cases "le_disabled E \<or> mode = LM_off")
    case True
    with assms Some show ?thesis
      by (auto simp: evaluate_live_startup_def Let_def split: if_splits)
  next
    case False
    with assms(1) Some obtain L where
      L: "ufc_checks E (resolve_live_model_name E model) host mode = Inr L"
      and st: "st = conclude E source (requested_raw E requested) mode
                      (resolve_live_model_name E model) host L"
      by (cases mode) (auto simp: evaluate_live_startup_def Let_def sbind_eq_Inr)
    show ?thesis
      using False assms(2) Some ufc_checks_errors [OF L]
      by (auto simp: st ufc_requirements_def real_money_armed_def)
  qed
qed

text \<open>
  Every status report is internally consistent: it is ready exactly when its error list is
  empty, the error list is the list of failed error checks in the order they ran, trading is
  enabled exactly when the effective mode is not off, and the effective mode is either off or
  the requested mode.
\<close>

theorem live_status_consistent:
  assumes "evaluate_live_startup E requested host model source = Inr st"
  shows "(ls_ready st \<longleftrightarrow> ls_errors st = [])
    \<and> ls_errors st = failed Sev_error (ls_checks st)
    \<and> (\<not> le_disabled E \<longrightarrow> ls_warnings st = failed Sev_warning (ls_checks st))
    \<and> (ls_trading_enabled st \<longleftrightarrow> ls_effective st \<noteq> LM_off)
    \<and> (ls_trading_live st \<longleftrightarrow> ls_effective st = LM_real)
    \<and> (ls_effective st = LM_off \<or> ls_effective st = ls_requested st)
    \<and> (le_disabled E \<longrightarrow> ls_effective st = LM_off)"
proof -
  have empty: "failed sev [] = []" for sev by (simp add: failed_def)
  consider
      "\<not> le_disabled E" "normalize_live_mode (Some (requested_raw E requested)) = None"
    | "le_disabled E \<or> normalize_live_mode (Some (requested_raw E requested)) = Some LM_off"
    | mode L where "\<not> le_disabled E" "mode \<noteq> LM_off"
        "ufc_checks E (resolve_live_model_name E model) host mode = Inr L"
        "st = conclude E source (requested_raw E requested) mode
                (resolve_live_model_name E model) host L"
    using assms
    by (cases "normalize_live_mode (Some (requested_raw E requested))";
        cases "the (normalize_live_mode (Some (requested_raw E requested)))")
       (auto simp: evaluate_live_startup_def Let_def sbind_eq_Inr split: if_splits)
  then show ?thesis
  proof cases
    case 1
    with assms show ?thesis
      by (auto simp: evaluate_live_startup_def Let_def record_check_def empty_log_def failed_def)
  next
    case 2
    with assms show ?thesis
      by (auto simp: evaluate_live_startup_def Let_def empty split: if_splits)
  next
    case (3 mode L)
    then have "log_ok L" using log_ok_ufc by blast
    with 3 show ?thesis by (auto simp: log_ok_def)
  qed
qed

text \<open>
  The guard in front of real-money trading lets a caller through exactly when the kill
  switch is off and every requirement of the real mode holds; otherwise it raises.
\<close>

theorem assert_real_trading_allowed_iff:
  "(\<exists>st. assert_real_trading_allowed E model host source = Inr st)
   \<longleftrightarrow> \<not> le_disabled E \<and> ufc_requirements E (resolve_live_model_name E model) host LM_real"
proof (cases "ufc_checks E (resolve_live_model_name E model) host LM_real")
  case (Inl e)
  then have "\<not> no_odds_ok E (resolve_live_model_name E model)"
    by (simp add: ufc_checks_Inl no_odds_ok_def)
  with Inl show ?thesis
    by (auto simp: assert_real_trading_allowed_def evaluate_live_startup_def Let_def
        normalize_requested_real ufc_requirements_def)
next
  case (Inr L)
  then show ?thesis
    using ufc_checks_errors [OF Inr]
    by (auto simp: assert_real_trading_allowed_def evaluate_live_startup_def Let_def
        normalize_requested_real)
qed

text \<open>
  The same guard for the other Polymarket traders needs exactly the arming controls, the
  dashboard token on a public bind, and every given ledger path writable; it needs neither the
  odds key nor a model artifact.
\<close>

theorem assert_polymarket_allowed_iff:
  "(\<exists>st. assert_polymarket_real_trading_allowed E host source ledgers = Inr st)
   \<longleftrightarrow> \<not> le_disabled E \<and> paths_writable E ledgers
     \<and> configured E ''POLYMARKET_PRIVATE_KEY'' \<noteq> []
     \<and> configured E ''LIVE_TRADING_ARMED'' = ''1''
     \<and> configured E ''LIVE_TRADING_CONFIRMATION'' = ''REAL_TRADING_ENABLED''
     \<and> token_ok E host"
  by (auto simp: assert_polymarket_real_trading_allowed_def evaluate_polymarket_live_startup_def
      Let_def normalize_requested_real polymarket_checks_errors
      real_money_armed_def token_ok_def)

section \<open>Witnesses\<close>

text \<open>A fully configured public deployment.\<close>

definition demo_env :: live_env where
  "demo_env =
     \<lparr>le_environ = map_of
        [(''ODDS_API_KEY'', ''k1''), (''POLYMARKET_PRIVATE_KEY'', ''k2''),
         (''LIVE_TRADING_ARMED'', '' 1 ''), (''LIVE_TRADING_CONFIRMATION'', ''REAL_TRADING_ENABLED''),
         (''WEB_DASHBOARD_TOKEN'', ''t'')],
      le_fs = \<lparr>fs_exists = (\<lambda>_. True), fs_is_file = (\<lambda>_. True), fs_is_dir = (\<lambda>_. False),
               fs_writable = (\<lambda>_. True)\<rparr>,
      le_models_dir = path_of ''/app/models'', le_logs_dir = path_of ''/app/logs'',
      le_utcnow = ''2026-10-17T00:00:00+00:00'', le_disabled = False\<rparr>"

lemma demo_model: "resolve_live_model_name demo_env None = ''xgboost''"
  by (simp add: resolve_live_model_name_def demo_env_def py_eval)

lemma demo_artifact: "artifact_present demo_env m"
  by (simp add: artifact_present_def demo_env_def Let_def)

lemma demo_no_odds: "no_odds_ok demo_env ''xgboost''"
  by (simp add: no_odds_ok_def resolve_no_odds_model_name_def explicit_model_path_def demo_artifact
      py_eval)

lemma demo_paths: "paths_writable demo_env ps"
  by (simp add: paths_writable_def file_writable_def demo_env_def)

lemma demo_mode:
  "normalize_live_mode (Some (requested_raw demo_env (Some ''REAL''))) = Some LM_real"
  unfolding requested_raw_def by code_simp

lemma demo_configured:
  "configured demo_env ''ODDS_API_KEY'' \<noteq> []" "configured demo_env ''POLYMARKET_PRIVATE_KEY'' \<noteq> []"
  "configured demo_env ''LIVE_TRADING_ARMED'' = ''1''"
  "configured demo_env ''LIVE_TRADING_CONFIRMATION'' = ''REAL_TRADING_ENABLED''"
  "configured demo_env ''WEB_DASHBOARD_TOKEN'' \<noteq> []"
  by code_simp+

lemma demo_enabled: "\<not> le_disabled demo_env"
  by (simp add: demo_env_def)

lemma demo_evaluates:
  "\<exists>st. evaluate_live_startup demo_env (Some ''REAL'') ''0.0.0.0'' None ''cli'' = Inr st"
proof -
  have "\<exists>L. ufc_checks demo_env ''xgboost'' ''0.0.0.0'' LM_real = Inr L"
    using demo_no_odds
    by (cases "ufc_checks demo_env ''xgboost'' ''0.0.0.0'' LM_real")
       (auto simp: ufc_checks_Inl no_odds_ok_def)
  then show ?thesis
    by (auto simp: evaluate_live_startup_def demo_model demo_mode demo_enabled Let_def)
qed

theorem live_mode_effective_iff_witness:
  "\<exists>st. evaluate_live_startup demo_env (Some ''REAL'') ''0.0.0.0'' None ''cli'' = Inr st
        \<and> ls_effective st = LM_real"
proof -
  obtain st where st: "evaluate_live_startup demo_env (Some ''REAL'') ''0.0.0.0'' None ''cli'' = Inr st"
    using demo_evaluates by blast
  have "ls_effective st = LM_real"
    by (simp add: live_mode_effective_iff [OF st] demo_model demo_artifact demo_no_odds demo_paths
        demo_mode demo_configured demo_enabled)
  with st show ?thesis by blast
qed

theorem live_status_consistent_witness:
  "\<exists>st. evaluate_live_startup demo_env (Some ''REAL'') ''0.0.0.0'' None ''cli'' = Inr st
        \<and> (ls_ready st \<longleftrightarrow> ls_errors st = [])"
proof -
  obtain st where st: "evaluate_live_startup demo_env (Some ''REAL'') ''0.0.0.0'' None ''cli'' = Inr st"
    using demo_evaluates by blast
  show ?thesis using live_status_consistent [OF st] st by blast
qed

end
