(* ===== verification/Betting_Window.thy ===== *)
theory Betting_Window
  imports Prelude
begin

text \<open>
  \<^verbatim>\<open>src/betting_window.py\<close>: the shared timing rule. An instant is an integer number of
  microseconds since the epoch in UTC, a \<open>timedelta\<close> a number of microseconds. The calendar
  text itself is read by \<open>datetime.fromisoformat\<close>, which is the argument \<open>fromiso\<close>: it returns
  an aware instant, a naive one (no offset in the text), or nothing when it raises.
\<close>

type_synonym instant = int

definition hour :: int where
  "hour = 3600000000"

datatype parsed_time = Aware instant | Naive instant

definition parse_event_timestamp ::
  "(string \<Rightarrow> parsed_time option) \<Rightarrow> string option \<Rightarrow> instant option" where
  "parse_event_timestamp fromiso value =
     (let text = py_strip (text_or_empty value)
      in if text = [] then None
         else if CHR ''T'' \<notin> set text \<and> CHR '':'' \<notin> set text then None
         else
           (let text' = (if has_suffix ''Z'' text then butlast text @ ''+00:00'' else text)
            in case fromiso text' of
                 None \<Rightarrow> None
               | Some (Naive t) \<Rightarrow> Some t
               | Some (Aware t) \<Rightarrow> Some t))"

datatype window_state = WS_event_time_unavailable | WS_too_early | WS_too_late | WS_open

datatype window_detail =
    WD_none
  | WD_unavailable
  | WD_opens_at instant int instant
  | WD_starts_at instant int

record window_status =
  bw_open :: bool
  bw_state :: window_state
  bw_reason :: "string option"
  bw_detail :: window_detail
  bw_commence :: "instant option"
  bw_opens_at :: "instant option"
  bw_closes_at :: "instant option"

definition LIVE_TRADE_START_BUFFER :: int where
  "LIVE_TRADE_START_BUFFER = hour"

text \<open>\<open>close_buffer or LIVE_TRADE_START_BUFFER\<close>: a zero buffer is falsy, so it means the default.\<close>

definition effective_close_buffer :: "int option \<Rightarrow> int" where
  "effective_close_buffer b =
     (case b of None \<Rightarrow> LIVE_TRADE_START_BUFFER
      | Some d \<Rightarrow> if d = 0 then LIVE_TRADE_START_BUFFER else d)"

text \<open>\<open>max_hours\<close> is \<open>MAX_BET_HOURS_BEFORE_EVENT\<close>; \<open>now\<close> the caller's time or the clock's.\<close>

definition bet_window_status ::
  "(string \<Rightarrow> parsed_time option) \<Rightarrow> int \<Rightarrow> string option \<Rightarrow> instant \<Rightarrow> int option \<Rightarrow> bool
   \<Rightarrow> window_status option" where
  "bet_window_status fromiso max_hours event_time now close_buffer fail_closed =
     (case parse_event_timestamp fromiso event_time of
        None \<Rightarrow>
          (if fail_closed then
             Some \<lparr>bw_open = False, bw_state = WS_event_time_unavailable,
                   bw_reason = Some ''Event time unavailable'', bw_detail = WD_unavailable,
                   bw_commence = None, bw_opens_at = None, bw_closes_at = None\<rparr>
           else None)
      | Some commence \<Rightarrow>
          (let buffer = effective_close_buffer close_buffer;
               opens_at = commence - max_hours * hour;
               closes_at = commence - buffer
           in if now < opens_at then
                Some \<lparr>bw_open = False, bw_state = WS_too_early,
                      bw_reason = Some ''Bet window not open'',
                      bw_detail = WD_opens_at opens_at max_hours commence,
                      bw_commence = Some commence, bw_opens_at = Some opens_at,
                      bw_closes_at = Some closes_at\<rparr>
              else if closes_at \<le> now then
                Some \<lparr>bw_open = False, bw_state = WS_too_late,
                      bw_reason = Some ''Too close to event'',
                      bw_detail = WD_starts_at commence buffer,
                      bw_commence = Some commence, bw_opens_at = Some opens_at,
                      bw_closes_at = Some closes_at\<rparr>
              else
                Some \<lparr>bw_open = True, bw_state = WS_open, bw_reason = None, bw_detail = WD_none,
                      bw_commence = Some commence, bw_opens_at = Some opens_at,
                      bw_closes_at = Some closes_at\<rparr>))"

lemmas bet_window_defs = bet_window_status_def effective_close_buffer_def LIVE_TRADE_START_BUFFER_def

section \<open>Properties\<close>

text \<open>
  A bet window is reported open exactly when the event time is readable and the current
  time lies in the half-open interval from the maximum lead time before the fight up to, and
  not including, the closing buffer before it; a missing buffer and a zero buffer both mean
  one hour.
\<close>

theorem window_open_iff:
  "(\<exists>st. bet_window_status fromiso max_hours ev now buf fc = Some st \<and> bw_open st)
   \<longleftrightarrow> (\<exists>t. parse_event_timestamp fromiso ev = Some t
         \<and> t - max_hours * hour \<le> now
         \<and> now < t - (if buf = None \<or> buf = Some 0 then hour else the buf))"
  by (auto simp: bet_window_defs Let_def not_less split: option.splits)

text \<open>
  In the fail-closed mode every call returns a status, and an unreadable event time is
  never open; without it the only call that returns nothing is one whose event time is
  unreadable.
\<close>

theorem window_fail_closed:
  "(\<exists>st. bet_window_status fromiso max_hours ev now buf True = Some st
         \<and> (parse_event_timestamp fromiso ev = None
            \<longleftrightarrow> bw_state st = WS_event_time_unavailable)
         \<and> (bw_open st \<longleftrightarrow> bw_state st = WS_open))
   \<and> (bet_window_status fromiso max_hours ev now buf False = None
      \<longleftrightarrow> parse_event_timestamp fromiso ev = None)"
  by (auto simp: bet_window_defs Let_def split: option.splits)

text \<open>
  The window only moves forward: once a fight is too close to start, it stays so at every
  later time.
\<close>

theorem window_never_reopens:
  assumes "bet_window_status fromiso max_hours ev now buf fc = Some st"
    and "bet_window_status fromiso max_hours ev now' buf fc = Some st'"
    and "now \<le> now'" and "0 \<le> max_hours" and "bw_state st = WS_too_late"
  shows "bw_state st' = WS_too_late"
  using assms by (auto simp: bet_window_defs Let_def split: option.splits if_splits)

theorem window_never_reopens_witness:
  "\<exists>st st'. bet_window_status (\<lambda>_. Some (Naive 0)) 48 (Some ''2026-10-17T00:00'') (- hour) None True
              = Some st
     \<and> bet_window_status (\<lambda>_. Some (Naive 0)) 48 (Some ''2026-10-17T00:00'') 5 None True = Some st'
     \<and> bw_state st' = WS_too_late"
proof -
  have p: "parse_event_timestamp (\<lambda>_. Some (Naive 0)) (Some ''2026-10-17T00:00'') = Some 0"
    by code_simp
  obtain st where st: "bet_window_status (\<lambda>_. Some (Naive 0)) 48 (Some ''2026-10-17T00:00'')
      (- hour) None True = Some st" and late: "bw_state st = WS_too_late"
    by (simp add: bet_window_status_def p effective_close_buffer_def LIVE_TRADE_START_BUFFER_def
        hour_def)
  obtain st' where st': "bet_window_status (\<lambda>_. Some (Naive 0)) 48 (Some ''2026-10-17T00:00'')
      5 None True = Some st'"
    by (simp add: bet_window_defs p hour_def)
  have "bw_state st' = WS_too_late"
    by (rule window_never_reopens [OF st st' _ _ late]) (simp_all add: hour_def)
  with st st' show ?thesis by blast
qed

end
