(* ===== verification/Binary64.thy ===== *)
theory Binary64
  imports Complex_Main "HOL-Library.Log_Nat" Prelude
begin

text \<open>
  Python's \<open>float\<close> (IEEE 754 binary64) as the trading code uses it. A finite value is the
  rational number it denotes; an operation is the exact operation followed by \<open>rnd\<close>,
  rounding to nearest, ties to even, with 53 significant bits and the subnormal range
  below \<open>2 powi (-1022)\<close>; a result of magnitude \<open>2 ^ 1024\<close> or more overflows to an infinity.
  The sign of zero is not represented: Python raises on division by either zero, so no
  modelled operation can tell the two apart. \<open>round(x, n)\<close> is Python's correctly rounded
  decimal rounding. The theory proves what the components use: rounding is monotone, keeps
  signs, is exact on representable numbers, and is off by at most half a unit.
\<close>

section \<open>Rounding\<close>

definition pow2 :: "int \<Rightarrow> rat" where
  "pow2 k = (if 0 \<le> k then 2 ^ nat k else 1 / 2 ^ nat (- k))"

lemma pow2_powi: "pow2 k = 2 powi k"
  by (simp add: pow2_def power_int_def field_simps)

lemma pow2_pos [simp]: "0 < pow2 k"
  by (simp add: pow2_def)

lemma pow2_nonneg [simp]: "0 \<le> pow2 k"
  by (simp add: pow2_def)

lemma pow2_neq_0 [simp]: "pow2 k \<noteq> 0"
  using pow2_pos [of k] by linarith

lemma pow2_add: "pow2 (a + b) = pow2 a * pow2 b"
  by (simp add: pow2_powi power_int_add)

lemma pow2_diff: "pow2 (a - b) = pow2 a / pow2 b"
  by (simp add: pow2_powi power_int_diff)

lemma pow2_mono: "a \<le> b \<Longrightarrow> pow2 a \<le> pow2 b"
  by (simp add: pow2_powi power_int_increasing)

lemma pow2_less: "a < b \<Longrightarrow> pow2 a < pow2 b"
  by (simp add: pow2_powi power_int_strict_increasing)

lemma pow2_less_imp: "pow2 a < pow2 b \<Longrightarrow> a < b"
  using pow2_mono [of b a] by (meson not_le)

lemma pow2_0 [simp]: "pow2 0 = 1"
  by (simp add: pow2_def)

lemma pow2_int: "0 \<le> k \<Longrightarrow> pow2 k = of_int (2 ^ nat k)"
  by (simp add: pow2_def)

text \<open>Nearest integer, ties to the even one.\<close>

definition rne :: "rat \<Rightarrow> int" where
  "rne x =
     (let f = \<lfloor>x\<rfloor>; d = x - of_int f
      in if d < 1 / 2 then f
         else if 1 / 2 < d then f + 1
         else if even f then f else f + 1)"

lemma rne_of_int [simp]: "rne (of_int k) = k"
  by (simp add: rne_def)

lemma rne_cases: "rne x = \<lfloor>x\<rfloor> \<or> rne x = \<lfloor>x\<rfloor> + 1"
  by (auto simp: rne_def Let_def)

lemma rne_error: "\<bar>of_int (rne x) - x\<bar> \<le> 1 / 2"
proof -
  have "of_int \<lfloor>x\<rfloor> \<le> x" "x < of_int \<lfloor>x\<rfloor> + 1"
    by linarith+
  then show ?thesis
    by (auto simp: rne_def Let_def)
qed

lemma rne_mono: "x \<le> y \<Longrightarrow> rne x \<le> rne y"
proof -
  assume le: "x \<le> y"
  then have "\<lfloor>x\<rfloor> \<le> \<lfloor>y\<rfloor>" by (rule floor_mono)
  then consider "\<lfloor>x\<rfloor> = \<lfloor>y\<rfloor>" | "\<lfloor>x\<rfloor> + 1 \<le> \<lfloor>y\<rfloor>" by linarith
  then show ?thesis
  proof cases
    case 1
    then show ?thesis using le by (auto simp: rne_def Let_def)
  next
    case 2
    then show ?thesis using rne_cases [of x] rne_cases [of y] by linarith
  qed
qed

lemma rne_minus: "rne (- x) = - rne x"
proof (cases "x = of_int \<lfloor>x\<rfloor>")
  case True
  then show ?thesis by (metis of_int_minus rne_of_int)
next
  case False
  have "of_int \<lfloor>x\<rfloor> \<le> x" "x < of_int \<lfloor>x\<rfloor> + 1" by linarith+
  then have "of_int \<lfloor>x\<rfloor> < x" "x < of_int \<lfloor>x\<rfloor> + 1"
    using False by (metis order_le_less)+
  then have "\<lfloor>- x\<rfloor> = - \<lfloor>x\<rfloor> - 1"
    by (intro floor_unique) auto
  then show ?thesis
    by (auto simp: rne_def Let_def)
qed

text \<open>The binary exponent of a positive rational: the \<open>k\<close> with \<open>2 ^ k \<le> x < 2 ^ (k + 1)\<close>.\<close>

definition ilog2 :: "rat \<Rightarrow> int" where
  "ilog2 x =
     (let (n, d) = quotient_of x; k = bitlen n - bitlen d
      in if pow2 k \<le> x then k else k - 1)"

lemma bitlen_pow2_bounds:
  assumes "0 < n"
  shows "pow2 (bitlen n - 1) \<le> of_int n" and "of_int n < pow2 (bitlen n)"
proof -
  have pos: "1 \<le> bitlen n"
    using assms bitlen_nonneg [of n] bitlen_eq_zero_iff [of n] by linarith
  have "2 ^ nat (bitlen n - 1) \<le> n" "n < 2 ^ nat (bitlen n)"
    using bitlen_bounds [OF assms] by auto
  then have "of_int (2 ^ nat (bitlen n - 1)) \<le> (of_int n :: rat)"
    and "(of_int n :: rat) < of_int (2 ^ nat (bitlen n))"
    by (simp_all only: of_int_le_iff of_int_less_iff)
  then show "pow2 (bitlen n - 1) \<le> of_int n" and "of_int n < pow2 (bitlen n)"
    using pos by (simp_all add: pow2_int)
qed

lemma ilog2_bounds:
  assumes "0 < x"
  shows "pow2 (ilog2 x) \<le> x" and "x < pow2 (ilog2 x + 1)"
proof -
  obtain n d where q: "quotient_of x = (n, d)" by (cases "quotient_of x")
  then have x: "x = of_int n / of_int d" and d: "0 < d"
    using quotient_of_div quotient_of_denom_pos by blast+
  with assms have n: "0 < n" by (simp add: zero_less_divide_iff)
  define k where "k = bitlen n - bitlen d"
  have dr: "(0::rat) < of_int d" using d by simp
  have up: "x < pow2 (k + 1)"
  proof -
    have "of_int n < pow2 (bitlen n)" by (rule bitlen_pow2_bounds [OF n])
    also have "\<dots> = pow2 (k + 1) * pow2 (bitlen d - 1)"
      by (simp add: k_def flip: pow2_add)
    also have "\<dots> \<le> pow2 (k + 1) * of_int d"
      using bitlen_pow2_bounds(1) [OF d] by (simp add: mult_left_mono)
    finally show ?thesis using dr by (simp add: x pos_divide_less_eq)
  qed
  have low: "pow2 (k - 1) < x"
  proof -
    have "pow2 (k - 1) * of_int d < pow2 (k - 1) * pow2 (bitlen d)"
      using bitlen_pow2_bounds(2) [OF d] by simp
    also have "\<dots> = pow2 (bitlen n - 1)" by (simp add: k_def flip: pow2_add)
    also have "\<dots> \<le> of_int n" by (rule bitlen_pow2_bounds [OF n])
    finally show ?thesis using dr by (simp add: x pos_less_divide_eq)
  qed
  have il: "ilog2 x = (if pow2 k \<le> x then k else k - 1)"
    by (simp add: ilog2_def q k_def)
  show "pow2 (ilog2 x) \<le> x" using low by (simp add: il)
  show "x < pow2 (ilog2 x + 1)" using up by (simp add: il)
qed

lemma ilog2_unique:
  assumes "pow2 k \<le> x" and "x < pow2 (k + 1)"
  shows "ilog2 x = k"
proof -
  have pos: "0 < x" using assms(1) pow2_pos [of k] by linarith
  have "pow2 k < pow2 (ilog2 x + 1)" "pow2 (ilog2 x) < pow2 (k + 1)"
    using assms ilog2_bounds [OF pos] by linarith+
  then show ?thesis using pow2_less_imp by (meson add1_zle_eq less_add_one zle_add1_eq_le order_antisym)
qed

lemma ilog2_mono: "0 < x \<Longrightarrow> x \<le> y \<Longrightarrow> ilog2 x \<le> ilog2 y"
proof -
  assume x: "0 < x" and le: "x \<le> y"
  then have "pow2 (ilog2 x) < pow2 (ilog2 y + 1)"
    using ilog2_bounds(1) [of x] ilog2_bounds(2) [of y] by linarith
  then show ?thesis using pow2_less_imp by fastforce
qed

text \<open>The unit in the last place of a value of magnitude \<open>x\<close>, then rounding itself.\<close>

definition ulp_exp :: "rat \<Rightarrow> int" where
  "ulp_exp x = max (ilog2 \<bar>x\<bar>) (-1022) - 52"

definition rnd :: "rat \<Rightarrow> rat" where
  "rnd x = (if x = 0 then 0
            else let e = ulp_exp x in of_int (rne (x / pow2 e)) * pow2 e)"

lemma rnd_0 [simp]: "rnd 0 = 0"
  by (simp add: rnd_def)

lemma rnd_minus [simp]: "rnd (- x) = - rnd x"
  by (simp add: rnd_def ulp_exp_def Let_def rne_minus flip: minus_divide_left)

lemma rnd_error: "x \<noteq> 0 \<Longrightarrow> \<bar>rnd x - x\<bar> \<le> pow2 (ulp_exp x) / 2"
proof -
  assume "x \<noteq> 0"
  define e where "e = ulp_exp x"
  have "\<bar>rnd x - x\<bar> = \<bar>of_int (rne (x / pow2 e)) - x / pow2 e\<bar> * pow2 e"
    using \<open>x \<noteq> 0\<close> abs_mult_pos [of "pow2 e" "of_int (rne (x / pow2 e)) - x / pow2 e"]
    by (simp add: rnd_def e_def Let_def left_diff_distrib)
  also have "\<dots> \<le> 1 / 2 * pow2 e"
    by (intro mult_right_mono rne_error) simp
  finally show ?thesis by (simp add: e_def)
qed

lemma rnd_nonneg: "0 \<le> x \<Longrightarrow> 0 \<le> rnd x"
  using rne_mono [of 0 "x / pow2 (ulp_exp x)"] rne_of_int [of 0]
  by (simp add: rnd_def Let_def)

lemma ulp_exp_minus [simp]: "ulp_exp (- x) = ulp_exp x"
  by (simp add: ulp_exp_def)

lemma ulp_exp_ge: "-1074 \<le> ulp_exp x"
  by (simp add: ulp_exp_def)

lemma scaled_upper:
  assumes "0 < x"
  shows "x / pow2 (ulp_exp x) \<le> of_int (2 ^ 53)"
proof -
  have "x < pow2 (ilog2 x + 1)" by (rule ilog2_bounds(2) [OF assms])
  also have "\<dots> \<le> pow2 (53 + ulp_exp x)"
    using assms by (intro pow2_mono) (simp add: ulp_exp_def)
  also have "\<dots> = of_int (2 ^ 53) * pow2 (ulp_exp x)"
    by (subst pow2_add) (simp add: pow2_int)
  finally show ?thesis by (simp add: pos_divide_le_eq less_imp_le)
qed

lemma rnd_mono_pos:
  assumes "0 < x" and "x \<le> y"
  shows "rnd x \<le> rnd y"
proof -
  define e where "e = ulp_exp x"
  define d where "d = ulp_exp y"
  have rx: "rnd x = of_int (rne (x / pow2 e)) * pow2 e"
    and ry: "rnd y = of_int (rne (y / pow2 d)) * pow2 d"
    using assms by (simp_all add: rnd_def e_def d_def Let_def)
  have le: "ilog2 x \<le> ilog2 y" by (rule ilog2_mono [OF assms])
  show ?thesis
  proof (cases "e = d")
    case True
    have "rne (x / pow2 e) \<le> rne (y / pow2 e)"
      using assms by (intro rne_mono divide_right_mono) auto
    then show ?thesis
      unfolding rx ry True by (intro mult_right_mono) auto
  next
    case False
    then have d: "d = ilog2 y - 52" and lt: "e + 53 \<le> ilog2 y"
      using assms le unfolding e_def d_def ulp_exp_def by auto
    have "rne (x / pow2 e) \<le> 2 ^ 53"
      using rne_mono [OF scaled_upper [OF assms(1)]] by (simp only: e_def rne_of_int)
    then have "rnd x \<le> of_int (2 ^ 53) * pow2 e"
      unfolding rx by (intro mult_right_mono) (simp_all only: of_int_le_iff pow2_nonneg)
    also have "\<dots> = pow2 (53 + e)"
      by (subst pow2_add) (simp add: pow2_int)
    also have "\<dots> \<le> pow2 (52 + d)"
      using lt d by (intro pow2_mono) simp
    also have "\<dots> = of_int (2 ^ 52) * pow2 d"
      by (subst pow2_add) (simp add: pow2_int)
    also have "\<dots> \<le> rnd y"
    proof -
      have "of_int (2 ^ 52) * pow2 d = pow2 (52 + d)"
        by (subst pow2_add) (simp add: pow2_int)
      also have "\<dots> \<le> y"
        using ilog2_bounds(1) [of y] assms by (simp add: d)
      finally have "of_int (2 ^ 52) \<le> y / pow2 d"
        by (simp add: pos_le_divide_eq)
      then have "2 ^ 52 \<le> rne (y / pow2 d)"
        using rne_mono [of "of_int (2 ^ 52)"] by (metis rne_of_int)
      then show ?thesis
        unfolding ry by (intro mult_right_mono) (simp_all only: of_int_le_iff pow2_nonneg)
    qed
    finally show ?thesis .
  qed
qed

theorem rnd_mono: "x \<le> y \<Longrightarrow> rnd x \<le> rnd y"
proof -
  assume le: "x \<le> y"
  consider "0 < x" | "x \<le> 0" "0 \<le> y" | "y < 0" by linarith
  then show ?thesis
  proof cases
    case 1
    then show ?thesis using le by (rule rnd_mono_pos)
  next
    case 2
    then have "0 \<le> rnd (- x)" "0 \<le> rnd y" by (simp_all add: rnd_nonneg del: rnd_minus)
    then show ?thesis by simp
  next
    case 3
    then have "rnd (- y) \<le> rnd (- x)" using le by (intro rnd_mono_pos) auto
    then show ?thesis by simp
  qed
qed

text \<open>Numbers with at most 53 significant bits (and no bit below \<open>2 powi (-1074)\<close>) are kept.\<close>

lemma rnd_exact_pos:
  assumes x: "x = of_int m * pow2 k" and m: "m \<le> 2 ^ 53" and k: "-1074 \<le> k" and pos: "0 < x"
  shows "rnd x = x"
proof -
  define e where "e = ulp_exp x"
  have key: "rnd x = x" if "x / pow2 e = of_int j" for j
  proof -
    have "rnd x = of_int (rne (x / pow2 e)) * pow2 e"
      using pos by (simp add: rnd_def e_def Let_def)
    also have "\<dots> = x"
      unfolding that rne_of_int by (simp add: field_simps flip: that)
    finally show ?thesis .
  qed
  show ?thesis
  proof (cases "e \<le> k")
    case True
    have "x / pow2 e = of_int m * pow2 (k - e)"
      by (simp add: x pow2_diff)
    also have "\<dots> = of_int (m * 2 ^ nat (k - e))"
      using True by (simp add: pow2_int)
    finally show ?thesis by (rule key)
  next
    case False
    then have e: "e = ilog2 x - 52"
      using pos k unfolding e_def ulp_exp_def by auto
    have "x \<le> of_int (2 ^ 53) * pow2 k"
      unfolding x using m by (intro mult_right_mono) (simp_all only: of_int_le_iff pow2_nonneg)
    also have "\<dots> = pow2 (53 + k)"
      by (subst pow2_add) (simp add: pow2_int)
    finally have up: "x \<le> pow2 (53 + k)" .
    have low: "pow2 (52 + e) \<le> x"
      using ilog2_bounds(1) [OF pos] by (simp add: e)
    have "\<not> 53 + k < 52 + e"
      using up low pow2_less [of "53 + k" "52 + e"] by linarith
    with False have "52 + e = 53 + k" by linarith
    with up low have "x = pow2 (52 + e)" by simp
    then have "x / pow2 e = of_int (2 ^ 52)"
      by (simp add: pow2_add pow2_int)
    then show ?thesis by (rule key)
  qed
qed

theorem rnd_exact:
  assumes x: "x = of_int m * pow2 k" and m: "\<bar>m\<bar> \<le> 2 ^ 53" and k: "-1074 \<le> k"
  shows "rnd x = x"
proof -
  consider "0 < x" | "x = 0" | "0 < - x" by linarith
  then show ?thesis
  proof cases
    case 1
    then show ?thesis using x m k by (intro rnd_exact_pos [of x m k]) auto
  next
    case 2
    then show ?thesis by simp
  next
    case 3
    have "rnd (- x) = - x"
      using 3 x m k by (intro rnd_exact_pos [of "- x" "- m" k]) auto
    then show ?thesis by simp
  qed
qed

lemma rnd_of_int: "\<bar>m\<bar> \<le> 2 ^ 53 \<Longrightarrow> rnd (of_int m) = of_int m"
  by (rule rnd_exact [of _ m 0]) auto

lemma rnd_1 [simp]: "rnd 1 = 1"
  using rnd_of_int [of 1] by simp

lemma rnd_idem_pos: "0 < x \<Longrightarrow> rnd (rnd x) = rnd x"
proof -
  assume pos: "0 < x"
  define m where "m = rne (x / pow2 (ulp_exp x))"
  have "m \<le> 2 ^ 53"
    using rne_mono [OF scaled_upper [OF pos]] by (simp only: m_def rne_of_int)
  moreover have "0 \<le> m"
    using rne_mono [of 0 "x / pow2 (ulp_exp x)"] rne_of_int [of 0] pos by (simp add: m_def)
  ultimately show ?thesis
    using pos ulp_exp_ge [of x]
    by (intro rnd_exact [of _ m "ulp_exp x"]) (simp_all add: rnd_def m_def Let_def)
qed

theorem rnd_idem [simp]: "rnd (rnd x) = rnd x"
proof -
  consider "0 < x" | "x = 0" | "0 < - x" by linarith
  then show ?thesis
  proof cases
    case 3
    then have "rnd (rnd (- x)) = rnd (- x)" by (rule rnd_idem_pos)
    then show ?thesis by simp
  qed (simp_all add: rnd_idem_pos)
qed

lemma rnd_le: "x \<le> y \<Longrightarrow> rnd y = y \<Longrightarrow> rnd x \<le> y"
  using rnd_mono [of x y] by simp

lemma rnd_ge: "x \<le> y \<Longrightarrow> rnd x = x \<Longrightarrow> x \<le> rnd y"
  using rnd_mono [of x y] by simp

lemma rnd_nonpos: "x \<le> 0 \<Longrightarrow> rnd x \<le> 0"
  using rnd_mono [of x 0] by simp

lemma rnd_le_1: "x \<le> 1 \<Longrightarrow> rnd x \<le> 1"
  using rnd_mono [of x 1] by simp

text \<open>Away from the subnormal range the relative error is at most \<open>2 powi (-53)\<close>.\<close>

theorem rnd_rel_error:
  assumes "pow2 (-1022) \<le> \<bar>x\<bar>"
  shows "\<bar>rnd x - x\<bar> \<le> \<bar>x\<bar> * pow2 (-53)"
proof -
  have pos: "0 < \<bar>x\<bar>"
    using assms pow2_pos [of "-1022"] by linarith
  then have nz: "x \<noteq> 0" by simp
  have "pow2 (-1022) < pow2 (ilog2 \<bar>x\<bar> + 1)"
    using assms ilog2_bounds(2) [OF pos] by linarith
  then have "-1022 \<le> ilog2 \<bar>x\<bar>" using pow2_less_imp by fastforce
  then have e: "ulp_exp x = ilog2 \<bar>x\<bar> - 52" by (simp add: ulp_exp_def)
  have "\<bar>rnd x - x\<bar> \<le> pow2 (ulp_exp x) / 2" by (rule rnd_error [OF nz])
  also have "\<dots> = pow2 (ilog2 \<bar>x\<bar>) * (pow2 (-52) / 2)"
    using pow2_add [of "ilog2 \<bar>x\<bar>" "-52"] by (simp add: e)
  also have "\<dots> = pow2 (ilog2 \<bar>x\<bar>) * pow2 (-53)"
    by (simp add: pow2_def)
  also have "\<dots> \<le> \<bar>x\<bar> * pow2 (-53)"
    using ilog2_bounds(1) [OF pos] by (intro mult_right_mono) auto
  finally show ?thesis .
qed

text \<open>Below two to the 20 the error is at most two to the minus 33.\<close>

lemma rnd_abs_error:
  assumes "\<bar>x\<bar> \<le> 2 ^ 20"
  shows "rnd x \<le> x + 1 / 2 ^ 33"
proof (cases "pow2 (-1022) \<le> \<bar>x\<bar>")
  case True
  have "\<bar>x\<bar> * pow2 (-53) \<le> 2 ^ 20 * pow2 (-53)"
    using assms by (rule mult_right_mono) simp
  also have "\<dots> = 1 / 2 ^ 33" by (simp add: pow2_def)
  finally show ?thesis using rnd_rel_error [OF True] by linarith
next
  case False
  have small: "pow2 (-1022) \<le> pow2 (-34)" by (rule pow2_mono) simp
  have "rnd x \<le> pow2 (-1022)"
    using False by (intro rnd_le rnd_exact [of _ 1 "-1022"]) auto
  moreover have "- pow2 (-1022) \<le> x" using False by linarith
  moreover have "pow2 (-34) = 1 / 2 ^ 34" by (simp add: pow2_def)
  ultimately show ?thesis using small by simp
qed

section \<open>The float type\<close>

datatype pyfloat = Fin rat | PInf | NInf | NaN

text \<open>Round an exact result; overflow goes to the infinity of its sign.\<close>

definition to_float :: "rat \<Rightarrow> pyfloat" where
  "to_float x =
     (let r = rnd x
      in if pow2 1024 \<le> r then PInf else if r \<le> - pow2 1024 then NInf else Fin r)"

definition is_fin :: "pyfloat \<Rightarrow> bool" where
  "is_fin x = (case x of Fin _ \<Rightarrow> True | _ \<Rightarrow> False)"

text \<open>\<open>math.isfinite\<close> is \<^const>\<open>is_fin\<close>. The arithmetic of Python's \<open>float\<close>:\<close>

fun fneg :: "pyfloat \<Rightarrow> pyfloat" where
  "fneg (Fin a) = Fin (- a)"
| "fneg PInf = NInf"
| "fneg NInf = PInf"
| "fneg NaN = NaN"

fun fadd :: "pyfloat \<Rightarrow> pyfloat \<Rightarrow> pyfloat" where
  "fadd (Fin a) (Fin b) = to_float (a + b)"
| "fadd NaN y = NaN"
| "fadd x NaN = NaN"
| "fadd PInf NInf = NaN"
| "fadd NInf PInf = NaN"
| "fadd PInf y = PInf"
| "fadd NInf y = NInf"
| "fadd x y = y"

definition fsub :: "pyfloat \<Rightarrow> pyfloat \<Rightarrow> pyfloat" where
  "fsub x y = fadd x (fneg y)"

definition signed_inf :: "bool \<Rightarrow> pyfloat" where
  "signed_inf neg = (if neg then NInf else PInf)"

fun fmul :: "pyfloat \<Rightarrow> pyfloat \<Rightarrow> pyfloat" where
  "fmul (Fin a) (Fin b) = to_float (a * b)"
| "fmul NaN y = NaN"
| "fmul x NaN = NaN"
| "fmul (Fin a) y = (if a = 0 then NaN else signed_inf ((a < 0) \<noteq> (y = NInf)))"
| "fmul x (Fin b) = (if b = 0 then NaN else signed_inf ((b < 0) \<noteq> (x = NInf)))"
| "fmul x y = signed_inf (x \<noteq> y)"

text \<open>Division; \<open>None\<close> is \<open>ZeroDivisionError\<close>, which Python raises for every dividend.\<close>

fun fdiv :: "pyfloat \<Rightarrow> pyfloat \<Rightarrow> pyfloat option" where
  "fdiv (Fin a) (Fin b) = (if b = 0 then None else Some (to_float (a / b)))"
| "fdiv x (Fin b) = (if b = 0 then None
                     else Some (case x of NaN \<Rightarrow> NaN | _ \<Rightarrow> signed_inf ((b < 0) \<noteq> (x = NInf))))"
| "fdiv NaN y = Some NaN"
| "fdiv x NaN = Some NaN"
| "fdiv (Fin a) y = Some (Fin 0)"
| "fdiv x y = Some NaN"

fun fabs :: "pyfloat \<Rightarrow> pyfloat" where
  "fabs (Fin a) = Fin \<bar>a\<bar>"
| "fabs NaN = NaN"
| "fabs x = PInf"

text \<open>Comparisons: every one with a NaN is false.\<close>

fun flt :: "pyfloat \<Rightarrow> pyfloat \<Rightarrow> bool" where
  "flt (Fin a) (Fin b) = (a < b)"
| "flt NaN y = False"
| "flt x NaN = False"
| "flt NInf y = (y \<noteq> NInf)"
| "flt x PInf = (x \<noteq> PInf)"
| "flt x y = False"

definition feq :: "pyfloat \<Rightarrow> pyfloat \<Rightarrow> bool" where
  "feq x y \<longleftrightarrow> x = y \<and> x \<noteq> NaN"

definition fle :: "pyfloat \<Rightarrow> pyfloat \<Rightarrow> bool" where
  "fle x y \<longleftrightarrow> flt x y \<or> feq x y"

text \<open>\<open>max(a, b)\<close> and \<open>min(a, b)\<close> keep the first argument unless the second is strictly better.\<close>

definition py_max :: "pyfloat \<Rightarrow> pyfloat \<Rightarrow> pyfloat" where
  "py_max a b = (if flt a b then b else a)"

definition py_min :: "pyfloat \<Rightarrow> pyfloat \<Rightarrow> pyfloat" where
  "py_min a b = (if flt b a then b else a)"

text \<open>\<open>round(x, n)\<close> for a finite \<open>x\<close>: the nearest \<open>n\<close>-digit decimal of the exact value, then
  the nearest float to that decimal.\<close>

definition dec_round :: "nat \<Rightarrow> rat \<Rightarrow> rat" where
  "dec_round n x = of_int (rne (x * 10 ^ n)) / 10 ^ n"

fun fround :: "pyfloat \<Rightarrow> nat \<Rightarrow> pyfloat" where
  "fround (Fin a) n = to_float (dec_round n a)"
| "fround x n = x"

text \<open>A decimal literal or parsed decimal string.\<close>

abbreviation lit :: "rat \<Rightarrow> pyfloat" where
  "lit x \<equiv> Fin (rnd x)"

text \<open>A value the hardware can hold.\<close>

fun fvalid :: "pyfloat \<Rightarrow> bool" where
  "fvalid (Fin a) = (rnd a = a \<and> \<bar>a\<bar> < pow2 1024)"
| "fvalid x = True"

lemma is_fin_simps [simp]:
  "is_fin (Fin a)" "\<not> is_fin PInf" "\<not> is_fin NInf" "\<not> is_fin NaN"
  by (simp_all add: is_fin_def)

lemma is_fin_iff: "is_fin x \<longleftrightarrow> (\<exists>a. x = Fin a)"
  by (cases x) auto

lemma to_float_bounded:
  assumes "\<bar>x\<bar> \<le> pow2 1023"
  shows "to_float x = Fin (rnd x)"
proof -
  have p: "rnd (pow2 1023) = pow2 1023"
    by (rule rnd_exact [of _ 1 1023]) auto
  have "rnd x \<le> pow2 1023" "- pow2 1023 \<le> rnd x"
    using assms rnd_le [OF _ p, of x] rnd_le [OF _ p, of "- x"] unfolding rnd_minus by linarith+
  moreover have "pow2 1023 < pow2 1024" by (rule pow2_less) simp
  ultimately show ?thesis by (simp add: to_float_def Let_def)
qed

lemma le_pow2_1023: "x \<le> 2 ^ 1023 \<Longrightarrow> x \<le> pow2 1023"
  by (simp add: pow2_def)

lemma to_float_small: "\<bar>x\<bar> \<le> 2 ^ 60 \<Longrightarrow> to_float x = Fin (rnd x)"
proof (rule to_float_bounded)
  assume "\<bar>x\<bar> \<le> 2 ^ 60"
  also have "\<dots> = pow2 60" by (simp add: pow2_def)
  also have "\<dots> \<le> pow2 1023" by (rule pow2_mono) simp
  finally show "\<bar>x\<bar> \<le> pow2 1023" .
qed

text \<open>For evaluation: the overflow test is needed for large magnitudes only.\<close>

lemma to_float_code [code]:
  "to_float x =
     (if \<bar>x\<bar> \<le> 1152921504606846976 then Fin (rnd x)
      else let r = rnd x
           in if pow2 1024 \<le> r then PInf else if r \<le> - pow2 1024 then NInf else Fin r)"
  using to_float_small [of x] by (simp add: to_float_def)

lemma to_float_0 [simp]: "to_float 0 = Fin 0"
  using to_float_small [of 0] by simp

lemma fvalid_to_float: "fvalid (to_float x)"
  by (auto simp: to_float_def Let_def)

lemma flt_Fin_irrefl [simp]: "\<not> flt x x"
  by (cases x) auto

lemma fle_Fin [simp]: "fle (Fin a) (Fin b) \<longleftrightarrow> a \<le> b"
  by (auto simp: fle_def feq_def)

lemma fle_inf [simp]:
  "fle NInf x \<longleftrightarrow> x \<noteq> NaN" "fle x PInf \<longleftrightarrow> x \<noteq> NaN" "\<not> fle (Fin a) NInf" "\<not> fle PInf (Fin a)"
  "\<not> fle PInf NInf"
  by (cases x; simp add: fle_def feq_def)+

lemma fle_NaN [simp]: "\<not> fle NaN x" "\<not> fle x NaN"
  by (cases x; simp add: fle_def feq_def)+

lemma not_flt_iff: "x \<noteq> NaN \<Longrightarrow> y \<noteq> NaN \<Longrightarrow> \<not> flt x y \<longleftrightarrow> fle y x"
  by (cases x; cases y) (auto simp: fle_def feq_def)

lemma flt_trans: "flt x y \<Longrightarrow> flt y z \<Longrightarrow> flt x z"
  by (cases x; cases y; cases z) auto

text \<open>Rounding an exact result is monotone at the level of floats, overflow included.\<close>

lemma to_float_not_NaN [simp]: "to_float x \<noteq> NaN"
  by (simp add: to_float_def Let_def)

lemma pow2_1024_gt: "- pow2 1024 < pow2 1024"
  using pow2_pos [of 1024] by linarith

theorem to_float_mono: "x \<le> y \<Longrightarrow> fle (to_float x) (to_float y)"
proof -
  assume "x \<le> y"
  then have "rnd x \<le> rnd y" by (rule rnd_mono)
  then show ?thesis
    using pow2_1024_gt by (auto simp: to_float_def Let_def fle_def feq_def)
qed

section \<open>Bounds on results\<close>

text \<open>\<open>ranged l h x\<close>: the value is finite and lies between two numbers that are floats
  themselves; results of the operations stay ranged the bounds of the exact results.\<close>

definition ranged :: "rat \<Rightarrow> rat \<Rightarrow> pyfloat \<Rightarrow> bool" where
  "ranged l h x \<longleftrightarrow> (case x of Fin a \<Rightarrow> l \<le> a \<and> a \<le> h | _ \<Rightarrow> False)"

lemma rangedI [intro]: "l \<le> a \<Longrightarrow> a \<le> h \<Longrightarrow> ranged l h (Fin a)"
  by (simp add: ranged_def)

lemma ranged_Fin [simp]: "ranged l h (Fin a) \<longleftrightarrow> l \<le> a \<and> a \<le> h"
  by (simp add: ranged_def)

lemma rangedE:
  assumes "ranged l h x"
  obtains a where "x = Fin a" "l \<le> a" "a \<le> h"
  using assms by (auto simp: ranged_def split: pyfloat.splits)

lemma ranged_mono: "ranged l h x \<Longrightarrow> l' \<le> l \<Longrightarrow> h \<le> h' \<Longrightarrow> ranged l' h' x"
  by (auto simp: ranged_def split: pyfloat.splits)

lemma ranged_fin: "ranged l h x \<Longrightarrow> is_fin x \<and> x \<noteq> NaN"
  by (auto simp: ranged_def split: pyfloat.splits)

definition bound_ok :: "rat \<Rightarrow> bool" where
  "bound_ok b \<longleftrightarrow> rnd b = b \<and> \<bar>b\<bar> \<le> 2 ^ 60"

lemma bound_ok_int [simp]: "\<bar>m\<bar> \<le> 2 ^ 53 \<Longrightarrow> bound_ok (of_int m)"
proof -
  assume m: "\<bar>m\<bar> \<le> 2 ^ 53"
  then have "\<bar>of_int m\<bar> \<le> (of_int (2 ^ 53) :: rat)" by (simp only: of_int_abs [symmetric] of_int_le_iff)
  then show ?thesis using rnd_of_int [OF m] by (simp add: bound_ok_def)
qed

lemma bound_ok_numerals [simp]:
  "bound_ok 0" "bound_ok 1" "bound_ok 2" "bound_ok 3" "bound_ok 4" "bound_ok (- 1)" "bound_ok (- 2)"
  "bound_ok (- 3)" "bound_ok (- 4)" "bound_ok (- 8)" "bound_ok 8" "bound_ok 100"
  using bound_ok_int [of 0] bound_ok_int [of 1] bound_ok_int [of 2] bound_ok_int [of 3]
    bound_ok_int [of 4] bound_ok_int [of "- 1"] bound_ok_int [of "- 2"] bound_ok_int [of "- 3"]
    bound_ok_int [of "- 4"] bound_ok_int [of "- 8"] bound_ok_int [of 8] bound_ok_int [of 100]
  by simp_all

lemma to_float_ranged:
  assumes "l \<le> x" "x \<le> h" "bound_ok l" "bound_ok h"
  shows "ranged l h (to_float x)"
proof -
  have "\<bar>x\<bar> \<le> 2 ^ 60" using assms by (auto simp: bound_ok_def)
  then have "to_float x = Fin (rnd x)" by (rule to_float_small)
  moreover have "l \<le> rnd x" "rnd x \<le> h"
    using assms rnd_ge rnd_le by (auto simp: bound_ok_def)
  ultimately show ?thesis by simp
qed

lemma fadd_ranged:
  assumes "ranged l h x" "ranged l' h' y" "bound_ok (l + l')" "bound_ok (h + h')"
  shows "ranged (l + l') (h + h') (fadd x y)"
  using assms by (auto elim!: rangedE intro!: to_float_ranged)

lemma fsub_ranged:
  assumes "ranged l h x" "ranged l' h' y" "bound_ok (l - h')" "bound_ok (h - l')"
  shows "ranged (l - h') (h - l') (fsub x y)"
  using assms unfolding fsub_def by (auto elim!: rangedE intro!: to_float_ranged)

lemma fmul_ranged_nonneg:
  assumes "ranged 0 h x" "ranged 0 h' y" "bound_ok (h * h')"
  shows "ranged 0 (h * h') (fmul x y)"
  using assms by (auto elim!: rangedE intro!: to_float_ranged mult_mono)

lemma fmul_ranged_abs:
  assumes "ranged (- h) h x" "ranged (- h') h' y" "bound_ok (h * h')" "bound_ok (- (h * h'))"
  shows "ranged (- (h * h')) (h * h') (fmul x y)"
proof -
  obtain a b where ab: "x = Fin a" "y = Fin b" "\<bar>a\<bar> \<le> h" "\<bar>b\<bar> \<le> h'"
    using assms(1,2) by (auto elim!: rangedE simp: abs_le_iff)
  then have "\<bar>a\<bar> * \<bar>b\<bar> \<le> h * h'" by (intro mult_mono) auto
  then have "\<bar>a * b\<bar> \<le> h * h'" by (simp add: abs_mult)
  then show ?thesis using ab assms(3,4) by (auto intro!: to_float_ranged simp: abs_le_iff)
qed

lemma fmul_nonneg_const: "ranged 0 h c \<Longrightarrow> 0 \<le> b \<Longrightarrow> fle (Fin 0) (fmul c (Fin b))"
  using to_float_mono [of 0] by (auto elim!: rangedE)

text \<open>Values that are not below zero, infinity included.\<close>

lemma fle_trans: "fle x y \<Longrightarrow> fle y z \<Longrightarrow> fle x z"
  by (cases x; cases y; cases z) (auto simp: fle_def feq_def)

lemma fle_not_NaN: "fle x y \<Longrightarrow> x \<noteq> NaN \<and> y \<noteq> NaN"
  by (cases x; cases y) (auto simp: fle_def feq_def)

lemma flt_imp_fle: "flt x y \<Longrightarrow> fle x y"
  by (simp add: fle_def)

lemma to_float_nonneg: "0 \<le> x \<Longrightarrow> fle (Fin 0) (to_float x)"
  using to_float_mono [of 0 x] by simp

lemma fadd_nonneg: "fle (Fin 0) x \<Longrightarrow> fle (Fin 0) y \<Longrightarrow> fle (Fin 0) (fadd x y)"
  by (cases x; cases y)
    (auto simp: to_float_nonneg fle_def [of "Fin 0" PInf] fle_def [of "Fin 0" NInf] feq_def)

lemma fmul_Fin_mono:
  assumes "0 \<le> a" "fle x y" "fle (Fin 0) x" "y \<noteq> PInf"
  shows "fle (fmul (Fin a) x) (fmul (Fin a) y)"
proof -
  have "fle (Fin 0) y" using fle_trans assms(2,3) by blast
  then obtain b where y: "y = Fin b" using assms(4) by (cases y) (auto simp: fle_def feq_def)
  obtain c where x: "x = Fin c" using assms(2,3) y by (cases x) (auto simp: fle_def feq_def)
  show ?thesis using assms by (simp add: x y to_float_mono mult_left_mono)
qed

lemma dec_round_mono: "x \<le> y \<Longrightarrow> dec_round n x \<le> dec_round n y"
  unfolding dec_round_def
  by (intro divide_right_mono of_int_le_iff [THEN iffD2] rne_mono mult_right_mono) simp_all

lemma dec_round_int [simp]: "dec_round n (of_int k) = of_int k"
proof -
  have "rne (of_int k * 10 ^ n :: rat) = k * 10 ^ n"
    using rne_of_int [of "k * 10 ^ n"] by simp
  then show ?thesis by (simp add: dec_round_def)
qed

lemma fround_mono: "fle x y \<Longrightarrow> fle (fround x n) (fround y n)"
proof (cases x; cases y)
  fix a b
  assume "fle x y" "x = Fin a" "y = Fin b"
  then show ?thesis by (simp add: to_float_mono dec_round_mono)
next
  fix a
  assume "x = Fin a" "y = PInf"
  then show ?thesis by (cases "to_float (dec_round n a)") (auto simp: fle_def feq_def)
next
  fix b
  assume "x = NInf" "y = Fin b"
  then show ?thesis by (cases "to_float (dec_round n b)") (auto simp: fle_def feq_def)
qed (auto simp: fle_def feq_def)

lemma fround_one [simp]: "fround (Fin 1) n = Fin 1"
proof -
  have "to_float 1 = Fin 1" by (simp add: to_float_small)
  then show ?thesis using dec_round_int [of n 1] by simp
qed

section \<open>Sums\<close>

text \<open>\<open>sum(...)\<close> of floats in CPython 3.12: Neumaier's compensated summation.\<close>

definition sum_step :: "pyfloat \<times> pyfloat \<Rightarrow> pyfloat \<Rightarrow> pyfloat \<times> pyfloat" where
  "sum_step acc x =
     (let (r, c) = acc; t = fadd r x
      in (t, fadd c (if fle (fabs x) (fabs r) then fadd (fsub r t) x else fadd (fsub x t) r)))"

definition py_sum :: "pyfloat list \<Rightarrow> pyfloat" where
  "py_sum xs =
     (let (r, c) = foldl sum_step (Fin 0, Fin 0) xs
      in if c \<noteq> Fin 0 \<and> is_fin c then fadd r c else r)"

end
