(* ===== verification/Json.thy ===== *)
theory Json
  imports Binary64
begin

text \<open>
  The dynamically typed values the code receives from JSON files and API responses. A
  dictionary is an association list in insertion order; \<open>d.get(k)\<close> is \<open>jget\<close>, \<open>{**a, **b}\<close> and
  \<open>a.update(b)\<close> are \<open>jupdate\<close>. Equality is Python's: numbers of different types compare by
  value and dictionaries without regard to order, so it is a function of its own, \<open>py_eq\<close>.
\<close>

datatype json =
    JNull
  | JBool bool
  | JInt int
  | JFloat pyfloat
  | JStr string
  | JList "json list"
  | JObj "(string \<times> json) list"

type_synonym dict = "(string \<times> json) list"

definition jget :: "dict \<Rightarrow> string \<Rightarrow> json" where
  "jget d k = (case map_of d k of None \<Rightarrow> JNull | Some v \<Rightarrow> v)"

definition has_key :: "dict \<Rightarrow> string \<Rightarrow> bool" where
  "has_key d k \<longleftrightarrow> map_of d k \<noteq> None"

fun jset :: "string \<Rightarrow> json \<Rightarrow> dict \<Rightarrow> dict" where
  "jset k v [] = [(k, v)]"
| "jset k v ((k', v') # d) = (if k = k' then (k, v) # d else (k', v') # jset k v d)"

definition jupdate :: "dict \<Rightarrow> dict \<Rightarrow> dict" where
  "jupdate d fields = fold (\<lambda>(k, v). jset k v) fields d"

definition jdel :: "string \<Rightarrow> dict \<Rightarrow> dict" where
  "jdel k d = filter (\<lambda>(k', _). k' \<noteq> k) d"

text \<open>\<open>bool(value)\<close>\<close>

fun truthy :: "json \<Rightarrow> bool" where
  "truthy JNull = False"
| "truthy (JBool b) = b"
| "truthy (JInt i) = (i \<noteq> 0)"
| "truthy (JFloat x) = (x \<noteq> Fin 0)"
| "truthy (JStr s) = (s \<noteq> [])"
| "truthy (JList xs) = (xs \<noteq> [])"
| "truthy (JObj d) = (d \<noteq> [])"

text \<open>\<open>a == b\<close>\<close>

fun num_val :: "json \<Rightarrow> pyfloat option" where
  "num_val (JBool b) = Some (Fin (if b then 1 else 0))"
| "num_val (JInt i) = Some (Fin (of_int i))"
| "num_val (JFloat x) = Some x"
| "num_val _ = None"

definition num_eq :: "json \<Rightarrow> json \<Rightarrow> bool" where
  "num_eq a b \<longleftrightarrow> (case (num_val a, num_val b) of (Some x, Some y) \<Rightarrow> feq x y | _ \<Rightarrow> False)"

fun py_eq :: "json \<Rightarrow> json \<Rightarrow> bool"
  and py_eq_list :: "json list \<Rightarrow> json list \<Rightarrow> bool"
  and py_eq_items :: "dict \<Rightarrow> dict \<Rightarrow> bool" where
  "py_eq JNull b = (b = JNull)"
| "py_eq (JStr s) b = (case b of JStr t \<Rightarrow> s = t | _ \<Rightarrow> False)"
| "py_eq (JList xs) b = (case b of JList ys \<Rightarrow> py_eq_list xs ys | _ \<Rightarrow> False)"
| "py_eq (JObj d) b = (case b of JObj e \<Rightarrow> length d = length e \<and> py_eq_items d e | _ \<Rightarrow> False)"
| "py_eq (JBool v) b = num_eq (JBool v) b"
| "py_eq (JInt v) b = num_eq (JInt v) b"
| "py_eq (JFloat v) b = num_eq (JFloat v) b"
| "py_eq_list [] ys = (ys = [])"
| "py_eq_list (x # xs) ys = (case ys of [] \<Rightarrow> False | y # ys' \<Rightarrow> py_eq x y \<and> py_eq_list xs ys')"
| "py_eq_items [] e = True"
| "py_eq_items ((k, v) # d) e =
     ((case map_of e k of None \<Rightarrow> False | Some w \<Rightarrow> py_eq v w) \<and> py_eq_items d e)"

text \<open>Dictionaries as the code builds them: no key twice, at any depth, and no NaN inside.\<close>

fun jwf :: "json \<Rightarrow> bool" and jwf_list :: "json list \<Rightarrow> bool" and jwf_items :: "dict \<Rightarrow> bool" where
  "jwf (JList xs) = jwf_list xs"
| "jwf (JObj d) = (distinct (map fst d) \<and> jwf_items d)"
| "jwf (JFloat x) = (x \<noteq> NaN)"
| "jwf _ = True"
| "jwf_list [] = True"
| "jwf_list (x # xs) = (jwf x \<and> jwf_list xs)"
| "jwf_items [] = True"
| "jwf_items ((k, v) # d) = (jwf v \<and> jwf_items d)"

fun is_obj :: "json \<Rightarrow> bool" where
  "is_obj (JObj _) = True"
| "is_obj _ = False"

fun is_str :: "json \<Rightarrow> bool" where
  "is_str (JStr _) = True"
| "is_str _ = False"

fun is_list :: "json \<Rightarrow> bool" where
  "is_list (JList _) = True"
| "is_list _ = False"

fun obj_of :: "json \<Rightarrow> dict" where
  "obj_of (JObj d) = d"
| "obj_of _ = []"

fun list_of :: "json \<Rightarrow> json list" where
  "list_of (JList xs) = xs"
| "list_of _ = []"

fun str_of :: "json \<Rightarrow> string" where
  "str_of (JStr s) = s"
| "str_of _ = []"

section \<open>Lookup laws\<close>

lemma map_of_jset: "map_of (jset k v d) = (map_of d)(k \<mapsto> v)"
  by (induction d) (auto simp: fun_eq_iff)

lemma jupdate_simps [simp]:
  "jupdate d [] = d" "jupdate d ((k, v) # fields) = jupdate (jset k v d) fields"
  by (simp_all add: jupdate_def)

lemma map_of_jupdate:
  "distinct (map fst fields) \<Longrightarrow>
   map_of (jupdate d fields) k = (case map_of fields k of None \<Rightarrow> map_of d k | Some v \<Rightarrow> Some v)"
proof (induction fields arbitrary: d)
  case Nil
  then show ?case by simp
next
  case (Cons f fields)
  obtain a b where f: "f = (a, b)" by (cases f)
  then have "map_of fields a = None"
    using Cons.prems by (simp add: map_of_eq_None_iff image_iff)
  with Cons show ?case
    by (auto simp: f map_of_jset split: option.splits)
qed

lemma jget_jset [simp]: "jget (jset k v d) k' = (if k = k' then v else jget d k')"
  by (simp add: jget_def map_of_jset)

lemma jget_jupdate:
  "distinct (map fst fields) \<Longrightarrow>
   jget (jupdate d fields) k = (if k \<in> set (map fst fields) then jget fields k else jget d k)"
proof -
  assume "distinct (map fst fields)"
  from map_of_jupdate [OF this, of d k] show ?thesis
    using map_of_eq_None_iff [of fields k] by (auto simp: jget_def split: option.splits)
qed

lemma has_key_jset [simp]: "has_key (jset k v d) k' \<longleftrightarrow> k = k' \<or> has_key d k'"
  by (simp add: has_key_def map_of_jset)

lemma jget_Nil [simp]: "jget [] k = JNull"
  by (simp add: jget_def)

lemma jget_Cons: "jget ((k', v) # d) k = (if k = k' then v else jget d k)"
  by (simp add: jget_def)

lemma keys_jset [simp]: "fst ` set (jset k v d) = insert k (fst ` set d)"
  by (induction k v d rule: jset.induct) (simp_all add: insert_commute)

lemma distinct_jset: "distinct (map fst d) \<Longrightarrow> distinct (map fst (jset k v d))"
proof (induction d)
  case Nil
  then show ?case by simp
next
  case (Cons x d)
  obtain a b where x: "x = (a, b)" by (cases x)
  show ?case
  proof (cases "k = a")
    case True
    then show ?thesis using Cons.prems by (simp add: x)
  next
    case False
    have "a \<notin> fst ` set (jset k v d)"
      using False Cons.prems by (simp add: x)
    then show ?thesis using False Cons by (simp add: x)
  qed
qed

lemma map_of_jdel: "map_of (jdel k d) k' = (if k' = k then None else map_of d k')"
  by (induction d) (auto simp: jdel_def)

lemma jget_jdel: "jget (jdel k d) k' = (if k' = k then JNull else jget d k')"
  by (simp add: jget_def map_of_jdel)

lemma py_eq_JStr [simp]: "py_eq v (JStr s) \<longleftrightarrow> v = JStr s"
  by (cases v) (auto simp: num_eq_def split: option.splits)

lemma feq_refl: "feq x x \<longleftrightarrow> x \<noteq> NaN"
  by (cases x) (simp_all add: feq_def)

text \<open>A well-formed value equals itself.\<close>

lemma py_eq_refl_aux:
  "jwf v \<Longrightarrow> py_eq v v" "jwf_list xs \<Longrightarrow> py_eq_list xs xs"
  "jwf_items d \<Longrightarrow> (\<forall>(k, v) \<in> set d. map_of e k = Some v) \<Longrightarrow> py_eq_items d e"
proof (induction v and xs and d arbitrary: and and e rule: jwf_jwf_list_jwf_items.induct)
qed (auto simp: num_eq_def feq_refl)

lemma py_eq_refl: "jwf v \<Longrightarrow> py_eq v v"
  by (rule py_eq_refl_aux(1))

end
