(* ===== verification/Decimal.thy ===== *)
theory Decimal
  imports "HOL-Library.Multiset" Json
begin

text \<open>
  Python's \<open>decimal.Decimal\<close> as the cash-cost accounting uses it: non-negative finite values,
  a coefficient and a power of ten, with the arithmetic of the default context (28 significant
  digits, ties to even), the text form that \<open>str\<close> prints and the parser of the constructor.
  The exponent limits of the context (beyond \<open>10 ^ 999999\<close>) are not represented. The theory
  proves that parsing the printed text gives the value back, digit for digit.
\<close>

datatype dec = Dec (d_coeff: nat) (d_exp: int)

definition pow10 :: "int \<Rightarrow> rat" where
  "pow10 k = (if 0 \<le> k then 10 ^ nat k else 1 / 10 ^ nat (- k))"

definition dec_val :: "dec \<Rightarrow> rat" where
  "dec_val d = of_nat (d_coeff d) * pow10 (d_exp d)"

lemma pow10_pos [simp]: "0 < pow10 k"
  by (simp add: pow10_def)

lemma pow10_nonneg [simp]: "0 \<le> pow10 k"
  by (simp add: pow10_def)

lemma pow10_powi: "pow10 k = 10 powi k"
  by (simp add: pow10_def power_int_def field_simps)

lemma pow10_add: "pow10 (a + b) = pow10 a * pow10 b"
  by (simp add: pow10_powi power_int_add)

lemma pow10_nat: "pow10 (int k) = 10 ^ k"
  by (simp add: pow10_def)

lemma pow10_0 [simp]: "pow10 0 = 1"
  by (simp add: pow10_def)

lemma dec_val_nonneg [simp]: "0 \<le> dec_val d"
  by (simp add: dec_val_def)

lemma dec_val_pos_iff: "0 < dec_val d \<longleftrightarrow> 0 < d_coeff d"
  using pow10_pos [of "d_exp d"] by (simp add: dec_val_def zero_less_mult_iff)

section \<open>Context arithmetic\<close>

definition num_digits :: "nat \<Rightarrow> nat" where
  "num_digits n = length (nat_digits n)"

text \<open>\<open>n / 10 ^ k\<close> to the nearest integer, ties to even.\<close>

definition div10_even :: "nat \<Rightarrow> nat \<Rightarrow> nat" where
  "div10_even n k =
     (let q = n div 10 ^ k; r = n mod 10 ^ k; half = 10 ^ k
      in if 2 * r < half then q else if half < 2 * r then q + 1
         else if even q then q else q + 1)"

definition dec_fix :: "dec \<Rightarrow> dec" where
  "dec_fix d =
     (let k = num_digits (d_coeff d) - 28
      in if k = 0 then d
         else (let q = div10_even (d_coeff d) k; e = d_exp d + int k
               in if num_digits q \<le> 28 then Dec q e else Dec (q div 10) (e + 1)))"

definition align :: "dec \<Rightarrow> int \<Rightarrow> nat" where
  "align d m = d_coeff d * 10 ^ nat (d_exp d - m)"

definition dec_add :: "dec \<Rightarrow> dec \<Rightarrow> dec" where
  "dec_add a b =
     (let m = min (d_exp a) (d_exp b) in dec_fix (Dec (align a m + align b m) m))"

text \<open>The magnitude of \<open>a - b\<close>; the code subtracts only to compare the distance with a bound,
  and to form a charge that it knows is not negative.\<close>

definition dec_dist :: "dec \<Rightarrow> dec \<Rightarrow> dec" where
  "dec_dist a b =
     (let m = min (d_exp a) (d_exp b); x = align a m; y = align b m
      in dec_fix (Dec (max x y - min x y) m))"

definition dec_mul :: "dec \<Rightarrow> dec \<Rightarrow> dec" where
  "dec_mul a b = dec_fix (Dec (d_coeff a * d_coeff b) (d_exp a + d_exp b))"

definition dec_zero :: dec where
  "dec_zero = Dec 0 0"

definition dec_sum :: "dec list \<Rightarrow> dec" where
  "dec_sum ds = foldl dec_add dec_zero ds"

text \<open>Comparison is of exact values.\<close>

definition dec_eq :: "dec \<Rightarrow> dec \<Rightarrow> bool" where
  "dec_eq a b \<longleftrightarrow> dec_val a = dec_val b"

definition dec_lt :: "dec \<Rightarrow> dec \<Rightarrow> bool" where
  "dec_lt a b \<longleftrightarrow> dec_val a < dec_val b"

lemma align_val:
  assumes "m \<le> d_exp d"
  shows "of_nat (align d m) * pow10 m = dec_val d"
proof -
  have "pow10 (d_exp d) = pow10 (int (nat (d_exp d - m)) + m)"
    using assms by simp
  also have "\<dots> = 10 ^ nat (d_exp d - m) * pow10 m"
    by (simp only: pow10_add pow10_nat)
  finally show ?thesis by (simp add: align_def dec_val_def)
qed

lemma dec_fix_small: "num_digits (d_coeff d) \<le> 28 \<Longrightarrow> dec_fix d = d"
  by (simp add: dec_fix_def)

text \<open>Rounding errs by at most half a unit of the last kept digit, so a sum is exact whenever
  its coefficient fits in 28 digits.\<close>

lemma dec_add_exact:
  assumes "num_digits (align a (min (d_exp a) (d_exp b)) + align b (min (d_exp a) (d_exp b))) \<le> 28"
  shows "dec_val (dec_add a b) = dec_val a + dec_val b"
proof -
  let ?m = "min (d_exp a) (d_exp b)"
  have "dec_val (dec_add a b) = of_nat (align a ?m + align b ?m) * pow10 ?m"
    using assms by (simp add: dec_add_def Let_def dec_fix_small) (simp add: dec_val_def)
  also have "\<dots> = dec_val a + dec_val b"
    using align_val [of ?m a] align_val [of ?m b] by (simp add: distrib_right)
  finally show ?thesis .
qed

section \<open>Exact sums\<close>

text \<open>A sum without the rounding of the context. Sums of amounts with at most \<open>k\<close> decimals
  whose total stays below \<open>10 ^ (28 - k)\<close> are not rounded, so their order does not matter.\<close>

definition raw_add :: "dec \<Rightarrow> dec \<Rightarrow> dec" where
  "raw_add a b = (let m = min (d_exp a) (d_exp b) in Dec (align a m + align b m) m)"

lemma dec_add_raw: "dec_add a b = dec_fix (raw_add a b)"
  by (simp add: dec_add_def raw_add_def Let_def)

lemma align_raw_add:
  assumes "m \<le> d_exp a" "m \<le> d_exp b"
  shows "align (raw_add a b) m = align a m + align b m"
proof -
  let ?e = "min (d_exp a) (d_exp b)"
  have "\<And>d. ?e \<le> d_exp d \<Longrightarrow> align d ?e * 10 ^ nat (?e - m) = align d m"
    using assms by (simp add: align_def power_add [symmetric] nat_add_distrib [symmetric])
  then show ?thesis
    by (simp add: raw_add_def align_def [of "Dec x y" for x y] Let_def distrib_right)
qed

lemma d_exp_raw_add [simp]: "d_exp (raw_add a b) = min (d_exp a) (d_exp b)"
  by (simp add: raw_add_def Let_def)

lemma dec_val_raw_add [simp]: "dec_val (raw_add a b) = dec_val a + dec_val b"
  using align_val [of "min (d_exp a) (d_exp b)" a] align_val [of "min (d_exp a) (d_exp b)" b]
  by (simp add: raw_add_def Let_def dec_val_def [of "Dec x y" for x y] distrib_right)

lemma raw_add_commute: "raw_add a b = raw_add b a"
  by (simp add: raw_add_def Let_def min.commute add.commute)

lemma dec_eqI: "align a m = align b m \<Longrightarrow> d_exp a = m \<Longrightarrow> d_exp b = m \<Longrightarrow> a = b"
  by (cases a; cases b) (simp add: align_def)

lemma raw_add_assoc: "raw_add (raw_add a b) c = raw_add a (raw_add b c)"
proof (rule dec_eqI)
  let ?m = "min (d_exp a) (min (d_exp b) (d_exp c))"
  have le: "?m \<le> d_exp a" "?m \<le> d_exp b" "?m \<le> d_exp c" by linarith+
  then have "?m \<le> d_exp (raw_add a b)" "?m \<le> d_exp (raw_add b c)"
    unfolding d_exp_raw_add by linarith+
  with le show "align (raw_add (raw_add a b) c) ?m = align (raw_add a (raw_add b c)) ?m"
    by (simp only: align_raw_add add.assoc)
qed (simp_all add: min.assoc)

definition raw_sum :: "dec list \<Rightarrow> dec" where
  "raw_sum ds = foldl raw_add dec_zero ds"

lemma raw_sum_perm:
  assumes "mset xs = mset ys"
  shows "raw_sum xs = raw_sum ys"
proof -
  have "fold (\<lambda>d acc. raw_add acc d) xs = fold (\<lambda>d acc. raw_add acc d) ys"
  proof (rule fold_multiset_equiv [OF _ assms])
    show "(\<lambda>acc. raw_add acc x) \<circ> (\<lambda>acc. raw_add acc y)
        = (\<lambda>acc. raw_add acc y) \<circ> (\<lambda>acc. raw_add acc x)" for x y
      by (simp add: fun_eq_iff raw_add_assoc raw_add_commute [of x y])
  qed
  then show ?thesis by (simp add: raw_sum_def foldl_conv_fold)
qed

lemma num_digits_le: "n < 10 ^ k \<Longrightarrow> 0 < k \<Longrightarrow> num_digits n \<le> k"
proof (induction n arbitrary: k rule: nat_digits.induct)
  case (1 n)
  show ?case
  proof (cases "n < 10")
    case True
    then show ?thesis using 1 by (simp add: num_digits_def nat_digits.simps [of n])
  next
    case False
    then obtain j where k: "k = Suc j" "0 < j"
      using 1 by (cases k; cases "k - 1") auto
    then have "n div 10 < 10 ^ j" using 1 by auto
    then have "num_digits (n div 10) \<le> j" using 1 False k by blast
    then show ?thesis using False k by (simp add: num_digits_def nat_digits.simps [of n])
  qed
qed

lemma dec_fix_exact:
  assumes "- int k \<le> d_exp d" "dec_val d * 10 ^ k < 10 ^ 28"
  shows "dec_fix d = d"
proof -
  have "of_nat (d_coeff d) = dec_val d * pow10 (- d_exp d)"
    by (simp add: dec_val_def pow10_powi field_simps power_int_minus)
  also have "\<dots> \<le> dec_val d * pow10 (int k)"
    using assms(1) unfolding pow10_powi
    by (intro mult_left_mono power_int_increasing) simp_all
  also have "\<dots> < 10 ^ 28" using assms(2) by (simp add: pow10_nat)
  finally have "(of_nat (d_coeff d) :: rat) < of_nat (10 ^ 28)" by simp
  then have "d_coeff d < 10 ^ 28" unfolding of_nat_less_iff .
  then show ?thesis using num_digits_le [of "d_coeff d" 28] by (intro dec_fix_small) simp
qed

lemma foldl_dec_add_exact:
  assumes "- int k \<le> d_exp acc" "list_all (\<lambda>d. - int k \<le> d_exp d) ds"
    and "(dec_val acc + sum_list (map dec_val ds)) * 10 ^ k < 10 ^ 28"
  shows "foldl dec_add acc ds = foldl raw_add acc ds
    \<and> dec_val (foldl dec_add acc ds) = dec_val acc + sum_list (map dec_val ds)"
  using assms
proof (induction ds arbitrary: acc)
  case Nil
  then show ?case by simp
next
  case (Cons d ds)
  have "0 \<le> sum_list (map dec_val ds)" by (rule sum_list_nonneg) auto
  then have "(dec_val acc + dec_val d) * 10 ^ k
      \<le> (dec_val acc + sum_list (map dec_val (d # ds))) * 10 ^ k"
    by (intro mult_right_mono) simp_all
  from le_less_trans [OF this Cons.prems(3)]
  have "(dec_val acc + dec_val d) * 10 ^ k < 10 ^ 28" .
  then have "dec_add acc d = raw_add acc d"
    using Cons.prems by (simp add: dec_add_raw dec_fix_exact [of k])
  then show ?case
    using Cons.IH [of "raw_add acc d"] Cons.prems by (auto simp: algebra_simps)
qed

definition exact_decs :: "nat \<Rightarrow> dec list \<Rightarrow> bool" where
  "exact_decs k ds \<longleftrightarrow>
     list_all (\<lambda>d. - int k \<le> d_exp d) ds \<and> sum_list (map dec_val ds) * 10 ^ k < 10 ^ 28"

lemma dec_zero_simps [simp]: "dec_val dec_zero = 0" "d_exp dec_zero = 0" "d_coeff dec_zero = 0"
  by (simp_all add: dec_zero_def dec_val_def)

lemma dec_sum_exact:
  assumes "exact_decs k ds"
  shows "dec_sum ds = raw_sum ds" "dec_val (dec_sum ds) = sum_list (map dec_val ds)"
  using foldl_dec_add_exact [of k dec_zero ds] assms
  unfolding exact_decs_def dec_sum_def raw_sum_def by auto

lemma exact_decs_perm:
  assumes "mset xs = mset ys"
  shows "exact_decs k xs \<longleftrightarrow> exact_decs k ys"
proof -
  have "sum_list (map dec_val xs) = sum_list (map dec_val ys)"
    by (simp add: assms flip: sum_mset_sum_list)
  then show ?thesis
    using mset_eq_setD [OF assms] by (simp add: exact_decs_def list_all_iff)
qed

lemma dec_sum_perm:
  assumes "exact_decs k xs" "mset xs = mset ys"
  shows "dec_sum xs = dec_sum ys"
  using assms exact_decs_perm [OF assms(2), of k] raw_sum_perm [OF assms(2)]
  by (simp add: dec_sum_exact(1) [of k])

lemma d_exp_dec_sum:
  assumes "exact_decs k ds"
  shows "- int k \<le> d_exp (dec_sum ds)"
proof -
  have "- int k \<le> d_exp (foldl raw_add acc ds)" if "- int k \<le> d_exp acc" for acc
    using that assms[unfolded exact_decs_def, THEN conjunct1]
    by (induction ds arbitrary: acc) auto
  from this [of dec_zero] show ?thesis
    using assms by (simp add: dec_sum_exact(1) [of k] raw_sum_def)
qed

lemma dec_dist_exact:
  assumes "dec_val b \<le> dec_val a" "dec_val a * 10 ^ k < 10 ^ 28"
    and "- int k \<le> d_exp a" "- int k \<le> d_exp b"
  shows "dec_val (dec_dist a b) = dec_val a - dec_val b \<and> - int k \<le> d_exp (dec_dist a b)"
proof -
  let ?m = "min (d_exp a) (d_exp b)"
  have ab: "of_nat (align a ?m) * pow10 ?m = dec_val a" "of_nat (align b ?m) * pow10 ?m = dec_val b"
    by (simp_all add: align_val)
  with assms(1) have "of_nat (align b ?m) * pow10 ?m \<le> of_nat (align a ?m) * pow10 ?m" by simp
  then have le: "align b ?m \<le> align a ?m" by (simp add: mult_le_cancel_right)
  let ?d = "Dec (align a ?m - align b ?m) ?m"
  have val: "dec_val ?d = dec_val a - dec_val b"
    using le ab by (simp add: dec_val_def [of ?d] of_nat_diff left_diff_distrib)
  have "dec_val ?d * 10 ^ k \<le> dec_val a * 10 ^ k"
    unfolding val by (intro mult_right_mono) simp_all
  from le_less_trans [OF this assms(2)] have "dec_fix ?d = ?d"
    using assms by (intro dec_fix_exact [of k]) simp_all
  moreover have "dec_dist a b = dec_fix ?d"
    using le by (simp add: dec_dist_def Let_def)
  ultimately show ?thesis using val assms by simp
qed

lemma dec_fix_pos: "0 < d_coeff d \<Longrightarrow> 0 < d_coeff (dec_fix d)"
proof -
  assume pos: "0 < d_coeff d"
  define k where "k = num_digits (d_coeff d) - 28"
  show ?thesis
  proof (cases "k = 0")
    case True
    then show ?thesis using pos by (simp add: dec_fix_def k_def)
  next
    case False
    then have "10 ^ (27 + k) \<le> d_coeff d"
      using num_digits_le [of "d_coeff d" "27 + k"] by (force simp: k_def)
    then have "10 ^ 27 \<le> d_coeff d div 10 ^ k"
      by (simp add: less_eq_div_iff_mult_less_eq power_add)
    then have "10 ^ 27 \<le> div10_even (d_coeff d) k"
      by (auto simp: div10_even_def Let_def)
    then show ?thesis using False
      by (auto simp: dec_fix_def Let_def k_def [symmetric] div_greater_zero_iff)
  qed
qed

lemma dec_mul_pos: "0 < dec_val a \<Longrightarrow> 0 < dec_val b \<Longrightarrow> 0 < dec_val (dec_mul a b)"
  unfolding dec_val_pos_iff dec_mul_def by (rule dec_fix_pos) simp

section \<open>Printing\<close>

definition zeros :: "nat \<Rightarrow> string" where
  "zeros k = replicate k (CHR ''0'')"

definition signed_digits :: "int \<Rightarrow> string" where
  "signed_digits e = (if e < 0 then ''-'' else ''+'') @ nat_digits (nat \<bar>e\<bar>)"

definition dec_str :: "dec \<Rightarrow> string" where
  "dec_str d =
     (let digits = nat_digits (d_coeff d); n = int (length digits);
          leftdigits = d_exp d + n;
          dotplace = (if d_exp d \<le> 0 \<and> -6 < leftdigits then leftdigits else 1);
          body = (if dotplace \<le> 0 then ''0.'' @ zeros (nat (- dotplace)) @ digits
                  else if n \<le> dotplace then digits @ zeros (nat (dotplace - n))
                  else take (nat dotplace) digits @ ''.'' @ drop (nat dotplace) digits)
      in body @ (if leftdigits = dotplace then []
                 else ''E'' @ signed_digits (leftdigits - dotplace)))"

section \<open>Parsing\<close>

text \<open>\<open>Decimal(text)\<close>: the sign and the value of a finite literal; nothing for the special
  values and for text that is no literal.\<close>

definition parse_exp :: "string \<Rightarrow> int option" where
  "parse_exp s =
     (case s of
        [] \<Rightarrow> Some 0
      | c # cs \<Rightarrow>
          if c = CHR ''e'' \<or> c = CHR ''E'' then
            (let neg = (has_prefix ''-'' cs);
                 ds = (if has_prefix ''-'' cs \<or> has_prefix ''+'' cs then tl cs else cs)
             in if ds \<noteq> [] \<and> list_all is_digit ds
                then Some (if neg then - int (nat_of_digits ds) else int (nat_of_digits ds))
                else None)
          else None)"

definition parse_unsigned :: "string \<Rightarrow> dec option" where
  "parse_unsigned s =
     (let ip = takeWhile is_digit s; r = dropWhile is_digit s;
          dot = has_prefix ''.'' r;
          fp = (if dot then takeWhile is_digit (tl r) else []);
          r' = (if dot then dropWhile is_digit (tl r) else r)
      in if ip = [] \<and> fp = [] then None
         else case parse_exp r' of
                None \<Rightarrow> None
              | Some e \<Rightarrow> Some (Dec (nat_of_digits (ip @ fp)) (e - int (length fp))))"

definition parse_signed :: "string \<Rightarrow> (bool \<times> dec) option" where
  "parse_signed s =
     map_option (Pair (has_prefix ''-'' s))
       (parse_unsigned (if has_prefix ''-'' s \<or> has_prefix ''+'' s then tl s else s))"

definition dec_parse :: "string \<Rightarrow> (bool \<times> dec) option" where
  "dec_parse s = parse_signed (filter (\<lambda>c. c \<noteq> CHR ''_'') (py_strip s))"

lemma takeWhile_digits:
  "list_all is_digit ds \<Longrightarrow> (rest = [] \<or> \<not> is_digit (hd rest)) \<Longrightarrow>
   takeWhile is_digit (ds @ rest) = ds \<and> dropWhile is_digit (ds @ rest) = rest"
  by (induction ds) (cases rest; auto)+

lemma digits_take_drop [simp]:
  "list_all is_digit ds \<Longrightarrow> list_all is_digit (take k ds) \<and> list_all is_digit (drop k ds)"
  by (auto simp: list_all_iff dest: in_set_takeD in_set_dropD)

lemma digit_not_special:
  "is_digit c \<Longrightarrow> c \<noteq> CHR ''-'' \<and> c \<noteq> CHR ''+'' \<and> c \<noteq> CHR ''.'' \<and> c \<noteq> CHR ''E'' \<and> c \<noteq> CHR ''_''
     \<and> \<not> py_space c"
  by (auto simp: is_digit_def py_space_def Let_def)

lemma special_not_digit [simp]:
  "\<not> is_digit (CHR ''.'')" "\<not> is_digit (CHR ''E'')" "\<not> is_digit (CHR ''-'')"
  "\<not> is_digit (CHR ''+'')" "is_digit (CHR ''0'')"
  by (simp_all add: is_digit_def)

lemma parse_exp_signed: "parse_exp (''E'' @ signed_digits e) = Some e"
  by (simp add: parse_exp_def signed_digits_def has_prefix_def Let_def)

lemma parse_unsigned_plain:
  assumes "list_all is_digit ds" "ds \<noteq> []" "tail = [] \<or> tail = ''E'' @ signed_digits e"
  shows "parse_unsigned (ds @ tail)
    = Some (Dec (nat_of_digits ds) (if tail = [] then 0 else e))"
proof -
  have t: "tail = [] \<or> \<not> is_digit (hd tail)" and d: "\<not> has_prefix ''.'' tail"
    using assms(3) by (auto simp: has_prefix_def)
  have "parse_exp tail = Some (if tail = [] then 0 else e)"
    using assms(3) parse_exp_signed [of e] by (auto simp: parse_exp_def)
  then show ?thesis
    using takeWhile_digits [OF assms(1) t] d assms(2)
    by (simp add: parse_unsigned_def Let_def)
qed

lemma parse_unsigned_dot:
  assumes "list_all is_digit ds" "ds \<noteq> []" "list_all is_digit fs"
    and "tail = [] \<or> tail = ''E'' @ signed_digits e"
  shows "parse_unsigned (ds @ ''.'' @ fs @ tail)
    = Some (Dec (nat_of_digits (ds @ fs)) ((if tail = [] then 0 else e) - int (length fs)))"
proof -
  have t: "tail = [] \<or> \<not> is_digit (hd tail)" using assms(4) by auto
  have "parse_exp tail = Some (if tail = [] then 0 else e)"
    using assms(4) parse_exp_signed [of e] by (auto simp: parse_exp_def)
  then show ?thesis
    using takeWhile_digits [OF assms(1), of "''.'' @ fs @ tail"] takeWhile_digits [OF assms(3) t]
      assms(2)
    by (simp add: parse_unsigned_def Let_def has_prefix_def)
qed

lemma zeros_digits [simp]: "list_all is_digit (zeros k)"
  by (simp add: zeros_def list_all_iff)

lemma length_zeros [simp]: "length (zeros k) = k"
  by (simp add: zeros_def)

text \<open>The printed text of every value parses back to the same coefficient and exponent.\<close>

theorem parse_unsigned_dec_str: "parse_unsigned (dec_str d) = Some d"
proof -
  define ds where "ds = nat_digits (d_coeff d)"
  define n where "n = int (length ds)"
  define left where "left = d_exp d + n"
  define dot where "dot = (if d_exp d \<le> 0 \<and> -6 < left then left else 1)"
  define tail where "tail = (if left = dot then [] else ''E'' @ signed_digits (left - dot))"
  have ds: "list_all is_digit ds" "ds \<noteq> []" "nat_of_digits ds = d_coeff d"
    by (simp_all add: ds_def)
  then have n: "1 \<le> n" by (cases ds) (simp_all add: n_def)
  have tail: "tail = [] \<or> tail = ''E'' @ signed_digits (left - dot)"
    by (simp add: tail_def)
  have tail_nil: "tail = [] \<longleftrightarrow> left = dot" by (simp add: tail_def)
  have str: "dec_str d =
      (if dot \<le> 0 then ''0.'' @ zeros (nat (- dot)) @ ds
       else if n \<le> dot then ds @ zeros (nat (dot - n))
       else take (nat dot) ds @ ''.'' @ drop (nat dot) ds) @ tail"
    by (simp add: dec_str_def Let_def ds_def n_def left_def dot_def tail_def)
  consider "dot \<le> 0" | "0 < dot" "n \<le> dot" | "0 < dot" "dot < n" by linarith
  then show ?thesis
  proof cases
    case 1
    then have left: "left = dot" using dot_def by (auto split: if_splits)
    have "parse_unsigned (''0'' @ ''.'' @ (zeros (nat (- dot)) @ ds) @ tail)
        = Some (Dec (nat_of_digits (''0'' @ zeros (nat (- dot)) @ ds))
                  (0 - int (length (zeros (nat (- dot)) @ ds))))"
      using parse_unsigned_dot [of "''0''" "zeros (nat (- dot)) @ ds" tail "left - dot"] ds tail
        tail_nil left
      by simp
    also have "nat_of_digits (''0'' @ zeros (nat (- dot)) @ ds) = d_coeff d"
      using nat_of_digits_zeros [of "Suc (nat (- dot))" ds] ds by (simp add: zeros_def)
    also have "0 - int (length (zeros (nat (- dot)) @ ds)) = d_exp d"
      using 1 left by (simp add: n_def left_def)
    finally show ?thesis using 1 by (simp add: str)
  next
    case 2
    then have dn: "dot = n" using n by (auto simp: dot_def left_def split: if_splits)
    have "parse_unsigned (ds @ tail)
        = Some (Dec (d_coeff d) (if tail = [] then 0 else left - dot))"
      using parse_unsigned_plain [OF ds(1,2) tail] ds(3) by simp
    also have "(if tail = [] then 0 else left - dot) = d_exp d"
      using tail_nil dn by (simp add: left_def)
    finally show ?thesis using 2 dn by (simp add: str zeros_def)
  next
    case 3
    have "parse_unsigned (take (nat dot) ds @ ''.'' @ drop (nat dot) ds @ tail)
        = Some (Dec (nat_of_digits (take (nat dot) ds @ drop (nat dot) ds))
                  ((if tail = [] then 0 else left - dot) - int (length (drop (nat dot) ds))))"
      using 3 ds tail by (intro parse_unsigned_dot) auto
    also have "(if tail = [] then 0 else left - dot) - int (length (drop (nat dot) ds)) = d_exp d"
      using tail_nil 3 by (auto simp: left_def n_def)
    finally show ?thesis using 3 ds by (simp add: str)
  qed
qed

end
