(* ===== verification/Py_Text.thy ===== *)
theory Py_Text
  imports "HOL-Library.Char_ord" "HOL-Library.List_Lexorder" Decimal
begin

text \<open>
  The text Python prints for a value: \<open>repr\<close> of a float (the shortest digits that read back
  as the same float), \<open>repr\<close> and \<open>str\<close> of the JSON values, and the constructor
  \<open>Decimal(str(value))\<close> built on them.
\<close>

section \<open>Floats\<close>

definition ilog10 :: "rat \<Rightarrow> int" where
  "ilog10 x =
     (let (n, d) = quotient_of x; k = int (num_digits (nat n)) - int (num_digits (nat d))
      in if pow10 k \<le> x then k else k - 1)"

text \<open>The \<open>n\<close>-digit decimals next to \<open>x\<close> that read back as \<open>x\<close>; the closer one wins.\<close>

definition shortest_with :: "nat \<Rightarrow> rat \<Rightarrow> (nat \<times> int) option" where
  "shortest_with n x =
     (let e = ilog10 x - int n + 1; y = x / pow10 e; lo = nat \<lfloor>y\<rfloor>; hi = nat \<lceil>y\<rceil>;
          ok = (\<lambda>m. rnd (of_nat m * pow10 e) = x)
      in if ok lo \<and> ok hi then Some (nat (rne y), e)
         else if ok lo then Some (lo, e)
         else if ok hi then Some (hi, e) else None)"

fun shortest_from :: "nat \<Rightarrow> nat \<Rightarrow> rat \<Rightarrow> (nat \<times> int) option" where
  "shortest_from 0 n x = None"
| "shortest_from (Suc fuel) n x =
     (case shortest_with n x of Some r \<Rightarrow> Some r | None \<Rightarrow> shortest_from fuel (Suc n) x)"

fun strip_zeros :: "nat \<Rightarrow> nat \<Rightarrow> int \<Rightarrow> nat \<times> int" where
  "strip_zeros 0 m e = (m, e)"
| "strip_zeros (Suc fuel) m e =
     (if m \<noteq> 0 \<and> m mod 10 = 0 then strip_zeros fuel (m div 10) (e + 1) else (m, e))"

text \<open>17 significant digits identify every binary64 value, so 17 attempts are enough.\<close>

definition shortest_digits :: "rat \<Rightarrow> string \<times> int" where
  "shortest_digits x =
     (if x = 0 then (''0'', 1)
      else case shortest_from 17 1 x of
             None \<Rightarrow> (''0'', 1)
           | Some (m, e) \<Rightarrow>
               (let (m', e') = strip_zeros 17 m e; ds = nat_digits m'
                in (ds, e' + int (length ds))))"

definition two_digits :: "nat \<Rightarrow> string" where
  "two_digits n = (if n < 10 then ''0'' else []) @ nat_digits n"

definition repr_unsigned :: "rat \<Rightarrow> string" where
  "repr_unsigned x =
     (let (ds, decpt) = shortest_digits x; n = int (length ds)
      in if -4 < decpt \<and> decpt \<le> 16 then
           (if decpt \<le> 0 then ''0.'' @ zeros (nat (- decpt)) @ ds
            else if n \<le> decpt then ds @ zeros (nat (decpt - n)) @ ''.0''
            else take (nat decpt) ds @ ''.'' @ drop (nat decpt) ds)
         else
           take 1 ds @ (if n = 1 then [] else ''.'' @ drop 1 ds) @ ''e''
           @ (if decpt - 1 < 0 then ''-'' else ''+'') @ two_digits (nat \<bar>decpt - 1\<bar>))"

fun float_repr :: "pyfloat \<Rightarrow> string" where
  "float_repr (Fin a) = (if a < 0 then ''-'' @ repr_unsigned (- a) else repr_unsigned a)"
| "float_repr PInf = ''inf''"
| "float_repr NInf = ''-inf''"
| "float_repr NaN = ''nan''"

definition int_text :: "int \<Rightarrow> string" where
  "int_text i = (if i < 0 then ''-'' else []) @ nat_digits (nat \<bar>i\<bar>)"

section \<open>JSON values\<close>

definition hex_digit :: "nat \<Rightarrow> char" where
  "hex_digit d = (if d < 10 then digit_char d else char_of (87 + d))"

definition printable :: "char \<Rightarrow> bool" where
  "printable c \<longleftrightarrow>
     (let n = (of_char c :: nat) in 32 \<le> n \<and> n \<le> 126 \<or> 161 \<le> n \<and> n \<noteq> 173)"

definition repr_char :: "char \<Rightarrow> char \<Rightarrow> string" where
  "repr_char quote c =
     (if c = quote \<or> c = CHR 0x5C then [CHR 0x5C, c]
      else if c = CHR 0x0A then [CHR 0x5C, CHR ''n'']
      else if c = CHR 0x0D then [CHR 0x5C, CHR ''r'']
      else if c = CHR 0x09 then [CHR 0x5C, CHR ''t'']
      else if printable c then [c]
      else [CHR 0x5C, CHR ''x'', hex_digit (of_char c div 16), hex_digit (of_char c mod 16)])"

definition str_repr :: "string \<Rightarrow> string" where
  "str_repr s =
     (let q = (if CHR 0x27 \<in> set s \<and> CHR 0x22 \<notin> set s then CHR 0x22 else CHR 0x27)
      in [q] @ concat (map (repr_char q) s) @ [q])"

fun py_repr :: "json \<Rightarrow> string"
  and repr_list :: "json list \<Rightarrow> string list"
  and repr_items :: "dict \<Rightarrow> string list" where
  "py_repr JNull = ''None''"
| "py_repr (JBool b) = (if b then ''True'' else ''False'')"
| "py_repr (JInt i) = int_text i"
| "py_repr (JFloat x) = float_repr x"
| "py_repr (JStr s) = str_repr s"
| "py_repr (JList xs) = ''['' @ py_join '', '' (repr_list xs) @ '']''"
| "py_repr (JObj d) = ''{'' @ py_join '', '' (repr_items d) @ ''}''"
| "repr_list [] = []"
| "repr_list (x # xs) = py_repr x # repr_list xs"
| "repr_items [] = []"
| "repr_items ((k, v) # d) = (str_repr k @ '': '' @ py_repr v) # repr_items d"

definition py_str :: "json \<Rightarrow> string" where
  "py_str v = (case v of JStr s \<Rightarrow> s | _ \<Rightarrow> py_repr v)"

text \<open>\<open>str(value or "")\<close>\<close>

definition text_of :: "json \<Rightarrow> string" where
  "text_of v = (if truthy v then py_str v else [])"

lemma text_of_JStr [simp]: "text_of (JStr s) = s"
  by (simp add: text_of_def py_str_def)

lemma text_of_JNull [simp]: "text_of JNull = []"
  by (simp add: text_of_def)

text \<open>\<open>json.dumps(value, sort_keys=True, separators=(",", ":"))\<close>: ASCII text, the keys of every
  object in ascending order. Strings are ordered by code point, which is the order of
  \<^verbatim>\<open>HOL-Library.Char_ord\<close> and \<^verbatim>\<open>HOL-Library.List_Lexorder\<close>.\<close>

definition dump_char :: "char \<Rightarrow> string" where
  "dump_char c =
     (let n = (of_char c :: nat)
      in if c = CHR 0x22 \<or> c = CHR 0x5C then [CHR 0x5C, c]
         else if c = CHR 0x0A then [CHR 0x5C, CHR ''n'']
         else if c = CHR 0x0D then [CHR 0x5C, CHR ''r'']
         else if c = CHR 0x09 then [CHR 0x5C, CHR ''t'']
         else if c = CHR 0x08 then [CHR 0x5C, CHR ''b'']
         else if c = CHR 0x0C then [CHR 0x5C, CHR ''f'']
         else if 32 \<le> n \<and> n \<le> 126 then [c]
         else [CHR 0x5C] @ ''u00'' @ [hex_digit (n div 16), hex_digit (n mod 16)])"

definition dump_str :: "string \<Rightarrow> string" where
  "dump_str s = [CHR 0x22] @ concat (map dump_char s) @ [CHR 0x22]"

fun dump_float :: "pyfloat \<Rightarrow> string" where
  "dump_float PInf = ''Infinity''"
| "dump_float NInf = ''-Infinity''"
| "dump_float NaN = ''NaN''"
| "dump_float x = float_repr x"

fun json_dumps :: "json \<Rightarrow> string"
  and dump_list :: "json list \<Rightarrow> string list"
  and dump_items :: "dict \<Rightarrow> (string \<times> string) list" where
  "json_dumps JNull = ''null''"
| "json_dumps (JBool b) = (if b then ''true'' else ''false'')"
| "json_dumps (JInt i) = int_text i"
| "json_dumps (JFloat x) = dump_float x"
| "json_dumps (JStr s) = dump_str s"
| "json_dumps (JList xs) = ''['' @ py_join '','' (dump_list xs) @ '']''"
| "json_dumps (JObj d) =
     ''{'' @ py_join '','' (map (\<lambda>(k, t). dump_str k @ '':'' @ t) (sort_key fst (dump_items d)))
     @ ''}''"
| "dump_list [] = []"
| "dump_list (x # xs) = json_dumps x # dump_list xs"
| "dump_items [] = []"
| "dump_items ((k, v) # d) = (k, json_dumps v) # dump_items d"

section \<open>Reading a number\<close>

text \<open>\<open>number(value)\<close> of \<^verbatim>\<open>src/polymarket/fill_cashflow.py\<close>: a finite non-negative decimal.
  Booleans and \<open>None\<close> are refused before \<open>Decimal(str(value))\<close> is tried; a list or a
  dictionary prints text that is no literal.\<close>

definition read_literal :: "string \<Rightarrow> dec option" where
  "read_literal s =
     (case dec_parse s of
        Some (neg, d) \<Rightarrow> if neg \<and> 0 < d_coeff d then None else Some d
      | None \<Rightarrow> None)"

fun number :: "json \<Rightarrow> string + dec" where
  "number (JBool b) = Inl ''missing_or_invalid_number''"
| "number JNull = Inl ''missing_or_invalid_number''"
| "number v = (case read_literal (py_str v) of
                 None \<Rightarrow> Inl ''missing_or_invalid_number'' | Some d \<Rightarrow> Inr d)"

text \<open>\<open>float(text)\<close>: surrounding white space, underscores between digits only, the special
  values in any case, and otherwise the nearest float to the decimal literal.\<close>

fun underscores_ok :: "string \<Rightarrow> bool" where
  "underscores_ok (a # b # c # s) =
     ((b = CHR ''_'' \<longrightarrow> is_digit a \<and> is_digit c) \<and> underscores_ok (b # c # s))"
| "underscores_ok [a, b] = (b \<noteq> CHR ''_'')"
| "underscores_ok s = True"

definition float_of_text :: "string \<Rightarrow> pyfloat option" where
  "float_of_text s =
     (let t = py_strip s; neg = has_prefix ''-'' t;
          u = py_lower (if neg \<or> has_prefix ''+'' t then tl t else t)
      in if u = ''inf'' \<or> u = ''infinity'' then Some (if neg then NInf else PInf)
         else if u = ''nan'' then Some NaN
         else if has_prefix ''_'' t \<or> \<not> underscores_ok t then None
         else case parse_signed (filter (\<lambda>c. c \<noteq> CHR ''_'') t) of
                None \<Rightarrow> None
              | Some (n, d) \<Rightarrow> Some (to_float (if n then - dec_val d else dec_val d)))"

text \<open>\<open>float(value)\<close> of a JSON value; \<open>None\<close> is \<open>TypeError\<close> or \<open>ValueError\<close>. Integers of a
  magnitude beyond the range of floats, on which Python raises \<open>OverflowError\<close>, read as infinite.\<close>

fun float_of :: "json \<Rightarrow> pyfloat option" where
  "float_of (JFloat x) = Some x"
| "float_of (JInt i) = Some (to_float (of_int i))"
| "float_of (JBool b) = Some (Fin (if b then 1 else 0))"
| "float_of (JStr s) = float_of_text s"
| "float_of _ = None"

section \<open>The printed decimal reads back\<close>

definition dec_char :: "char \<Rightarrow> bool" where
  "dec_char c \<longleftrightarrow> is_digit c \<or> c \<in> {CHR ''.'', CHR ''E'', CHR ''+'', CHR ''-''}"

lemma dec_char_digits: "list_all is_digit ds \<Longrightarrow> list_all dec_char ds"
  by (induction ds) (auto simp: dec_char_def)

lemma dec_str_chars: "list_all dec_char (dec_str d)"
proof -
  define ds where "ds = nat_digits (d_coeff d)"
  have ds: "list_all is_digit ds" by (simp add: ds_def)
  have parts: "list_all dec_char ds" "\<And>k. list_all dec_char (take k ds)"
    "\<And>k. list_all dec_char (drop k ds)" "\<And>k. list_all dec_char (zeros k)"
    "\<And>e. list_all dec_char (signed_digits e)"
    using ds by (simp_all add: dec_char_digits signed_digits_def) (simp_all add: dec_char_def)
  show ?thesis
    unfolding dec_str_def Let_def ds_def [symmetric]
    by (simp add: parts) (simp add: dec_char_def)
qed

lemma dec_str_hd: "dec_str d \<noteq> [] \<and> is_digit (hd (dec_str d))"
proof -
  obtain c cs where ds: "nat_digits (d_coeff d) = c # cs" "is_digit c"
    using nat_digits_not_Nil nat_digits_all [of "d_coeff d"]
    by (cases "nat_digits (d_coeff d)") auto
  show ?thesis
    by (auto simp: dec_str_def Let_def ds take_Cons' split: if_splits)
qed

lemma dec_char_plain: "dec_char c \<Longrightarrow> \<not> py_space c \<and> c \<noteq> CHR ''_''"
  using digit_not_special [of c] by (auto simp: dec_char_def py_space_def)

lemma dropWhile_none: "(\<And>c. c \<in> set s \<Longrightarrow> \<not> P c) \<Longrightarrow> dropWhile P s = s"
  by (cases s) auto

theorem dec_parse_dec_str: "dec_parse (dec_str d) = Some (False, d)"
proof -
  have plain: "\<And>c. c \<in> set (dec_str d) \<Longrightarrow> \<not> py_space c \<and> c \<noteq> CHR ''_''"
    using dec_str_chars [of d] dec_char_plain by (simp add: list_all_iff)
  have strip: "py_strip (dec_str d) = dec_str d"
    using dropWhile_none [of "dec_str d" py_space] dropWhile_none [of "rev (dec_str d)" py_space]
      plain
    by (simp add: py_strip_def)
  have keep: "filter (\<lambda>c. c \<noteq> CHR ''_'') (dec_str d) = dec_str d"
    using plain by (simp add: filter_id_conv)
  have "\<not> has_prefix ''-'' (dec_str d)" "\<not> has_prefix ''+'' (dec_str d)"
    using dec_str_hd [of d] by (cases "dec_str d"; auto simp: has_prefix_def)+
  then show ?thesis
    by (simp add: dec_parse_def parse_signed_def strip keep parse_unsigned_dec_str)
qed

lemma number_dec_str [simp]: "number (JStr (dec_str d)) = Inr d"
  by (simp add: read_literal_def py_str_def dec_parse_dec_str)

declare number.simps [simp del]

end
