(* ===== verification/Cash_Debit.thy ===== *)
theory Cash_Debit
  imports "HOL-Library.Multiset" Py_Text
begin

text \<open>
  \<^verbatim>\<open>src/polymarket/fill_cashflow.py\<close>: the observed cash cost of a filled order, kept apart from
  the exchange's gross fill evidence. \<open>observed_cash_debit\<close> links every taker trade of an order
  to one account activity and produces the evidence; \<open>verified_cash_debit\<close> checks saved
  evidence before accounting uses it. The exception \<open>CashDebitUnavailable\<close> is the \<open>Inl\<close> side,
  with its message. \<open>sha\<close> is the hexadecimal SHA-256 of a text.
\<close>

section \<open>The operations\<close>

definition binding_keys :: "string list" where
  "binding_keys =
     [''order_id'', ''token_id'', ''actual_fill_amount'', ''actual_filled_shares'',
      ''actual_fill_price'', ''actual_fill_source'', ''actual_fill_trade_ids'']"

definition fill_binding :: "dict \<Rightarrow> dict" where
  "fill_binding bet = map (\<lambda>k. (k, jget bet k)) binding_keys"

definition nonblank_str :: "json \<Rightarrow> bool" where
  "nonblank_str v \<longleftrightarrow> is_str v \<and> py_strip (str_of v) \<noteq> []"

text \<open>The first guard of \<open>observed_cash_debit\<close>, the identity of the trades.\<close>

definition identity_available :: "dict \<Rightarrow> dict \<Rightarrow> bool" where
  "identity_available bet order \<longleftrightarrow>
     (let expected = jget bet ''actual_fill_trade_ids'';
          parts = jget order ''actual_fill_trade_components''
      in text_of (jget bet ''order_id'') \<noteq> [] \<and> text_of (jget bet ''token_id'') \<noteq> []
         \<and> is_list expected \<and> list_of expected \<noteq> []
         \<and> list_all nonblank_str (list_of expected)
         \<and> distinct (list_of expected)
         \<and> is_list parts \<and> list_of parts \<noteq> []
         \<and> list_all (\<lambda>p. is_obj p \<and> nonblank_str (jget (obj_of p) ''trade_id'')) (list_of parts)
         \<and> \<not> truthy (jget order ''actual_fill_activity_conflicts''))"

record cash_state =
  cs_matched :: "dict list"
  cs_used :: "string list"
  cs_gross :: dec
  cs_shares :: dec
  cs_debit :: dec

definition cash_init :: cash_state where
  "cash_init = \<lparr>cs_matched = [], cs_used = [], cs_gross = dec_zero, cs_shares = dec_zero,
                cs_debit = dec_zero\<rparr>"

definition tx_of :: "dict \<Rightarrow> string" where
  "tx_of part = py_lower (text_of (jget part ''transaction_hash''))"

definition candidate :: "string \<Rightarrow> string \<Rightarrow> json \<Rightarrow> bool" where
  "candidate tx token row \<longleftrightarrow>
     is_obj row
     \<and> py_lower (text_of (jget (obj_of row) ''transactionHash'')) = tx
     \<and> text_of (jget (obj_of row) ''asset'') = token
     \<and> jget (obj_of row) ''type'' = JStr ''TRADE''
     \<and> jget (obj_of row) ''side'' = JStr ''BUY''"

definition matched_row :: "dict \<Rightarrow> string \<Rightarrow> string \<Rightarrow> string \<Rightarrow> dec \<Rightarrow> dec \<Rightarrow> dec \<Rightarrow> int \<Rightarrow> dict" where
  "matched_row part tx token order_id quantity price cash timestamp =
     [(''trade_id'', jget part ''trade_id''), (''transaction_hash'', JStr tx),
      (''token_id'', JStr token), (''order_id'', JStr order_id), (''side'', JStr ''BUY''),
      (''shares'', JStr (dec_str quantity)), (''price'', JStr (dec_str price)),
      (''gross_consideration'', JStr (dec_str (dec_mul quantity price))),
      (''cash_debit'', JStr (dec_str cash)), (''timestamp'', JInt timestamp)]"

text \<open>\<open>type(timestamp) is int and timestamp >= 0\<close>\<close>

fun timestamp_of :: "json \<Rightarrow> string + int" where
  "timestamp_of (JInt t) = (if t < 0 then Inl ''activity_timestamp_missing'' else Inr t)"
| "timestamp_of _ = Inl ''activity_timestamp_missing''"

definition valid_fill :: "dec \<Rightarrow> dec \<Rightarrow> bool" where
  "valid_fill quantity price \<longleftrightarrow>
     dec_lt dec_zero quantity \<and> dec_lt dec_zero price \<and> dec_lt price (Dec 1 0)"

text \<open>\<open>number(row.get("size")) != quantity or number(row.get("price")) != price\<close>\<close>

definition row_mismatch :: "dict \<Rightarrow> dec \<Rightarrow> dec \<Rightarrow> string + bool" where
  "row_mismatch row quantity price =
     sbind (number (jget row ''size'')) (\<lambda>sz.
       if \<not> dec_eq sz quantity then Inr True
       else sbind (number (jget row ''price'')) (\<lambda>pr. Inr (\<not> dec_eq pr price)))"

text \<open>The body of the loop over the components of the order.\<close>

definition cash_step ::
  "string \<Rightarrow> string \<Rightarrow> json list \<Rightarrow> dict \<Rightarrow> cash_state \<Rightarrow> string + cash_state" where
  "cash_step order_id token activity part st =
     (if jget part ''order_id'' \<noteq> JStr order_id \<or> jget part ''token_id'' \<noteq> JStr token
         \<or> jget part ''role'' \<noteq> JStr ''taker'' \<or> jget part ''side'' \<noteq> JStr ''BUY''
      then Inl ''unsupported_or_mismatched_fill_role''
      else if tx_of part = [] \<or> tx_of part \<in> set (cs_used st)
      then Inl ''missing_or_shared_transaction''
      else sbind (number (jget part ''shares'')) (\<lambda>quantity.
        sbind (number (jget part ''price'')) (\<lambda>price.
          if \<not> valid_fill quantity price then Inl ''invalid_fill_quantity_or_price''
          else (case filter (candidate (tx_of part) token) activity of
              [row] \<Rightarrow>
                sbind (row_mismatch (obj_of row) quantity price) (\<lambda>mismatch.
                  if mismatch then Inl ''activity_quantity_or_price_mismatch''
                  else sbind (number (jget (obj_of row) ''usdcSize'')) (\<lambda>cash.
                    if dec_lt cash (dec_mul quantity price)
                    then Inl ''activity_debit_below_gross''
                    else sbind (timestamp_of (jget (obj_of row) ''timestamp'')) (\<lambda>timestamp.
                      Inr \<lparr>cs_matched = cs_matched st
                             @ [matched_row part (tx_of part) token order_id quantity price cash
                                  timestamp],
                           cs_used = cs_used st @ [tx_of part],
                           cs_gross = dec_add (cs_gross st) (dec_mul quantity price),
                           cs_shares = dec_add (cs_shares st) quantity,
                           cs_debit = dec_add (cs_debit st) cash\<rparr>)))
            | _ \<Rightarrow> Inl ''missing_or_duplicate_activity''))))"

fun cash_loop ::
  "string \<Rightarrow> string \<Rightarrow> json list \<Rightarrow> dict list \<Rightarrow> cash_state \<Rightarrow> string + cash_state" where
  "cash_loop order_id token activity [] st = Inr st"
| "cash_loop order_id token activity (p # ps) st =
     sbind (cash_step order_id token activity p st) (cash_loop order_id token activity ps)"

text \<open>\<open>abs(total - number(recorded)) > Decimal("0.005")\<close>\<close>

definition off_by_more :: "dec \<Rightarrow> json \<Rightarrow> string + bool" where
  "off_by_more amount recorded =
     sbind (number recorded) (\<lambda>r. Inr (dec_lt (Dec 5 (-3)) (dec_dist amount r)))"

definition trade_id_of :: "dict \<Rightarrow> string" where
  "trade_id_of row = str_of (jget row ''trade_id'')"

definition evidence_of :: "dict \<Rightarrow> dict list \<Rightarrow> dict" where
  "evidence_of bet matched =
     [(''schema_version'', JInt 1), (''source'', JStr ''clob_trade_and_polymarket_activity''),
      (''binding'', JObj (fill_binding bet)),
      (''fills'', JList (map JObj (sort_key trade_id_of matched)))]"

text \<open>\<open>str(a - b)\<close>\<close>

definition dec_sub_str :: "dec \<Rightarrow> dec \<Rightarrow> string" where
  "dec_sub_str a b = (if dec_lt a b then ''-'' else []) @ dec_str (dec_dist a b)"

definition confirmed_result :: "(string \<Rightarrow> string) \<Rightarrow> dict \<Rightarrow> cash_state \<Rightarrow> dict" where
  "confirmed_result sha bet st =
     (let ev = JObj (evidence_of bet (cs_matched st))
      in [(''cash_debit_status'', JStr ''confirmed''),
          (''actual_cash_debit'', JStr (dec_str (cs_debit st))),
          (''actual_additional_charge'', JStr (dec_sub_str (cs_debit st) (cs_gross st))),
          (''actual_gross_consideration_exact'', JStr (dec_str (cs_gross st))),
          (''actual_filled_shares_exact'', JStr (dec_str (cs_shares st))),
          (''actual_cash_debit_evidence'', ev),
          (''actual_cash_debit_evidence_sha256'', JStr (sha (json_dumps ev)))])"

definition observed_cash_debit ::
  "(string \<Rightarrow> string) \<Rightarrow> dict \<Rightarrow> dict \<Rightarrow> json \<Rightarrow> string + dict" where
  "observed_cash_debit sha bet order activity =
     (let expected = list_of (jget bet ''actual_fill_trade_ids'');
          parts = map obj_of (list_of (jget order ''actual_fill_trade_components''));
          order_id = text_of (jget bet ''order_id''); token = text_of (jget bet ''token_id'')
      in if \<not> identity_available bet order
         then Inl ''original_trade_identity_unavailable_or_shared_transaction''
         else if set expected \<noteq> set (map (\<lambda>p. jget p ''trade_id'') parts)
         then Inl ''original_trade_set_incomplete''
         else if length parts \<noteq> length expected \<or> \<not> is_list activity
         then Inl ''duplicate_or_incomplete_trade_evidence''
         else sbind (cash_loop order_id token (list_of activity) parts cash_init) (\<lambda>st.
           sbind (off_by_more (cs_shares st) (jget bet ''actual_filled_shares'')) (\<lambda>off.
             if off then Inl ''original_filled_quantity_mismatch''
             else sbind (off_by_more (cs_gross st) (jget bet ''actual_fill_amount'')) (\<lambda>off'.
               if off' then Inl ''original_gross_consideration_mismatch''
               else Inr (confirmed_result sha bet st)))))"

text \<open>\<open>sum((number(row.get(key)) for row in fills), Decimal(0))\<close>\<close>

definition sum_field :: "string \<Rightarrow> dict list \<Rightarrow> string + dec" where
  "sum_field key rows =
     sbind (smap (\<lambda>row. number (jget row key)) rows) (\<lambda>ds. Inr (dec_sum ds))"

definition rebuilt_part :: "dict \<Rightarrow> dict" where
  "rebuilt_part row =
     [(''trade_id'', jget row ''trade_id''), (''transaction_hash'', jget row ''transaction_hash''),
      (''token_id'', jget row ''token_id''), (''order_id'', jget row ''order_id''),
      (''role'', JStr ''taker''), (''side'', jget row ''side''),
      (''shares'', jget row ''shares''), (''price'', jget row ''price'')]"

definition rebuilt_order :: "dict list \<Rightarrow> dict" where
  "rebuilt_order fills =
     [(''actual_fill_trade_components'', JList (map (\<lambda>row. JObj (rebuilt_part row)) fills))]"

definition rebuilt_row :: "dict \<Rightarrow> dict" where
  "rebuilt_row row =
     [(''transactionHash'', jget row ''transaction_hash''), (''asset'', jget row ''token_id''),
      (''type'', JStr ''TRADE''), (''side'', jget row ''side''), (''size'', jget row ''shares''),
      (''price'', jget row ''price''), (''usdcSize'', jget row ''cash_debit''),
      (''timestamp'', jget row ''timestamp'')]"

definition rebuilt_activity :: "dict list \<Rightarrow> json" where
  "rebuilt_activity fills = JList (map (\<lambda>row. JObj (rebuilt_row row)) fills)"

text \<open>The comparison of the fills with the saved totals; \<open>True\<close> is agreement.\<close>

definition fills_agree :: "json \<Rightarrow> dec \<Rightarrow> dec \<Rightarrow> json \<Rightarrow> string + bool" where
  "fills_agree fills debit gross shares_exact =
     (if \<not> is_list fills \<or> list_of fills = [] \<or> \<not> list_all is_obj (list_of fills) then Inr False
      else (let rows = map obj_of (list_of fills)
            in sbind (sum_field ''cash_debit'' rows) (\<lambda>c.
                 if \<not> dec_eq c debit then Inr False
                 else sbind (sum_field ''gross_consideration'' rows) (\<lambda>g.
                   if \<not> dec_eq g gross then Inr False
                   else sbind (sum_field ''shares'' rows) (\<lambda>s.
                     sbind (number shares_exact) (\<lambda>e. Inr (dec_eq s e)))))))"

definition verified_cash_debit :: "(string \<Rightarrow> string) \<Rightarrow> dict \<Rightarrow> string + dec" where
  "verified_cash_debit sha bet =
     (let ev = jget bet ''actual_cash_debit_evidence''; digest = sha (json_dumps ev)
      in if jget bet ''cash_debit_status'' \<noteq> JStr ''confirmed'' \<or> \<not> is_obj ev
            \<or> \<not> py_eq (jget (obj_of ev) ''binding'') (JObj (fill_binding bet))
         then Inl ''cash_debit_not_confirmed_for_original_fill''
         else if jget bet ''actual_cash_debit_evidence_sha256'' \<noteq> JStr digest
         then Inl ''cash_debit_provenance_conflict''
         else sbind (number (jget bet ''actual_cash_debit'')) (\<lambda>debit.
           sbind (number (jget bet ''actual_gross_consideration_exact'')) (\<lambda>gross.
             sbind (number (jget bet ''actual_additional_charge'')) (\<lambda>charge.
               if \<not> dec_lt dec_zero debit \<or> \<not> dec_eq debit (dec_add gross charge)
               then Inl ''cash_debit_totals_conflict''
               else (let fills = jget (obj_of ev) ''fills''; rows = map obj_of (list_of fills)
                     in sbind (fills_agree fills debit gross
                                 (jget bet ''actual_filled_shares_exact'')) (\<lambda>agree.
                          if \<not> agree then Inl ''cash_debit_components_conflict''
                          else sbind (observed_cash_debit sha bet (rebuilt_order rows)
                                        (rebuilt_activity rows)) (\<lambda>rebuilt.
                            if jget rebuilt ''actual_cash_debit_evidence_sha256'' \<noteq> JStr digest
                            then Inl ''cash_debit_identity_or_arithmetic_conflict''
                            else Inr debit)))))))"

definition verified_fill_shares :: "(string \<Rightarrow> string) \<Rightarrow> dict \<Rightarrow> string + dec" where
  "verified_fill_shares sha bet =
     sbind (verified_cash_debit sha bet) (\<lambda>_. number (jget bet ''actual_filled_shares_exact''))"

section \<open>What the loop establishes\<close>

datatype fill = Fill (f_quantity: dec) (f_price: dec) (f_cash: dec) (f_time: int)

abbreviation f_gross :: "fill \<Rightarrow> dec" where
  "f_gross f \<equiv> dec_mul (f_quantity f) (f_price f)"

text \<open>One component of the order and the single activity that settled it.\<close>

definition linked :: "string \<Rightarrow> string \<Rightarrow> json list \<Rightarrow> dict \<Rightarrow> fill \<Rightarrow> bool" where
  "linked order_id token activity part f \<longleftrightarrow>
     jget part ''order_id'' = JStr order_id \<and> jget part ''token_id'' = JStr token
     \<and> jget part ''role'' = JStr ''taker'' \<and> jget part ''side'' = JStr ''BUY''
     \<and> tx_of part \<noteq> []
     \<and> number (jget part ''shares'') = Inr (f_quantity f)
     \<and> number (jget part ''price'') = Inr (f_price f)
     \<and> valid_fill (f_quantity f) (f_price f)
     \<and> (case filter (candidate (tx_of part) token) activity of
          [row] \<Rightarrow>
            row_mismatch (obj_of row) (f_quantity f) (f_price f) = Inr False
            \<and> number (jget (obj_of row) ''usdcSize'') = Inr (f_cash f)
            \<and> jget (obj_of row) ''timestamp'' = JInt (f_time f)
        | _ \<Rightarrow> False)
     \<and> 0 \<le> f_time f
     \<and> dec_val (f_gross f) \<le> dec_val (f_cash f)"

definition row_of :: "string \<Rightarrow> string \<Rightarrow> dict \<times> fill \<Rightarrow> dict" where
  "row_of order_id token = (\<lambda>(part, f).
     matched_row part (tx_of part) token order_id (f_quantity f) (f_price f) (f_cash f) (f_time f))"

text \<open>The state after the pairs of components and fills \<open>pfs\<close>.\<close>

definition cash_extend ::
  "string \<Rightarrow> string \<Rightarrow> cash_state \<Rightarrow> (dict \<times> fill) list \<Rightarrow> cash_state" where
  "cash_extend order_id token st pfs =
     \<lparr>cs_matched = cs_matched st @ map (row_of order_id token) pfs,
      cs_used = cs_used st @ map (tx_of \<circ> fst) pfs,
      cs_gross = foldl dec_add (cs_gross st) (map (f_gross \<circ> snd) pfs),
      cs_shares = foldl dec_add (cs_shares st) (map (f_quantity \<circ> snd) pfs),
      cs_debit = foldl dec_add (cs_debit st) (map (f_cash \<circ> snd) pfs)\<rparr>"

lemma timestamp_of_Inr: "timestamp_of v = Inr t \<longleftrightarrow> v = JInt t \<and> 0 \<le> t"
  by (cases v) auto

lemma linkedE:
  assumes "linked order_id token activity part f"
  obtains row where "filter (candidate (tx_of part) token) activity = [row]"
    and "row_mismatch (obj_of row) (f_quantity f) (f_price f) = Inr False"
    and "number (jget (obj_of row) ''usdcSize'') = Inr (f_cash f)"
    and "jget (obj_of row) ''timestamp'' = JInt (f_time f)"
proof (cases "filter (candidate (tx_of part) token) activity")
  case Nil
  then show ?thesis using assms by (simp add: linked_def)
next
  case (Cons row rows)
  then show ?thesis using assms that by (cases rows) (auto simp: linked_def)
qed

lemma cash_step_Inr:
  "cash_step order_id token activity part st = Inr st'
   \<longleftrightarrow> (\<exists>f. linked order_id token activity part f \<and> tx_of part \<notin> set (cs_used st)
          \<and> st' = cash_extend order_id token st [(part, f)])"
proof
  assume "cash_step order_id token activity part st = Inr st'"
  then obtain q pr row c t where
      "jget part ''order_id'' = JStr order_id" "jget part ''token_id'' = JStr token"
      "jget part ''role'' = JStr ''taker''" "jget part ''side'' = JStr ''BUY''"
      "tx_of part \<noteq> []" "tx_of part \<notin> set (cs_used st)"
      "number (jget part ''shares'') = Inr q" "number (jget part ''price'') = Inr pr"
      "valid_fill q pr" "filter (candidate (tx_of part) token) activity = [row]"
      "row_mismatch (obj_of row) q pr = Inr False"
      "number (jget (obj_of row) ''usdcSize'') = Inr c" "\<not> dec_lt c (dec_mul q pr)"
      "timestamp_of (jget (obj_of row) ''timestamp'') = Inr t"
      "st' = \<lparr>cs_matched = cs_matched st @ [matched_row part (tx_of part) token order_id q pr c t],
         cs_used = cs_used st @ [tx_of part], cs_gross = dec_add (cs_gross st) (dec_mul q pr),
         cs_shares = dec_add (cs_shares st) q, cs_debit = dec_add (cs_debit st) c\<rparr>"
    by (auto simp: cash_step_def sbind_eq_Inr split: if_splits list.splits)
  then have "linked order_id token activity part (Fill q pr c t)
      \<and> tx_of part \<notin> set (cs_used st)
      \<and> st' = cash_extend order_id token st [(part, Fill q pr c t)]"
    by (simp add: timestamp_of_Inr linked_def cash_extend_def row_of_def dec_lt_def not_less)
  then show "\<exists>f. linked order_id token activity part f \<and> tx_of part \<notin> set (cs_used st)
      \<and> st' = cash_extend order_id token st [(part, f)]" by blast
next
  assume "\<exists>f. linked order_id token activity part f \<and> tx_of part \<notin> set (cs_used st)
      \<and> st' = cash_extend order_id token st [(part, f)]"
  then obtain f where f: "linked order_id token activity part f" "tx_of part \<notin> set (cs_used st)"
    "st' = cash_extend order_id token st [(part, f)]" by blast
  from f(1) show "cash_step order_id token activity part st = Inr st'"
  proof (rule linkedE)
    fix row
    assume "filter (candidate (tx_of part) token) activity = [row]"
      "row_mismatch (obj_of row) (f_quantity f) (f_price f) = Inr False"
      "number (jget (obj_of row) ''usdcSize'') = Inr (f_cash f)"
      "jget (obj_of row) ''timestamp'' = JInt (f_time f)"
    then show ?thesis
      using f by (simp add: cash_step_def linked_def cash_extend_def row_of_def dec_lt_def not_less)
  qed
qed

lemma cash_extend_append:
  "cash_extend order_id token (cash_extend order_id token st xs) ys
   = cash_extend order_id token st (xs @ ys)"
  by (simp add: cash_extend_def)

lemma cash_extend_Nil: "cash_extend order_id token st [] = st"
  by (simp add: cash_extend_def)

lemma used_cash_extend: "cs_used (cash_extend order_id token st xs) = cs_used st @ map (tx_of \<circ> fst) xs"
  by (simp add: cash_extend_def)

lemma cash_loop_Inr:
  "cash_loop order_id token activity parts st = Inr st'
   \<longleftrightarrow> (\<exists>pfs. map fst pfs = parts \<and> list_all (\<lambda>(p, f). linked order_id token activity p f) pfs
          \<and> distinct (map tx_of parts) \<and> set (map tx_of parts) \<inter> set (cs_used st) = {}
          \<and> st' = cash_extend order_id token st pfs)"
proof (induction parts arbitrary: st)
  case Nil
  then show ?case by (auto simp: cash_extend_Nil)
next
  case (Cons p ps)
  have ext: "cash_extend order_id token (cash_extend order_id token st [(p, f)]) pfs
      = cash_extend order_id token st ((p, f) # pfs)" for f pfs
    by (simp add: cash_extend_append)
  show ?case (is "?l \<longleftrightarrow> ?r")
  proof
    assume ?l
    then obtain f pfs where f: "linked order_id token activity p f" "tx_of p \<notin> set (cs_used st)"
        and pfs: "map fst pfs = ps" "list_all (\<lambda>(p, f). linked order_id token activity p f) pfs"
          "distinct (map tx_of ps)"
          "set (map tx_of ps) \<inter> set (cs_used (cash_extend order_id token st [(p, f)])) = {}"
          "st' = cash_extend order_id token st ((p, f) # pfs)"
      by (auto simp: sbind_eq_Inr cash_step_Inr Cons.IH ext)
    then show ?r
      by (intro exI [of _ "(p, f) # pfs"]) (auto simp: used_cash_extend)
  next
    assume ?r
    then obtain f pfs where "map fst pfs = ps" "linked order_id token activity p f"
        "list_all (\<lambda>(p, f). linked order_id token activity p f) pfs"
        "distinct (map tx_of (p # ps))" "set (map tx_of (p # ps)) \<inter> set (cs_used st) = {}"
        "st' = cash_extend order_id token st ((p, f) # pfs)"
      by (auto simp: map_eq_Cons_conv)
    then have "cash_step order_id token activity p st = Inr (cash_extend order_id token st [(p, f)])"
        "cash_loop order_id token activity ps (cash_extend order_id token st [(p, f)]) = Inr st'"
      unfolding cash_step_Inr Cons.IH
      by (auto simp: used_cash_extend ext intro!: exI [of _ f] exI [of _ pfs])
    then show ?l by simp
  qed
qed

section \<open>The evidence of an order\<close>

abbreviation order_parts :: "dict \<Rightarrow> dict list" where
  "order_parts order \<equiv> map obj_of (list_of (jget order ''actual_fill_trade_components''))"

abbreviation bet_order_id :: "dict \<Rightarrow> string" where
  "bet_order_id bet \<equiv> text_of (jget bet ''order_id'')"

abbreviation bet_token_id :: "dict \<Rightarrow> string" where
  "bet_token_id bet \<equiv> text_of (jget bet ''token_id'')"

text \<open>All guards before the loop.\<close>

definition identified :: "dict \<Rightarrow> dict \<Rightarrow> json \<Rightarrow> bool" where
  "identified bet order activity \<longleftrightarrow>
     (let expected = list_of (jget bet ''actual_fill_trade_ids'')
      in identity_available bet order
         \<and> set expected = set (map (\<lambda>p. jget p ''trade_id'') (order_parts order))
         \<and> length (order_parts order) = length expected \<and> is_list activity)"

text \<open>The recorded two-decimal quantity and amount agree with the totals to half a cent.\<close>

definition totals_match :: "dict \<Rightarrow> cash_state \<Rightarrow> bool" where
  "totals_match bet st \<longleftrightarrow>
     off_by_more (cs_shares st) (jget bet ''actual_filled_shares'') = Inr False
     \<and> off_by_more (cs_gross st) (jget bet ''actual_fill_amount'') = Inr False"

lemma observed_Inr:
  "observed_cash_debit sha bet order activity = Inr r
   \<longleftrightarrow> identified bet order activity
     \<and> (\<exists>st. cash_loop (bet_order_id bet) (bet_token_id bet) (list_of activity)
               (order_parts order) cash_init = Inr st
             \<and> totals_match bet st \<and> r = confirmed_result sha bet st)"
  unfolding observed_cash_debit_def identified_def totals_match_def Let_def
  by (auto simp: sbind_eq_Inr)

text \<open>
  C28: Evidence of a cash debit is produced exactly when the trades of the order are identified,
  every one of them is a taker purchase linked to one activity of its own transaction that
  agrees with it in quantity and price and cost at least its gross consideration, no two share
  a transaction, and the sums agree with the recorded quantity and amount to half a cent; the
  totals in the evidence are the sums over those fills.
\<close>

theorem observed_cash_debit_iff:
  "observed_cash_debit sha bet order activity = Inr r
   \<longleftrightarrow> identified bet order activity
     \<and> (\<exists>pfs. map fst pfs = order_parts order
          \<and> list_all (\<lambda>(p, f). linked (bet_order_id bet) (bet_token_id bet) (list_of activity) p f)
              pfs
          \<and> distinct (map tx_of (order_parts order))
          \<and> totals_match bet (cash_extend (bet_order_id bet) (bet_token_id bet) cash_init pfs)
          \<and> r = confirmed_result sha bet
                  (cash_extend (bet_order_id bet) (bet_token_id bet) cash_init pfs))"
  unfolding observed_Inr cash_loop_Inr by (auto simp: cash_init_def)

section \<open>Saved evidence verifies\<close>

lemma py_lower_char_idem: "py_lower_char (py_lower_char c) = py_lower_char c"
proof (cases c)
  case (Char b0 b1 b2 b3 b4 b5 b6 b7)
  then show ?thesis
    by (cases b0; cases b1; cases b2; cases b3; cases b4; cases b5; cases b6; cases b7)
      (simp_all add: py_lower_char_def Let_def char_of_def)
qed

lemma py_lower_idem [simp]: "py_lower (py_lower s) = py_lower s"
  by (simp add: py_lower_def py_lower_char_idem)

lemma filter_same_key: "distinct (map g zs) \<Longrightarrow> z \<in> set zs \<Longrightarrow> filter (\<lambda>y. g y = g z) zs = [z]"
proof (induction zs)
  case Nil
  then show ?case by simp
next
  case (Cons y ys)
  then show ?case by (auto simp: image_iff filter_empty_conv)
qed

lemma sort_key_map: "sort_key f (map g xs) = map g (sort_key (\<lambda>x. f (g x)) xs)"
proof (induction xs)
  case Nil
  then show ?case by simp
next
  case (Cons x xs)
  have "insort_key f (g x) (map g ys) = map g (insort_key (\<lambda>x. f (g x)) x ys)" for ys
    by (induction ys) auto
  with Cons show ?case by simp
qed

lemma smap_total: "(\<And>x. x \<in> set xs \<Longrightarrow> f x = Inr (g x)) \<Longrightarrow> smap f xs = Inr (map g xs)"
  by (induction xs) auto

lemmas row_defs = row_of_def matched_row_def jget_Cons

lemma jget_row [simp]:
  "jget (row_of oid t (p, f)) ''trade_id'' = jget p ''trade_id''"
  "jget (row_of oid t (p, f)) ''transaction_hash'' = JStr (tx_of p)"
  "jget (row_of oid t (p, f)) ''token_id'' = JStr t"
  "jget (row_of oid t (p, f)) ''order_id'' = JStr oid"
  "jget (row_of oid t (p, f)) ''side'' = JStr ''BUY''"
  "jget (row_of oid t (p, f)) ''shares'' = JStr (dec_str (f_quantity f))"
  "jget (row_of oid t (p, f)) ''price'' = JStr (dec_str (f_price f))"
  "jget (row_of oid t (p, f)) ''gross_consideration'' = JStr (dec_str (f_gross f))"
  "jget (row_of oid t (p, f)) ''cash_debit'' = JStr (dec_str (f_cash f))"
  "jget (row_of oid t (p, f)) ''timestamp'' = JInt (f_time f)"
  by (simp_all add: row_defs)

lemma tx_of_rebuilt [simp]: "tx_of (rebuilt_part (row_of oid t (p, f))) = tx_of p"
proof -
  have "jget (rebuilt_part (row_of oid t (p, f))) ''transaction_hash'' = JStr (tx_of p)"
    by (simp add: rebuilt_part_def jget_Cons)
  then show ?thesis by (simp add: tx_of_def)
qed

lemma row_of_cong:
  "tx_of p' = tx_of p \<Longrightarrow> jget p' ''trade_id'' = jget p ''trade_id''
   \<Longrightarrow> row_of oid t (p', f) = row_of oid t (p, f)"
  by (simp add: row_of_def matched_row_def)

lemma row_of_rebuilt [simp]:
  "row_of oid t (rebuilt_part (row_of oid t (p, f)), f) = row_of oid t (p, f)"
  by (rule row_of_cong) (simp, simp add: rebuilt_part_def jget_Cons)

lemma candidate_rebuilt:
  "candidate tx t (JObj (rebuilt_row (row_of oid t (p, f)))) \<longleftrightarrow> tx_of p = tx"
proof -
  have "py_lower (tx_of p) = tx_of p" by (simp add: tx_of_def)
  then show ?thesis by (simp add: candidate_def rebuilt_row_def jget_Cons)
qed

lemma linked_rebuilt:
  assumes "list_all (\<lambda>(p, f). linked oid t activity p f) zs" "distinct (map (tx_of \<circ> fst) zs)"
    and "(p, f) \<in> set zs"
  shows "linked oid t (list_of (rebuilt_activity (map (row_of oid t) zs)))
           (rebuilt_part (row_of oid t (p, f))) f"
proof -
  let ?row = "\<lambda>z. JObj (rebuilt_row (row_of oid t z))"
  have "filter (\<lambda>z. candidate (tx_of p) t (?row z)) zs = filter (\<lambda>z. (tx_of \<circ> fst) z = (tx_of \<circ> fst) (p, f)) zs"
    by (intro filter_cong) (auto simp: candidate_rebuilt)
  also have "\<dots> = [(p, f)]" by (rule filter_same_key [OF assms(2,3)])
  finally have one: "filter (candidate (tx_of p) t) (map ?row zs) = [?row (p, f)]"
    by (simp add: filter_map comp_def)
  have f: "linked oid t activity p f"
    using assms(1,3) by (auto simp: list_all_iff)
  have "linked oid t (map ?row zs) (rebuilt_part (row_of oid t (p, f))) f"
    unfolding linked_def [of _ _ "map _ _"] tx_of_rebuilt one
    using f by (simp add: linked_def rebuilt_part_def rebuilt_row_def jget_Cons row_mismatch_def
        dec_eq_def)
  then show ?thesis by (simp add: rebuilt_activity_def comp_def)
qed

text \<open>Replaying the evidence rows gives the same rows in the same order.\<close>

lemma replay_loop:
  assumes "list_all (\<lambda>(p, f). linked oid t activity p f) zs" "distinct (map (tx_of \<circ> fst) zs)"
  shows "cash_loop oid t (list_of (rebuilt_activity (map (row_of oid t) zs)))
           (map rebuilt_part (map (row_of oid t) zs)) cash_init
         = Inr (cash_extend oid t cash_init (map (\<lambda>(p, f). (rebuilt_part (row_of oid t (p, f)), f)) zs))"
proof -
  have "list_all (\<lambda>(p, f). linked oid t (list_of (rebuilt_activity (map (row_of oid t) zs))) p f)
      (map (\<lambda>(p, f). (rebuilt_part (row_of oid t (p, f)), f)) zs)"
    using linked_rebuilt [OF assms] by (auto simp: list_all_iff)
  moreover have "map tx_of (map rebuilt_part (map (row_of oid t) zs)) = map (tx_of \<circ> fst) zs"
    by auto
  moreover have "map fst (map (\<lambda>(p, f). (rebuilt_part (row_of oid t (p, f)), f)) zs)
      = map rebuilt_part (map (row_of oid t) zs)"
    by auto
  ultimately show ?thesis
    unfolding cash_loop_Inr using assms(2) by (metis cash_init_def inf_bot_right cash_state.select_convs(2) list.set(1))
qed

lemma replay_extend:
  "cash_extend oid t cash_init (map (\<lambda>(p, f). (rebuilt_part (row_of oid t (p, f)), f)) zs)
   = cash_extend oid t cash_init zs"
proof -
  let ?h = "\<lambda>(p, f). (rebuilt_part (row_of oid t (p, f)), f)"
  have "map (row_of oid t) (map ?h zs) = map (row_of oid t) zs"
    "map (tx_of \<circ> fst) (map ?h zs) = map (tx_of \<circ> fst) zs"
    "map snd (map ?h zs) = map snd zs"
    by auto
  then show ?thesis
    unfolding cash_extend_def by (simp only: map_map [symmetric])
qed

text \<open>The amounts in the evidence have at most \<open>k\<close> decimals and totals below \<open>10 ^ (28 - k)\<close>.\<close>

abbreviation evidence_rows :: "dict \<Rightarrow> dict list" where
  "evidence_rows r \<equiv>
     map obj_of (list_of (jget (obj_of (jget r ''actual_cash_debit_evidence'')) ''fills''))"

definition exact_rows :: "nat \<Rightarrow> dict list \<Rightarrow> bool" where
  "exact_rows k rows \<longleftrightarrow>
     list_all (\<lambda>key. case smap (\<lambda>row. number (jget row key)) rows of
                       Inl _ \<Rightarrow> False | Inr ds \<Rightarrow> exact_decs k ds)
       [''shares'', ''gross_consideration'', ''cash_debit'']"

lemma smap_row_numbers:
  "smap (\<lambda>row. number (jget row ''shares'')) (map (row_of oid t) zs)
     = Inr (map (f_quantity \<circ> snd) zs)"
  "smap (\<lambda>row. number (jget row ''gross_consideration'')) (map (row_of oid t) zs)
     = Inr (map (f_gross \<circ> snd) zs)"
  "smap (\<lambda>row. number (jget row ''cash_debit'')) (map (row_of oid t) zs)
     = Inr (map (f_cash \<circ> snd) zs)"
  by (induction zs) auto

lemma exact_rows_row_of:
  "exact_rows k (map (row_of oid t) zs) \<longleftrightarrow>
     exact_decs k (map (f_quantity \<circ> snd) zs) \<and> exact_decs k (map (f_gross \<circ> snd) zs)
     \<and> exact_decs k (map (f_cash \<circ> snd) zs)"
  by (simp add: exact_rows_def smap_row_numbers)

lemma cash_extend_totals:
  "cs_shares (cash_extend oid t cash_init zs) = dec_sum (map (f_quantity \<circ> snd) zs)"
  "cs_gross (cash_extend oid t cash_init zs) = dec_sum (map (f_gross \<circ> snd) zs)"
  "cs_debit (cash_extend oid t cash_init zs) = dec_sum (map (f_cash \<circ> snd) zs)"
  "cs_matched (cash_extend oid t cash_init zs) = map (row_of oid t) zs"
  by (simp_all add: cash_extend_def cash_init_def dec_sum_def)

lemma linked_cash:
  "linked oid t activity p f \<Longrightarrow> dec_val (f_gross f) \<le> dec_val (f_cash f) \<and> 0 < dec_val (f_cash f)"
  using dec_mul_pos [of "f_quantity f" "f_price f"]
  by (auto simp: linked_def valid_fill_def dec_lt_def)

lemma linked_sums:
  assumes "list_all (\<lambda>(p, f). linked oid t activity p f) zs"
  shows "sum_list (map (dec_val \<circ> f_gross \<circ> snd) zs) \<le> sum_list (map (dec_val \<circ> f_cash \<circ> snd) zs)"
    and "zs \<noteq> [] \<Longrightarrow> 0 < sum_list (map (dec_val \<circ> f_cash \<circ> snd) zs)"
proof -
  show "sum_list (map (dec_val \<circ> f_gross \<circ> snd) zs) \<le> sum_list (map (dec_val \<circ> f_cash \<circ> snd) zs)"
    using assms linked_cash by (intro sum_list_mono) (force simp: list_all_iff)
  have nonneg: "0 \<le> sum_list (map (dec_val \<circ> f_cash \<circ> snd) ys)" for ys
    by (rule sum_list_nonneg) auto
  show "0 < sum_list (map (dec_val \<circ> f_cash \<circ> snd) zs)" if "zs \<noteq> []"
  proof (cases zs)
    case (Cons z ys)
    then have "0 < dec_val (f_cash (snd z))"
      using assms linked_cash by (cases z) auto
    then show ?thesis using nonneg [of ys] Cons by simp
  qed (use that in simp)
qed

text \<open>The arithmetic of the totals: the printed charge reads back and adds up to the debit.\<close>

lemma charge_reads_back:
  assumes "dec_val gross \<le> dec_val debit" "dec_val debit * 10 ^ k < 10 ^ 28"
    and "- int k \<le> d_exp debit" "- int k \<le> d_exp gross"
  shows "\<exists>charge. number (JStr (dec_sub_str debit gross)) = Inr charge
           \<and> dec_eq debit (dec_add gross charge)"
proof -
  let ?c = "dec_dist debit gross"
  have c: "dec_val ?c = dec_val debit - dec_val gross" "- int k \<le> d_exp ?c"
    using dec_dist_exact [OF assms] by simp_all
  have "dec_fix (raw_add gross ?c) = raw_add gross ?c"
    by (rule dec_fix_exact [of k]) (use assms c in simp_all)
  then have "dec_val (dec_add gross ?c) = dec_val debit"
    using c by (simp add: dec_add_raw)
  moreover have "number (JStr (dec_sub_str debit gross)) = Inr ?c"
    using assms(1) by (simp add: dec_sub_str_def dec_lt_def)
  ultimately show ?thesis by (auto simp: dec_eq_def)
qed

text \<open>The evidence is written to keys apart from the ones it is bound to.\<close>

definition confirmed_keys :: "string list" where
  "confirmed_keys =
     [''cash_debit_status'', ''actual_cash_debit'', ''actual_additional_charge'',
      ''actual_gross_consideration_exact'', ''actual_filled_shares_exact'',
      ''actual_cash_debit_evidence'', ''actual_cash_debit_evidence_sha256'']"

lemma map_fst_confirmed: "map fst (confirmed_result sha bet st) = confirmed_keys"
  by (simp add: confirmed_result_def confirmed_keys_def Let_def)

lemma jget_confirmed:
  "jget (jupdate bet (confirmed_result sha bet' st)) k =
     (if k \<in> set confirmed_keys then jget (confirmed_result sha bet' st) k else jget bet k)"
  using jget_jupdate [of "confirmed_result sha bet' st" bet k]
  unfolding map_fst_confirmed by (simp add: confirmed_keys_def)

lemma fill_binding_confirmed [simp]:
  "fill_binding (jupdate bet (confirmed_result sha bet' st)) = fill_binding bet"
  by (simp add: fill_binding_def binding_keys_def jget_confirmed confirmed_keys_def)

text \<open>
  Replaying the sorted rows of the evidence on the enriched bet gives the same digest.
\<close>

lemma observed_replay:
  assumes "identified bet order activity"
    and fst: "map fst pfs = order_parts order"
    and linked: "list_all (\<lambda>(p, f). linked (bet_order_id bet) (bet_token_id bet) (list_of activity) p f)
      pfs"
    and dist: "distinct (map tx_of (order_parts order))"
    and tot: "totals_match bet (cash_extend (bet_order_id bet) (bet_token_id bet) cash_init pfs)"
    and exact: "exact_rows k (map (row_of (bet_order_id bet) (bet_token_id bet)) zs)"
    and zs: "zs = sort_key (trade_id_of \<circ> row_of (bet_order_id bet) (bet_token_id bet)) pfs"
    and st: "st = cash_extend (bet_order_id bet) (bet_token_id bet) cash_init pfs"
    and bet': "bet' = jupdate bet (confirmed_result sha bet st)"
    and rows: "rows = map (row_of (bet_order_id bet) (bet_token_id bet)) zs"
  shows "observed_cash_debit sha bet' (rebuilt_order rows) (rebuilt_activity rows)
    = Inr (confirmed_result sha bet st)"
proof -
  let ?o = "bet_order_id bet" and ?t = "bet_token_id bet"
  have perm: "mset zs = mset pfs" by (simp add: zs)
  have same: "jget bet' key = jget bet key"
    if "key \<in> {''order_id'', ''token_id'', ''actual_fill_trade_ids'', ''actual_filled_shares'',
      ''actual_fill_amount''}" for key
    unfolding bet' jget_confirmed using that by (auto simp: confirmed_keys_def)
  have linked': "list_all (\<lambda>(p, f). linked ?o ?t (list_of activity) p f) zs"
    using linked mset_eq_setD [OF perm] by (simp add: list_all_iff)
  have dist': "distinct (map (tx_of \<circ> fst) zs)"
  proof -
    have "distinct (map (tx_of \<circ> fst) pfs)"
      using dist unfolding fst [symmetric] map_map .
    moreover have "mset (map (tx_of \<circ> fst) zs) = mset (map (tx_of \<circ> fst) pfs)"
      unfolding mset_map perm by (rule refl)
    ultimately show ?thesis using mset_eq_imp_distinct_iff by blast
  qed
  let ?st' = "cash_extend ?o ?t cash_init zs"
  have totals: "cs_shares ?st' = cs_shares st" "cs_gross ?st' = cs_gross st" "cs_debit ?st' = cs_debit st"
    using exact unfolding st cash_extend_totals exact_rows_row_of
    by (auto intro!: dec_sum_perm simp: perm)
  have matched: "sort_key trade_id_of (cs_matched ?st') = sort_key trade_id_of (cs_matched st)"
    by (simp add: st cash_extend_totals zs sort_key_map comp_def sort_key_id_if_sorted)
  have "confirmed_result sha bet' ?st' = confirmed_result sha bet st"
    by (simp add: confirmed_result_def evidence_of_def Let_def totals matched)
       (simp add: bet')
  moreover have "totals_match bet' ?st'"
    using tot unfolding totals_match_def totals st [symmetric] by (simp add: same)
  moreover have "cash_loop ?o ?t (list_of (rebuilt_activity rows)) (map rebuilt_part rows) cash_init
      = Inr ?st'"
    using replay_loop [OF linked' dist'] unfolding replay_extend rows .
  moreover have "order_parts (rebuilt_order rows) = map rebuilt_part rows"
    by (simp add: rebuilt_order_def jget_Cons comp_def)
  moreover have "identified bet' (rebuilt_order rows) (rebuilt_activity rows)"
  proof -
    let ?ids = "list_of (jget bet ''actual_fill_trade_ids'')"
    have trade: "jget (rebuilt_part (row_of ?o ?t z)) ''trade_id'' = jget (fst z) ''trade_id''" for z
      by (cases z) (simp add: rebuilt_part_def jget_Cons)
    have len: "length rows = length ?ids"
      using assms(1) unfolding rows identified_def Let_def fst [symmetric] by (simp add: zs)
    have ids: "set (map (\<lambda>p. jget p ''trade_id'') (map rebuilt_part rows)) = set ?ids"
      using assms(1) mset_eq_setD [OF perm]
      unfolding rows identified_def Let_def fst [symmetric] by (simp add: image_image trade)
    have avail: "identity_available bet order" using assms(1) by (simp add: identified_def Let_def)
    then have good: "list_all nonblank_str ?ids" "?ids \<noteq> []"
      by (simp_all add: identity_available_def Let_def)
    have "list_all (\<lambda>p. nonblank_str (jget p ''trade_id'')) (map rebuilt_part rows)"
      using good(1) ids by (auto simp: list_all_iff)
    moreover have "rows \<noteq> []" using len good(2) by auto
    ultimately have "identity_available bet' (rebuilt_order rows)"
      using avail by (simp add: identity_available_def Let_def same rebuilt_order_def jget_Cons
          list_all_iff)
    then show ?thesis
      using len ids by (simp add: identified_def Let_def same rebuilt_order_def jget_Cons
          rebuilt_activity_def comp_def)
  qed
  ultimately show ?thesis
    unfolding observed_Inr by (simp add: same)
qed

lemma confirmed_fields:
  defines "ev st bet \<equiv> JObj (evidence_of bet (cs_matched st))"
  shows "jget (confirmed_result sha bet st) ''cash_debit_status'' = JStr ''confirmed''"
    "jget (confirmed_result sha bet st) ''actual_cash_debit'' = JStr (dec_str (cs_debit st))"
    "jget (confirmed_result sha bet st) ''actual_additional_charge''
       = JStr (dec_sub_str (cs_debit st) (cs_gross st))"
    "jget (confirmed_result sha bet st) ''actual_gross_consideration_exact''
       = JStr (dec_str (cs_gross st))"
    "jget (confirmed_result sha bet st) ''actual_filled_shares_exact''
       = JStr (dec_str (cs_shares st))"
    "jget (confirmed_result sha bet st) ''actual_cash_debit_evidence'' = ev st bet"
    "jget (confirmed_result sha bet st) ''actual_cash_debit_evidence_sha256''
       = JStr (sha (json_dumps (ev st bet)))"
  by (simp_all add: ev_def confirmed_result_def Let_def jget_Cons)

lemma jget_evidence:
  "jget (evidence_of bet matched) ''binding'' = JObj (fill_binding bet)"
  "jget (evidence_of bet matched) ''fills'' = JList (map JObj (sort_key trade_id_of matched))"
  by (simp_all add: evidence_of_def jget_Cons)

lemma map_obj_of_JObj [simp]: "map (obj_of \<circ> JObj) rows = rows" "map obj_of (map JObj rows) = rows"
  by (simp_all add: comp_def)

lemma fills_agree_rows:
  assumes "exact_rows k (map (row_of oid t) zs)" "zs \<noteq> []"
    and "number sx = Inr (dec_sum (map (f_quantity \<circ> snd) zs))"
  shows "fills_agree (JList (map JObj (map (row_of oid t) zs))) (dec_sum (map (f_cash \<circ> snd) zs))
      (dec_sum (map (f_gross \<circ> snd) zs)) sx = Inr True"
proof -
  have objs: "list_all is_obj (map JObj rows)" for rows by (simp add: list_all_iff)
  have "sum_field ''cash_debit'' (map (row_of oid t) zs) = Inr (dec_sum (map (f_cash \<circ> snd) zs))"
    "sum_field ''gross_consideration'' (map (row_of oid t) zs) = Inr (dec_sum (map (f_gross \<circ> snd) zs))"
    "sum_field ''shares'' (map (row_of oid t) zs) = Inr (dec_sum (map (f_quantity \<circ> snd) zs))"
    unfolding sum_field_def smap_row_numbers by simp_all
  then show ?thesis
    unfolding fills_agree_def Let_def list_of.simps map_obj_of_JObj
    using assms(2,3) objs [of "map (row_of oid t) zs"] by (simp add: dec_eq_def)
qed

lemma verify_observed:
  assumes obs: "observed_cash_debit sha bet order activity = Inr r"
    and exact: "exact_rows k (evidence_rows r)"
    and wf: "jwf (JObj (fill_binding bet))"
  shows "\<exists>d. jget r ''actual_cash_debit'' = JStr (dec_str d)
           \<and> 0 < dec_val d
           \<and> verified_cash_debit sha (jupdate bet r) = Inr d"
proof -
  let ?o = "bet_order_id bet" and ?t = "bet_token_id bet"
  obtain pfs where id: "identified bet order activity" and fst: "map fst pfs = order_parts order"
    and linked: "list_all (\<lambda>(p, f). linked ?o ?t (list_of activity) p f) pfs"
    and dist: "distinct (map tx_of (order_parts order))"
    and tot: "totals_match bet (cash_extend ?o ?t cash_init pfs)"
    and r: "r = confirmed_result sha bet (cash_extend ?o ?t cash_init pfs)"
    using obs unfolding observed_Inr cash_loop_Inr by (auto simp: cash_init_def)
  define st where "st = cash_extend ?o ?t cash_init pfs"
  define zs where "zs = sort_key (trade_id_of \<circ> row_of ?o ?t) pfs"
  define rows where "rows = map (row_of ?o ?t) zs"
  define bet' where "bet' = jupdate bet (confirmed_result sha bet st)"
  have sorted_rows: "sort_key trade_id_of (cs_matched st) = rows"
    by (simp add: st_def cash_extend_totals rows_def zs_def sort_key_map comp_def)
  have exact_zs: "exact_rows k (map (row_of ?o ?t) zs)"
    using exact unfolding r st_def [symmetric] confirmed_fields obj_of.simps jget_evidence
      list_of.simps map_obj_of_JObj sorted_rows rows_def .
  note replay = observed_replay [OF id fst linked dist tot exact_zs zs_def st_def bet'_def rows_def]
  note totals = cash_extend_totals [of ?o ?t pfs, folded st_def]
  have perm: "mset zs = mset pfs" by (simp add: zs_def)
  have ex: "exact_decs k (map (f_quantity \<circ> snd) zs)" "exact_decs k (map (f_gross \<circ> snd) zs)"
    "exact_decs k (map (f_cash \<circ> snd) zs)"
    using exact_zs by (simp_all add: exact_rows_row_of)
  then have sums: "cs_shares st = dec_sum (map (f_quantity \<circ> snd) zs)"
    "cs_gross st = dec_sum (map (f_gross \<circ> snd) zs)" "cs_debit st = dec_sum (map (f_cash \<circ> snd) zs)"
    unfolding totals by (auto intro!: dec_sum_perm [symmetric] simp: perm)
  have linked': "list_all (\<lambda>(p, f). linked ?o ?t (list_of activity) p f) zs"
    using linked mset_eq_setD [OF perm] by (simp add: list_all_iff)
  have ne: "zs \<noteq> []"
  proof -
    have "order_parts order \<noteq> []"
      using id by (simp add: identified_def identity_available_def Let_def)
    then show ?thesis using fst perm by (metis list.simps(8) mset_zero_iff)
  qed
  have pos: "0 < dec_val (cs_debit st)" and le: "dec_val (cs_gross st) \<le> dec_val (cs_debit st)"
    using linked_sums [OF linked'] ne unfolding sums
    by (simp_all add: dec_sum_exact(2) [OF ex(2)] dec_sum_exact(2) [OF ex(3)] comp_assoc)
  have "dec_val (cs_debit st) * 10 ^ k < 10 ^ 28"
    using ex(3) unfolding sums dec_sum_exact(2) [OF ex(3)] by (simp add: exact_decs_def)
  then obtain charge where charge: "number (JStr (dec_sub_str (cs_debit st) (cs_gross st))) = Inr charge"
      "dec_eq (cs_debit st) (dec_add (cs_gross st) charge)"
    using charge_reads_back [OF le _ d_exp_dec_sum [OF ex(3), folded sums]
        d_exp_dec_sum [OF ex(2), folded sums]] by blast
  have agree: "fills_agree (JList (map JObj rows)) (cs_debit st) (cs_gross st)
      (JStr (dec_str (cs_shares st))) = Inr True"
    unfolding rows_def sums by (rule fills_agree_rows [OF exact_zs ne]) simp
  have fields: "jget bet' key = jget (confirmed_result sha bet st) key" if "key \<in> set confirmed_keys"
    for key
    unfolding bet'_def jget_confirmed using that by simp
  have bind: "fill_binding bet' = fill_binding bet" by (simp add: bet'_def)
  have self: "py_eq_items (fill_binding bet) (fill_binding bet)"
    using py_eq_refl [OF wf] by simp
  have "verified_cash_debit sha bet' = Inr (cs_debit st)"
    unfolding verified_cash_debit_def Let_def
    by (simp add: fields confirmed_keys_def confirmed_fields jget_evidence sorted_rows charge agree
        replay pos dec_lt_def bind self)
  then show ?thesis
    using pos unfolding r st_def [symmetric] bet'_def by (auto simp: confirmed_fields)
qed

text \<open>
  C13: Saved evidence verifies: when a bet is enriched with the evidence just produced for it,
  the check that accounting makes accepts it and returns exactly the debit that was written,
  whatever the digest function, as long as the amounts are not so long that the 28-digit
  context rounds their sums.
\<close>

theorem observed_then_verified:
  assumes "observed_cash_debit sha bet order activity = Inr r"
    and "exact_rows k (evidence_rows r)"
    and "jwf (JObj (fill_binding bet))"
  shows "\<exists>d. jget r ''actual_cash_debit'' = JStr (dec_str d)
           \<and> 0 < dec_val d
           \<and> verified_cash_debit sha (jupdate bet r) = Inr d"
  by (rule verify_observed [OF assms])

text \<open>A filled order with two trades, used to run the operations.\<close>

definition demo_part :: "string \<Rightarrow> string \<Rightarrow> string \<Rightarrow> dict" where
  "demo_part trade tx shares =
     [(''trade_id'', JStr trade), (''order_id'', JStr ''o1''), (''token_id'', JStr ''t1''),
      (''role'', JStr ''taker''), (''side'', JStr ''BUY''), (''transaction_hash'', JStr tx),
      (''shares'', JStr shares), (''price'', JStr ''0.5'')]"

definition demo_activity_row :: "string \<Rightarrow> string \<Rightarrow> string \<Rightarrow> dict" where
  "demo_activity_row tx shares cash =
     [(''transactionHash'', JStr tx), (''asset'', JStr ''t1''), (''type'', JStr ''TRADE''),
      (''side'', JStr ''BUY''), (''size'', JStr shares), (''price'', JStr ''0.50''),
      (''usdcSize'', JStr cash), (''timestamp'', JInt 1790000000)]"

definition demo_bet :: dict where
  "demo_bet =
     [(''order_id'', JStr ''o1''), (''token_id'', JStr ''t1''),
      (''actual_fill_amount'', JInt 6), (''actual_filled_shares'', JInt 12),
      (''actual_fill_price'', JFloat (Fin (1 / 2))), (''actual_fill_source'', JStr ''clob''),
      (''actual_fill_trade_ids'', JList [JStr ''b'', JStr ''a''])]"

definition demo_order :: dict where
  "demo_order =
     [(''actual_fill_trade_components'',
       JList [JObj (demo_part ''b'' ''0xA'' ''10''), JObj (demo_part ''a'' ''0xB'' ''2'')])]"

definition demo_activity :: json where
  "demo_activity =
     JList [JObj (demo_activity_row ''0xb'' ''2'' ''1.02''), JObj (demo_activity_row ''0xa'' ''10'' ''5.1'')]"

definition demo_state :: cash_state where
  "demo_state =
     (case cash_loop ''o1'' ''t1'' (list_of demo_activity) (order_parts demo_order) cash_init of
        Inr st \<Rightarrow> st | Inl _ \<Rightarrow> cash_init)"

definition demo_confirmed :: dict where
  "demo_confirmed = confirmed_result id demo_bet demo_state"

lemma demo_loop:
  "cash_loop ''o1'' ''t1'' (list_of demo_activity) (order_parts demo_order) cash_init = Inr demo_state"
  by code_simp

lemma demo_observed: "observed_cash_debit id demo_bet demo_order demo_activity = Inr demo_confirmed"
proof -
  have "identified demo_bet demo_order demo_activity" by code_simp
  moreover have "totals_match demo_bet demo_state" by code_simp
  moreover have "bet_order_id demo_bet = ''o1''" "bet_token_id demo_bet = ''t1''" by code_simp+
  ultimately show ?thesis
    unfolding observed_Inr by (simp add: demo_loop demo_confirmed_def)
qed

lemma demo_exact: "exact_rows 12 (evidence_rows demo_confirmed)"
proof -
  have "exact_rows 12 (sort_key trade_id_of (cs_matched demo_state))" by code_simp
  then show ?thesis
    by (simp add: demo_confirmed_def confirmed_fields jget_evidence)
qed

lemma demo_jwf: "jwf (JObj (fill_binding demo_bet))"
  by code_simp

theorem observed_then_verified_witness:
  "\<exists>d. jget demo_confirmed ''actual_cash_debit'' = JStr (dec_str d)
       \<and> 0 < dec_val d \<and> verified_cash_debit id (jupdate demo_bet demo_confirmed) = Inr d"
  by (rule observed_then_verified [OF demo_observed demo_exact demo_jwf])

text \<open>
  C27: A saved cash debit that verifies is backed by its evidence: it is positive, its digest and
  its binding to the original fill are intact, every row of the evidence replays as a taker
  purchase linked to an activity of its own transaction that cost at least its gross
  consideration, and the rows' cash adds up to the debit.
\<close>

theorem verified_cash_debit_sound:
  assumes "verified_cash_debit sha bet = Inr d"
  defines "rows \<equiv> evidence_rows bet"
  shows "0 < dec_val d \<and> number (jget bet ''actual_cash_debit'') = Inr d
    \<and> jget bet ''actual_cash_debit_evidence_sha256''
        = JStr (sha (json_dumps (jget bet ''actual_cash_debit_evidence'')))
    \<and> py_eq (jget (obj_of (jget bet ''actual_cash_debit_evidence'')) ''binding'')
        (JObj (fill_binding bet))
    \<and> (\<exists>c. sum_field ''cash_debit'' rows = Inr c \<and> dec_val c = dec_val d)
    \<and> (\<exists>pfs. map fst pfs = map rebuilt_part rows
         \<and> list_all (\<lambda>(p, f). linked (bet_order_id bet) (bet_token_id bet)
                       (list_of (rebuilt_activity rows)) p f) pfs
         \<and> distinct (map tx_of (map rebuilt_part rows)))"
proof -
  have "\<exists>debit gross charge. number (jget bet ''actual_cash_debit'') = Inr d \<and> 0 < dec_val d
      \<and> fills_agree (jget (obj_of (jget bet ''actual_cash_debit_evidence'')) ''fills'') d gross
          (jget bet ''actual_filled_shares_exact'') = Inr True
      \<and> (\<exists>r. observed_cash_debit sha bet (rebuilt_order rows) (rebuilt_activity rows) = Inr r)"
    using assms(1) unfolding verified_cash_debit_def Let_def rows_def
    by (auto simp: sbind_eq_Inr dec_lt_def split: if_splits)
  moreover have "order_parts (rebuilt_order rows) = map rebuilt_part rows"
    by (simp add: rebuilt_order_def jget_Cons comp_def)
  moreover have "\<exists>c. sum_field ''cash_debit'' rows = Inr c \<and> dec_val c = dec_val d"
    if "fills_agree (jget (obj_of (jget bet ''actual_cash_debit_evidence'')) ''fills'') d gross sx
        = Inr True" for gross sx
    using that unfolding fills_agree_def Let_def rows_def
    by (auto simp: sbind_eq_Inr dec_eq_def split: if_splits)
  ultimately show ?thesis
    using assms(1) unfolding verified_cash_debit_def Let_def observed_Inr cash_loop_Inr
    by (auto split: if_splits)
qed

theorem verified_cash_debit_sound_witness:
  "\<exists>d. verified_cash_debit id (jupdate demo_bet demo_confirmed) = Inr d \<and> 0 < dec_val d"
proof -
  obtain d where v: "verified_cash_debit id (jupdate demo_bet demo_confirmed) = Inr d"
    using verify_observed [OF demo_observed demo_exact demo_jwf] by blast
  with verified_cash_debit_sound [OF v] show ?thesis by blast
qed

text \<open>
  Evidence is bound to the fill it was made for: on a bet that differs from the original in
  any of the order, the token, the filled amount, quantity, price, source or trade identities,
  the evidence of the original is refused.
\<close>

theorem foreign_evidence_refused:
  assumes "jget (obj_of (jget bet ''actual_cash_debit_evidence'')) ''binding''
      = JObj (fill_binding original)"
    and "key \<in> set binding_keys" "\<not> py_eq (jget original key) (jget bet key)"
  shows "verified_cash_debit sha bet = Inl ''cash_debit_not_confirmed_for_original_fill''"
proof -
  have "\<not> py_eq (JObj (fill_binding original)) (JObj (fill_binding bet))"
    using assms(2,3) by (auto simp: fill_binding_def binding_keys_def)
  then show ?thesis using assms(1) by (simp add: verified_cash_debit_def Let_def)
qed

theorem foreign_evidence_refused_witness:
  "verified_cash_debit id (jset ''actual_fill_amount'' (JInt 5) (jupdate demo_bet demo_confirmed))
   = Inl ''cash_debit_not_confirmed_for_original_fill''"
proof (rule foreign_evidence_refused [of _ demo_bet "''actual_fill_amount''"])
  show "\<not> py_eq (jget demo_bet ''actual_fill_amount'')
      (jget (jset ''actual_fill_amount'' (JInt 5) (jupdate demo_bet demo_confirmed))
        ''actual_fill_amount'')"
    by (simp add: demo_bet_def jget_Cons num_eq_def feq_def)
qed (simp_all add: demo_confirmed_def jget_confirmed confirmed_keys_def confirmed_fields
    jget_evidence binding_keys_def)

end
