(* ===== verification/Value.thy ===== *)
theory Value
  imports Py_Text
begin

text \<open>
  \<^verbatim>\<open>src/strategy/value.py\<close> with its constants from \<^verbatim>\<open>src/config.py\<close>: which side of a fight is
  worth a bet. A prediction row is a dictionary; a returned bet is one too. Probabilities and
  edges are binary64 values, so every comparison below is the one the hardware makes.
  Fighter names that only reach log messages are left out. The final sort of the result
  table is done by pandas and is the argument \<open>sort_values\<close>.
\<close>

section \<open>Constants\<close>

definition BLEND_WEIGHT :: pyfloat where "BLEND_WEIGHT = lit (30 / 100)"
definition MIN_EDGE_THRESHOLD :: pyfloat where "MIN_EDGE_THRESHOLD = lit (2 / 100)"
definition REQUIRE_MODEL_AGREEMENT :: bool where "REQUIRE_MODEL_AGREEMENT = True"
definition MODEL_AGREEMENT_MIN_EDGE :: pyfloat where "MODEL_AGREEMENT_MIN_EDGE = lit (1 / 100)"
definition BLEND_WEIGHT_MIN :: pyfloat where "BLEND_WEIGHT_MIN = lit (15 / 100)"
definition BLEND_WEIGHT_MAX :: pyfloat where "BLEND_WEIGHT_MAX = lit (50 / 100)"
definition BLEND_CONFIDENCE_THRESHOLD :: pyfloat where
  "BLEND_CONFIDENCE_THRESHOLD = lit (65 / 100)"
definition BLEND_AGREEMENT_BOOST :: pyfloat where "BLEND_AGREEMENT_BOOST = lit (10 / 100)"
definition LINE_MOVEMENT_FILTER :: bool where "LINE_MOVEMENT_FILTER = False"
definition LINE_AGAINST_EXTRA_EDGE :: pyfloat where "LINE_AGAINST_EXTRA_EDGE = lit (2 / 100)"
definition LINE_SHARP_BLOCK :: bool where "LINE_SHARP_BLOCK = False"
definition MIN_FIGHTER_FIGHTS :: int where "MIN_FIGHTER_FIGHTS = 2"
definition NEWBIE_FIGHTS_THRESHOLD :: int where "NEWBIE_FIGHTS_THRESHOLD = 3"
definition NEWBIE_MAJOR_EXTRA_EDGE :: pyfloat where "NEWBIE_MAJOR_EXTRA_EDGE = lit (2 / 100)"
definition NEWBIE_FEEDER_EXTRA_EDGE :: pyfloat where "NEWBIE_FEEDER_EXTRA_EDGE = lit (3 / 100)"
definition NEWBIE_REGIONAL_EXTRA_EDGE :: pyfloat where
  "NEWBIE_REGIONAL_EXTRA_EDGE = lit (4 / 100)"
definition NEWBIE_SIZE_MULTIPLIER :: pyfloat where "NEWBIE_SIZE_MULTIPLIER = lit (50 / 100)"
definition NEWBIE_SKIP_ZERO_FIGHTS_REGIONAL :: bool where
  "NEWBIE_SKIP_ZERO_FIGHTS_REGIONAL = True"
definition MIN_MODEL_PROB :: pyfloat where "MIN_MODEL_PROB = lit (40 / 100)"
definition MAX_DECIMAL_ODDS :: pyfloat where "MAX_DECIMAL_ODDS = lit 3"
definition EDGE_SCALING_BASE :: pyfloat where "EDGE_SCALING_BASE = lit (2 / 100)"
definition EDGE_SCALING_RATE :: pyfloat where "EDGE_SCALING_RATE = lit (2 / 100)"
definition CONVICTION_MIN_MODEL_PROB :: pyfloat where
  "CONVICTION_MIN_MODEL_PROB = lit (65 / 100)"
definition CONVICTION_MIN_NO_ODDS_PROB :: pyfloat where
  "CONVICTION_MIN_NO_ODDS_PROB = lit (50 / 100)"
definition CONVICTION_BET_FRACTION :: pyfloat where "CONVICTION_BET_FRACTION = lit (5 / 100)"
definition CONVICTION_CONFIDENCE_BONUS :: pyfloat where
  "CONVICTION_CONFIDENCE_BONUS = lit (1 / 100)"
definition CONVICTION_MAX_BET_FRACTION :: pyfloat where
  "CONVICTION_MAX_BET_FRACTION = lit (8 / 100)"

section \<open>Reading values\<close>

definition valid_prob :: "pyfloat \<Rightarrow> bool" where
  "valid_prob p \<longleftrightarrow> is_fin p \<and> fle (Fin 0) p \<and> fle p (Fin 1)"

definition coerce_probability :: "json \<Rightarrow> pyfloat option" where
  "coerce_probability value =
     (case float_of value of
        None \<Rightarrow> None
      | Some prob \<Rightarrow> if valid_prob prob then Some prob else None)"

definition first_valid_probability :: "json list \<Rightarrow> pyfloat \<Rightarrow> pyfloat" where
  "first_valid_probability values fallback =
     (case filter (\<lambda>v. coerce_probability v \<noteq> None) values of
        [] \<Rightarrow> fallback
      | v # _ \<Rightarrow> the (coerce_probability v))"

definition coerce_optional_float :: "json \<Rightarrow> pyfloat option" where
  "coerce_optional_float value =
     (case float_of value of
        None \<Rightarrow> None
      | Some r \<Rightarrow> if is_fin r then Some r else None)"

text \<open>\<open>int(x)\<close> of a finite float truncates towards zero.\<close>

definition int_of :: "pyfloat \<Rightarrow> int" where
  "int_of x = (case x of Fin a \<Rightarrow> if a < 0 then \<lceil>a\<rceil> else \<lfloor>a\<rfloor> | _ \<Rightarrow> 0)"

definition coerce_optional_int :: "json \<Rightarrow> int option" where
  "coerce_optional_int value = map_option int_of (coerce_optional_float value)"

definition opt_int :: "int option \<Rightarrow> json" where
  "opt_int v = (case v of None \<Rightarrow> JNull | Some i \<Rightarrow> JInt i)"

definition opt_float :: "pyfloat option \<Rightarrow> json" where
  "opt_float v = (case v of None \<Rightarrow> JNull | Some x \<Rightarrow> JFloat x)"

section \<open>Odds and blending\<close>

text \<open>A quotient whose divisor the surrounding code has found to be positive.\<close>

definition fquot :: "pyfloat \<Rightarrow> pyfloat \<Rightarrow> pyfloat" where
  "fquot x y = (case fdiv x y of None \<Rightarrow> NaN | Some q \<Rightarrow> q)"

definition decimal_odds_to_implied_prob :: "pyfloat \<Rightarrow> pyfloat" where
  "decimal_odds_to_implied_prob odds =
     (if fle odds (Fin 0) then Fin 0 else fquot (Fin 1) odds)"

definition implied_prob_to_decimal_odds :: "pyfloat \<Rightarrow> pyfloat" where
  "implied_prob_to_decimal_odds prob =
     (if fle prob (Fin 0) then PInf else fquot (Fin 1) prob)"

definition remove_vig :: "pyfloat \<Rightarrow> pyfloat \<Rightarrow> pyfloat \<times> pyfloat" where
  "remove_vig prob_a prob_b =
     (let total = fadd prob_a prob_b
      in if feq total (Fin 0) then (lit (1 / 2), lit (1 / 2))
         else (fquot prob_a total, fquot prob_b total))"

definition fclip :: "pyfloat \<Rightarrow> pyfloat \<Rightarrow> pyfloat \<Rightarrow> pyfloat" where
  "fclip x lo hi = (if x = NaN then NaN else if flt x lo then lo else if flt hi x then hi else x)"

definition conf_cut :: pyfloat where
  "conf_cut = fmul (fsub BLEND_CONFIDENCE_THRESHOLD (lit (1 / 2))) (Fin 2)"

definition dynamic_blend_weight ::
  "pyfloat \<Rightarrow> pyfloat \<Rightarrow> json \<Rightarrow> pyfloat \<Rightarrow> pyfloat" where
  "dynamic_blend_weight model_prob market_prob no_odds_prob base_weight =
     (let confidence = fmul (fabs (fsub model_prob (lit (1 / 2)))) (Fin 2);
          weight =
            (if flt conf_cut confidence then
               (let t = py_min (Fin 1) (fquot (fsub confidence conf_cut) (fsub (Fin 1) conf_cut))
                in fadd base_weight (fmul t (fsub BLEND_WEIGHT_MAX base_weight)))
             else
               (let t = fquot confidence (py_max (lit (1 / 100)) conf_cut)
                in fadd BLEND_WEIGHT_MIN (fmul t (fsub base_weight BLEND_WEIGHT_MIN))));
          weight =
            (case coerce_probability no_odds_prob of
               None \<Rightarrow> weight
             | Some p \<Rightarrow>
                 (let model_direction = fsub model_prob market_prob;
                      no_odds_direction = fsub p market_prob
                  in if flt (Fin 0) model_direction \<and> flt (lit (5 / 100)) no_odds_direction
                        \<or> flt model_direction (Fin 0)
                          \<and> flt no_odds_direction (fneg (lit (5 / 100)))
                     then py_min BLEND_WEIGHT_MAX (fadd weight BLEND_AGREEMENT_BOOST)
                     else weight))
      in fclip weight BLEND_WEIGHT_MIN BLEND_WEIGHT_MAX)"

definition blend_probability :: "pyfloat \<Rightarrow> pyfloat \<Rightarrow> pyfloat \<Rightarrow> pyfloat" where
  "blend_probability model_prob market_prob weight =
     fadd (fmul weight model_prob) (fmul (fsub (Fin 1) weight) market_prob)"

definition compute_independent_blend_probs ::
  "pyfloat \<Rightarrow> pyfloat \<Rightarrow> json \<Rightarrow> pyfloat \<Rightarrow> pyfloat \<Rightarrow> json \<Rightarrow> pyfloat \<Rightarrow> pyfloat \<times> pyfloat" where
  "compute_independent_blend_probs model_a market_a no_odds_a model_b market_b no_odds_b base_weight =
     (let weight_a = dynamic_blend_weight model_a market_a
                       (opt_float (coerce_probability no_odds_a)) base_weight;
          weight_b = dynamic_blend_weight model_b market_b
                       (opt_float (coerce_probability no_odds_b)) base_weight;
          raw_a = blend_probability model_a market_a weight_a;
          raw_b = blend_probability model_b market_b weight_b;
          total = fadd raw_a raw_b
      in if flt (Fin 0) total then (fquot raw_a total, fquot raw_b total)
         else (lit (1 / 2), lit (1 / 2)))"

definition scaled_min_edge :: "pyfloat \<Rightarrow> pyfloat option \<Rightarrow> pyfloat" where
  "scaled_min_edge decimal_odds base =
     (let b = (case base of None \<Rightarrow> EDGE_SCALING_BASE | Some x \<Rightarrow> x)
      in if fle decimal_odds (Fin 2) then b
         else fadd b (fmul EDGE_SCALING_RATE (fsub decimal_odds (Fin 2))))"

section \<open>Fighters with few fights\<close>

record newbie_rule =
  nr_name :: string
  nr_mode :: string
  nr_min_fights :: int
  nr_threshold :: int
  nr_major_edge :: pyfloat
  nr_feeder_edge :: pyfloat
  nr_regional_edge :: pyfloat
  nr_size :: pyfloat
  nr_skip_zero_regional :: bool

record newbie_adjustment =
  na_allowed :: bool
  na_extra_edge :: pyfloat
  na_size :: pyfloat
  na_is_newbie :: bool
  na_reason :: string

definition rule_of :: "string \<Rightarrow> string \<Rightarrow> int \<Rightarrow> int \<Rightarrow> newbie_rule" where
  "rule_of name mode min_fights threshold =
     \<lparr>nr_name = name, nr_mode = mode, nr_min_fights = min_fights, nr_threshold = threshold,
      nr_major_edge = NEWBIE_MAJOR_EXTRA_EDGE, nr_feeder_edge = NEWBIE_FEEDER_EXTRA_EDGE,
      nr_regional_edge = NEWBIE_REGIONAL_EXTRA_EDGE, nr_size = NEWBIE_SIZE_MULTIPLIER,
      nr_skip_zero_regional = NEWBIE_SKIP_ZERO_FIGHTS_REGIONAL\<rparr>"

definition DEFAULT_NEWBIE_RULE :: newbie_rule where
  "DEFAULT_NEWBIE_RULE =
     rule_of (''hard_skip_min_'' @ int_text MIN_FIGHTER_FIGHTS) ''hard_skip''
       MIN_FIGHTER_FIGHTS NEWBIE_FIGHTS_THRESHOLD"

definition LEGACY_BASELINE_NEWBIE_RULE :: newbie_rule where
  "LEGACY_BASELINE_NEWBIE_RULE = rule_of ''hard_skip_min_3'' ''hard_skip'' 3 3"

definition THRESHOLD_DROP_NEWBIE_RULE :: newbie_rule where
  "THRESHOLD_DROP_NEWBIE_RULE = rule_of ''hard_skip_min_2'' ''hard_skip'' 2 3"

definition TIERED_ORG_AWARE_NEWBIE_RULE :: newbie_rule where
  "TIERED_ORG_AWARE_NEWBIE_RULE =
     rule_of ''tiered_org_aware'' ''tiered'' MIN_FIGHTER_FIGHTS NEWBIE_FIGHTS_THRESHOLD"

datatype tier = Major | Feeder | Regional

definition normalize_org_tier :: "json \<Rightarrow> tier option" where
  "normalize_org_tier org_tier =
     (case coerce_optional_float org_tier of
        None \<Rightarrow> None
      | Some x \<Rightarrow> if fle x (lit (3 / 2)) then Some Major
                  else if fle x (lit (5 / 2)) then Some Feeder else Some Regional)"

definition tier_label :: "tier option \<Rightarrow> string" where
  "tier_label t = (case t of Some Major \<Rightarrow> ''major'' | Some Feeder \<Rightarrow> ''feeder''
                   | Some Regional \<Rightarrow> ''regional'' | None \<Rightarrow> ''unknown'')"

definition allowed_plain :: newbie_adjustment where
  "allowed_plain = \<lparr>na_allowed = True, na_extra_edge = Fin 0, na_size = Fin 1,
                    na_is_newbie = False, na_reason = []\<rparr>"

definition skip_because :: "string \<Rightarrow> newbie_adjustment" where
  "skip_because reason = allowed_plain\<lparr>na_allowed := False, na_reason := reason\<rparr>"

definition newbie_with :: "newbie_rule \<Rightarrow> pyfloat \<Rightarrow> string \<Rightarrow> newbie_adjustment" where
  "newbie_with rule extra reason =
     \<lparr>na_allowed = True, na_extra_edge = extra, na_size = nr_size rule,
      na_is_newbie = True, na_reason = reason\<rparr>"

definition fighter_newbie_adjustment ::
  "json \<Rightarrow> json \<Rightarrow> string \<Rightarrow> newbie_rule \<Rightarrow> newbie_adjustment" where
  "fighter_newbie_adjustment num_fights org_tier label rule =
     (let fights = (case coerce_optional_int num_fights of None \<Rightarrow> 0 | Some n \<Rightarrow> n)
      in if nr_mode rule \<noteq> ''tiered'' then
           (if fights < nr_min_fights rule then
              skip_because (label @ '' has only '' @ int_text fights @ '' UFC fights (minimum: ''
                            @ int_text (nr_min_fights rule) @ '')'')
            else
              (let newbie = fights < nr_threshold rule
               in allowed_plain\<lparr>na_is_newbie := newbie,
                    na_reason := (if newbie then label @ '' has '' @ int_text fights @ '' UFC fights''
                                  else [])\<rparr>))
         else if nr_threshold rule \<le> fights then allowed_plain
         else
           (let t = normalize_org_tier org_tier
            in if fights \<le> 0 then
                 (if t = Some Major then
                    newbie_with rule (nr_major_edge rule)
                      (label @ '' debut with major-org background'')
                  else if t = Some Feeder then
                    newbie_with rule (nr_feeder_edge rule)
                      (label @ '' debut with feeder-org background'')
                  else if nr_skip_zero_regional rule then
                    skip_because (label @ '' debut with '' @ tier_label t @ '' pre-UFC background'')
                  else
                    newbie_with rule (nr_regional_edge rule)
                      (label @ '' debut with '' @ tier_label t @ '' pre-UFC background''))
               else
                 newbie_with rule
                   (if t = Some Major then nr_major_edge rule
                    else if t = Some Feeder then nr_feeder_edge rule else nr_regional_edge rule)
                   (label @ '' has '' @ int_text fights @ '' UFC fights ('' @ tier_label t
                    @ '' pre-UFC background)'')))"

definition newbie_rule_config :: "newbie_rule option \<Rightarrow> newbie_rule" where
  "newbie_rule_config r = (case r of None \<Rightarrow> DEFAULT_NEWBIE_RULE | Some x \<Rightarrow> x)"

definition newbie_penalty ::
  "json \<Rightarrow> json \<Rightarrow> json \<Rightarrow> json \<Rightarrow> newbie_rule option \<Rightarrow> newbie_adjustment" where
  "newbie_penalty fights_a fights_b tier_a tier_b r =
     (let rule = newbie_rule_config r;
          a = fighter_newbie_adjustment fights_a tier_a ''fighter A'' rule;
          b = fighter_newbie_adjustment fights_b tier_b ''fighter B'' rule
      in if \<not> na_allowed a then a
         else if \<not> na_allowed b then b
         else
           (let reasons = map na_reason
                  (filter (\<lambda>x. na_is_newbie x \<and> na_reason x \<noteq> []) [a, b])
            in \<lparr>na_allowed = True,
                na_extra_edge = py_max (na_extra_edge a) (na_extra_edge b),
                na_size = py_min (na_size a) (na_size b),
                na_is_newbie = (reasons \<noteq> []),
                na_reason = py_join ''; '' reasons\<rparr>))"

definition required_edge_for_market ::
  "pyfloat \<Rightarrow> pyfloat option \<Rightarrow> newbie_adjustment option \<Rightarrow> pyfloat" where
  "required_edge_for_market market_prob base adj =
     (let e = scaled_min_edge (implied_prob_to_decimal_odds market_prob) base
      in case adj of None \<Rightarrow> e | Some a \<Rightarrow> fadd e (na_extra_edge a))"

section \<open>The filters\<close>

text \<open>The arguments that \<open>_passes_quality_filters\<close>, \<open>_passes_filters\<close> and
  \<open>_filter_rejection_reason\<close> share. \<open>None\<close> is the argument's default.\<close>

record filter_args =
  fa_no_odds :: json
  fa_line_movement :: json
  fa_line_is_sharp :: json
  fa_line_steam_move :: json
  fa_bet_side :: "string option"
  fa_a_fights :: json
  fa_b_fights :: json
  fa_a_tier :: json
  fa_b_tier :: json
  fa_rule :: "newbie_rule option"
  fa_adjustment :: "newbie_adjustment option"
  fa_edge_base :: "pyfloat option"
  fa_require :: "bool option"
  fa_agree_edge :: "pyfloat option"
  fa_max_odds :: "pyfloat option"

definition value_or :: "'a option \<Rightarrow> 'a \<Rightarrow> 'a" where
  "value_or v d = (case v of None \<Rightarrow> d | Some x \<Rightarrow> x)"

definition the_adjustment :: "filter_args \<Rightarrow> newbie_adjustment" where
  "the_adjustment fa =
     value_or (fa_adjustment fa)
       (newbie_penalty (fa_a_fights fa) (fa_b_fights fa) (fa_a_tier fa) (fa_b_tier fa) (fa_rule fa))"

text \<open>\<open>movement < bound\<close> and \<open>movement > bound\<close> for a movement that is a number.\<close>

definition line_below :: "json \<Rightarrow> pyfloat \<Rightarrow> bool" where
  "line_below v x = (case num_val v of None \<Rightarrow> False | Some y \<Rightarrow> flt y x)"

definition line_above :: "json \<Rightarrow> pyfloat \<Rightarrow> bool" where
  "line_above v x = (case num_val v of None \<Rightarrow> False | Some y \<Rightarrow> flt x y)"

definition line_against :: "filter_args \<Rightarrow> bool" where
  "line_against fa \<longleftrightarrow>
     fa_bet_side fa = Some ''a'' \<and> line_below (fa_line_movement fa) (fneg (lit (2 / 100)))
     \<or> fa_bet_side fa = Some ''b'' \<and> line_above (fa_line_movement fa) (lit (2 / 100))"

definition line_checked :: "filter_args \<Rightarrow> bool" where
  "line_checked fa \<longleftrightarrow>
     LINE_MOVEMENT_FILTER \<and> fa_line_movement fa \<noteq> JNull \<and> fa_bet_side fa \<noteq> None"

definition line_sharp :: "filter_args \<Rightarrow> bool" where
  "line_sharp fa \<longleftrightarrow>
     py_eq (fa_line_is_sharp fa) (JInt 1) \<or> py_eq (fa_line_steam_move fa) (JInt 1)"

definition required_edge :: "filter_args \<Rightarrow> pyfloat \<Rightarrow> pyfloat" where
  "required_edge fa market_prob =
     required_edge_for_market market_prob (fa_edge_base fa) (Some (the_adjustment fa))"

definition passes_quality_filters ::
  "pyfloat \<Rightarrow> pyfloat \<Rightarrow> pyfloat \<Rightarrow> filter_args \<Rightarrow> bool" where
  "passes_quality_filters blended market edge fa =
     (if coerce_probability (JFloat blended) = None \<or> coerce_probability (JFloat market) = None
         \<or> coerce_optional_float (JFloat edge) = None
      then False
      else if \<not> na_allowed (the_adjustment fa) then False
      else if flt blended MIN_MODEL_PROB then False
      else if flt (value_or (fa_max_odds fa) MAX_DECIMAL_ODDS) (implied_prob_to_decimal_odds market)
      then False
      else if value_or (fa_require fa) REQUIRE_MODEL_AGREEMENT
           \<and> (case coerce_probability (fa_no_odds fa) of
                None \<Rightarrow> True
              | Some p \<Rightarrow> flt (fsub p market) (value_or (fa_agree_edge fa) MODEL_AGREEMENT_MIN_EDGE))
      then False
      else if line_checked fa \<and> line_against fa
           \<and> flt edge (fadd (required_edge fa market) LINE_AGAINST_EXTRA_EDGE)
      then False
      else if line_checked fa \<and> LINE_SHARP_BLOCK \<and> line_against fa \<and> line_sharp fa
      then False
      else True)"

definition passes_filters :: "pyfloat \<Rightarrow> pyfloat \<Rightarrow> pyfloat \<Rightarrow> filter_args \<Rightarrow> bool" where
  "passes_filters blended market edge fa =
     (let fa' = fa\<lparr>fa_adjustment := Some (the_adjustment fa)\<rparr>
      in if \<not> passes_quality_filters blended market edge fa' then False
         else if flt edge (required_edge fa' market) then False
         else True)"

text \<open>The label of the first failing filter; the one-line detail text is left out.\<close>

definition filter_rejection_reason ::
  "pyfloat \<Rightarrow> pyfloat \<Rightarrow> pyfloat \<Rightarrow> filter_args \<Rightarrow> string option" where
  "filter_rejection_reason blended market edge fa =
     (if coerce_probability (JFloat blended) = None \<or> coerce_probability (JFloat market) = None
         \<or> coerce_optional_float (JFloat edge) = None
      then Some ''Invalid probability''
      else if \<not> na_allowed (the_adjustment fa) then Some ''Low experience''
      else if flt blended MIN_MODEL_PROB then Some ''Prob too low''
      else if flt (value_or (fa_max_odds fa) MAX_DECIMAL_ODDS) (implied_prob_to_decimal_odds market)
      then Some ''Odds too long''
      else if value_or (fa_require fa) REQUIRE_MODEL_AGREEMENT
           \<and> coerce_probability (fa_no_odds fa) = None
      then Some ''No-odds unavailable''
      else if value_or (fa_require fa) REQUIRE_MODEL_AGREEMENT
           \<and> flt (fsub (the (coerce_probability (fa_no_odds fa))) market)
                 (value_or (fa_agree_edge fa) MODEL_AGREEMENT_MIN_EDGE)
      then Some ''No-odds disagrees''
      else if line_checked fa \<and> line_against fa \<and> LINE_SHARP_BLOCK \<and> line_sharp fa
      then Some ''Sharp money against''
      else if line_checked fa \<and> line_against fa
           \<and> flt edge (fadd (required_edge fa market) LINE_AGAINST_EXTRA_EDGE)
      then Some ''Line moved against''
      else if flt edge (required_edge fa market) then Some ''Edge below threshold''
      else None)"

section \<open>Value bets\<close>

definition passthrough_columns :: "string list" where
  "passthrough_columns =
     [''token_id_yes'', ''token_id_no'', ''market_id'', ''condition_id'', ''tick_size'',
      ''neg_risk'', ''fee_rate'', ''fee_exponent'', ''fee_source'', ''fee_schedule'', ''volume'']"

definition passthrough :: "dict \<Rightarrow> dict" where
  "passthrough row =
     map (\<lambda>k. (k, jget row k)) (filter (\<lambda>k. jget row k \<noteq> JNull) passthrough_columns)"

text \<open>\<open>row.get(key, default)\<close>\<close>

definition jget_or :: "dict \<Rightarrow> string \<Rightarrow> json \<Rightarrow> json" where
  "jget_or d k v = (case map_of d k of None \<Rightarrow> v | Some w \<Rightarrow> w)"

text \<open>\<open>f"{x:.nf}"\<close> and \<open>f"{x:.n%}"\<close>: the exact value to \<open>n\<close> digits, ties to even.\<close>

definition fixed_digits :: "nat \<Rightarrow> nat \<Rightarrow> string" where
  "fixed_digits n m =
     (let ds = nat_digits m; padded = replicate (Suc n - length ds) (CHR ''0'') @ ds;
          k = length padded - n
      in take k padded @ (if n = 0 then [] else ''.'' @ drop k padded))"

fun fmt_fixed :: "nat \<Rightarrow> pyfloat \<Rightarrow> string" where
  "fmt_fixed n (Fin a) =
     (if a < 0 then ''-'' else []) @ fixed_digits n (nat (rne (\<bar>a\<bar> * 10 ^ n)))"
| "fmt_fixed n PInf = ''inf''"
| "fmt_fixed n NInf = ''-inf''"
| "fmt_fixed n NaN = ''nan''"

definition fmt_pct :: "nat \<Rightarrow> pyfloat \<Rightarrow> string" where
  "fmt_pct n x = fmt_fixed n (fmul x (Fin 100)) @ ''%''"

definition build_bet_reason ::
  "pyfloat \<Rightarrow> pyfloat \<Rightarrow> pyfloat \<Rightarrow> string \<Rightarrow> string" where
  "build_bet_reason model_prob market_prob edge newbie_reason =
     py_join ''; ''
       ((''Model '' @ fmt_pct 0 model_prob @ '' vs market '' @ fmt_pct 0 market_prob @ '', ''
         @ fmt_pct 1 edge @ '' edge'')
        # (if newbie_reason = [] then [] else [newbie_reason]))"

record value_settings =
  vs_min_edge :: pyfloat
  vs_blend_weight :: pyfloat
  vs_near_miss :: pyfloat
  vs_edge_base :: "pyfloat option"
  vs_max_odds :: "pyfloat option"
  vs_rule :: "newbie_rule option"

definition default_settings :: value_settings where
  "default_settings =
     \<lparr>vs_min_edge = MIN_EDGE_THRESHOLD, vs_blend_weight = BLEND_WEIGHT, vs_near_miss = Fin 0,
      vs_edge_base = None, vs_max_odds = None, vs_rule = None\<rparr>"

text \<open>One side of a fight as the loop sees it.\<close>

record side =
  sd_side :: string
  sd_fighter :: json
  sd_model :: pyfloat
  sd_blend :: pyfloat
  sd_market :: pyfloat
  sd_edge :: pyfloat
  sd_no_odds :: "pyfloat option"

text \<open>The quantities read from a row; \<open>None\<close> when the row is skipped.\<close>

definition row_sides :: "value_settings \<Rightarrow> dict \<Rightarrow> (side \<times> side) option" where
  "row_sides vs row =
     (let model_a = coerce_probability (jget row ''prob_a'');
          model_b = coerce_probability (jget row ''prob_b'');
          market_a = first_valid_probability [jget row ''a_market_prob'', jget row ''a_fair_prob_avg'']
                       NaN;
          market_b = first_valid_probability [jget row ''b_market_prob'', jget row ''b_fair_prob_avg'']
                       NaN;
          no_odds_a = coerce_probability (jget row ''no_odds_prob_a'');
          no_odds_b = coerce_probability (jget row ''no_odds_prob_b'')
      in case (model_a, model_b) of
           (Some ma, Some mb) \<Rightarrow>
             (if market_a = NaN \<or> market_b = NaN then None
              else
                (let (blend_a, blend_b) =
                       compute_independent_blend_probs ma market_a (opt_float no_odds_a)
                         mb market_b (opt_float no_odds_b) (vs_blend_weight vs)
                 in Some
                   (\<lparr>sd_side = ''a'', sd_fighter = jget_or row ''fighter_a'' (JStr ''A''),
                     sd_model = ma, sd_blend = blend_a, sd_market = market_a,
                     sd_edge = fsub blend_a market_a, sd_no_odds = no_odds_a\<rparr>,
                    \<lparr>sd_side = ''b'', sd_fighter = jget_or row ''fighter_b'' (JStr ''B''),
                     sd_model = mb, sd_blend = blend_b, sd_market = market_b,
                     sd_edge = fsub blend_b market_b, sd_no_odds = no_odds_b\<rparr>)))
         | _ \<Rightarrow> None)"

definition row_adjustment :: "value_settings \<Rightarrow> dict \<Rightarrow> newbie_adjustment" where
  "row_adjustment vs row =
     newbie_penalty
       (opt_int (coerce_optional_int (jget row ''a_num_fights'')))
       (opt_int (coerce_optional_int (jget row ''b_num_fights'')))
       (opt_float (coerce_optional_float (jget row ''a_pre_ufc_org_tier_best'')))
       (opt_float (coerce_optional_float (jget row ''b_pre_ufc_org_tier_best'')))
       (vs_rule vs)"

definition side_args :: "value_settings \<Rightarrow> dict \<Rightarrow> side \<Rightarrow> filter_args" where
  "side_args vs row sd =
     \<lparr>fa_no_odds = opt_float (sd_no_odds sd),
      fa_line_movement =
        (if jget row ''line_movement'' = JFloat NaN then JNull else jget row ''line_movement''),
      fa_line_is_sharp = jget row ''line_is_sharp'',
      fa_line_steam_move = jget row ''line_steam_move'',
      fa_bet_side = Some (sd_side sd),
      fa_a_fights = opt_int (coerce_optional_int (jget row ''a_num_fights'')),
      fa_b_fights = opt_int (coerce_optional_int (jget row ''b_num_fights'')),
      fa_a_tier = opt_float (coerce_optional_float (jget row ''a_pre_ufc_org_tier_best'')),
      fa_b_tier = opt_float (coerce_optional_float (jget row ''b_pre_ufc_org_tier_best'')),
      fa_rule = vs_rule vs, fa_adjustment = Some (row_adjustment vs row),
      fa_edge_base = vs_edge_base vs, fa_require = None, fa_agree_edge = None,
      fa_max_odds = vs_max_odds vs\<rparr>"

definition side_passes :: "value_settings \<Rightarrow> dict \<Rightarrow> side \<Rightarrow> bool" where
  "side_passes vs row sd =
     passes_filters (sd_blend sd) (sd_market sd) (sd_edge sd) (side_args vs row sd)"

definition make_bet :: "value_settings \<Rightarrow> dict \<Rightarrow> pyfloat \<Rightarrow> pyfloat \<Rightarrow> side \<Rightarrow> dict" where
  "make_bet vs row model_a model_b sd =
     (let adj = row_adjustment vs row
      in jupdate
        [(''fighter_a'', jget_or row ''fighter_a'' (JStr [])),
         (''fighter_b'', jget_or row ''fighter_b'' (JStr [])),
         (''bet_on'', sd_fighter sd), (''bet_side'', JStr (sd_side sd)),
         (''model_prob'', JFloat (sd_model sd)), (''blended_prob'', JFloat (sd_blend sd)),
         (''market_prob'', JFloat (sd_market sd)), (''edge'', JFloat (sd_edge sd)),
         (''decimal_odds'', JFloat (implied_prob_to_decimal_odds (sd_market sd))),
         (''event_date'', jget row ''event_date''),
         (''weight_class'', jget_or row ''weight_class'' (JStr [])),
         (''confidence'', JFloat (py_max model_a model_b)),
         (''is_newbie_bet'', JBool (na_is_newbie adj)),
         (''size_multiplier'', JFloat (na_size adj)),
         (''newbie_extra_edge_required'', JFloat (na_extra_edge adj)),
         (''newbie_rule'', JStr (nr_name (newbie_rule_config (vs_rule vs)))),
         (''reason'', JStr (build_bet_reason (sd_model sd) (sd_market sd) (sd_edge sd)
                              (na_reason adj)))]
        (passthrough row))"

text \<open>Two candidates in descending order of edge; the sort is stable.\<close>

definition by_edge :: "side \<Rightarrow> side \<Rightarrow> side list" where
  "by_edge x y = (if flt (sd_edge x) (sd_edge y) then [y, x] else [x, y])"

definition near_miss_ok :: "value_settings \<Rightarrow> dict \<Rightarrow> side \<Rightarrow> bool" where
  "near_miss_ok vs row sd \<longleftrightarrow>
     passes_quality_filters (sd_blend sd) (sd_market sd) (sd_edge sd) (side_args vs row sd)
     \<and> \<not> fle (required_edge_for_market (sd_market sd) (vs_edge_base vs)
               (Some (row_adjustment vs row))) (sd_edge sd)"

text \<open>What one row contributes: a value bet, else a near miss, and the count of skipped rows.\<close>

record row_result =
  rr_bet :: "side option"
  rr_near :: "side option"
  rr_skipped :: nat

definition value_row :: "value_settings \<Rightarrow> dict \<Rightarrow> side \<Rightarrow> side \<Rightarrow> row_result" where
  "value_row vs row a b =
     (let value = filter (\<lambda>sd. \<not> flt (sd_edge sd) (vs_min_edge vs)) (by_edge a b);
          passing = filter (side_passes vs row) value
      in case passing of
           sd # _ \<Rightarrow> \<lparr>rr_bet = Some sd, rr_near = None, rr_skipped = 0\<rparr>
         | [] \<Rightarrow>
             \<lparr>rr_bet = None,
              rr_near =
                (if flt (Fin 0) (vs_near_miss vs) then
                   (case filter (near_miss_ok vs row)
                           (filter (\<lambda>sd. fle (vs_near_miss vs) (sd_edge sd)) (by_edge a b)) of
                      sd # _ \<Rightarrow> Some sd | [] \<Rightarrow> None)
                 else None),
              rr_skipped = (if value = [] then 0 else 1)\<rparr>)"

fun value_rows :: "value_settings \<Rightarrow> dict list \<Rightarrow> dict list \<times> dict list \<times> nat" where
  "value_rows vs [] = ([], [], 0)"
| "value_rows vs (row # rows) =
     (let (bets, near, skipped) = value_rows vs rows
      in case row_sides vs row of
           None \<Rightarrow> (bets, near, Suc skipped)
         | Some (a, b) \<Rightarrow>
             (let r = value_row vs row a b;
                  bet_of = map (make_bet vs row (sd_model a) (sd_model b))
              in (bet_of (case rr_bet r of None \<Rightarrow> [] | Some sd \<Rightarrow> [sd]) @ bets,
                  bet_of (case rr_near r of None \<Rightarrow> [] | Some sd \<Rightarrow> [sd]) @ near,
                  rr_skipped r + skipped)))"

text \<open>The near-miss table is returned when \<open>near_miss_min_edge\<close> is positive.\<close>

definition find_value_bets ::
  "(string \<Rightarrow> dict list \<Rightarrow> dict list) \<Rightarrow> value_settings \<Rightarrow> dict list \<Rightarrow> dict list \<times> dict list option"
where
  "find_value_bets sort_values vs predictions =
     (let (bets, near, skipped) = value_rows vs predictions
      in (sort_values ''edge'' bets,
          if flt (Fin 0) (vs_near_miss vs) then Some (sort_values ''edge'' near) else None))"

section \<open>Expected value, conviction bets, closing line\<close>

definition calculate_expected_value :: "pyfloat \<Rightarrow> pyfloat \<Rightarrow> pyfloat \<Rightarrow> pyfloat" where
  "calculate_expected_value model_prob decimal_odds stake =
     (let profit = fmul stake (fsub decimal_odds (Fin 1))
      in fsub (fmul model_prob profit) (fmul (fsub (Fin 1) model_prob) stake))"

definition conviction_bet_size :: "pyfloat \<Rightarrow> pyfloat \<Rightarrow> pyfloat" where
  "conviction_bet_size model_prob bankroll =
     (let base = fmul CONVICTION_BET_FRACTION bankroll;
          excess = py_max (Fin 0) (fsub model_prob CONVICTION_MIN_MODEL_PROB);
          steps = fquot excess (lit (5 / 100));
          bonus = fmul (fmul steps CONVICTION_CONFIDENCE_BONUS) bankroll;
          bet = py_min (fadd base bonus) (fmul CONVICTION_MAX_BET_FRACTION bankroll)
      in if flt bet (Fin 1) then Fin 0 else fround bet 2)"

definition build_conviction_reason :: "json \<Rightarrow> pyfloat \<Rightarrow> pyfloat \<Rightarrow> pyfloat \<Rightarrow> string" where
  "build_conviction_reason fighter model_prob no_odds_prob market_prob =
     ''Conviction signal on '' @ py_str fighter @ '': model '' @ fmt_pct 0 model_prob
     @ '', no-odds '' @ fmt_pct 0 no_odds_prob @ '', market '' @ fmt_pct 0 market_prob
     @ '', positive EV confirmed''"

text \<open>The gates for one side: own model, no-odds model, experience of both fighters, and the
  expected value at the market's odds.\<close>

definition conviction_gates ::
  "bool \<Rightarrow> pyfloat \<Rightarrow> pyfloat \<Rightarrow> pyfloat option \<Rightarrow> int option \<Rightarrow> int option \<Rightarrow> bool" where
  "conviction_gates require_ev model_p market_p no_odds_p own_fights opp_fights =
     (if flt model_p CONVICTION_MIN_MODEL_PROB then False
      else case (no_odds_p, own_fights, opp_fights) of
        (Some p, Some own, Some opp) \<Rightarrow>
          (if flt p CONVICTION_MIN_NO_ODDS_PROB then False
           else if own < MIN_FIGHTER_FIGHTS then False
           else if opp < MIN_FIGHTER_FIGHTS then False
           else if require_ev
             \<and> fle (calculate_expected_value model_p (implied_prob_to_decimal_odds market_p) (Fin 1))
                   (Fin 0)
           then False else True)
      | _ \<Rightarrow> False)"

definition conviction_bet :: "dict \<Rightarrow> side \<Rightarrow> dict" where
  "conviction_bet row sd =
     (let no_odds = (case sd_no_odds sd of None \<Rightarrow> NaN | Some p \<Rightarrow> p)
      in jupdate
        [(''fighter_a'', jget_or row ''fighter_a'' (JStr [])),
         (''fighter_b'', jget_or row ''fighter_b'' (JStr [])),
         (''bet_on'', sd_fighter sd), (''bet_side'', JStr (sd_side sd)),
         (''model_prob'', JFloat (sd_model sd)), (''blended_prob'', JFloat (sd_model sd)),
         (''market_prob'', JFloat (sd_market sd)), (''no_odds_prob'', JFloat no_odds),
         (''edge'', JFloat (fsub (sd_model sd) (sd_market sd))),
         (''decimal_odds'', JFloat (implied_prob_to_decimal_odds (sd_market sd))),
         (''event_date'', jget row ''event_date''),
         (''weight_class'', jget_or row ''weight_class'' (JStr [])),
         (''confidence'', JFloat (sd_model sd)),
         (''conviction_score'', JFloat (fquot (fadd (sd_model sd) no_odds) (Fin 2))),
         (''reason'', JStr (build_conviction_reason (sd_fighter sd) (sd_model sd) no_odds
                              (sd_market sd)))]
        (passthrough row))"

definition conviction_row :: "bool \<Rightarrow> dict \<Rightarrow> dict list" where
  "conviction_row require_ev row =
     (let fights_a = coerce_optional_int (jget row ''a_num_fights'');
          fights_b = coerce_optional_int (jget row ''b_num_fights'')
      in case row_sides default_settings row of
           None \<Rightarrow> []
         | Some (a, b) \<Rightarrow>
             map (conviction_bet row)
               ((if conviction_gates require_ev (sd_model a) (sd_market a) (sd_no_odds a)
                      fights_a fights_b then [a] else [])
                @ (if conviction_gates require_ev (sd_model b) (sd_market b) (sd_no_odds b)
                        fights_b fights_a then [b] else [])))"

definition find_conviction_bets ::
  "(string \<Rightarrow> dict list \<Rightarrow> dict list) \<Rightarrow> bool \<Rightarrow> dict list \<Rightarrow> dict list" where
  "find_conviction_bets sort_values require_ev predictions =
     sort_values ''conviction_score'' (concat (map (conviction_row require_ev) predictions))"

text \<open>\<open>None\<close> is the division by a zero price of the bet.\<close>

definition calculate_closing_line_value :: "pyfloat \<Rightarrow> pyfloat \<Rightarrow> pyfloat option" where
  "calculate_closing_line_value bet_prob closing_prob =
     (if fle closing_prob (Fin 0) then Some (Fin 0)
      else Option.bind (fdiv (Fin 1) bet_prob) (\<lambda>x.
        Option.bind (fdiv (Fin 1) closing_prob) (\<lambda>y.
          Option.bind (fdiv x y) (\<lambda>q. Some (fsub q (Fin 1))))))"

section \<open>The two filter routines agree\<close>

text \<open>Resolving the newbie adjustment early changes nothing that the filters read.\<close>

lemma resolved_args:
  defines "fa' fa \<equiv> fa\<lparr>fa_adjustment := Some (the_adjustment fa)\<rparr>"
  shows "the_adjustment (fa' fa) = the_adjustment fa"
    "required_edge (fa' fa) m = required_edge fa m"
    "line_against (fa' fa) = line_against fa" "line_checked (fa' fa) = line_checked fa"
    "line_sharp (fa' fa) = line_sharp fa"
    "fa_no_odds (fa' fa) = fa_no_odds fa" "fa_max_odds (fa' fa) = fa_max_odds fa"
    "fa_require (fa' fa) = fa_require fa" "fa_agree_edge (fa' fa) = fa_agree_edge fa"
  by (simp_all add: fa'_def the_adjustment_def value_or_def required_edge_def line_against_def
      line_checked_def line_sharp_def)

lemma reason_none_passes:
  "filter_rejection_reason blended market edge fa = None \<longleftrightarrow> passes_filters blended market edge fa"
proof (cases "coerce_probability (fa_no_odds fa)")
  case None
  then show ?thesis
    by (simp add: passes_filters_def passes_quality_filters_def filter_rejection_reason_def Let_def
        resolved_args, blast?)
next
  case (Some p)
  then show ?thesis
    by (simp add: passes_filters_def passes_quality_filters_def filter_rejection_reason_def Let_def
        resolved_args, blast?)
qed

text \<open>
  C33: The filter that decides and the routine that explains a rejection never disagree: a bet
  passes all filters exactly when no rejection reason is reported, for every setting of the
  optional arguments, although the two test the line movement in a different order.
\<close>

theorem passes_iff_no_rejection:
  "passes_filters blended market edge fa \<longleftrightarrow> filter_rejection_reason blended market edge fa = None"
  by (simp only: reason_none_passes)

section \<open>What a value bet satisfies\<close>

lemma coerce_probability_JFloat: "coerce_probability (JFloat p) = (if valid_prob p then Some p else None)"
  by (simp add: coerce_probability_def)

lemma coerce_probability_valid: "coerce_probability v = Some p \<Longrightarrow> valid_prob p"
  by (auto simp: coerce_probability_def split: option.splits if_splits)

lemma coerce_optional_float_JFloat: "coerce_optional_float (JFloat x) = (if is_fin x then Some x else None)"
  by (simp add: coerce_optional_float_def)

lemma passes_quality_gates:
  assumes "passes_quality_filters blended market edge fa"
  shows "valid_prob blended \<and> valid_prob market \<and> is_fin edge
    \<and> na_allowed (the_adjustment fa)
    \<and> \<not> flt blended MIN_MODEL_PROB
    \<and> \<not> flt (value_or (fa_max_odds fa) MAX_DECIMAL_ODDS) (implied_prob_to_decimal_odds market)
    \<and> (value_or (fa_require fa) REQUIRE_MODEL_AGREEMENT \<longrightarrow>
        (\<exists>p. coerce_probability (fa_no_odds fa) = Some p
           \<and> \<not> flt (fsub p market) (value_or (fa_agree_edge fa) MODEL_AGREEMENT_MIN_EDGE)))"
  using assms
  by (auto simp: passes_quality_filters_def coerce_probability_JFloat coerce_optional_float_JFloat
      split: if_splits option.splits)

lemma passes_filters_gates:
  assumes "passes_filters blended market edge fa"
  shows "passes_quality_filters blended market edge (fa\<lparr>fa_adjustment := Some (the_adjustment fa)\<rparr>)"
    and "\<not> flt edge (required_edge fa market)"
  using assms by (auto simp: passes_filters_def Let_def resolved_args split: if_splits)

lemma by_edge_set [simp]: "set (by_edge a b) = {a, b}"
  by (auto simp: by_edge_def)

text \<open>The first side in order of edge that passes has the best edge of those that pass.\<close>

lemma filter_first: "filter P xs = y # ys \<Longrightarrow> y \<in> set xs \<and> P y"
proof -
  assume "filter P xs = y # ys"
  then have "y \<in> set (filter P xs)" by (simp only: list.set_intros)
  then show ?thesis by simp
qed

lemma fle_refl: "x \<noteq> NaN \<Longrightarrow> fle x x"
  by (simp add: fle_def feq_def)

lemma by_edge_first:
  assumes first: "filter P (by_edge a b) = sd # rest" and "other \<in> {a, b}" "P other"
    and num: "\<And>x. P x \<Longrightarrow> sd_edge x \<noteq> NaN"
  shows "fle (sd_edge other) (sd_edge sd)"
proof (cases "other = sd")
  case True
  then show ?thesis using assms by (simp add: fle_refl)
next
  case False
  have sd: "sd \<in> {a, b}" "P sd" using filter_first [OF first] by simp_all
  then have both: "P a" "P b" using assms False by auto
  then have "filter P (by_edge a b) = by_edge a b" by (auto simp: by_edge_def)
  with first False assms(2) have "sd_edge sd = sd_edge a \<and> sd_edge other = sd_edge b
        \<and> \<not> flt (sd_edge a) (sd_edge b)
      \<or> sd_edge sd = sd_edge b \<and> sd_edge other = sd_edge a \<and> flt (sd_edge a) (sd_edge b)"
    by (auto simp: by_edge_def split: if_splits)
  then show ?thesis
    using not_flt_iff [OF num num, OF both] by (auto simp: fle_def)
qed

text \<open>The conditions on a value bet for one side of a row.\<close>

definition sound_value_side :: "value_settings \<Rightarrow> dict \<Rightarrow> side \<Rightarrow> bool" where
  "sound_value_side vs row sd \<longleftrightarrow>
     \<not> flt (sd_edge sd) (vs_min_edge vs)
     \<and> valid_prob (sd_blend sd) \<and> valid_prob (sd_market sd)
     \<and> na_allowed (row_adjustment vs row)
     \<and> \<not> flt (sd_blend sd) MIN_MODEL_PROB
     \<and> \<not> flt (value_or (vs_max_odds vs) MAX_DECIMAL_ODDS)
             (implied_prob_to_decimal_odds (sd_market sd))
     \<and> (\<exists>p. sd_no_odds sd = Some p \<and> \<not> flt (fsub p (sd_market sd)) MODEL_AGREEMENT_MIN_EDGE)
     \<and> \<not> flt (sd_edge sd)
             (required_edge_for_market (sd_market sd) (vs_edge_base vs) (Some (row_adjustment vs row)))"

lemma the_adjustment_side_args: "the_adjustment (side_args vs row sd) = row_adjustment vs row"
  by (simp add: the_adjustment_def side_args_def value_or_def)

lemma opt_float_coerce: "coerce_probability (opt_float v) = Some p \<Longrightarrow> v = Some p"
  by (cases v) (auto simp: opt_float_def coerce_probability_def split: if_splits)

lemma side_passes_sound:
  assumes "side_passes vs row sd" "\<not> flt (sd_edge sd) (vs_min_edge vs)"
  shows "sound_value_side vs row sd"
proof -
  note q = passes_quality_gates [OF passes_filters_gates(1) [OF assms(1) [unfolded side_passes_def]],
      unfolded resolved_args]
  note e = passes_filters_gates(2) [OF assms(1) [unfolded side_passes_def]]
  have fields: "fa_no_odds (side_args vs row sd) = opt_float (sd_no_odds sd)"
    "fa_max_odds (side_args vs row sd) = vs_max_odds vs" "fa_require (side_args vs row sd) = None"
    "fa_agree_edge (side_args vs row sd) = None" "fa_edge_base (side_args vs row sd) = vs_edge_base vs"
    by (simp_all add: side_args_def)
  from q obtain p where "coerce_probability (opt_float (sd_no_odds sd)) = Some p"
      "\<not> flt (fsub p (sd_market sd)) MODEL_AGREEMENT_MIN_EDGE"
    by (auto simp: fields value_or_def REQUIRE_MODEL_AGREEMENT_def)
  then show ?thesis
    using q e assms(2) opt_float_coerce [of "sd_no_odds sd" p]
    unfolding sound_value_side_def required_edge_def the_adjustment_side_args fields by auto
qed

lemma value_row_bet:
  assumes "rr_bet (value_row vs row a b) = Some sd"
  shows "(sd = a \<or> sd = b) \<and> side_passes vs row sd \<and> \<not> flt (sd_edge sd) (vs_min_edge vs)"
  using assms filter_first [of "side_passes vs row"
      "filter (\<lambda>sd. \<not> flt (sd_edge sd) (vs_min_edge vs)) (by_edge a b)" sd]
  by (auto simp: value_row_def Let_def simp del: filter_filter split: list.splits)

lemma side_passes_fin: "side_passes vs row sd \<Longrightarrow> sd_edge sd \<noteq> NaN"
  using passes_quality_gates [OF passes_filters_gates(1), of "sd_blend sd" "sd_market sd" "sd_edge sd"
      "side_args vs row sd"]
  by (auto simp: side_passes_def)

lemma value_row_best:
  assumes "rr_bet (value_row vs row a b) = Some sd"
    and "other = a \<or> other = b" "side_passes vs row other" "\<not> flt (sd_edge other) (vs_min_edge vs)"
  shows "fle (sd_edge other) (sd_edge sd)"
proof -
  let ?P = "\<lambda>x. \<not> flt (sd_edge x) (vs_min_edge vs) \<and> side_passes vs row x"
  obtain rest where "filter ?P (by_edge a b) = sd # rest"
    using assms(1) by (auto simp: value_row_def Let_def split: list.splits)
  then show ?thesis
    by (rule by_edge_first) (use assms side_passes_fin in auto)
qed

lemma value_rows_bet:
  assumes "bet \<in> set (fst (value_rows vs rows))"
  shows "\<exists>row a b sd. row \<in> set rows \<and> row_sides vs row = Some (a, b)
    \<and> rr_bet (value_row vs row a b) = Some sd \<and> bet = make_bet vs row (sd_model a) (sd_model b) sd"
  using assms
proof (induction rows)
  case Nil
  then show ?case by simp
next
  case (Cons row rows)
  show ?case
  proof (cases "bet \<in> set (fst (value_rows vs rows))")
    case True
    then show ?thesis using Cons.IH by fastforce
  next
    case False
    then obtain a b where ab: "row_sides vs row = Some (a, b)"
      using Cons.prems by (auto split: prod.splits option.splits)
    then have "bet \<in> set (map (make_bet vs row (sd_model a) (sd_model b))
        (case rr_bet (value_row vs row a b) of None \<Rightarrow> [] | Some sd \<Rightarrow> [sd]))"
      using Cons.prems False by (auto simp: Let_def split: prod.splits)
    then obtain sd where "rr_bet (value_row vs row a b) = Some sd"
        "bet = make_bet vs row (sd_model a) (sd_model b) sd"
      by (cases "rr_bet (value_row vs row a b)") auto
    then show ?thesis using ab by (intro exI [of _ row] exI [of _ a] exI [of _ b] exI [of _ sd]) simp
  qed
qed

text \<open>
  C14: Every value bet the scan returns comes from one side of a prediction row, and that side
  meets every safeguard: edge at least the minimum and at least the required edge for its odds
  and the experience penalty, blended probability at least the floor, odds within the cap,
  experience allowed, and a valid no-odds probability that beats the market by the agreement
  margin; no other passing side of the same fight has a better edge.
\<close>

theorem value_bets_sound:
  assumes "bet \<in> set (fst (value_rows vs rows))"
  shows "\<exists>row a b sd. row \<in> set rows \<and> row_sides vs row = Some (a, b) \<and> (sd = a \<or> sd = b)
    \<and> bet = make_bet vs row (sd_model a) (sd_model b) sd
    \<and> sound_value_side vs row sd
    \<and> (\<forall>other. (other = a \<or> other = b) \<and> side_passes vs row other
          \<and> \<not> flt (sd_edge other) (vs_min_edge vs) \<longrightarrow> fle (sd_edge other) (sd_edge sd))"
proof -
  obtain row a b sd where r: "row \<in> set rows" "row_sides vs row = Some (a, b)"
      "rr_bet (value_row vs row a b) = Some sd" "bet = make_bet vs row (sd_model a) (sd_model b) sd"
    using value_rows_bet [OF assms] by blast
  show ?thesis
    using r value_row_bet [OF r(3)] side_passes_sound value_row_best [OF r(3)] by blast
qed

text \<open>
  A fight never yields two entries: the bets and the near misses together are at most as
  many as the rows, and a near miss of a row means that the row gave no bet, that the near
  miss passes the quality filters, and that its edge lies in the near-miss range, below the
  required edge.
\<close>

theorem one_entry_per_row:
  "length (fst (value_rows vs rows)) + length (fst (snd (value_rows vs rows))) \<le> length rows
   \<and> (rr_near (value_row vs row a b) = Some sd \<longrightarrow>
        rr_bet (value_row vs row a b) = None \<and> (sd = a \<or> sd = b)
        \<and> near_miss_ok vs row sd \<and> fle (vs_near_miss vs) (sd_edge sd)
        \<and> flt (Fin 0) (vs_near_miss vs))"
proof (rule conjI)
  have one: "length (case rr_bet r of None \<Rightarrow> [] | Some sd \<Rightarrow> [sd])
      + length (case rr_near r of None \<Rightarrow> [] | Some sd \<Rightarrow> [sd]) \<le> 1"
    if "r = value_row vs row a b" for r row a b
    using that by (auto simp: value_row_def Let_def split: list.splits option.splits)
  show "length (fst (value_rows vs rows)) + length (fst (snd (value_rows vs rows))) \<le> length rows"
  proof (induction rows)
    case Nil
    then show ?case by simp
  next
    case (Cons row rows)
    show ?case
    proof (cases "row_sides vs row")
      case None
      then show ?thesis using Cons.IH by (auto split: prod.splits)
    next
      case (Some p)
      then show ?thesis
        using Cons.IH one [OF refl, of row "fst p" "snd p"]
        by (auto simp: Let_def split: prod.splits)
    qed
  qed
  show "rr_near (value_row vs row a b) = Some sd \<longrightarrow>
        rr_bet (value_row vs row a b) = None \<and> (sd = a \<or> sd = b)
        \<and> near_miss_ok vs row sd \<and> fle (vs_near_miss vs) (sd_edge sd)
        \<and> flt (Fin 0) (vs_near_miss vs)"
    using filter_first [of "near_miss_ok vs row"
        "filter (\<lambda>sd. fle (vs_near_miss vs) (sd_edge sd)) (by_edge a b)" sd]
    by (auto simp: value_row_def Let_def simp del: filter_filter split: list.splits if_splits)
qed

section \<open>Blended probabilities are probabilities\<close>

lemma valid_prob_ranged: "valid_prob p \<longleftrightarrow> ranged 0 1 p"
  by (cases p) (auto simp: valid_prob_def ranged_def fle_def feq_def)

text \<open>The constants, evaluated.\<close>

lemma constant_ranges:
  "ranged (1 / 4) (1 / 2) conf_cut" "ranged 0 (1 / 2) BLEND_WEIGHT_MIN"
  "ranged 0 1 BLEND_AGREEMENT_BOOST" "BLEND_WEIGHT_MAX = Fin (1 / 2)" "valid_prob BLEND_WEIGHT"
  by code_simp+

lemma rnd_half [simp]: "rnd (1 / 2) = 1 / 2"
  by code_simp

lemma fclip_ranged: "x \<noteq> NaN \<Longrightarrow> lo \<le> hi \<Longrightarrow> ranged lo hi (fclip x (Fin lo) (Fin hi))"
  by (cases x) (auto simp: fclip_def)

lemma fmax_ranged: "ranged l h x \<Longrightarrow> ranged l h y \<Longrightarrow> ranged l h (py_max x y) \<and> ranged l h (py_min x y)"
  by (simp add: py_max_def py_min_def)

lemma fabs_ranged: "ranged (- h) h x \<Longrightarrow> ranged 0 h (fabs x)"
  by (auto elim!: rangedE simp: abs_le_iff)

lemma fquot_ranged:
  assumes "ranged (- h) h x" "ranged d 1 y" "0 < d" "bound_ok (h / d)" "bound_ok (- (h / d))"
  shows "ranged (- (h / d)) (h / d) (fquot x y)"
proof -
  obtain a b where ab: "x = Fin a" "y = Fin b" "\<bar>a\<bar> \<le> h" "d \<le> b"
    using assms(1,2) by (auto elim!: rangedE simp: abs_le_iff)
  have "\<bar>a\<bar> / b \<le> h / d" using ab assms(3) by (intro frac_le) auto
  then have "\<bar>a / b\<bar> \<le> h / d" using ab assms(3) by (simp add: abs_divide)
  then have "- (h / d) \<le> a / b" "a / b \<le> h / d" by linarith+
  from to_float_ranged [OF this assms(5,4)] show ?thesis
    using ab assms(3) by (simp add: fquot_def)
qed

text \<open>The weight before clipping is finite.\<close>

lemma dynamic_blend_weight_ranged:
  assumes "valid_prob model" "valid_prob market" "valid_prob base"
  shows "ranged 0 (1 / 2) (dynamic_blend_weight model market no_odds base)"
    and "fle BLEND_WEIGHT_MIN (dynamic_blend_weight model market no_odds base)"
proof -
  define conf where "conf = fmul (fabs (fsub model (Fin (1 / 2)))) (Fin 2)"
  define t1 where "t1 = py_min (Fin 1) (fquot (fsub conf conf_cut) (fsub (Fin 1) conf_cut))"
  define t2 where "t2 = fquot conf (py_max (lit (1 / 100)) conf_cut)"
  define w1 where "w1 = fadd base (fmul t1 (fsub BLEND_WEIGHT_MAX base))"
  define w2 where "w2 = fadd BLEND_WEIGHT_MIN (fmul t2 (fsub base BLEND_WEIGHT_MIN))"
  note v = assms [unfolded valid_prob_ranged]
  have base1: "ranged (- 1) 1 base" using v(3) by (rule ranged_mono) simp_all
  have "ranged (0 - 1) (1 - 0) (fsub model (Fin (1 / 2)))"
    by (rule fsub_ranged [OF v(1)]) simp_all
  then have "ranged 0 1 (fabs (fsub model (Fin (1 / 2))))" by (intro fabs_ranged) simp
  then have conf: "ranged 0 2 conf"
    unfolding conf_def by (rule fmul_ranged_nonneg [of 1 _ 2, simplified]) simp_all
  have cut: "ranged 0 1 conf_cut" using constant_ranges(1) by (rule ranged_mono) simp_all
  have "ranged (0 - 1) (2 - 0) (fsub conf conf_cut)" by (rule fsub_ranged [OF conf cut]) simp_all
  then have num: "ranged (- 2) 2 (fsub conf conf_cut)" by (rule ranged_mono) simp_all
  have "ranged (1 / 2) 1 (fsub (Fin 1) conf_cut)" by code_simp
  from fquot_ranged [OF num this] have q1: "ranged (- 4) 4 (fquot (fsub conf conf_cut) (fsub (Fin 1) conf_cut))"
    by simp
  have t1: "ranged (- 4) 4 t1" unfolding t1_def using q1 fmax_ranged [of "- 4" 4 "Fin 1"] by simp
  have den: "ranged (1 / 4) 1 (py_max (lit (1 / 100)) conf_cut)" by code_simp
  have "ranged (- 2) 2 conf" using conf by (rule ranged_mono) simp_all
  from fquot_ranged [OF this den] have t2: "ranged (- 8) 8 t2" unfolding t2_def by simp
  have span1: "ranged (- 1) 1 (fsub BLEND_WEIGHT_MAX base)"
    using fsub_ranged [of 0 1 BLEND_WEIGHT_MAX 0 1 base] v(3) by (simp add: constant_ranges)
  have min1: "ranged 0 1 BLEND_WEIGHT_MIN" using constant_ranges(2) by (rule ranged_mono) simp_all
  have span2: "ranged (- 1) 1 (fsub base BLEND_WEIGHT_MIN)"
    using fsub_ranged [OF v(3) min1] by simp
  have p1: "ranged (- 4) 4 (fmul t1 (fsub BLEND_WEIGHT_MAX base))"
    using fmul_ranged_abs [of 4 t1 1] t1 span1 by simp
  have p2: "ranged (- 8) 8 (fmul t2 (fsub base BLEND_WEIGHT_MIN))"
    using fmul_ranged_abs [of 8 t2 1] t2 span2 by simp
  have b: "bound_ok (of_int m)" if "\<bar>m\<bar> \<le> 100" for m using that by (intro bound_ok_int) simp
  have w1: "ranged (- 9) 9 w1"
    using fadd_ranged [OF v(3) p1] b [of "-4"] b [of 5] unfolding w1_def
    by (auto intro: ranged_mono)
  have w2: "ranged (- 9) 9 w2"
    using fadd_ranged [OF min1 p2] b [of "-8"] b [of 9] unfolding w2_def
    by (auto intro: ranged_mono)
  define w where "w = (if flt conf_cut conf then w1 else w2)"
  have w: "ranged (- 9) 9 w" using w1 w2 by (simp add: w_def)
  have boost: "ranged (- 9) 10 (py_min BLEND_WEIGHT_MAX (fadd w BLEND_AGREEMENT_BOOST))"
  proof -
    have "ranged (- 9) 10 (fadd w BLEND_AGREEMENT_BOOST)"
      using fadd_ranged [OF w constant_ranges(3)] b [of "-9"] b [of 10] by simp
    then show ?thesis using fmax_ranged [of "- 9" 10 BLEND_WEIGHT_MAX] by (simp add: constant_ranges)
  qed
  define w' where "w' = (case coerce_probability no_odds of None \<Rightarrow> w
     | Some p \<Rightarrow> if flt (Fin 0) (fsub model market) \<and> flt (lit (5 / 100)) (fsub p market)
                   \<or> flt (fsub model market) (Fin 0) \<and> flt (fsub p market) (fneg (lit (5 / 100)))
                 then py_min BLEND_WEIGHT_MAX (fadd w BLEND_AGREEMENT_BOOST) else w)"
  have w': "w' \<noteq> NaN"
    using ranged_fin [OF w] ranged_fin [OF boost] by (auto simp: w'_def split: option.split)
  have dyn: "dynamic_blend_weight model market no_odds base = fclip w' BLEND_WEIGHT_MIN BLEND_WEIGHT_MAX"
    unfolding dynamic_blend_weight_def Let_def rnd_half conf_def [symmetric] t1_def [symmetric]
      t2_def [symmetric] w1_def [symmetric] w2_def [symmetric] w_def [symmetric] w'_def
    by (rule refl)
  obtain lo where lo: "BLEND_WEIGHT_MIN = Fin lo" "0 \<le> lo" "lo \<le> 1 / 2"
    using constant_ranges(2) by (rule rangedE)
  have "ranged lo (1 / 2) (dynamic_blend_weight model market no_odds base)"
    unfolding dyn lo(1) constant_ranges(4) by (rule fclip_ranged) (use w' lo in simp_all)
  then obtain c where c: "dynamic_blend_weight model market no_odds base = Fin c" "lo \<le> c" "c \<le> 1 / 2"
    by (rule rangedE)
  show "ranged 0 (1 / 2) (dynamic_blend_weight model market no_odds base)"
    "fle BLEND_WEIGHT_MIN (dynamic_blend_weight model market no_odds base)"
    unfolding c(1) lo(1) using lo(2,3) c(2,3) by simp_all
qed

lemma blend_probability_ranged:
  assumes "valid_prob model" "valid_prob market" "ranged 0 (1 / 2) w"
  shows "ranged 0 2 (blend_probability model market w)"
proof -
  note v = assms(1,2) [unfolded valid_prob_ranged]
  have w: "ranged 0 1 w" using assms(3) by (rule ranged_mono) simp_all
  have "ranged 0 1 (fsub (Fin 1) w)" using fsub_ranged [of 1 1 "Fin 1" 0 1 w] w by simp
  then have "ranged 0 1 (fmul w model)" "ranged 0 1 (fmul (fsub (Fin 1) w) market)"
    using fmul_ranged_nonneg [of 1 _ 1] w v by simp_all
  from fadd_ranged [OF this] show ?thesis by (simp add: blend_probability_def)
qed

text \<open>A part over a positive total of two non-negative floats is a probability.\<close>

lemma share_valid:
  assumes "x = Fin a" "y = Fin b" "0 \<le> a" "0 \<le> b" "rnd a = a" "fadd x y = Fin t" "0 < t"
  shows "valid_prob (fquot x (fadd x y))"
proof -
  have "t = rnd (a + b) \<or> pow2 1024 \<le> a + b"
    using assms by (auto simp: to_float_def Let_def split: if_splits)
  have "fadd x y = to_float (a + b)" using assms by simp
  then have "t = rnd (a + b)"
    using assms(6) by (auto simp: to_float_def Let_def split: if_splits)
  then have "a \<le> t" using rnd_ge [of a "a + b"] assms by simp
  then have "0 \<le> a / t" "a / t \<le> 1" using assms by (simp_all add: divide_le_eq_1)
  from to_float_ranged [OF this] have "ranged 0 1 (to_float (a / t))" by simp
  then show ?thesis using assms by (simp add: valid_prob_ranged fquot_def)
qed

lemma fadd_commute: "fadd x y = fadd y x"
  by (cases x; cases y) (simp_all add: add.commute)

lemma fadd_rounded: "fadd x y = Fin a \<Longrightarrow> is_fin x \<Longrightarrow> is_fin y \<Longrightarrow> rnd a = a"
  by (auto simp: is_fin_iff to_float_def Let_def split: if_splits)

text \<open>
  C34: Blending keeps probabilities: from valid model and market probabilities and a valid base
  weight, every blend weight lies between the floor and one half, and the two blended numbers
  are finite and between 0 and 1, so the filters never see an invalid blended probability.
\<close>

theorem blended_probabilities_valid:
  assumes "valid_prob model_a" "valid_prob market_a" "valid_prob model_b" "valid_prob market_b"
    and "valid_prob base"
  shows "valid_prob (fst (compute_independent_blend_probs model_a market_a no_a model_b market_b no_b base))
    \<and> valid_prob (snd (compute_independent_blend_probs model_a market_a no_a model_b market_b no_b base))
    \<and> fle BLEND_WEIGHT_MIN (dynamic_blend_weight model_a market_a no_a base)
    \<and> fle (dynamic_blend_weight model_a market_a no_a base) BLEND_WEIGHT_MAX"
proof -
  let ?wa = "dynamic_blend_weight model_a market_a (opt_float (coerce_probability no_a)) base"
  let ?wb = "dynamic_blend_weight model_b market_b (opt_float (coerce_probability no_b)) base"
  let ?x = "blend_probability model_a market_a ?wa" and ?y = "blend_probability model_b market_b ?wb"
  note weights = dynamic_blend_weight_ranged [OF assms(1,2,5)] dynamic_blend_weight_ranged [OF assms(3,4,5)]
  have x: "ranged 0 2 ?x" and y: "ranged 0 2 ?y"
    using blend_probability_ranged [OF assms(1,2)] blend_probability_ranged [OF assms(3,4)] weights
    by blast+
  obtain a b where ab: "?x = Fin a" "0 \<le> a" "?y = Fin b" "0 \<le> b"
    using x y by (auto elim!: rangedE)
  have summands: "is_fin (fmul w p)" if "ranged 0 1 w" "ranged 0 1 p" for w p
    using fmul_ranged_nonneg [OF that] ranged_fin by simp
  have float: "rnd c = c" if "blend_probability m k w = Fin c" "valid_prob m" "valid_prob k"
      "ranged 0 (1 / 2) w" for c m k w
  proof (rule fadd_rounded [OF that(1) [unfolded blend_probability_def]])
    have w: "ranged 0 1 w" using that(4) by (rule ranged_mono) simp_all
    have "ranged 0 1 (fsub (Fin 1) w)" using fsub_ranged [of 1 1 "Fin 1" 0 1 w] w by simp
    then show "is_fin (fmul w m)" "is_fin (fmul (fsub (Fin 1) w) k)"
      using summands w that by (simp_all add: valid_prob_ranged)
  qed
  have ra: "rnd a = a" and rb: "rnd b = b"
    using float [OF ab(1) assms(1,2)] float [OF ab(3) assms(3,4)] weights by blast+
  obtain t where t: "fadd ?x ?y = Fin t"
    using fadd_ranged [OF x y] by (auto elim!: rangedE)
  have share: "valid_prob (fquot ?x (fadd ?x ?y))" "valid_prob (fquot ?y (fadd ?x ?y))" if "0 < t"
    using share_valid [OF ab(1,3,2,4) ra t that] share_valid [OF ab(3,1,4,2) rb _ that] t
    by (simp_all add: fadd_commute [of ?x ?y])
  have half: "valid_prob (Fin (1 / 2))" by code_simp
  have "valid_prob (fst (compute_independent_blend_probs model_a market_a no_a model_b market_b no_b base))
      \<and> valid_prob (snd (compute_independent_blend_probs model_a market_a no_a model_b market_b no_b base))"
    using share half t by (simp add: compute_independent_blend_probs_def Let_def)
  moreover have "fle (dynamic_blend_weight model_a market_a no_a base) BLEND_WEIGHT_MAX"
    using dynamic_blend_weight_ranged(1) [OF assms(1,2,5), of no_a]
    by (rule rangedE) (simp add: constant_ranges)
  ultimately show ?thesis using weights(2) by blast
qed

theorem blended_probabilities_valid_witness:
  "valid_prob (fst (compute_independent_blend_probs (lit (7 / 10)) (lit (6 / 10)) JNull
     (lit (3 / 10)) (lit (4 / 10)) (JFloat NaN) BLEND_WEIGHT))"
  by (rule conjunct1 [OF blended_probabilities_valid]) code_simp+

section \<open>Conviction bets\<close>

definition sound_conviction :: "bool \<Rightarrow> side \<Rightarrow> int option \<Rightarrow> int option \<Rightarrow> bool" where
  "sound_conviction require_ev sd own opp \<longleftrightarrow>
     fle CONVICTION_MIN_MODEL_PROB (sd_model sd)
     \<and> (\<exists>p. sd_no_odds sd = Some p \<and> fle CONVICTION_MIN_NO_ODDS_PROB p)
     \<and> (\<exists>n m. own = Some n \<and> opp = Some m \<and> MIN_FIGHTER_FIGHTS \<le> n \<and> MIN_FIGHTER_FIGHTS \<le> m)
     \<and> (require_ev \<longrightarrow> \<not> fle (calculate_expected_value (sd_model sd)
                            (implied_prob_to_decimal_odds (sd_market sd)) (Fin 1)) (Fin 0))"

lemma conviction_gates_sound:
  assumes "conviction_gates require_ev (sd_model sd) (sd_market sd) (sd_no_odds sd) own opp"
    and "sd_model sd \<noteq> NaN" "sd_no_odds sd \<noteq> Some NaN"
  shows "sound_conviction require_ev sd own opp"
  using assms
  by (auto simp: conviction_gates_def sound_conviction_def not_flt_iff not_less
      CONVICTION_MIN_MODEL_PROB_def CONVICTION_MIN_NO_ODDS_PROB_def
      split: if_splits option.splits)

lemma row_sides_valid:
  assumes "row_sides vs row = Some (a, b)"
  shows "valid_prob (sd_model a) \<and> valid_prob (sd_model b) \<and> sd_no_odds a \<noteq> Some NaN
    \<and> sd_no_odds b \<noteq> Some NaN"
proof -
  have "coerce_probability v \<noteq> Some NaN" for v
    using coerce_probability_valid [of v NaN] by (auto simp: valid_prob_def)
  then show ?thesis
    using assms coerce_probability_valid
    by (auto simp: row_sides_def Let_def split: option.splits if_splits prod.splits)
qed

text \<open>
  A conviction bet is only made on a side whose model probability reaches 65 percent, whose
  no-odds probability is available and reaches 50 percent, with both fighters experienced
  enough and, when required, a positive expected value at the market's odds.
\<close>

theorem conviction_bets_sound:
  assumes "bet \<in> set (conviction_row require_ev row)"
  shows "\<exists>a b sd own opp. row_sides default_settings row = Some (a, b)
    \<and> bet = conviction_bet row sd \<and> sound_conviction require_ev sd own opp
    \<and> (sd = a \<and> own = coerce_optional_int (jget row ''a_num_fights'')
         \<and> opp = coerce_optional_int (jget row ''b_num_fights'')
       \<or> sd = b \<and> own = coerce_optional_int (jget row ''b_num_fights'')
         \<and> opp = coerce_optional_int (jget row ''a_num_fights''))"
proof -
  obtain a b where ab: "row_sides default_settings row = Some (a, b)"
    using assms by (cases "row_sides default_settings row") (auto simp: conviction_row_def Let_def)
  note valid = row_sides_valid [OF ab]
  have num: "valid_prob p \<Longrightarrow> p \<noteq> NaN" for p by (auto simp: valid_prob_def)
  show ?thesis
    using assms ab valid num conviction_gates_sound
    by (auto simp: conviction_row_def Let_def split: if_splits) blast+
qed

text \<open>
  The size of a conviction bet is zero, or at least one dollar and at most the cap of eight
  percent of the bankroll, rounded to cents as the code rounds it.
\<close>

theorem conviction_bet_size_bounds:
  assumes "valid_prob p" "is_fin bankroll" "fle (Fin 0) bankroll"
  shows "conviction_bet_size p bankroll = Fin 0
    \<or> fle (Fin 1) (conviction_bet_size p bankroll)
      \<and> fle (conviction_bet_size p bankroll) (fround (fmul CONVICTION_MAX_BET_FRACTION bankroll) 2)"
proof -
  define excess where "excess = py_max (Fin 0) (fsub p CONVICTION_MIN_MODEL_PROB)"
  define raw where "raw = fadd (fmul CONVICTION_BET_FRACTION bankroll)
    (fmul (fmul (fquot excess (lit (5 / 100))) CONVICTION_CONFIDENCE_BONUS) bankroll)"
  define cap where "cap = fmul CONVICTION_MAX_BET_FRACTION bankroll"
  obtain b where b: "bankroll = Fin b" "0 \<le> b" using assms by (auto simp: is_fin_iff)
  have "ranged 0 1 CONVICTION_MIN_MODEL_PROB" "ranged 0 1 CONVICTION_BET_FRACTION"
    "ranged 0 1 CONVICTION_CONFIDENCE_BONUS" "ranged 0 1 CONVICTION_MAX_BET_FRACTION"
    "ranged (1 / 32) 1 (lit (5 / 100))"
    by code_simp+
  note c = this
  have "ranged (- 1) 1 (fsub p CONVICTION_MIN_MODEL_PROB)"
    using fsub_ranged [of 0 1 p 0 1] assms(1) c(1) by (simp add: valid_prob_ranged)
  then have excess: "ranged 0 1 excess"
    unfolding excess_def by (auto elim!: rangedE simp: py_max_def)
  then obtain e d where ed: "excess = Fin e" "0 \<le> e" "e \<le> 1" "lit (5 / 100) = Fin d" "1 / 32 \<le> d"
    using c(5) by (auto elim!: rangedE)
  have "e / d \<le> 1 / (1 / 32)" using ed by (intro frac_le) auto
  then have "ranged 0 32 (fquot excess (lit (5 / 100)))"
    using ed bound_ok_int [of 32] unfolding ed(1,4) by (auto simp: fquot_def intro!: to_float_ranged)
  then have "ranged 0 32 (fmul (fquot excess (lit (5 / 100))) CONVICTION_CONFIDENCE_BONUS)"
    using fmul_ranged_nonneg [of 32 _ 1] c(3) bound_ok_int [of 32] by simp
  then have "fle (Fin 0) raw"
    unfolding raw_def b(1) using c(2) b(2) by (intro fadd_nonneg fmul_nonneg_const)
  moreover have "fle (Fin 0) cap"
    unfolding cap_def b(1) using c(4) b(2) by (rule fmul_nonneg_const)
  ultimately have bet: "fle (py_min raw cap) cap" "py_min raw cap \<noteq> NaN"
    using not_flt_iff [of cap raw] fle_not_NaN by (auto simp: py_min_def fle_refl)
  have size: "conviction_bet_size p bankroll = (if flt (py_min raw cap) (Fin 1) then Fin 0
      else fround (py_min raw cap) 2)"
    by (simp add: conviction_bet_size_def Let_def raw_def cap_def excess_def)
  show ?thesis
    using fround_mono [of "Fin 1" "py_min raw cap" 2, unfolded fround_one] fround_mono [OF bet(1), of 2]
      bet(2)
    by (auto simp: size not_flt_iff cap_def [symmetric])
qed

text \<open>A prediction row that yields both kinds of bet.\<close>

definition demo_row :: dict where
  "demo_row =
     [(''fighter_a'', JStr ''Ann''), (''fighter_b'', JStr ''Bea''),
       (''prob_a'', JInt 1), (''prob_b'', JInt 0),
      (''a_market_prob'', JFloat (Fin (1 / 2))), (''b_market_prob'', JFloat (Fin (1 / 2))),
      (''no_odds_prob_a'', JFloat (Fin (3 / 4))), (''no_odds_prob_b'', JFloat (Fin (1 / 4))),
      (''a_num_fights'', JInt 5), (''b_num_fights'', JInt 9), (''token_id_yes'', JStr ''t'')]"

theorem conviction_bet_size_bounds_witness:
  "conviction_bet_size (lit (8 / 10)) (Fin 500) = Fin 40"
proof -
  have "conviction_bet_size (lit (8 / 10)) (Fin 500) = Fin 0
    \<or> fle (Fin 1) (conviction_bet_size (lit (8 / 10)) (Fin 500))
      \<and> fle (conviction_bet_size (lit (8 / 10)) (Fin 500))
          (fround (fmul CONVICTION_MAX_BET_FRACTION (Fin 500)) 2)"
    by (rule conviction_bet_size_bounds) code_simp+
  moreover have "conviction_bet_size (lit (8 / 10)) (Fin 500) = Fin 40" by code_simp
  ultimately show ?thesis by blast
qed

text \<open>The weights and blends of the row, one operation at a time.\<close>

lemma demo_weight_steps:
  "fmul (fabs (fsub (Fin 1) (Fin (1 / 2)))) (Fin 2) = Fin 1"
  "fmul (fabs (fsub (Fin 0) (Fin (1 / 2)))) (Fin 2) = Fin 1"
  "flt conf_cut (Fin 1)" "fquot (fsub (Fin 1) conf_cut) (fsub (Fin 1) conf_cut) = Fin 1"
  "fadd BLEND_WEIGHT (fmul (Fin 1) (fsub BLEND_WEIGHT_MAX BLEND_WEIGHT)) = Fin (1 / 2)"
  "py_min BLEND_WEIGHT_MAX (fadd (Fin (1 / 2)) BLEND_AGREEMENT_BOOST) = Fin (1 / 2)"
  "fclip (Fin (1 / 2)) BLEND_WEIGHT_MIN BLEND_WEIGHT_MAX = Fin (1 / 2)"
  by code_simp+

lemma demo_weights:
  "dynamic_blend_weight (Fin 1) m no_odds BLEND_WEIGHT = Fin (1 / 2)"
  "dynamic_blend_weight (Fin 0) m no_odds BLEND_WEIGHT = Fin (1 / 2)"
  by (simp_all add: dynamic_blend_weight_def Let_def demo_weight_steps py_min_def [of "Fin 1"]
      split: option.split)

lemma demo_blends:
  "compute_independent_blend_probs (Fin 1) (Fin (1 / 2)) na (Fin 0) (Fin (1 / 2)) nb BLEND_WEIGHT
   = (Fin (3 / 4), Fin (1 / 4))"
proof -
  have "blend_probability (Fin 1) (Fin (1 / 2)) (Fin (1 / 2)) = Fin (3 / 4)"
    "blend_probability (Fin 0) (Fin (1 / 2)) (Fin (1 / 2)) = Fin (1 / 4)"
    "fadd (Fin (3 / 4)) (Fin (1 / 4)) = Fin 1"
    "fquot (Fin (3 / 4)) (Fin 1) = Fin (3 / 4)" "fquot (Fin (1 / 4)) (Fin 1) = Fin (1 / 4)"
    by code_simp+
  then show ?thesis by (simp add: compute_independent_blend_probs_def Let_def demo_weights)
qed

definition demo_a :: side where
  "demo_a =
     \<lparr>sd_side = ''a'', sd_fighter = JStr ''Ann'', sd_model = Fin 1, sd_blend = Fin (3 / 4),
      sd_market = Fin (1 / 2), sd_edge = Fin (1 / 4), sd_no_odds = Some (Fin (3 / 4))\<rparr>"

definition demo_b :: side where
  "demo_b =
     \<lparr>sd_side = ''b'', sd_fighter = JStr ''Bea'', sd_model = Fin 0, sd_blend = Fin (1 / 4),
      sd_market = Fin (1 / 2), sd_edge = Fin (- (1 / 4)), sd_no_odds = Some (Fin (1 / 4))\<rparr>"

lemma demo_row_sides: "row_sides default_settings demo_row = Some (demo_a, demo_b)"
proof -
  have "coerce_probability (jget demo_row ''prob_a'') = Some (Fin 1)"
    "coerce_probability (jget demo_row ''prob_b'') = Some (Fin 0)"
    "first_valid_probability [jget demo_row ''a_market_prob'', jget demo_row ''a_fair_prob_avg''] NaN
      = Fin (1 / 2)"
    "first_valid_probability [jget demo_row ''b_market_prob'', jget demo_row ''b_fair_prob_avg''] NaN
      = Fin (1 / 2)"
    "coerce_probability (jget demo_row ''no_odds_prob_a'') = Some (Fin (3 / 4))"
    "coerce_probability (jget demo_row ''no_odds_prob_b'') = Some (Fin (1 / 4))"
    "fsub (Fin (3 / 4)) (Fin (1 / 2)) = Fin (1 / 4)" "fsub (Fin (1 / 4)) (Fin (1 / 2)) = Fin (- (1 / 4))"
    "jget_or demo_row ''fighter_a'' (JStr ''A'') = JStr ''Ann''"
    "jget_or demo_row ''fighter_b'' (JStr ''B'') = JStr ''Bea''"
    by code_simp+
  then show ?thesis
    by (simp add: row_sides_def Let_def default_settings_def demo_blends demo_a_def demo_b_def)
qed

lemma demo_value: "rr_bet (value_row default_settings demo_row demo_a demo_b) \<noteq> None"
proof -
  have "by_edge demo_a demo_b = [demo_a, demo_b]" by code_simp
  moreover have "flt (sd_edge demo_b) (vs_min_edge default_settings)"
    "\<not> flt (sd_edge demo_a) (vs_min_edge default_settings)"
    by code_simp+
  moreover have "side_passes default_settings demo_row demo_a"
  proof -
    have "filter_rejection_reason (sd_blend demo_a) (sd_market demo_a) (sd_edge demo_a)
        (side_args default_settings demo_row demo_a) = None"
      by code_simp
    then show ?thesis
      unfolding side_passes_def by (simp add: reason_none_passes)
  qed
  ultimately show ?thesis by (simp add: value_row_def Let_def)
qed

lemma demo_value_rows: "length (fst (value_rows default_settings [demo_row])) = 1"
  using demo_value by (auto simp: demo_row_sides Let_def)

theorem value_bets_sound_witness:
  "\<exists>bet a b sd. bet \<in> set (fst (value_rows default_settings [demo_row]))
     \<and> row_sides default_settings demo_row = Some (a, b) \<and> (sd = a \<or> sd = b)
     \<and> sound_value_side default_settings demo_row sd"
proof -
  obtain bet where bet: "bet \<in> set (fst (value_rows default_settings [demo_row]))"
    using demo_value_rows by (cases "fst (value_rows default_settings [demo_row])") auto
  from value_bets_sound [OF bet] show ?thesis using bet by auto
qed

theorem one_entry_per_row_witness:
  "length (fst (value_rows default_settings [demo_row])) = 1
     \<and> length (fst (snd (value_rows default_settings [demo_row]))) = 0"
  using one_entry_per_row [of default_settings "[demo_row]" demo_row demo_a demo_b]
    demo_value_rows
  by auto

lemma demo_conviction:
  "conviction_gates True (sd_model demo_a) (sd_market demo_a)
     (sd_no_odds demo_a) (coerce_optional_int (jget demo_row ''a_num_fights''))
     (coerce_optional_int (jget demo_row ''b_num_fights''))"
  by code_simp

theorem conviction_bets_sound_witness:
  "\<exists>bet sd own opp. bet \<in> set (conviction_row True demo_row) \<and> sound_conviction True sd own opp"
proof -
  have bet: "conviction_bet demo_row demo_a \<in> set (conviction_row True demo_row)"
    using demo_conviction by (simp add: conviction_row_def demo_row_sides Let_def)
  from conviction_bets_sound [OF bet] show ?thesis using bet by blast
qed

end
