(* ===== verification/Bankroll.thy ===== *)
theory Bankroll
  imports Py_Text
begin

text \<open>
  \<^verbatim>\<open>src/strategy/bankroll.py\<close>: the live account snapshot, the bankroll manager that separates total
  equity (which sizes bets and triggers the stop-loss) from available cash (which pays for
  them), and its statistics. The wallet client is an argument: its two balance queries either
  return a dictionary or raise (\<open>None\<close>). The ledger is the list of its bets, or \<open>None\<close> when
  loading it raises. Amounts are binary64 values.
\<close>

definition INITIAL_BANKROLL :: pyfloat where "INITIAL_BANKROLL = lit 500"
definition KELLY_FRACTION :: pyfloat where "KELLY_FRACTION = lit (25 / 100)"
definition MAX_BET_FRACTION :: pyfloat where "MAX_BET_FRACTION = lit (4 / 100)"
definition STOP_LOSS_FRACTION :: pyfloat where "STOP_LOSS_FRACTION = lit (60 / 100)"

section \<open>The live account\<close>

record account_client =
  ac_cash :: "bool \<Rightarrow> dict option"
  ac_portfolio :: "dict option"

record account_state =
  as_cash :: pyfloat
  as_portfolio :: pyfloat
  as_equity :: pyfloat
  as_cash_source :: string
  as_portfolio_source :: string
  as_confirmed_cash :: bool
  as_confirmed_portfolio :: bool

definition account_fallback :: account_state where
  "account_fallback =
     \<lparr>as_cash = Fin 0, as_portfolio = Fin 0, as_equity = Fin 0, as_cash_source = ''unavailable'',
      as_portfolio_source = ''unavailable'', as_confirmed_cash = False,
      as_confirmed_portfolio = False\<rparr>"

text \<open>\<open>float(d.get(key) or 0.0)\<close>; \<open>None\<close> when the conversion raises.\<close>

definition amount_of :: "dict \<Rightarrow> string \<Rightarrow> pyfloat option" where
  "amount_of d key = (if truthy (jget d key) then float_of (jget d key) else Some (Fin 0))"

text \<open>\<open>str(d.get("source", "unavailable") or "unavailable")\<close>\<close>

definition source_of :: "dict \<Rightarrow> string" where
  "source_of d =
     (if truthy (jget d ''source'') then py_str (jget d ''source'') else ''unavailable'')"

definition fetch_account_state :: "bool \<Rightarrow> bool \<Rightarrow> bool \<Rightarrow> account_client \<Rightarrow> account_state" where
  "fetch_account_state require_confirmed_cash require_portfolio fetch_portfolio client =
     (case ac_cash client (\<not> require_confirmed_cash) of
        None \<Rightarrow> account_fallback
      | Some cash_details \<Rightarrow>
          (case amount_of cash_details ''balance'' of
             None \<Rightarrow> account_fallback
           | Some cash \<Rightarrow>
               (let cash_source = source_of cash_details;
                    confirmed_cash = (cash_source = ''clob'');
                    portfolio =
                      (if fetch_portfolio \<or> require_portfolio then
                         Option.bind (ac_portfolio client) (\<lambda>d.
                           Option.bind (amount_of d ''value'') (\<lambda>v. Some (v, source_of d)))
                       else Some (Fin 0, ''unavailable''))
                in case portfolio of
                     None \<Rightarrow> account_fallback
                   | Some (value, portfolio_source) \<Rightarrow>
                       (let confirmed_portfolio =
                              ((fetch_portfolio \<or> require_portfolio) \<and> portfolio_source = ''data_api'')
                        in if require_confirmed_cash \<and> \<not> confirmed_cash then
                             account_fallback\<lparr>as_cash_source := cash_source,
                                              as_portfolio_source := portfolio_source\<rparr>
                           else if require_portfolio \<and> \<not> confirmed_portfolio then
                             account_fallback\<lparr>as_cash := cash, as_cash_source := cash_source,
                                              as_confirmed_cash := confirmed_cash,
                                              as_portfolio_source := portfolio_source\<rparr>
                           else
                             \<lparr>as_cash = cash, as_portfolio = value, as_equity = fadd cash value,
                              as_cash_source = cash_source, as_portfolio_source = portfolio_source,
                              as_confirmed_cash = confirmed_cash,
                              as_confirmed_portfolio = confirmed_portfolio\<rparr>))))"

section \<open>The manager\<close>

record placed_bet =
  pb_fighter :: string
  pb_amount :: pyfloat
  pb_odds :: pyfloat
  pb_model :: pyfloat
  pb_market :: pyfloat
  pb_edge :: pyfloat
  pb_before :: pyfloat
  pb_cash_before :: pyfloat
  pb_potential :: pyfloat
  pb_result :: "string option"
  pb_profit :: "pyfloat option"
  pb_placed_at :: string
  pb_settled_at :: "string option"
  pb_after :: "pyfloat option"
  pb_cash_after :: "pyfloat option"

record manager =
  bm_initial :: pyfloat
  bm_cash :: pyfloat
  bm_equity :: pyfloat
  bm_kelly :: pyfloat
  bm_max_bet :: pyfloat
  bm_stop_loss :: pyfloat
  bm_peak :: pyfloat
  bm_history :: "placed_bet list"

text \<open>\<open>_sync_from_ledger\<close>. A ledger amount that is no number raises in the code; the model
  gives \<open>None\<close>.\<close>

definition real_bets :: "dict list \<Rightarrow> dict list" where
  "real_bets bets =
     filter (\<lambda>b. \<not> truthy (case map_of b ''dry_run'' of None \<Rightarrow> JBool True | Some v \<Rightarrow> v)) bets"

definition status_of :: "dict \<Rightarrow> json" where
  "status_of b = (case map_of b ''status'' of None \<Rightarrow> JStr ''open'' | Some v \<Rightarrow> v)"

fun ledger_totals :: "dict list \<Rightarrow> pyfloat \<times> pyfloat \<Rightarrow> (pyfloat \<times> pyfloat) option" where
  "ledger_totals [] acc = Some acc"
| "ledger_totals (b # bs) (wagered, pnl) =
     (case amount_of b ''amount'' of
        None \<Rightarrow> None
      | Some amount \<Rightarrow>
          (if status_of b = JStr ''open'' then ledger_totals bs (fadd wagered amount, pnl)
           else if status_of b \<in> {JStr ''won'', JStr ''lost''} then
             (case amount_of b ''result_pnl'' of
                None \<Rightarrow> None
              | Some p \<Rightarrow> ledger_totals bs (wagered, fadd pnl p))
           else ledger_totals bs (wagered, pnl)))"

definition sync_from_ledger :: "dict list option \<Rightarrow> manager \<Rightarrow> manager option" where
  "sync_from_ledger ledger m =
     (case ledger of
        None \<Rightarrow> Some m
      | Some bets \<Rightarrow>
          (if real_bets bets = [] then Some m
           else
             (case ledger_totals (real_bets bets) (Fin 0, Fin 0) of
                None \<Rightarrow> None
              | Some (wagered, pnl) \<Rightarrow>
                  (let equity = fadd (bm_initial m) pnl
                   in Some (m\<lparr>bm_equity := equity, bm_cash := fsub equity wagered,
                              bm_peak := py_max (bm_peak m) equity\<rparr>)))))"

text \<open>\<open>BankrollManager(...)\<close>. \<open>detect\<close> is the client when \<open>auto_detect_balance\<close> is set, \<open>ledger\<close> what
  the ledger holds when \<open>sync_ledger\<close> is set.\<close>

record manager_args =
  ma_initial :: pyfloat
  ma_kelly :: pyfloat
  ma_max_bet :: pyfloat
  ma_stop_loss :: pyfloat
  ma_cash :: "pyfloat option"
  ma_equity :: "pyfloat option"

definition float_or :: "pyfloat \<Rightarrow> pyfloat \<Rightarrow> pyfloat" where
  "float_or x y = (if x = Fin 0 then y else x)"

definition init_manager ::
  "account_client option \<Rightarrow> dict list option option \<Rightarrow> manager_args \<Rightarrow> manager option" where
  "init_manager detect ledger ma =
     (let state = map_option (fetch_account_state True False True) detect;
          live = (case state of None \<Rightarrow> None
                  | Some st \<Rightarrow> if flt (Fin 0) (as_cash st)
                               then Some (float_or (as_equity st) (as_cash st), as_cash st)
                               else None);
          initial = (case live of None \<Rightarrow> ma_initial ma | Some (e, _) \<Rightarrow> e);
          equity = (case live of
                      None \<Rightarrow> (case ma_equity ma of None \<Rightarrow> initial | Some e \<Rightarrow> e)
                    | Some (e, _) \<Rightarrow> e);
          cash = (case live of
                    None \<Rightarrow> (case ma_cash ma of None \<Rightarrow> equity | Some c \<Rightarrow> c)
                  | Some (_, c) \<Rightarrow> c);
          m = \<lparr>bm_initial = initial, bm_cash = cash, bm_equity = equity, bm_kelly = ma_kelly ma,
               bm_max_bet = ma_max_bet ma, bm_stop_loss = ma_stop_loss ma, bm_peak = equity,
               bm_history = []\<rparr>
      in case ledger of
           None \<Rightarrow> Some m
         | Some l \<Rightarrow> if live = None then sync_from_ledger l m else Some m)"

definition refresh_balance :: "account_client \<Rightarrow> manager \<Rightarrow> manager \<times> pyfloat" where
  "refresh_balance client m =
     (let st = fetch_account_state True True True client;
          m' = (if as_confirmed_cash st \<and> as_confirmed_portfolio st
                then m\<lparr>bm_cash := as_cash st, bm_equity := as_equity st,
                       bm_peak := py_max (bm_peak m) (as_equity st)\<rparr>
                else m)
      in (m', bm_equity m'))"

definition is_stopped :: "manager \<Rightarrow> bool" where
  "is_stopped m \<longleftrightarrow> fle (bm_equity m) (fmul (bm_initial m) (fsub (Fin 1) (bm_stop_loss m)))"

text \<open>Division by a value found positive.\<close>

definition quot :: "pyfloat \<Rightarrow> pyfloat \<Rightarrow> pyfloat" where
  "quot x y = (case fdiv x y of None \<Rightarrow> NaN | Some q \<Rightarrow> q)"

definition current_drawdown :: "manager \<Rightarrow> pyfloat" where
  "current_drawdown m =
     (if fle (bm_peak m) (Fin 0) then Fin 0 else fsub (Fin 1) (quot (bm_equity m) (bm_peak m)))"

definition kelly_bet_size :: "manager \<Rightarrow> pyfloat \<Rightarrow> pyfloat \<Rightarrow> pyfloat" where
  "kelly_bet_size m model_prob decimal_odds =
     (if is_stopped m then Fin 0
      else (let b = fsub decimal_odds (Fin 1); p = model_prob; q = fsub (Fin 1) p
            in if fle b (Fin 0) \<or> fle p (Fin 0) then Fin 0
               else (let full_kelly = quot (fsub (fmul b p) q) b
                     in if fle full_kelly (Fin 0) then Fin 0
                        else (let fraction = py_min (fmul full_kelly (bm_kelly m)) (bm_max_bet m);
                                  bet_amount = fmul (bm_equity m) fraction
                              in if flt bet_amount (Fin 1) then Fin 0 else fround bet_amount 2))))"

definition new_bet ::
  "string \<Rightarrow> manager \<Rightarrow> pyfloat \<Rightarrow> string \<Rightarrow> pyfloat \<Rightarrow> pyfloat \<Rightarrow> pyfloat \<Rightarrow> placed_bet" where
  "new_bet now m amount fighter odds model_prob market_prob =
     \<lparr>pb_fighter = fighter, pb_amount = amount, pb_odds = odds, pb_model = model_prob,
      pb_market = market_prob, pb_edge = fsub model_prob market_prob, pb_before = bm_equity m,
      pb_cash_before = bm_cash m, pb_potential = fmul amount (fsub odds (Fin 1)), pb_result = None,
      pb_profit = None, pb_placed_at = now, pb_settled_at = None, pb_after = None,
      pb_cash_after = None\<rparr>"

text \<open>\<open>place_bet\<close>; \<open>None\<close> is the empty dictionary of a rejection.\<close>

definition place_bet ::
  "string \<Rightarrow> manager \<Rightarrow> pyfloat \<Rightarrow> string \<Rightarrow> pyfloat \<Rightarrow> pyfloat \<Rightarrow> pyfloat
   \<Rightarrow> manager \<times> placed_bet option" where
  "place_bet now m amount fighter odds model_prob market_prob =
     (if fle amount (Fin 0) then (m, None)
      else if is_stopped m then (m, None)
      else if flt (fadd (bm_cash m) (lit (1 / 10 ^ 9))) amount then (m, None)
      else (let cash = fsub (bm_cash m) amount;
                bet = (new_bet now m amount fighter odds model_prob market_prob)
                        \<lparr>pb_cash_after := Some cash\<rparr>
            in (m\<lparr>bm_cash := cash, bm_history := bm_history m @ [bet]\<rparr>, Some bet)))"

definition release_bet :: "manager \<Rightarrow> pyfloat \<Rightarrow> manager" where
  "release_bet m amount = (if fle amount (Fin 0) then m else m\<lparr>bm_cash := fadd (bm_cash m) amount\<rparr>)"

text \<open>\<open>settle_bet\<close>; \<open>None\<close> is an \<open>IndexError\<close>.\<close>

definition settle_bet :: "string \<Rightarrow> manager \<Rightarrow> nat \<Rightarrow> bool \<Rightarrow> manager option" where
  "settle_bet now m i won =
     (if length (bm_history m) \<le> i then None
      else
        (let bet = bm_history m ! i; stake = pb_amount bet;
             proceeds = fmul stake (pb_odds bet); profit = fsub proceeds stake;
             cash = (if won then fadd (bm_cash m) proceeds else bm_cash m);
             equity = (if won then fadd (bm_equity m) profit else fsub (bm_equity m) stake);
             bet' = bet\<lparr>pb_profit := Some (if won then profit else fneg stake),
                        pb_result := Some (if won then ''win'' else ''loss''),
                        pb_settled_at := Some now, pb_after := Some equity,
                        pb_cash_after := Some cash\<rparr>
         in Some (m\<lparr>bm_cash := cash, bm_equity := equity, bm_peak := py_max (bm_peak m) equity,
                    bm_history := (bm_history m)[i := bet']\<rparr>)))"

section \<open>Statistics\<close>

record bankroll_stats =
  st_total_bets :: nat
  st_wins :: nat
  st_losses :: nat
  st_win_rate :: pyfloat
  st_wagered :: pyfloat
  st_profit :: pyfloat
  st_roi :: pyfloat
  st_change :: pyfloat
  st_change_pct :: pyfloat
  st_max_drawdown :: pyfloat
  st_drawdown :: pyfloat
  st_avg_edge :: pyfloat
  st_avg_size :: pyfloat

definition float_of_nat :: "nat \<Rightarrow> pyfloat" where
  "float_of_nat n = to_float (of_nat n)"

text \<open>\<open>bet.get("settled_at") or bet.get("placed_at") or ""\<close>\<close>

definition settle_key :: "placed_bet \<Rightarrow> string" where
  "settle_key b = (case pb_settled_at b of None \<Rightarrow> pb_placed_at b
                   | Some t \<Rightarrow> if t = [] then pb_placed_at b else t)"

definition drawdown_step :: "pyfloat \<times> pyfloat \<Rightarrow> placed_bet \<Rightarrow> pyfloat \<times> pyfloat" where
  "drawdown_step acc b =
     (let (peak, dd) = acc;
          before = float_or (pb_before b) peak;
          dd1 = (if flt (Fin 0) peak then py_max dd (fsub (Fin 1) (quot before peak)) else dd);
          after = (case pb_after b of
                     Some a \<Rightarrow> a
                   | None \<Rightarrow> fadd before (case pb_profit b of None \<Rightarrow> Fin 0 | Some p \<Rightarrow> p));
          dd2 = (if flt (Fin 0) peak then py_max dd1 (fsub (Fin 1) (quot after peak)) else dd1)
      in (py_max peak after, dd2))"

definition get_stats :: "manager \<Rightarrow> bankroll_stats option" where
  "get_stats m =
     (let settled = filter (\<lambda>b. pb_result b \<noteq> None) (bm_history m)
      in if settled = [] then None
         else
           (let n = length settled;
                wins = length (filter (\<lambda>b. pb_result b = Some ''win'') settled);
                wagered = py_sum (map pb_amount settled);
                profit = py_sum (map (\<lambda>b. case pb_profit b of None \<Rightarrow> Fin 0 | Some p \<Rightarrow> p) settled);
                change = fsub (bm_equity m) (bm_initial m);
                (peak, max_dd) = foldl drawdown_step (bm_initial m, Fin 0) (sort_key settle_key settled)
            in Some \<lparr>st_total_bets = n, st_wins = wins, st_losses = n - wins,
                     st_win_rate = to_float (of_nat wins / of_nat n),
                     st_wagered = wagered, st_profit = profit,
                     st_roi = (if flt (Fin 0) wagered then quot profit wagered else Fin 0),
                     st_change = change,
                     st_change_pct = (if flt (Fin 0) (bm_initial m) then quot change (bm_initial m)
                                      else Fin 0),
                     st_max_drawdown = max_dd, st_drawdown = current_drawdown m,
                     st_avg_edge = quot (py_sum (map pb_edge settled)) (float_of_nat n),
                     st_avg_size = quot wagered (float_of_nat n)\<rparr>))"

section \<open>Histories of the manager\<close>

inductive manager_step :: "manager \<Rightarrow> manager \<Rightarrow> bool" where
  step_place: "place_bet now m amount fighter odds p q = (m', r) \<Longrightarrow> manager_step m m'"
| step_release: "manager_step m (release_bet m amount)"
| step_settle: "settle_bet now m i won = Some m' \<Longrightarrow> manager_step m m'"
| step_refresh: "refresh_balance client m = (m', e) \<Longrightarrow> manager_step m m'"

inductive_cases manager_stepE: "manager_step m m'"

abbreviation manager_run :: "manager \<Rightarrow> manager \<Rightarrow> bool" where
  "manager_run \<equiv> manager_step\<^sup>*\<^sup>*"

text \<open>What is fixed when a bet is placed.\<close>

definition bet_terms :: "placed_bet \<Rightarrow> string \<times> pyfloat \<times> pyfloat \<times> string" where
  "bet_terms b = (pb_fighter b, pb_amount b, pb_odds b, pb_placed_at b)"

definition bet_consistent :: "placed_bet \<Rightarrow> bool" where
  "bet_consistent b \<longleftrightarrow>
     \<not> fle (pb_amount b) (Fin 0)
     \<and> (case pb_result b of
          None \<Rightarrow> pb_profit b = None \<and> pb_settled_at b = None \<and> pb_after b = None
        | Some r \<Rightarrow> r \<in> {''win'', ''loss''} \<and> pb_profit b \<noteq> None \<and> pb_settled_at b \<noteq> None
                    \<and> pb_after b \<noteq> None)"

definition manager_inv :: "manager \<Rightarrow> bool" where
  "manager_inv m \<longleftrightarrow>
     bm_peak m \<noteq> NaN \<and> (bm_equity m \<noteq> NaN \<longrightarrow> fle (bm_equity m) (bm_peak m))
     \<and> list_all bet_consistent (bm_history m)"

lemma py_max_peak:
  "p \<noteq> NaN \<Longrightarrow> py_max p e \<noteq> NaN \<and> (e \<noteq> NaN \<longrightarrow> fle e (py_max p e)) \<and> fle p (py_max p e)"
  by (cases p; cases e) (auto simp: py_max_def fle_def feq_def)

lemma place_bet_cases:
  assumes "place_bet now m amount fighter odds p q = (m', r)"
  shows "m' = m \<and> r = None \<or>
    (\<exists>bet. r = Some bet \<and> bm_history m' = bm_history m @ [bet] \<and> pb_amount bet = amount
       \<and> \<not> fle amount (Fin 0) \<and> \<not> is_stopped m
       \<and> \<not> flt (fadd (bm_cash m) (lit (1 / 10 ^ 9))) amount
       \<and> bm_cash m' = fsub (bm_cash m) amount \<and> bm_equity m' = bm_equity m
       \<and> bm_peak m' = bm_peak m \<and> bm_initial m' = bm_initial m
       \<and> bet_consistent bet)"
  using assms
  by (auto simp: place_bet_def Let_def new_bet_def bet_consistent_def split: if_splits)

lemma settle_bet_cases:
  assumes "settle_bet now m i won = Some m'"
  obtains b where "i < length (bm_history m)" "bm_history m' = (bm_history m)[i := b]"
    "bet_terms b = bet_terms (bm_history m ! i)"
    "bet_consistent (bm_history m ! i) \<Longrightarrow> bet_consistent b"
    "bm_peak m' = py_max (bm_peak m) (bm_equity m')" "bm_initial m' = bm_initial m"
proof -
  have "\<exists>b. i < length (bm_history m) \<and> bm_history m' = (bm_history m)[i := b]
      \<and> bet_terms b = bet_terms (bm_history m ! i)
      \<and> (bet_consistent (bm_history m ! i) \<longrightarrow> bet_consistent b)
      \<and> bm_peak m' = py_max (bm_peak m) (bm_equity m') \<and> bm_initial m' = bm_initial m"
    using assms
    by (auto simp: settle_bet_def Let_def bet_terms_def bet_consistent_def split: if_splits
        intro!: exI [of _ "(bm_history m ! i)\<lparr>pb_profit := _, pb_result := _, pb_settled_at := _,
          pb_after := _, pb_cash_after := _\<rparr>"])
  then show ?thesis using that by blast
qed

text \<open>One step keeps the invariant and never lowers the peak or drops a bet.\<close>

lemma manager_step_inv:
  assumes "manager_step m m'" "manager_inv m"
  shows "manager_inv m' \<and> fle (bm_peak m) (bm_peak m')
    \<and> map bet_terms (bm_history m) = take (length (bm_history m)) (map bet_terms (bm_history m'))"
  using assms(1)
proof (rule manager_stepE)
  fix now amount fighter odds p q r
  assume "place_bet now m amount fighter odds p q = (m', r)"
  from place_bet_cases [OF this] show ?thesis
    using assms(2) by (auto simp: manager_inv_def fle_def feq_def)
next
  fix amount
  assume "m' = release_bet m amount"
  then show ?thesis
    using assms(2) by (auto simp: release_bet_def manager_inv_def fle_def feq_def)
next
  fix now i won
  assume "settle_bet now m i won = Some m'"
  then show ?thesis
  proof (rule settle_bet_cases)
    fix b
    assume *: "i < length (bm_history m)" "bm_history m' = (bm_history m)[i := b]"
      "bet_terms b = bet_terms (bm_history m ! i)"
      "bet_consistent (bm_history m ! i) \<Longrightarrow> bet_consistent b"
      "bm_peak m' = py_max (bm_peak m) (bm_equity m')"
    have "list_all bet_consistent (bm_history m')"
      using * assms(2) by (auto simp: manager_inv_def list_all_iff dest!: set_update_subset_insert [THEN subsetD])
    moreover have "map bet_terms (bm_history m') = map bet_terms (bm_history m)"
      using * by (simp add: map_update list_update_same_conv)
    ultimately show ?thesis
      using py_max_peak [of "bm_peak m" "bm_equity m'"] assms(2) *(5) by (auto simp: manager_inv_def)
  qed
next
  fix client e
  assume "refresh_balance client m = (m', e)"
  then show ?thesis
    using assms(2) py_max_peak [of "bm_peak m" "bm_equity m'"]
    by (auto simp: refresh_balance_def Let_def manager_inv_def split: if_splits)
      (auto simp: fle_def feq_def)
qed

section \<open>Properties\<close>

text \<open>
  C38: Through every history of placements, releases, settlements and refreshes, the peak equity
  is never lowered and never below the current equity, no bet is dropped from the record or has
  its fighter, amount, odds or placement time changed, and a bet has a result exactly when it
  has a profit, a settlement time and a closing balance.
\<close>

theorem manager_history_invariant:
  assumes "manager_run m m'" "manager_inv m"
  shows "manager_inv m' \<and> fle (bm_peak m) (bm_peak m')
    \<and> map bet_terms (bm_history m) = take (length (bm_history m)) (map bet_terms (bm_history m'))"
  using assms(1)
proof (induction rule: rtranclp_induct)
  case base
  then show ?case using assms(2) by (simp add: manager_inv_def fle_def feq_def)
next
  case (step y z)
  note inv = manager_step_inv [OF step.hyps(2), of] step.IH
  let ?n = "length (bm_history m)"
  have "map bet_terms (bm_history m) = take ?n (map bet_terms (bm_history y))"
    using step.IH by blast
  moreover from arg_cong [OF this, of length] have "?n \<le> length (bm_history y)" by simp
  moreover have "map bet_terms (bm_history y) = take (length (bm_history y)) (map bet_terms (bm_history z))"
    using inv by blast
  ultimately have "map bet_terms (bm_history m) = take ?n (map bet_terms (bm_history z))"
    by (simp add: min_def)
  moreover have "fle (bm_peak m) (bm_peak z)"
    using inv step.IH fle_trans [of "bm_peak m" "bm_peak y" "bm_peak z"] by blast
  ultimately show ?case using inv by blast
qed

definition demo_manager :: manager where
  "demo_manager =
     \<lparr>bm_initial = Fin 500, bm_cash = Fin 500, bm_equity = Fin 500, bm_kelly = KELLY_FRACTION,
      bm_max_bet = MAX_BET_FRACTION, bm_stop_loss = STOP_LOSS_FRACTION, bm_peak = Fin 500,
      bm_history = []\<rparr>"

theorem manager_history_invariant_witness:
  "\<exists>m1 m2. manager_run demo_manager m2 \<and> settle_bet ''t2'' m1 0 True = Some m2
     \<and> length (bm_history m2) = 1 \<and> manager_inv m2"
proof -
  let ?r = "place_bet ''t1'' demo_manager (Fin 20) ''Ann'' (Fin 2) (lit (6 / 10)) (Fin (1 / 2))"
  have len: "length (bm_history (fst ?r)) = 1" by code_simp
  have "settle_bet ''t2'' (fst ?r) 0 True \<noteq> None"
    using len by (simp add: settle_bet_def Let_def)
  then obtain m2 where m2: "settle_bet ''t2'' (fst ?r) 0 True = Some m2" by blast
  have run: "manager_run demo_manager m2"
  proof (rule rtranclp.rtrancl_into_rtrancl [OF r_into_rtranclp])
    show "manager_step demo_manager (fst ?r)"
      by (rule step_place [OF prod.collapse [symmetric]])
    show "manager_step (fst ?r) m2" by (rule step_settle [OF m2])
  qed
  have "manager_inv demo_manager" by (simp add: manager_inv_def demo_manager_def)
  from manager_history_invariant [OF run this] have "manager_inv m2" by blast
  moreover have "length (bm_history m2) = 1"
    using m2 len by (auto simp: settle_bet_def Let_def split: if_splits)
  ultimately show ?thesis using run m2 by blast
qed

text \<open>The full Kelly fraction of valid arguments is a number.\<close>

lemma full_kelly_not_NaN:
  assumes "ranged 0 1 p" "ranged 0 1000000 odds" "\<not> fle (fsub odds (Fin 1)) (Fin 0)"
  shows "quot (fsub (fmul (fsub odds (Fin 1)) p) (fsub (Fin 1) p)) (fsub odds (Fin 1)) \<noteq> NaN"
proof -
  define b where "b = fsub odds (Fin 1)"
  have bounds: "bound_ok 1000000" "bound_ok 999999"
    using bound_ok_int [of 1000000] bound_ok_int [of 999999] by simp_all
  then have b: "ranged (- 1) 999999 b"
    unfolding b_def using fsub_ranged [of 0 1000000 odds 1 1 "Fin 1"] assms(2) by simp
  then obtain b' p' where bp: "b = Fin b'" "0 < b'" "p = Fin p'"
    using assms(1,3) unfolding b_def by (auto elim!: rangedE simp: not_le)
  have "ranged 0 (999999 * 1) (fmul b p)"
    using fmul_ranged_nonneg [of 999999 b 1 p] b bp assms(1) bounds by simp
  moreover have "ranged 0 1 (fsub (Fin 1) p)" using fsub_ranged [of 1 1 "Fin 1" 0 1 p] assms(1) by simp
  ultimately have "ranged (0 - 1) (999999 - 0) (fsub (fmul b p) (fsub (Fin 1) p))"
    using bounds by (intro fsub_ranged) simp_all
  then show ?thesis
    unfolding b_def [symmetric] quot_def bp(1) using bp(2) by (auto elim!: rangedE)
qed

text \<open>
  C37: The Kelly stake is zero, or the stop-loss has not triggered and the stake is at least one
  dollar and at most the maximal fraction of total equity, rounded to cents as the code rounds it.
\<close>

theorem kelly_bet_size_bounds:
  assumes "bm_equity m = Fin e" "0 \<le> e" "bm_kelly m = Fin k" "0 < k" "bm_max_bet m = Fin c" "0 \<le> c"
    and "ranged 0 1 p" "ranged 0 1000000 odds"
  shows "kelly_bet_size m p odds = Fin 0
    \<or> \<not> is_stopped m \<and> fle (Fin 1) (kelly_bet_size m p odds)
      \<and> fle (kelly_bet_size m p odds) (fround (fmul (bm_equity m) (bm_max_bet m)) 2)"
proof -
  define b where "b = fsub odds (Fin 1)"
  define full where "full = quot (fsub (fmul b p) (fsub (Fin 1) p)) b"
  define fraction where "fraction = py_min (fmul full (bm_kelly m)) (bm_max_bet m)"
  define bet where "bet = fmul (bm_equity m) fraction"
  have size: "kelly_bet_size m p odds =
      (if is_stopped m \<or> fle b (Fin 0) \<or> fle p (Fin 0) \<or> fle full (Fin 0) \<or> flt bet (Fin 1) then Fin 0
       else fround bet 2)"
    by (simp add: kelly_bet_size_def Let_def b_def full_def fraction_def bet_def)
  show ?thesis
  proof (cases "is_stopped m \<or> fle b (Fin 0) \<or> fle full (Fin 0) \<or> flt bet (Fin 1)")
    case True
    then show ?thesis by (auto simp: size)
  next
    case False
    have "full \<noteq> NaN"
      unfolding full_def b_def using full_kelly_not_NaN [OF assms(7,8)] False by (simp add: b_def)
    then have "fle (Fin 0) full" using False not_flt_iff [of full "Fin 0"] by (cases full) auto
    then have "fle (Fin 0) (fmul full (bm_kelly m))"
      using False assms(3,4) by (cases full) (auto simp: to_float_nonneg signed_inf_def)
    then have f: "fle (Fin 0) fraction" "fle fraction (Fin c)"
      unfolding fraction_def assms(5) using assms(6) not_flt_iff [of "Fin c" "fmul full (bm_kelly m)"]
        fle_not_NaN
      by (auto simp: py_min_def)
    then have le: "fle bet (fmul (bm_equity m) (bm_max_bet m))"
      unfolding bet_def assms(1,5) using assms(2) by (intro fmul_Fin_mono) auto
    then have "fle (Fin 1) bet" using False not_flt_iff [of bet "Fin 1"] fle_not_NaN by auto
    then have "fle (Fin 1) (fround bet 2)" using fround_mono [of "Fin 1" bet 2, unfolded fround_one] by blast
    then show ?thesis using False fround_mono [OF le, of 2] by (auto simp: size)
  qed
qed

theorem kelly_bet_size_bounds_witness: "kelly_bet_size demo_manager (Fin (3 / 4)) (Fin 2) = Fin 20"
proof -
  have v: "kelly_bet_size demo_manager (Fin (3 / 4)) (Fin 2) = Fin 20" by code_simp
  have "\<exists>k c. bm_kelly demo_manager = Fin k \<and> 0 < k \<and> bm_max_bet demo_manager = Fin c \<and> 0 \<le> c"
    unfolding demo_manager_def KELLY_FRACTION_def MAX_BET_FRACTION_def manager.simps
    by (intro exI conjI, rule refl, code_simp, rule refl, code_simp)
  then obtain k c where kc: "bm_kelly demo_manager = Fin k" "0 < k" "bm_max_bet demo_manager = Fin c"
      "0 \<le> c" by blast
  have "bm_equity demo_manager = Fin 500" by (simp add: demo_manager_def)
  from kelly_bet_size_bounds [OF this _ kc, of "Fin (3 / 4)" "Fin 2"] v show ?thesis by simp
qed

text \<open>
  C36: A placed bet never overdraws the account by more than a tolerance far below a cent: with
  cash of at most a million dollars that is not below minus four billionths, the cash after an
  accepted bet is again not below that; an accepted bet is positive, was not stopped, and
  leaves equity and peak alone, and a rejected one changes nothing.
\<close>

theorem place_bet_never_overdraws:
  assumes "place_bet now m amount fighter odds p q = (m', r)"
    and "ranged (- (1 / 2 ^ 28)) 1000000 (bm_cash m)" "amount \<noteq> NaN"
  shows "ranged (- (1 / 2 ^ 28)) 1000000 (bm_cash m') \<and> bm_equity m' = bm_equity m
    \<and> bm_peak m' = bm_peak m
    \<and> (if r = None then m' = m
       else \<not> fle amount (Fin 0) \<and> \<not> is_stopped m \<and> length (bm_history m') = Suc (length (bm_history m)))"
proof -
  have "ranged (- (1 / 2 ^ 28)) 1000000 (fsub (bm_cash m) amount)"
    if "\<not> fle amount (Fin 0)" "\<not> flt (fadd (bm_cash m) (lit (1 / 10 ^ 9))) amount"
  proof -
    obtain c where c: "bm_cash m = Fin c" "- (1 / 2 ^ 28) \<le> c" "c \<le> 1000000"
      using assms(2) by (rule rangedE)
    have eps: "0 \<le> rnd (1 / 10 ^ 9)" "rnd (1 / 10 ^ 9) \<le> 2 / 10 ^ 9" by code_simp+
    let ?x = "c + rnd (1 / 10 ^ 9)"
    have x: "\<bar>?x\<bar> \<le> 2 ^ 20" using c eps by (simp add: abs_le_iff)
    then have "fadd (bm_cash m) (lit (1 / 10 ^ 9)) = Fin (rnd ?x)"
      unfolding c(1) by (simp add: to_float_small)
    then have "fle amount (Fin (rnd ?x))" using that(2) assms(3) not_flt_iff by force
    moreover note that(1)
    ultimately obtain a where a: "amount = Fin a" "0 < a" "a \<le> rnd ?x"
      by (cases amount) auto
    have "- (1 / 2 ^ 28) \<le> c - a" using rnd_abs_error [OF x] a eps by simp
    moreover have "c - a \<le> 1000000" using c a by simp
    moreover have "bound_ok (- (1 / 2 ^ 28))"
      using rnd_exact [of "1 / 2 ^ 28" 1 "-28"] by (simp add: bound_ok_def pow2_def)
    moreover have "bound_ok 1000000" using bound_ok_int [of 1000000] by simp
    ultimately show ?thesis
      unfolding c(1) a(1) fsub_def using to_float_ranged [of "- (1 / 2 ^ 28)" "c - a" 1000000] by simp
  qed
  then show ?thesis using place_bet_cases [OF assms(1)] assms(2) by auto
qed

theorem place_bet_never_overdraws_witness:
  "\<exists>m' bet. place_bet ''t'' demo_manager (Fin 500) ''Ann'' (Fin 2) (Fin (3 / 4)) (Fin (1 / 2)) = (m', Some bet)
     \<and> ranged (- (1 / 2 ^ 28)) 1000000 (bm_cash m')"
proof -
  let ?r = "place_bet ''t'' demo_manager (Fin 500) ''Ann'' (Fin 2) (Fin (3 / 4)) (Fin (1 / 2))"
  have "snd ?r \<noteq> None" by code_simp
  then obtain m' bet where r: "?r = (m', Some bet)" by (cases ?r) auto
  have "ranged (- (1 / 2 ^ 28)) 1000000 (bm_cash demo_manager)" by (simp add: demo_manager_def)
  from place_bet_never_overdraws [OF r this] r show ?thesis by simp
qed

text \<open>
  Money that is not confirmed never enters the manager: a refresh changes cash, equity or
  peak only when the cash comes from the exchange and the portfolio value from its data
  service, and a snapshot that requires confirmed cash and does not get it reports no money.
\<close>

theorem unconfirmed_money_is_ignored:
  "(refresh_balance client m = (m', e) \<and> m' \<noteq> m \<longrightarrow>
      (\<exists>cash value. ac_cash client False = Some cash \<and> source_of cash = ''clob''
         \<and> ac_portfolio client = Some value \<and> source_of value = ''data_api''
         \<and> amount_of cash ''balance'' = Some (bm_cash m')))
   \<and> (let st = fetch_account_state True rp fp client
      in as_cash_source st \<noteq> ''clob'' \<longrightarrow>
           as_cash st = Fin 0 \<and> as_equity st = Fin 0 \<and> \<not> as_confirmed_cash st)"
  by (auto simp: refresh_balance_def fetch_account_state_def account_fallback_def Let_def
      bind_eq_Some_conv split: option.splits if_splits)

definition demo_client :: account_client where
  "demo_client =
     \<lparr>ac_cash = (\<lambda>_. Some [(''balance'', JFloat (Fin 80)), (''source'', JStr ''clob'')]),
      ac_portfolio = Some [(''value'', JFloat (Fin 40)), (''source'', JStr ''data_api'')]\<rparr>"

theorem unconfirmed_money_is_ignored_witness:
  "bm_cash (fst (refresh_balance demo_client demo_manager)) = Fin 80
   \<and> (let st = fetch_account_state True False False
          (demo_client\<lparr>ac_cash := (\<lambda>_. Some [(''balance'', JFloat (Fin 80)), (''source'', JStr ''onchain_usdc'')])\<rparr>)
      in as_cash st = Fin 0 \<and> \<not> as_confirmed_cash st)"
proof -
  let ?r = "refresh_balance demo_client demo_manager"
  let ?off = "demo_client\<lparr>ac_cash := (\<lambda>_. Some [(''balance'', JFloat (Fin 80)), (''source'', JStr ''onchain_usdc'')])\<rparr>"
  have cash: "bm_cash (fst ?r) = Fin 80" by code_simp
  have "bm_cash demo_manager = Fin 500" by (simp add: demo_manager_def)
  with cash have "fst ?r \<noteq> demo_manager" by auto
  then have "\<exists>c. ac_cash demo_client False = Some c \<and> amount_of c ''balance'' = Some (bm_cash (fst ?r))"
    using unconfirmed_money_is_ignored [of demo_client demo_manager "fst ?r" "snd ?r" False False]
    by auto
  moreover have "as_cash_source (fetch_account_state True False False ?off) \<noteq> ''clob''" by code_simp
  ultimately show ?thesis
    using cash unconfirmed_money_is_ignored [of ?off demo_manager "fst ?r" "snd ?r" False False]
    by (auto simp: Let_def)
qed

end
