(* ===== verification/Ledger_Rows.thy ===== *)
theory Ledger_Rows
  imports Cash_Debit Value
begin

text \<open>
  \<^verbatim>\<open>src/polymarket/tracker.py\<close>, the part that reads the rows of a bet ledger: which rows are
  open, settled or backed by a confirmed fill, what a row cost and how many shares it holds,
  and the aggregate of \<open>_build_summary_from_bets\<close>. A row is a dictionary as it was read from
  the JSON file. An exception that leaves a function is the \<open>Inl\<close> side.
\<close>

datatype ledger_error = KeyError string | TypeError | ValueError string | RuntimeError string | ZeroDivisionError

type_synonym 'a attempt = "ledger_error + 'a"

section \<open>Reading a row\<close>

definition UNRESOLVED_PLACEMENT_STATES :: "string list" where
  "UNRESOLVED_PLACEMENT_STATES = [''pending_submit'', ''submitted'', ''unknown'', ''pending'', ''resting'']"

definition CONFIRMED_PLACEMENT_STATES :: "string list" where
  "CONFIRMED_PLACEMENT_STATES = [''filled'', ''matched'']"

definition LIMIT_ORDER_TYPES :: "string list" where
  "LIMIT_ORDER_TYPES = [''limit_bid'', ''limit'', ''near_miss_limit'', ''marketable_limit'']"

definition CRYPTO_5M_ORDER_TYPE :: string where
  "CRYPTO_5M_ORDER_TYPE = ''btc5m_marketable_limit''"

definition CRYPTO_5M_STRATEGY_NAME :: string where
  "CRYPTO_5M_STRATEGY_NAME = ''btc5m_momentum''"

definition has_status :: "string \<Rightarrow> dict \<Rightarrow> bool" where
  "has_status s bet \<longleftrightarrow> jget bet ''status'' = JStr s"

abbreviation is_open :: "dict \<Rightarrow> bool" where
  "is_open \<equiv> has_status ''open''"

definition open_bets_from :: "dict list \<Rightarrow> dict list" where
  "open_bets_from bets = filter is_open bets"

definition safe_positive_float :: "json \<Rightarrow> pyfloat" where
  "safe_positive_float v =
     (case float_of v of None \<Rightarrow> Fin 0 | Some x \<Rightarrow> if flt (Fin 0) x then x else Fin 0)"

fun first_positive_float :: "json list \<Rightarrow> pyfloat" where
  "first_positive_float [] = Fin 0"
| "first_positive_float (v # vs) =
     (if flt (Fin 0) (safe_positive_float v) then safe_positive_float v else first_positive_float vs)"

definition actual_fill_amount :: "dict \<Rightarrow> pyfloat" where
  "actual_fill_amount bet = first_positive_float [jget bet ''actual_fill_amount'', jget bet ''fill_amount'']"

definition actual_filled_shares :: "dict \<Rightarrow> pyfloat" where
  "actual_filled_shares bet =
     first_positive_float [jget bet ''actual_filled_shares'', jget bet ''filled_shares'']"

definition has_actual_fill :: "dict \<Rightarrow> bool" where
  "has_actual_fill bet \<longleftrightarrow>
     flt (Fin 0) (actual_fill_amount bet) \<and> flt (Fin 0) (actual_filled_shares bet)"

text \<open>\<open>str(bet.get(key) or "").strip().lower()\<close>\<close>

definition norm_field :: "dict \<Rightarrow> string \<Rightarrow> string" where
  "norm_field bet key = py_lower (py_strip (text_of (jget bet key)))"

definition actual_fill_source :: "dict \<Rightarrow> string" where
  "actual_fill_source bet = norm_field bet ''actual_fill_source''"

definition is_crypto_5m_bet :: "dict \<Rightarrow> bool" where
  "is_crypto_5m_bet bet \<longleftrightarrow>
     text_of (jget bet ''order_type'') = CRYPTO_5M_ORDER_TYPE
     \<or> text_of (jget bet ''strategy'') = CRYPTO_5M_STRATEGY_NAME
     \<or> text_of (jget bet ''signal_source'') = CRYPTO_5M_STRATEGY_NAME
     \<or> has_infix ''-updown-5m-'' (norm_field bet ''market_slug'')"

definition has_polymarket_fill_evidence :: "dict \<Rightarrow> bool" where
  "has_polymarket_fill_evidence bet \<longleftrightarrow>
     has_actual_fill bet
     \<and> actual_fill_source bet \<in> set [''polymarket_activity'', ''clob_trade_history'']"

definition placement_state :: "dict \<Rightarrow> string" where
  "placement_state bet = norm_field bet ''placement_state''"

definition has_confirmed_position :: "dict \<Rightarrow> bool" where
  "has_confirmed_position bet =
     (if truthy (jget bet ''dry_run'') then True
      else if is_crypto_5m_bet bet then has_polymarket_fill_evidence bet
      else if has_actual_fill bet then True
      else if placement_state bet \<in> set CONFIRMED_PLACEMENT_STATES then True
      else if placement_state bet \<in> set UNRESOLVED_PLACEMENT_STATES then False
      else True)"

text \<open>\<open>float(d)\<close> of a non-negative \<open>Decimal\<close>.\<close>

definition dec_float :: "dec \<Rightarrow> pyfloat" where
  "dec_float d = to_float (dec_val d)"

definition is_real :: "dict \<Rightarrow> bool" where
  "is_real bet \<longleftrightarrow> jget bet ''dry_run'' = JBool False"

definition settlement_amount :: "(string \<Rightarrow> string) \<Rightarrow> dict \<Rightarrow> pyfloat option" where
  "settlement_amount sha bet =
     (let requires_observed_cost = is_open bet \<and> has_actual_fill bet \<and> \<not> is_crypto_5m_bet bet
      in if (has_key bet ''cash_debit_status'' \<or> requires_observed_cost) \<and> is_real bet
         then (case verified_cash_debit sha bet of Inl _ \<Rightarrow> None | Inr d \<Rightarrow> Some (dec_float d))
         else Some (first_positive_float
           [jget bet ''actual_fill_amount'', jget bet ''fill_amount'', jget bet ''amount'']))"

definition is_confirmed_real :: "dict \<Rightarrow> bool" where
  "is_confirmed_real bet \<longleftrightarrow> jget bet ''cash_debit_status'' = JStr ''confirmed'' \<and> is_real bet"

definition settlement_shares :: "(string \<Rightarrow> string) \<Rightarrow> dict \<Rightarrow> pyfloat attempt" where
  "settlement_shares sha bet =
     (if is_confirmed_real bet
      then (case verified_fill_shares sha bet of
              Inl e \<Rightarrow> Inl (ValueError e) | Inr s \<Rightarrow> Inr (dec_float s))
      else Inr (first_positive_float
        [jget bet ''actual_filled_shares'', jget bet ''filled_shares'', jget bet ''shares'']))"

definition funded_open_bets :: "dict list \<Rightarrow> dict list" where
  "funded_open_bets bets = filter (\<lambda>bet. is_open bet \<and> has_confirmed_position bet) bets"

definition is_settled :: "dict \<Rightarrow> bool" where
  "is_settled bet \<longleftrightarrow> has_status ''won'' bet \<or> has_status ''lost'' bet"

definition settled_bets_from :: "dict list \<Rightarrow> dict list" where
  "settled_bets_from bets = filter is_settled bets"

section \<open>The summary\<close>

text \<open>The value of \<open>a - b\<close> for decimals, and its text.\<close>

definition dec_sub_val :: "dec \<Rightarrow> dec \<Rightarrow> rat" where
  "dec_sub_val a b = (if dec_lt a b then - dec_val (dec_dist a b) else dec_val (dec_dist a b))"

text \<open>The exact profit of a settled row with a verified cost, when its provenance is intact.\<close>

definition exact_pnl :: "(string \<Rightarrow> string) \<Rightarrow> bool \<Rightarrow> dict \<Rightarrow> string + dec \<times> dec" where
  "exact_pnl sha won bet =
     sbind (if won then verified_fill_shares sha bet else Inr dec_zero) (\<lambda>payout.
       sbind (verified_cash_debit sha bet) (\<lambda>cost. Inr (payout, cost)))"

definition provenance_intact :: "dict \<Rightarrow> dec \<Rightarrow> dec \<Rightarrow> bool" where
  "provenance_intact bet payout cost \<longleftrightarrow>
     jget bet ''result_pnl_cost_source'' = JStr ''observed_cash_debit''
     \<and> jget bet ''result_pnl_exact'' = JStr (dec_sub_str payout cost)"

text \<open>A number as an operand of float arithmetic; \<open>TypeError\<close> otherwise.\<close>

definition operand :: "json \<Rightarrow> pyfloat attempt" where
  "operand v = (case num_val v of None \<Rightarrow> Inl TypeError
                | Some _ \<Rightarrow> (case float_of v of None \<Rightarrow> Inl TypeError | Some x \<Rightarrow> Inr x))"

text \<open>The loop over the settled rows: realised profit and the number of unknown costs.\<close>

definition settled_step ::
  "(string \<Rightarrow> string) \<Rightarrow> dict \<Rightarrow> pyfloat \<times> nat \<Rightarrow> (pyfloat \<times> nat) attempt" where
  "settled_step sha bet acc =
     (let (realized, unknown) = acc
      in if has_key bet ''cash_debit_status'' \<and> is_real bet
         then (case exact_pnl sha (has_status ''won'' bet) bet of
                 Inl _ \<Rightarrow> Inr (realized, unknown + 1)
               | Inr (payout, cost) \<Rightarrow>
                   if provenance_intact bet payout cost
                   then Inr (fadd realized (to_float (dec_sub_val payout cost)), unknown)
                   else Inr (realized, unknown + 1))
         else if jget bet ''result_pnl'' \<noteq> JNull
         then sbind (operand (jget bet ''result_pnl'')) (\<lambda>p. Inr (fadd realized p, unknown))
         else Inr (realized, unknown))"

text \<open>The loop over the funded rows: unrealised profit, invested amount, unknown costs.\<close>

definition funded_step ::
  "(string \<Rightarrow> string) \<Rightarrow> dict \<Rightarrow> pyfloat \<times> pyfloat \<times> nat \<Rightarrow> (pyfloat \<times> pyfloat \<times> nat) attempt" where
  "funded_step sha bet acc =
     (let (unrealized, invested, unknown) = acc
      in case settlement_amount sha bet of
           None \<Rightarrow> Inr (unrealized, invested, unknown + 1)
         | Some cost \<Rightarrow>
             sbind (settlement_shares sha bet) (\<lambda>shares.
               if \<not> has_key bet ''cur_price'' then Inl (KeyError ''cur_price'')
               else if jget bet ''cur_price'' = JNull
               then Inr (unrealized, fadd invested cost, unknown)
               else sbind (operand (jget bet ''cur_price'')) (\<lambda>price.
                 Inr (fadd unrealized (fsub (fmul shares price) cost), fadd invested cost,
                      unknown))))"

fun sfold :: "('a \<Rightarrow> 'b \<Rightarrow> 'e + 'b) \<Rightarrow> 'a list \<Rightarrow> 'b \<Rightarrow> 'e + 'b" where
  "sfold f [] acc = Inr acc"
| "sfold f (x # xs) acc = sbind (f x acc) (sfold f xs)"

definition clv_present :: "dict \<Rightarrow> bool" where
  "clv_present bet \<longleftrightarrow> jget bet ''clv'' \<noteq> JNull \<and> jget bet ''clv'' \<noteq> JStr []"

definition valid_clv :: "dict list \<Rightarrow> pyfloat list attempt" where
  "valid_clv bets =
     smap (\<lambda>bet. case float_of (jget bet ''clv'') of
                   None \<Rightarrow> Inl (ValueError ''clv'') | Some x \<Rightarrow> Inr x)
       (filter clv_present bets)"

record ledger_summary =
  su_total_bets :: nat
  su_open_bets :: nat
  su_settled_bets :: nat
  su_wins :: nat
  su_losses :: nat
  su_win_rate :: pyfloat
  su_total_wagered :: "pyfloat option"
  su_realized_pnl :: "pyfloat option"
  su_unrealized_pnl :: "pyfloat option"
  su_total_pnl :: "pyfloat option"
  su_roi :: "pyfloat option"
  su_open_invested :: "pyfloat option"
  su_basis_complete :: bool
  su_open_unknown :: nat
  su_settled_unknown :: nat
  su_avg_clv :: "pyfloat option"
  su_clv_sample_size :: nat
  su_pct_positive_clv :: "pyfloat option"

text \<open>\<open>a / b\<close> of counts, for a positive \<open>b\<close>.\<close>

definition ratio :: "nat \<Rightarrow> nat \<Rightarrow> pyfloat" where
  "ratio a b = to_float (of_nat a / of_nat b)"

text \<open>\<open>None if c else x\<close>\<close>

definition unless :: "bool \<Rightarrow> 'a \<Rightarrow> 'a option" where
  "unless c x = (if c then None else Some x)"

definition roi_of :: "pyfloat \<Rightarrow> pyfloat \<Rightarrow> pyfloat" where
  "roi_of realized wagered =
     (if flt (Fin 0) wagered then (case fdiv realized wagered of None \<Rightarrow> Fin 0 | Some q \<Rightarrow> q)
      else Fin 0)"

definition make_summary ::
  "dict list \<Rightarrow> pyfloat \<Rightarrow> pyfloat \<times> nat \<Rightarrow> pyfloat \<times> pyfloat \<times> nat \<Rightarrow> pyfloat list \<Rightarrow> ledger_summary" where
  "make_summary bets wagered settled_acc funded_acc clvs =
     (let (realized, settled_unknown) = settled_acc; (unrealized, invested, unknown) = funded_acc;
          n = length (settled_bets_from bets);
          wins = length (filter (has_status ''won'') (settled_bets_from bets))
      in \<lparr>su_total_bets = length bets, su_open_bets = length (open_bets_from bets),
          su_settled_bets = n, su_wins = wins, su_losses = n - wins,
          su_win_rate = (if n \<noteq> 0 then ratio wins n else Fin 0),
          su_total_wagered = unless (settled_unknown \<noteq> 0) wagered,
          su_realized_pnl = unless (settled_unknown \<noteq> 0) realized,
          su_unrealized_pnl = unless (unknown \<noteq> 0) unrealized,
          su_total_pnl = unless (unknown \<noteq> 0 \<or> settled_unknown \<noteq> 0) (fadd realized unrealized),
          su_roi = unless (settled_unknown \<noteq> 0) (roi_of realized wagered),
          su_open_invested = unless (unknown \<noteq> 0) invested,
          su_basis_complete = (\<not> (unknown \<noteq> 0 \<or> settled_unknown \<noteq> 0)),
          su_open_unknown = unknown, su_settled_unknown = settled_unknown,
          su_avg_clv = (if clvs = [] then None
                        else fdiv (py_sum clvs) (Fin (of_nat (length clvs)))),
          su_clv_sample_size = length clvs,
          su_pct_positive_clv =
            (if clvs = [] then None
             else Some (ratio (length (filter (flt (Fin 0)) clvs)) (length clvs)))\<rparr>)"

definition build_summary_from_bets :: "(string \<Rightarrow> string) \<Rightarrow> dict list \<Rightarrow> ledger_summary attempt" where
  "build_summary_from_bets sha bets =
     (let settled = settled_bets_from bets;
          wagered = py_sum (List.map_filter (settlement_amount sha) settled)
      in sbind (sfold (settled_step sha) settled (Fin 0, 0)) (\<lambda>settled_acc.
           sbind (sfold (funded_step sha) (funded_open_bets bets) (Fin 0, Fin 0, 0)) (\<lambda>funded_acc.
             sbind (valid_clv bets) (\<lambda>clvs.
               Inr (make_summary bets wagered settled_acc funded_acc clvs)))))"

end
