(* ===== verification/Ledger.thy ===== *)
theory Ledger
  imports Ledger_Rows Betting_Window
begin

text \<open>
  \<^verbatim>\<open>class BetLedger\<close> of \<^verbatim>\<open>src/polymarket/tracker.py\<close>: the persistent ledger of bets. Every
  mutation reads the file again under the lock, changes the rows and writes the file when the
  mutator says that something changed (\<open>_mutate_locked\<close>). Each mutator looks for the row with the
  given id and answers with a status and a copy of that row. The clock is the argument \<open>now\<close>,
  its ISO text the argument \<open>stamp\<close>, the SHA-256 of the evidence the argument \<open>sha\<close>.
\<close>

section \<open>The file and the lock\<close>

datatype disk = No_file | Corrupt_file | Saved "dict list"

record ledger =
  lg_read_only :: bool
  lg_disk :: disk
  lg_bets :: "dict list"

record mutation_result =
  mr_status :: string
  mr_bet :: "dict option"

definition mr_ok :: "mutation_result \<Rightarrow> bool" where
  "mr_ok r \<longleftrightarrow> mr_status r = ''updated''"

definition read_bets_from_disk :: "disk \<Rightarrow> dict list" where
  "read_bets_from_disk d = (case d of Saved bets \<Rightarrow> bets | _ \<Rightarrow> [])"

definition open_ledger :: "disk \<Rightarrow> ledger" where
  "open_ledger d = \<lparr>lg_read_only = False, lg_disk = d, lg_bets = read_bets_from_disk d\<rparr>"

definition save :: "ledger \<Rightarrow> ledger" where
  "save l = l\<lparr>lg_disk := Saved (lg_bets l)\<rparr>"

type_synonym 'r mutator = "dict list \<Rightarrow> ('r \<times> bool \<times> dict list) attempt"

definition mutate_locked :: "'r mutator \<Rightarrow> ledger \<Rightarrow> 'r attempt \<times> ledger" where
  "mutate_locked mutator l =
     (if lg_read_only l then (Inl (RuntimeError ''Cannot mutate a read-only ledger view''), l)
      else (let bets = read_bets_from_disk (lg_disk l); l' = l\<lparr>lg_bets := bets\<rparr>
            in case mutator bets of
                 Inl e \<Rightarrow> (Inl e, l')
               | Inr (result, changed, bets') \<Rightarrow>
                   (Inr result, if changed then save (l'\<lparr>lg_bets := bets'\<rparr>)
                                else l'\<lparr>lg_bets := bets'\<rparr>)))"

definition get_bets :: "bool \<Rightarrow> ledger \<Rightarrow> dict list \<times> ledger" where
  "get_bets fresh l =
     (let l' = (if fresh then l\<lparr>lg_bets := read_bets_from_disk (lg_disk l)\<rparr> else l)
      in (lg_bets l', l'))"

definition get_open_bets :: "bool \<Rightarrow> ledger \<Rightarrow> dict list \<times> ledger" where
  "get_open_bets fresh l = (let (bets, l') = get_bets fresh l in (open_bets_from bets, l'))"

definition get_settled_bets :: "bool \<Rightarrow> ledger \<Rightarrow> dict list \<times> ledger" where
  "get_settled_bets fresh l = (let (bets, l') = get_bets fresh l in (settled_bets_from bets, l'))"

definition get_summary ::
  "(string \<Rightarrow> string) \<Rightarrow> bool \<Rightarrow> ledger \<Rightarrow> ledger_summary attempt \<times> ledger" where
  "get_summary sha fresh l =
     (let (bets, l') = get_bets fresh l in (build_summary_from_bets sha bets, l'))"

section \<open>Adding a row\<close>

text \<open>\<open>max(b.get("id", 0) for b in bets) + 1\<close>: the numeric comparison keeps the first maximum; an
  id that is no number makes the comparison or the sum raise.\<close>

definition id_or_zero :: "dict \<Rightarrow> json" where
  "id_or_zero b = (if has_key b ''id'' then jget b ''id'' else JInt 0)"

definition num_gt :: "json \<Rightarrow> json \<Rightarrow> bool" where
  "num_gt a b \<longleftrightarrow> (case (num_val a, num_val b) of (Some x, Some y) \<Rightarrow> flt y x | _ \<Rightarrow> False)"

definition max_id :: "dict list \<Rightarrow> json" where
  "max_id bets =
     (case map id_or_zero bets of
        [] \<Rightarrow> JInt 0
      | i # is \<Rightarrow> foldl (\<lambda>m j. if num_gt j m then j else m) i is)"

fun plus_one :: "json \<Rightarrow> json" where
  "plus_one (JBool b) = JInt (if b then 2 else 1)"
| "plus_one (JInt i) = JInt (i + 1)"
| "plus_one (JFloat x) = JFloat (fadd x (Fin 1))"
| "plus_one v = JNull"

definition next_id :: "dict list \<Rightarrow> json attempt" where
  "next_id bets =
     (if list_all (\<lambda>b. num_val (id_or_zero b) \<noteq> None) bets then Inr (plus_one (max_id bets))
      else Inl TypeError)"

record new_bet_args =
  nb_fighter :: json
  nb_opponent :: json
  nb_side :: json
  nb_amount :: pyfloat
  nb_price :: pyfloat
  nb_shares :: pyfloat
  nb_token_id :: json
  nb_market_id :: json
  nb_model_prob :: pyfloat
  nb_market_prob :: pyfloat
  nb_edge :: pyfloat
  nb_decimal_odds :: pyfloat
  nb_dry_run :: bool
  nb_event_date :: json
  nb_market_event_date :: json
  nb_order_type :: json
  nb_order_id :: json
  nb_status :: string
  nb_placement_state :: "string option"
  nb_submission_error :: json
  nb_condition_id :: json
  nb_reason :: json
  nb_metadata :: dict

text \<open>\<open>round(x, n)\<close> of a float as a value.\<close>

definition rounded :: "pyfloat \<Rightarrow> nat \<Rightarrow> json" where
  "rounded x n = JFloat (fround x n)"

definition default_placement :: "bool \<Rightarrow> string option \<Rightarrow> string" where
  "default_placement dry_run p =
     (case p of Some s \<Rightarrow> s | None \<Rightarrow> if dry_run then ''dry_run'' else ''submitted'')"

definition add_row_base :: "string \<Rightarrow> new_bet_args \<Rightarrow> json \<Rightarrow> dict" where
  "add_row_base stamp a i =
     [(''id'', i), (''fighter'', nb_fighter a), (''opponent'', nb_opponent a),
      (''side'', nb_side a), (''amount'', rounded (nb_amount a) 2),
      (''price'', rounded (nb_price a) 4), (''shares'', rounded (nb_shares a) 2),
      (''token_id'', nb_token_id a), (''market_id'', nb_market_id a),
      (''condition_id'', if truthy (nb_condition_id a) then nb_condition_id a else JStr []),
      (''model_prob'', rounded (nb_model_prob a) 4),
      (''market_prob'', rounded (nb_market_prob a) 4), (''edge'', rounded (nb_edge a) 4),
      (''decimal_odds'', rounded (nb_decimal_odds a) 4), (''dry_run'', JBool (nb_dry_run a)),
      (''status'', JStr (nb_status a)), (''placed_at'', JStr stamp),
      (''event_date'', nb_event_date a), (''market_event_date'', nb_market_event_date a),
      (''settled_at'', JNull), (''result_pnl'', JNull), (''cur_price'', JNull),
      (''closing_prob'', JNull), (''clv'', JNull), (''clv_captured_at'', JNull),
      (''order_type'', nb_order_type a), (''order_id'', nb_order_id a),
      (''placement_state'', JStr (default_placement (nb_dry_run a) (nb_placement_state a))),
      (''submission_error'', nb_submission_error a), (''cancel_reason'', JNull),
      (''reason'', nb_reason a)]"

definition add_row :: "string \<Rightarrow> new_bet_args \<Rightarrow> dict mutator" where
  "add_row stamp a bets =
     sbind (next_id bets) (\<lambda>i.
       let bet = jupdate (add_row_base stamp a i) (nb_metadata a)
       in Inr (bet, True, bets @ [bet]))"

definition add_bet :: "string \<Rightarrow> new_bet_args \<Rightarrow> ledger \<Rightarrow> dict attempt \<times> ledger" where
  "add_bet stamp a l = mutate_locked (add_row stamp a) l"

section \<open>Changing one row\<close>

text \<open>What a mutator does with the row it has found: a status, the row, and whether to save.\<close>

type_synonym row_op = "dict \<Rightarrow> (string \<times> dict \<times> bool) attempt"

text \<open>The shared loop of the mutators. \<open>strict\<close>: the id is read as \<open>bet["id"]\<close>, which raises on a
  row without one; otherwise as \<open>bet.get("id")\<close>.\<close>

fun on_row :: "bool \<Rightarrow> int \<Rightarrow> row_op \<Rightarrow> mutation_result mutator" where
  "on_row strict i f [] = Inr (\<lparr>mr_status = ''not_found'', mr_bet = None\<rparr>, False, [])"
| "on_row strict i f (bet # bets) =
     (if strict \<and> \<not> has_key bet ''id'' then Inl (KeyError ''id'')
      else if py_eq (jget bet ''id'') (JInt i)
      then sbind (f bet) (\<lambda>(status, bet', changed).
        Inr (\<lparr>mr_status = status, mr_bet = Some bet'\<rparr>, changed, bet' # bets))
      else sbind (on_row strict i f bets) (\<lambda>(r, changed, bets'). Inr (r, changed, bet # bets')))"

definition refused :: "string \<Rightarrow> dict \<Rightarrow> (string \<times> dict \<times> bool) attempt" where
  "refused status bet = Inr (status, bet, False)"

definition updated_row :: "dict \<Rightarrow> (string \<times> dict \<times> bool) attempt" where
  "updated_row bet = Inr (''updated'', bet, True)"

text \<open>\<open>v in {s1, ...}\<close>: membership of an unhashable value raises.\<close>

definition in_names :: "json \<Rightarrow> string list \<Rightarrow> bool attempt" where
  "in_names v names =
     (case v of JStr s \<Rightarrow> Inr (s \<in> set names) | JList _ \<Rightarrow> Inl TypeError | JObj _ \<Rightarrow> Inl TypeError
      | _ \<Rightarrow> Inr False)"

definition update_fields_row :: "bool \<Rightarrow> dict \<Rightarrow> row_op" where
  "update_fields_row require_open updates bet =
     (if require_open \<and> \<not> is_open bet then refused ''not_open'' bet
      else updated_row (jupdate bet updates))"

definition update_bet_fields ::
  "int \<Rightarrow> bool \<Rightarrow> dict \<Rightarrow> ledger \<Rightarrow> mutation_result attempt \<times> ledger" where
  "update_bet_fields i require_open updates l =
     (if updates = [] then (Inr \<lparr>mr_status = ''not_found'', mr_bet = None\<rparr>, l)
      else mutate_locked (on_row True i (update_fields_row require_open updates)) l)"

text \<open>The profit of a settled row, and its exact form when the cost is verified.\<close>

definition result_pnl :: "bool \<Rightarrow> pyfloat \<Rightarrow> pyfloat \<Rightarrow> pyfloat" where
  "result_pnl won shares amount =
     (if won then fround (fsub (fmul shares (Fin 1)) amount) 2 else fneg (fround amount 2))"

definition settled_row :: "string \<Rightarrow> bool \<Rightarrow> pyfloat \<Rightarrow> pyfloat \<Rightarrow> dict \<Rightarrow> dict" where
  "settled_row stamp won shares amount bet =
     jset ''result_pnl'' (JFloat (result_pnl won shares amount))
       (jset ''settled_at'' (JStr stamp)
         (jset ''status'' (JStr (if won then ''won'' else ''lost'')) bet))"

definition with_exact_pnl :: "dec \<Rightarrow> dec \<Rightarrow> dict \<Rightarrow> dict" where
  "with_exact_pnl payout cost bet =
     jset ''result_pnl_cost_source'' (JStr ''observed_cash_debit'')
       (jset ''result_pnl_exact'' (JStr (dec_sub_str payout cost)) bet)"

definition settle_row :: "(string \<Rightarrow> string) \<Rightarrow> string \<Rightarrow> bool \<Rightarrow> row_op" where
  "settle_row sha stamp won bet =
     (if \<not> is_open bet then refused ''not_open'' bet
      else case settlement_amount sha bet of
        None \<Rightarrow> refused ''cash_debit_unknown'' bet
      | Some amount \<Rightarrow>
          sbind (settlement_shares sha bet) (\<lambda>shares.
            let bet' = settled_row stamp won shares amount bet
            in if is_confirmed_real bet'
               then (case sbind (verified_cash_debit sha bet') (\<lambda>cost.
                            sbind (if won then verified_fill_shares sha bet' else Inr dec_zero)
                              (\<lambda>payout. Inr (payout, cost))) of
                       Inl e \<Rightarrow> Inl (ValueError e)
                     | Inr (payout, cost) \<Rightarrow> updated_row (with_exact_pnl payout cost bet'))
               else updated_row bet'))"

definition settle_bet ::
  "(string \<Rightarrow> string) \<Rightarrow> string \<Rightarrow> int \<Rightarrow> bool \<Rightarrow> ledger \<Rightarrow> mutation_result attempt \<times> ledger" where
  "settle_bet sha stamp i won = mutate_locked (on_row True i (settle_row sha stamp won))"

definition cash_debit_fields :: "string list" where
  "cash_debit_fields =
     [''cash_debit_status'', ''cash_debit_unknown_reason'', ''actual_cash_debit'',
      ''actual_additional_charge'', ''actual_gross_consideration_exact'',
      ''actual_filled_shares_exact'', ''actual_cash_debit_evidence'',
      ''actual_cash_debit_evidence_sha256'']"

text \<open>A row whose cost is confirmed already: only the same evidence, or \<open>unknown\<close>, is accepted.\<close>

definition confirmed_again :: "(string \<Rightarrow> string) \<Rightarrow> dict \<Rightarrow> row_op" where
  "confirmed_again sha new_fields bet =
     (case verified_cash_debit sha bet of
        Inl _ \<Rightarrow> refused ''cash_debit_conflict'' bet
      | Inr _ \<Rightarrow>
          if jget new_fields ''cash_debit_status'' = JStr ''unknown''
             \<or> py_eq (jget new_fields ''actual_cash_debit_evidence_sha256'')
                 (jget bet ''actual_cash_debit_evidence_sha256'')
          then refused ''updated'' bet
          else refused ''cash_debit_conflict'' bet)"

definition record_fields :: "dict \<Rightarrow> row_op" where
  "record_fields new_fields bet =
     (let changed = list_ex (\<lambda>(k, v). \<not> py_eq (jget bet k) v) new_fields;
          bet' = jupdate bet new_fields
      in Inr (''updated'',
              if jget new_fields ''cash_debit_status'' = JStr ''confirmed''
              then jdel ''cash_debit_unknown_reason'' bet' else bet',
              changed))"

definition record_row :: "(string \<Rightarrow> string) \<Rightarrow> dict \<Rightarrow> dict \<Rightarrow> row_op" where
  "record_row sha expected_binding new_fields bet =
     (if \<not> is_open bet \<or> \<not> is_real bet then refused ''not_open_real'' bet
      else if \<not> py_eq (JObj (fill_binding bet)) (JObj expected_binding)
      then refused ''fill_changed'' bet
      else if jget bet ''cash_debit_status'' = JStr ''confirmed'' then confirmed_again sha new_fields bet
      else if list_ex (\<lambda>(k, _). k \<notin> set cash_debit_fields) new_fields
      then refused ''invalid_cash_debit'' bet
      else sbind (in_names (jget new_fields ''cash_debit_status'') [''unknown'', ''confirmed''])
        (\<lambda>known.
          if \<not> known then refused ''invalid_cash_debit'' bet
          else if jget new_fields ''cash_debit_status'' = JStr ''confirmed''
          then (case verified_cash_debit sha (jupdate bet new_fields) of
                  Inl _ \<Rightarrow> refused ''invalid_cash_debit'' bet
                | Inr _ \<Rightarrow> record_fields new_fields bet)
          else record_fields new_fields bet))"

definition record_cash_debit ::
  "(string \<Rightarrow> string) \<Rightarrow> int \<Rightarrow> dict \<Rightarrow> dict \<Rightarrow> ledger \<Rightarrow> mutation_result attempt \<times> ledger" where
  "record_cash_debit sha i expected_binding new_fields =
     mutate_locked (on_row False i (record_row sha expected_binding new_fields))"

definition cancelled_row :: "string \<Rightarrow> string option \<Rightarrow> dict \<Rightarrow> dict" where
  "cancelled_row stamp reason bet =
     (let bet' = jset ''result_pnl'' (JFloat (Fin 0))
                   (jset ''settled_at'' (JStr stamp) (jset ''status'' (JStr ''cancelled'') bet))
      in if text_or_empty reason \<noteq> [] then jset ''cancel_reason'' (JStr (text_or_empty reason)) bet'
         else bet')"

definition cancel_row :: "string \<Rightarrow> string option \<Rightarrow> string list option \<Rightarrow> row_op" where
  "cancel_row stamp reason expected_order_types bet =
     (if \<not> is_open bet then refused ''not_open'' bet
      else sbind (case expected_order_types of
                    None \<Rightarrow> Inr True | Some ts \<Rightarrow> in_names (jget bet ''order_type'') ts)
        (\<lambda>allowed.
          if \<not> allowed then refused ''invalid_order_type'' bet
          else updated_row (cancelled_row stamp reason bet)))"

definition cancel_bet ::
  "string \<Rightarrow> int \<Rightarrow> string option \<Rightarrow> string list option \<Rightarrow> ledger \<Rightarrow> mutation_result attempt \<times> ledger"
  where
  "cancel_bet stamp i reason expected_order_types =
     mutate_locked (on_row True i (cancel_row stamp reason expected_order_types))"

record fill_args =
  fl_shares :: pyfloat
  fl_cancel_reason :: "string option"
  fl_amount :: "pyfloat option"
  fl_price :: "pyfloat option"
  fl_source :: "string option"
  fl_trade_ids :: "string list option"

definition jdefault :: "string \<Rightarrow> json \<Rightarrow> dict \<Rightarrow> dict" where
  "jdefault k v d = (if has_key d k then d else jset k v d)"

text \<open>An assignment that is made only when the argument is present.\<close>

definition jset_opt :: "string \<Rightarrow> json option \<Rightarrow> dict \<Rightarrow> dict" where
  "jset_opt k v d = (case v of None \<Rightarrow> d | Some x \<Rightarrow> jset k x d)"

definition nonempty :: "string option \<Rightarrow> string option" where
  "nonempty s = (if text_or_empty s = [] then None else s)"

definition converted_row :: "fill_args \<Rightarrow> pyfloat \<Rightarrow> pyfloat \<Rightarrow> dict \<Rightarrow> dict" where
  "converted_row a shares amount bet =
     (let b1 = jdefault ''requested_shares'' (jget bet ''shares'')
                 (jdefault ''submitted_amount'' (jget bet ''amount'') bet);
          b2 = fold (\<lambda>(k, v). jset k v)
                 [(''status'', JStr ''open''), (''amount'', JFloat amount),
                  (''shares'', JFloat shares), (''settled_at'', JNull), (''result_pnl'', JNull),
                  (''order_type'', JStr ''filled_limit''), (''placement_state'', JStr ''filled''),
                  (''actual_filled_shares'', JFloat shares),
                  (''actual_fill_amount'', JFloat amount),
                  (''actual_fill_source'',
                   JStr (case nonempty (fl_source a) of
                           None \<Rightarrow> ''clob_order_reconciliation'' | Some s \<Rightarrow> s))] b1;
          b3 = (if is_real b2 \<and> \<not> is_crypto_5m_bet b2
                then jset ''cash_debit_unknown_reason'' (JStr ''observed_activity_not_yet_confirmed'')
                       (jset ''cash_debit_status'' (JStr ''unknown'') b2)
                else b2)
      in jset_opt ''cancel_reason'' (map_option JStr (nonempty (fl_cancel_reason a)))
           (jset_opt ''actual_fill_trade_ids''
              (map_option (\<lambda>ids. JList (map JStr ids)) (fl_trade_ids a))
              (jset_opt ''actual_fill_price'' (map_option JFloat (fl_price a)) b3)))"

definition price_or_zero :: "dict \<Rightarrow> pyfloat attempt" where
  "price_or_zero bet =
     (if truthy (jget bet ''price'')
      then (case float_of (jget bet ''price'') of
              None \<Rightarrow> Inl (ValueError ''price'') | Some x \<Rightarrow> Inr x)
      else Inr (Fin 0))"

definition convert_row :: "fill_args \<Rightarrow> row_op" where
  "convert_row a bet =
     (if \<not> is_open bet then refused ''not_open'' bet
      else sbind (in_names (jget bet ''order_type'') LIMIT_ORDER_TYPES) (\<lambda>limit.
        if \<not> limit then refused ''invalid_order_type'' bet
        else sbind (price_or_zero bet) (\<lambda>raw_price.
          let price = fround raw_price 4;
              shares = fround (py_max (fl_shares a) (Fin 0)) 2;
              amount = fround (case fl_amount a of None \<Rightarrow> fmul shares price | Some x \<Rightarrow> x) 2
          in if fle amount (Fin 0) \<or> fle shares (Fin 0) then refused ''invalid_fill'' bet
             else updated_row (converted_row a shares amount bet))))"

definition convert_limit_bet_to_position ::
  "int \<Rightarrow> fill_args \<Rightarrow> ledger \<Rightarrow> mutation_result attempt \<times> ledger" where
  "convert_limit_bet_to_position i a = mutate_locked (on_row True i (convert_row a))"

text \<open>\<open>_parse_event_timestamp\<close> of the tracker: unlike the one of the betting window it also
  accepts a bare date.\<close>

definition CLV_CAPTURE_WINDOW :: int where
  "CLV_CAPTURE_WINDOW = 600000000"

definition tracker_event_timestamp :: "(string \<Rightarrow> parsed_time option) \<Rightarrow> json \<Rightarrow> instant option" where
  "tracker_event_timestamp fromiso value =
     (let raw = py_strip (text_of value)
      in if raw = [] then None
         else case fromiso (if has_suffix ''Z'' raw then butlast raw @ ''+00:00'' else raw) of
                None \<Rightarrow> None
              | Some (Naive t) \<Rightarrow> Some t
              | Some (Aware t) \<Rightarrow> Some t)"

definition in_clv_window :: "instant \<Rightarrow> instant \<Rightarrow> bool" where
  "in_clv_window now event_ts \<longleftrightarrow> event_ts - CLV_CAPTURE_WINDOW \<le> now \<and> now < event_ts"

definition maybe_capture_clv_snapshot ::
  "(string \<Rightarrow> parsed_time option) \<Rightarrow> instant \<Rightarrow> string \<Rightarrow> pyfloat \<Rightarrow> dict \<Rightarrow> dict attempt" where
  "maybe_capture_clv_snapshot fromiso now stamp cur_price bet =
     (case tracker_event_timestamp fromiso (jget bet ''event_date'') of
        None \<Rightarrow> Inr bet
      | Some event_ts \<Rightarrow>
          if \<not> in_clv_window now event_ts then Inr bet
          else case float_of (jget bet ''market_prob'') of
                 None \<Rightarrow> Inr bet
               | Some entry_prob \<Rightarrow>
                   if fle entry_prob (Fin 0) then Inr bet
                   else (let closing_prob = fround cur_price 4
                         in case calculate_closing_line_value entry_prob closing_prob of
                              None \<Rightarrow> Inl ZeroDivisionError
                            | Some clv \<Rightarrow>
                                Inr (jset ''clv_captured_at'' (JStr stamp)
                                  (jset ''clv'' (JFloat (fround clv 4))
                                    (jset ''closing_prob'' (JFloat closing_prob) bet)))))"

definition price_row ::
  "(string \<Rightarrow> parsed_time option) \<Rightarrow> instant \<Rightarrow> string \<Rightarrow> pyfloat \<Rightarrow> row_op" where
  "price_row fromiso now stamp cur_price bet =
     (if \<not> is_open bet then refused ''not_open'' bet
      else sbind (maybe_capture_clv_snapshot fromiso now stamp cur_price
                    (jset ''cur_price'' (JFloat (fround cur_price 4)) bet)) updated_row)"

definition update_current_price ::
  "(string \<Rightarrow> parsed_time option) \<Rightarrow> instant \<Rightarrow> string \<Rightarrow> int \<Rightarrow> pyfloat \<Rightarrow> ledger
   \<Rightarrow> mutation_result attempt \<times> ledger" where
  "update_current_price fromiso now stamp i cur_price =
     mutate_locked (on_row True i (price_row fromiso now stamp cur_price))"

end
