(* ===== verification/Ledger_Laws.thy ===== *)
theory Ledger_Laws
  imports Ledger
begin

text \<open>
  What the mutators of the ledger share, stated once as a contract for operations on one row
  (\<open>row_contract\<close>, \<open>guarded_row_contract\<close>) and interpreted on the operations of the code; the
  histories of a ledger as a step relation; and the abstract ledger, which only knows which bet
  is in which stage of its life, with the proof that the code's ledger implements it.
\<close>

section \<open>Rows and their stage of life\<close>

datatype lifecycle = Active | Won | Lost | Cancelled | Unknown

definition lifecycle :: "dict \<Rightarrow> lifecycle" where
  "lifecycle bet =
     (if has_status ''open'' bet then Active else if has_status ''won'' bet then Won
      else if has_status ''lost'' bet then Lost else if has_status ''cancelled'' bet then Cancelled
      else Unknown)"

definition matches :: "int \<Rightarrow> dict \<Rightarrow> bool" where
  "matches i bet \<longleftrightarrow> py_eq (jget bet ''id'') (JInt i)"

text \<open>The abstract ledger: the stage of every bet that is recorded.\<close>

definition life :: "dict list \<Rightarrow> int \<Rightarrow> lifecycle option" where
  "life bets i = map_option lifecycle (List.find (matches i) bets)"

definition disk_rows :: "ledger \<Rightarrow> dict list" where
  "disk_rows l = read_bets_from_disk (lg_disk l)"

lemma lifecycle_simps:
  "lifecycle bet = Active \<longleftrightarrow> is_open bet"
  "lifecycle (jset ''status'' (JStr ''won'') bet) = Won"
  "lifecycle (jset ''status'' (JStr ''lost'') bet) = Lost"
  "lifecycle (jset ''status'' (JStr ''cancelled'') bet) = Cancelled"
  "lifecycle (jset ''status'' (JStr ''open'') bet) = Active"
  by (auto simp: lifecycle_def has_status_def)

lemma lifecycle_cong: "jget b ''status'' = jget b' ''status'' \<Longrightarrow> lifecycle b = lifecycle b'"
  by (simp add: lifecycle_def has_status_def)

lemma matches_num: "matches i bet \<longleftrightarrow> num_val (jget bet ''id'') = Some (Fin (of_int i))"
  by (cases "jget bet ''id''") (auto simp: matches_def num_eq_def feq_def)

lemma matches_inj: "matches i bet \<Longrightarrow> matches j bet \<Longrightarrow> i = j"
  by (simp add: matches_num)

lemma matches_JInt: "jget bet ''id'' = JInt a \<Longrightarrow> matches i bet \<longleftrightarrow> i = a"
  by (auto simp: matches_num)

lemma find_append: "List.find P (xs @ ys) = (case List.find P xs of None \<Rightarrow> List.find P ys | Some x \<Rightarrow> Some x)"
  by (induction xs) auto

lemma map_of_jupdate_other: "k \<notin> fst ` set us \<Longrightarrow> map_of (jupdate d us) k = map_of d k"
  by (induction us arbitrary: d) (auto simp: map_of_jset)

lemma jget_jupdate_other: "k \<notin> fst ` set us \<Longrightarrow> jget (jupdate d us) k = jget d k"
  by (simp add: jget_def map_of_jupdate_other)

section \<open>The shared loop\<close>

lemma on_row_elim:
  assumes "on_row strict i f bets = Inr (r, changed, bets')"
  obtains (not_found) "r = \<lparr>mr_status = ''not_found'', mr_bet = None\<rparr>" "\<not> changed" "bets' = bets"
      "\<forall>b \<in> set bets. \<not> matches i b"
  | (found) pre bet post status bet' where "bets = pre @ bet # post" "matches i bet"
      "\<forall>b \<in> set pre. \<not> matches i b" "f bet = Inr (status, bet', changed)"
      "r = \<lparr>mr_status = status, mr_bet = Some bet'\<rparr>" "bets' = pre @ bet' # post"
proof -
  have "(r = \<lparr>mr_status = ''not_found'', mr_bet = None\<rparr> \<and> \<not> changed \<and> bets' = bets
         \<and> (\<forall>b \<in> set bets. \<not> matches i b))
      \<or> (\<exists>pre bet post status bet'. bets = pre @ bet # post \<and> matches i bet
           \<and> (\<forall>b \<in> set pre. \<not> matches i b) \<and> f bet = Inr (status, bet', changed)
           \<and> r = \<lparr>mr_status = status, mr_bet = Some bet'\<rparr> \<and> bets' = pre @ bet' # post)"
    using assms
  proof (induction bets arbitrary: bets')
    case Nil
    then show ?case by simp
  next
    case (Cons b bets)
    show ?case
    proof (cases "matches i b")
      case True
      then have "\<exists>status b'. f b = Inr (status, b', changed)
          \<and> r = \<lparr>mr_status = status, mr_bet = Some b'\<rparr> \<and> bets' = b' # bets"
        using Cons.prems by (auto simp: matches_def sbind_eq_Inr split: if_splits)
      then obtain status b' where "f b = Inr (status, b', changed)"
        "r = \<lparr>mr_status = status, mr_bet = Some b'\<rparr>" "bets' = b' # bets" by blast
      then have "b # bets = [] @ b # bets \<and> matches i b \<and> (\<forall>c \<in> set []. \<not> matches i c)
          \<and> f b = Inr (status, b', changed) \<and> r = \<lparr>mr_status = status, mr_bet = Some b'\<rparr>
          \<and> bets' = [] @ b' # bets"
        using True by simp
      then show ?thesis by blast
    next
      case False
      then obtain rest where rest: "on_row strict i f bets = Inr (r, changed, rest)" "bets' = b # rest"
        using Cons.prems by (auto simp: matches_def sbind_eq_Inr split: if_splits)
      from Cons.IH [OF rest(1)] show ?thesis
      proof (elim disjE exE conjE)
        fix pre bet post status bet'
        assume "bets = pre @ bet # post" "matches i bet" "\<forall>b \<in> set pre. \<not> matches i b"
          "f bet = Inr (status, bet', changed)" "r = \<lparr>mr_status = status, mr_bet = Some bet'\<rparr>"
          "rest = pre @ bet' # post"
        then have "b # bets = (b # pre) @ bet # post \<and> matches i bet
            \<and> (\<forall>c \<in> set (b # pre). \<not> matches i c) \<and> f bet = Inr (status, bet', changed)
            \<and> r = \<lparr>mr_status = status, mr_bet = Some bet'\<rparr> \<and> bets' = (b # pre) @ bet' # post"
          using False rest(2) by simp
        then show ?thesis by blast
      qed (use False rest(2) in simp)
    qed
  qed
  then show thesis using not_found found by blast
qed

lemma on_row_error:
  assumes "on_row strict i f bets = Inl e"
  shows "(strict \<and> e = KeyError ''id'' \<and> (\<exists>bet \<in> set bets. \<not> has_key bet ''id''))
    \<or> (\<exists>bet \<in> set bets. f bet = Inl e)"
  using assms by (induction bets) (auto simp: sbind_eq_Inl split: if_splits prod.splits)

lemma life_replace:
  assumes "matches i bet" "\<forall>b \<in> set pre. \<not> matches i b" "jget bet' ''id'' = jget bet ''id''"
  shows "life (pre @ bet' # post) = (life (pre @ bet # post))(i \<mapsto> lifecycle bet')"
proof
  fix j
  have same: "matches j bet' = matches j bet" for j by (simp add: matches_def assms(3))
  have none: "List.find (matches i) pre = None"
    using assms(2) by (simp add: find_None_iff)
  show "life (pre @ bet' # post) j = ((life (pre @ bet # post))(i \<mapsto> lifecycle bet')) j"
  proof (cases "j = i")
    case True
    then show ?thesis using assms(1) none same by (simp add: life_def find_append)
  next
    case False
    then have "\<not> matches j bet" using matches_inj [OF assms(1)] by blast
    then show ?thesis using False same by (simp add: life_def find_append split: option.splits)
  qed
qed

lemma life_found:
  assumes "matches i bet" "\<forall>b \<in> set pre. \<not> matches i b"
  shows "life (pre @ bet # post) i = Some (lifecycle bet)"
proof -
  have "List.find (matches i) pre = None" using assms(2) by (simp add: find_None_iff)
  then show ?thesis using assms(1) by (simp add: life_def find_append)
qed

section \<open>The contract of a row operation\<close>

text \<open>How a row may change: its id stays, and a stage that is not \<open>Active\<close> is final.\<close>

definition evolves :: "dict \<Rightarrow> dict \<Rightarrow> bool" where
  "evolves b b' \<longleftrightarrow> jget b' ''id'' = jget b ''id'' \<and> (lifecycle b \<noteq> Active \<longrightarrow> lifecycle b' = lifecycle b)"

lemma evolves_refl [simp]: "evolves b b"
  by (simp add: evolves_def)

lemma evolves_trans: "evolves a b \<Longrightarrow> evolves b c \<Longrightarrow> evolves a c"
  by (auto simp: evolves_def)

locale row_contract =
  fixes f :: row_op and target :: lifecycle
  assumes keeps_id: "f bet = Inr (s, bet', ch) \<Longrightarrow> jget bet' ''id'' = jget bet ''id''"
    and saves_success: "f bet = Inr (s, bet', True) \<Longrightarrow> s = ''updated''"
    and lands: "f bet = Inr (s, bet', ch) \<Longrightarrow>
        lifecycle bet' = (if ch \<and> is_open bet then target else lifecycle bet)"
begin

lemma row_evolves: "f bet = Inr (s, bet', ch) \<Longrightarrow> evolves bet bet'"
  by (auto simp: evolves_def lifecycle_simps keeps_id lands)

lemma on_row_evolves:
  assumes "on_row strict i f bets = Inr (r, ch, bets')"
  shows "list_all2 evolves bets bets'"
  using assms
proof (cases rule: on_row_elim)
  case not_found
  then show ?thesis by (simp add: list_all2_refl)
next
  case (found pre bet post status bet')
  then show ?thesis
    by (auto intro!: list_all2_appendI list_all2_refl dest: row_evolves)
qed

lemma on_row_life:
  assumes "on_row strict i f bets = Inr (r, ch, bets')"
  shows "life bets' = (if ch \<and> life bets i = Some Active then (life bets)(i \<mapsto> target) else life bets)"
  using assms
proof (cases rule: on_row_elim)
  case not_found
  then show ?thesis by simp
next
  case (found pre bet post status bet')
  note replace = life_replace [OF found(2,3) keeps_id [OF found(4)]]
  have "life bets i = Some (lifecycle bet)"
    unfolding found(1) by (rule life_found [OF found(2,3)])
  then show ?thesis
    using lands [OF found(4)] unfolding found(1,6) replace
    by (auto simp: lifecycle_simps)
qed

lemma on_row_saves:
  assumes "on_row strict i f bets = Inr (r, ch, bets')" and "ch"
  shows "mr_ok r"
  using assms(1)
proof (cases rule: on_row_elim)
  case (found pre bet post status bet')
  then show ?thesis using assms(2) saves_success by (simp add: mr_ok_def)
qed (use assms(2) in simp)

end

text \<open>An operation that refuses every row that is not open, and leaves it as it is.\<close>

locale guarded_row_contract = row_contract +
  assumes closed_refused:
    "\<not> is_open bet \<Longrightarrow> \<exists>s. s \<noteq> ''updated'' \<and> f bet = Inr (s, bet, False)"
begin

lemma on_row_frozen:
  assumes "on_row strict i f bets = Inr (r, ch, bets')"
  shows "list_all2 (\<lambda>b b'. is_open b \<or> b' = b) bets bets'"
  using assms
proof (cases rule: on_row_elim)
  case not_found
  then show ?thesis by (simp add: list_all2_refl)
next
  case (found pre bet post status bet')
  have "is_open bet \<or> bet' = bet" using closed_refused [of bet] found(4) by auto
  then show ?thesis
    using found(1,6) by (auto intro!: list_all2_appendI list_all2_refl)
qed

lemma on_row_ok_was_open:
  assumes "on_row strict i f bets = Inr (r, ch, bets')" and "mr_ok r"
  shows "life bets i = Some Active"
  using assms(1)
proof (cases rule: on_row_elim)
  case (found pre bet post status bet')
  have "is_open bet"
    using closed_refused [of bet] found(4,5) assms(2) by (auto simp: mr_ok_def)
  then show ?thesis
    unfolding found(1) life_found [OF found(2,3)] by (simp add: lifecycle_simps)
qed (use assms(2) in \<open>simp add: mr_ok_def\<close>)

end

text \<open>An operation whose success is always written to the file.\<close>

locale saving_row_contract = guarded_row_contract +
  assumes success_saves: "f bet = Inr (''updated'', bet', ch) \<Longrightarrow> ch"
begin

lemma on_row_ok_saves:
  assumes "on_row strict i f bets = Inr (r, ch, bets')" and "mr_ok r"
  shows "ch"
  using assms(1)
proof (cases rule: on_row_elim)
  case (found pre bet post status bet')
  then show ?thesis using assms(2) success_saves [of bet bet' ch] by (simp add: mr_ok_def)
qed (use assms(2) in \<open>simp add: mr_ok_def\<close>)

lemma on_row_ok_life:
  assumes "on_row strict i f bets = Inr (r, ch, bets')" and "mr_ok r"
  shows "life bets i = Some Active \<and> life bets' = (life bets)(i \<mapsto> target)"
  using on_row_ok_was_open [OF assms] on_row_life [OF assms(1)] on_row_ok_saves [OF assms] by simp

end

section \<open>The operations of the code keep the contract\<close>

lemmas row_ops = refused_def updated_row_def sbind_eq_Inr

lemma jget_id_simps [simp]:
  "jget (settled_row stamp won shares amount bet) ''id'' = jget bet ''id''"
  "jget (with_exact_pnl payout cost bet) ''id'' = jget bet ''id''"
  "jget (cancelled_row stamp reason bet) ''id'' = jget bet ''id''"
  by (simp_all add: settled_row_def with_exact_pnl_def cancelled_row_def Let_def)

lemma settled_row_lifecycle [simp]:
  "lifecycle (settled_row stamp won shares amount bet) = (if won then Won else Lost)"
  "lifecycle (with_exact_pnl payout cost bet) = lifecycle bet"
  "lifecycle (cancelled_row stamp reason bet) = Cancelled"
  by (simp_all add: lifecycle_def has_status_def settled_row_def with_exact_pnl_def
      cancelled_row_def Let_def)

lemma jget_jdefault: "jget (jdefault k v d) k' = (if k = k' \<and> \<not> has_key d k then v else jget d k')"
  by (simp add: jdefault_def)

lemma jget_jset_opt: "jget (jset_opt k v d) k' = (case v of None \<Rightarrow> jget d k' | Some x \<Rightarrow> if k = k' then x else jget d k')"
  by (simp add: jset_opt_def split: option.splits)

lemma jget_converted:
  "jget (converted_row a shares amount bet) ''id'' = jget bet ''id''"
  "jget (converted_row a shares amount bet) ''status'' = JStr ''open''"
  by (simp_all add: converted_row_def Let_def jget_jset_opt jget_jdefault split: option.splits)

lemma converted_lifecycle [simp]: "lifecycle (converted_row a shares amount bet) = Active"
  by (simp add: lifecycle_def has_status_def jget_converted)

text \<open>What has to be shown of an operation: the law of an answered row.\<close>

definition row_law :: "lifecycle \<Rightarrow> dict \<Rightarrow> string \<Rightarrow> dict \<Rightarrow> bool \<Rightarrow> bool" where
  "row_law target bet s bet' ch \<longleftrightarrow>
     jget bet' ''id'' = jget bet ''id''
     \<and> (if ch then s = ''updated'' \<and> is_open bet \<and> lifecycle bet' = target
        else lifecycle bet' = lifecycle bet)"

lemma row_law_refused [simp]: "row_law target bet s bet False"
  by (simp add: row_law_def)

lemma guarded_row_contractI:
  assumes refuses: "\<And>bet. \<not> is_open bet \<Longrightarrow> \<exists>s. s \<noteq> ''updated'' \<and> f bet = Inr (s, bet, False)"
    and law: "\<And>bet s bet' ch. f bet = Inr (s, bet', ch) \<Longrightarrow> row_law target bet s bet' ch"
  shows "guarded_row_contract f target"
proof unfold_locales
  show "jget bet' ''id'' = jget bet ''id''" if "f bet = Inr (s, bet', ch)" for bet s bet' ch
    using law [OF that] by (simp add: row_law_def)
  show "s = ''updated''" if "f bet = Inr (s, bet', True)" for bet s bet'
    using law [OF that] by (simp add: row_law_def)
  show "lifecycle bet' = (if ch \<and> is_open bet then target else lifecycle bet)"
    if "f bet = Inr (s, bet', ch)" for bet s bet' ch
    using law [OF that] by (simp add: row_law_def split: if_splits)
qed (rule refuses)

lemma saving_row_contractI:
  assumes "\<And>bet. \<not> is_open bet \<Longrightarrow> \<exists>s. s \<noteq> ''updated'' \<and> f bet = Inr (s, bet, False)"
    and "\<And>bet s bet' ch. f bet = Inr (s, bet', ch) \<Longrightarrow> row_law target bet s bet' ch"
    and "\<And>bet bet'. f bet \<noteq> Inr (''updated'', bet', False)"
  shows "saving_row_contract f target"
proof (intro saving_row_contract.intro saving_row_contract_axioms.intro)
  show "guarded_row_contract f target" using assms(1,2) by (rule guarded_row_contractI)
  show "ch" if "f bet = Inr (''updated'', bet', ch)" for bet bet' ch
    using assms(3) [of bet bet'] that by (cases ch) simp_all
qed

lemma settle_row_law:
  assumes "settle_row sha stamp won bet = Inr (s, bet', ch)"
  shows "row_law (if won then Won else Lost) bet s bet' ch"
  using assms
  by (auto simp: settle_row_def row_ops Let_def row_law_def simp del: if_split
      split: if_split_asm option.split_asm sum.split_asm prod.split_asm)

interpretation settling: saving_row_contract "settle_row sha stamp won" "if won then Won else Lost"
  for sha stamp won
proof (rule saving_row_contractI)
  show "\<exists>s. s \<noteq> ''updated'' \<and> settle_row sha stamp won bet = Inr (s, bet, False)"
    if "\<not> is_open bet" for bet
    using that by (simp add: settle_row_def refused_def)
  show "settle_row sha stamp won bet \<noteq> Inr (''updated'', bet', False)" for bet bet'
    by (auto simp: settle_row_def row_ops Let_def split: if_split_asm option.split_asm sum.split_asm prod.split_asm)
qed (rule settle_row_law)

lemma cancel_row_law:
  assumes "cancel_row stamp reason types bet = Inr (s, bet', ch)"
  shows "row_law Cancelled bet s bet' ch"
  using assms
  by (auto simp: cancel_row_def row_ops row_law_def split: if_split_asm option.split_asm)

interpretation cancelling: saving_row_contract "cancel_row stamp reason types" Cancelled
  for stamp reason types
proof (rule saving_row_contractI)
  show "\<exists>s. s \<noteq> ''updated'' \<and> cancel_row stamp reason types bet = Inr (s, bet, False)"
    if "\<not> is_open bet" for bet
    using that by (simp add: cancel_row_def refused_def)
  show "cancel_row stamp reason types bet \<noteq> Inr (''updated'', bet', False)" for bet bet'
    by (auto simp: cancel_row_def row_ops Let_def split: if_split_asm option.split_asm sum.split_asm prod.split_asm)
qed (rule cancel_row_law)

lemma convert_row_law:
  assumes "convert_row a bet = Inr (s, bet', ch)"
  shows "row_law Active bet s bet' ch"
  using assms
  by (auto simp: convert_row_def row_ops Let_def row_law_def jget_converted split: if_split_asm)

interpretation converting: saving_row_contract "convert_row a" Active for a
proof (rule saving_row_contractI)
  show "\<exists>s. s \<noteq> ''updated'' \<and> convert_row a bet = Inr (s, bet, False)" if "\<not> is_open bet" for bet
    using that by (simp add: convert_row_def refused_def)
  show "convert_row a bet \<noteq> Inr (''updated'', bet', False)" for bet bet'
    by (auto simp: convert_row_def row_ops Let_def split: if_split_asm option.split_asm sum.split_asm prod.split_asm)
qed (rule convert_row_law)

lemma clv_snapshot_keeps:
  assumes "maybe_capture_clv_snapshot fromiso now stamp p bet = Inr bet'"
  shows "jget bet' ''id'' = jget bet ''id''" "jget bet' ''status'' = jget bet ''status''"
  using assms
  by (auto simp: maybe_capture_clv_snapshot_def Let_def split: option.split_asm if_split_asm)

lemma price_row_law:
  assumes "price_row fromiso now stamp p bet = Inr (s, bet', ch)"
  shows "row_law Active bet s bet' ch"
proof (cases "is_open bet")
  case True
  define b where "b = jset ''cur_price'' (JFloat (fround p 4)) bet"
  from True assms have "maybe_capture_clv_snapshot fromiso now stamp p b = Inr bet'"
    "s = ''updated''" "ch"
    by (auto simp: price_row_def row_ops b_def)
  then show ?thesis
    using True clv_snapshot_keeps [of fromiso now stamp p b bet']
    by (simp add: row_law_def b_def lifecycle_simps has_status_def)
next
  case False
  with assms show ?thesis by (auto simp: price_row_def row_ops)
qed

interpretation pricing: saving_row_contract "price_row fromiso now stamp p" Active
  for fromiso now stamp p
proof (rule saving_row_contractI)
  show "\<exists>s. s \<noteq> ''updated'' \<and> price_row fromiso now stamp p bet = Inr (s, bet, False)"
    if "\<not> is_open bet" for bet
    using that by (simp add: price_row_def refused_def)
  show "price_row fromiso now stamp p bet \<noteq> Inr (''updated'', bet', False)" for bet bet'
    by (auto simp: price_row_def row_ops Let_def split: if_split_asm option.split_asm sum.split_asm prod.split_asm)
qed (rule price_row_law)

lemma cash_fields_keep:
  assumes "\<not> list_ex (\<lambda>(k, _). k \<notin> set cash_debit_fields) flds"
  shows "''id'' \<notin> fst ` set flds" "''status'' \<notin> fst ` set flds"
proof -
  have keys: "fst ` set flds \<subseteq> set cash_debit_fields"
    using assms by (fastforce simp: list_ex_iff)
  have "''id'' \<notin> set cash_debit_fields" "''status'' \<notin> set cash_debit_fields"
    by (simp_all add: cash_debit_fields_def)
  then show "''id'' \<notin> fst ` set flds" "''status'' \<notin> fst ` set flds"
    using keys by blast+
qed

lemma record_fields_law:
  assumes "record_fields flds bet = Inr (s, bet', ch)" and "is_open bet"
    and "\<not> list_ex (\<lambda>(k, _). k \<notin> set cash_debit_fields) flds"
  shows "row_law Active bet s bet' ch"
proof -
  have "jget bet' ''id'' = jget bet ''id''" "jget bet' ''status'' = jget bet ''status''" "s = ''updated''"
    using assms(1) jget_jupdate_other [OF cash_fields_keep(1) [OF assms(3)]]
      jget_jupdate_other [OF cash_fields_keep(2) [OF assms(3)]]
    by (auto simp: record_fields_def Let_def jget_jdel simp del: py_eq.simps split: if_split_asm)
  then show ?thesis
    using assms(2) lifecycle_cong [of bet' bet] by (simp add: row_law_def lifecycle_simps)
qed

lemma record_row_cases:
  assumes "record_row sha binding flds bet = Inr (s, bet', ch)"
  shows "bet' = bet \<and> \<not> ch \<or> record_fields flds bet = Inr (s, bet', ch) \<and> is_open bet
    \<and> \<not> list_ex (\<lambda>(k, _). k \<notin> set cash_debit_fields) flds"
proof (cases "bet' = bet \<and> \<not> ch")
  case True
  then show ?thesis by simp
next
  case False
  have kept: "refused t bet \<noteq> Inr (s, bet', ch)" for t
    using False by (auto simp: refused_def)
  note law = assms [unfolded record_row_def]
  have "is_open bet \<and> is_real bet"
    by (rule ccontr) (use law kept in simp)
  moreover from this have "py_eq (JObj (fill_binding bet)) (JObj binding)"
    by - (rule ccontr, use law kept in \<open>simp del: py_eq.simps\<close>)
  ultimately have rest: "\<not> (\<not> is_open bet \<or> \<not> is_real bet)"
    "\<not> \<not> py_eq (JObj (fill_binding bet)) (JObj binding)" by blast+
  note law = law [unfolded if_not_P [OF rest(1)] if_not_P [OF rest(2)]]
  have fresh: "jget bet ''cash_debit_status'' \<noteq> JStr ''confirmed''"
  proof
    assume c: "jget bet ''cash_debit_status'' = JStr ''confirmed''"
    have "confirmed_again sha flds bet \<in> range (\<lambda>t. refused t bet)"
      by (simp add: confirmed_again_def split: sum.split)
    then show False using law c kept by (auto dest: sym)
  qed
  note law = law [unfolded if_not_P [OF fresh]]
  have ok: "\<not> list_ex (\<lambda>(k, _). k \<notin> set cash_debit_fields) flds"
    by (rule notI) (use law kept in simp)
  note law = law [unfolded if_not_P [OF ok]]
  have "record_fields flds bet = Inr (s, bet', ch)"
    using law kept by (auto simp: sbind_eq_Inr split: if_split_asm sum.split_asm)
  then show ?thesis using rest ok by blast
qed

lemma record_row_law:
  assumes "record_row sha binding flds bet = Inr (s, bet', ch)"
  shows "row_law Active bet s bet' ch"
  using record_row_cases [OF assms] record_fields_law [of flds bet s bet' ch] by (elim disjE) simp_all

text \<open>Recording a cost keeps every field but those of the cost.\<close>

lemma record_row_keeps:
  assumes "record_row sha binding flds bet = Inr (s, bet', ch)" and "k \<notin> set cash_debit_fields"
  shows "jget bet' k = jget bet k"
proof (cases "bet' = bet")
  case False
  then have "record_fields flds bet = Inr (s, bet', ch)"
    and allowed: "\<not> list_ex (\<lambda>(k, _). k \<notin> set cash_debit_fields) flds"
    using record_row_cases [OF assms(1)] by blast+
  then have "bet' = jupdate bet flds \<or> bet' = jdel ''cash_debit_unknown_reason'' (jupdate bet flds)"
    by (auto simp: record_fields_def Let_def)
  moreover have "k \<notin> fst ` set flds" using allowed assms(2) by (fastforce simp: list_ex_iff)
  moreover have "k \<noteq> ''cash_debit_unknown_reason''" using assms(2) by (auto simp: cash_debit_fields_def)
  ultimately show ?thesis using jget_jupdate_other by (auto simp: jget_jdel)
qed simp

interpretation recording: guarded_row_contract "record_row sha binding flds" Active
  for sha binding flds
proof (rule guarded_row_contractI)
  show "\<exists>s. s \<noteq> ''updated'' \<and> record_row sha binding flds bet = Inr (s, bet, False)"
    if "\<not> is_open bet" for bet
    using that by (simp add: record_row_def refused_def)
qed (rule record_row_law)

text \<open>\<open>update_bet_fields\<close> keeps the first contract when the caller names neither the id nor the
  status, as the callers in \<^verbatim>\<open>executor.py\<close> and \<^verbatim>\<open>btc_5m.py\<close> do; without \<open>require_open\<close> it also
  changes other fields of closed rows.\<close>

definition harmless :: "dict \<Rightarrow> bool" where
  "harmless updates \<longleftrightarrow> ''id'' \<notin> fst ` set updates \<and> ''status'' \<notin> fst ` set updates"

lemma update_row_contract:
  assumes "harmless updates"
  shows "row_contract (update_fields_row require_open updates) Active"
proof unfold_locales
  have keep: "jget (jupdate bet updates) ''id'' = jget bet ''id''"
    "jget (jupdate bet updates) ''status'' = jget bet ''status''" for bet
    using assms by (simp_all add: harmless_def jget_jupdate_other)
  have life: "lifecycle (jupdate bet updates) = lifecycle bet" for bet
    using keep(2) by (rule lifecycle_cong)
  have cases: "s = ''updated'' \<and> bet' = jupdate bet updates \<or> bet' = bet \<and> \<not> ch"
    if "update_fields_row require_open updates bet = Inr (s, bet', ch)" for bet s bet' ch
    using that by (auto simp: update_fields_row_def row_ops split: if_split_asm)
  show "jget bet' ''id'' = jget bet ''id''"
    if "update_fields_row require_open updates bet = Inr (s, bet', ch)" for bet s bet' ch
    using cases [OF that] keep by auto
  show "s = ''updated''" if "update_fields_row require_open updates bet = Inr (s, bet', True)" for bet s bet'
    using cases [OF that] by auto
  show "lifecycle bet' = (if ch \<and> is_open bet then Active else lifecycle bet)"
    if "update_fields_row require_open updates bet = Inr (s, bet', ch)" for bet s bet' ch
    using cases [OF that] life [of bet] lifecycle_simps(1) [of bet] by auto
qed

end
