(* ===== verification/Ledger_Histories.thy ===== *)
theory Ledger_Histories
  imports Ledger_Laws
begin

text \<open>
  Histories of a ledger: the operations of \<^verbatim>\<open>BetLedger\<close> as steps on the file, the abstract ledger
  they implement, and the properties of every history. The row contracts of \<open>Ledger_Laws\<close> are
  lifted through \<open>_mutate_locked\<close> once, in the locales.
\<close>

section \<open>The contracts at the level of the file\<close>

lemma disk_rows_simps [simp]:
  "disk_rows (l\<lparr>lg_bets := bets\<rparr>) = disk_rows l"
  "disk_rows (save l) = lg_bets l"
  "disk_rows (open_ledger d) = read_bets_from_disk d"
  by (simp_all add: disk_rows_def save_def read_bets_from_disk_def open_ledger_def)

lemma mutate_elim:
  assumes "mutate_locked m l = (r, l')"
  obtains (read_only) "lg_read_only l" "r = Inl (RuntimeError ''Cannot mutate a read-only ledger view'')"
      "l' = l"
  | (raised) e where "\<not> lg_read_only l" "m (disk_rows l) = Inl e" "r = Inl e"
      "disk_rows l' = disk_rows l" "lg_disk l' = lg_disk l"
  | (unsaved) x bets where "\<not> lg_read_only l" "m (disk_rows l) = Inr (x, False, bets)" "r = Inr x"
      "disk_rows l' = disk_rows l" "lg_disk l' = lg_disk l"
  | (saved) x bets where "\<not> lg_read_only l" "m (disk_rows l) = Inr (x, True, bets)" "r = Inr x"
      "disk_rows l' = bets"
proof (cases "lg_read_only l")
  case True
  then have "r = Inl (RuntimeError ''Cannot mutate a read-only ledger view'')" "l' = l"
    using assms by (simp_all add: mutate_locked_def)
  then show thesis using read_only True by blast
next
  case False
  note unfolded = assms [unfolded mutate_locked_def if_not_P [OF False] Let_def,
      folded disk_rows_def]
  show thesis
  proof (cases "m (disk_rows l)")
    case (Inl e)
    then have "r = Inl e" "l' = l\<lparr>lg_bets := disk_rows l\<rparr>" using unfolded by auto
    then show thesis using raised [OF False Inl] by simp
  next
    case (Inr x)
    obtain res ch bets where x: "x = (res, ch, bets)" by (cases x) auto
    show thesis
    proof (cases ch)
      case True
      then have "r = Inr res" "l' = save (l\<lparr>lg_bets := bets\<rparr>)"
        using unfolded Inr x by auto
      then show thesis using saved [OF False, of res bets] Inr x True by simp
    next
      case no: False
      then have "r = Inr res" "l' = l\<lparr>lg_bets := bets\<rparr>" using unfolded Inr x by auto
      then show thesis using unsaved [OF False, of res bets] Inr x no by simp
    qed
  qed
qed

abbreviation on_file :: "bool \<Rightarrow> int \<Rightarrow> row_op \<Rightarrow> ledger \<Rightarrow> mutation_result attempt \<times> ledger" where
  "on_file strict i f \<equiv> mutate_locked (on_row strict i f)"

text \<open>A relation that the row operation establishes for the row it saves holds row by row.\<close>

lemma on_file_rows:
  assumes "on_file strict i f l = (r, l')"
    and R: "\<And>b. R b b" "\<And>bet s bet'. matches i bet \<Longrightarrow> f bet = Inr (s, bet', True) \<Longrightarrow> R bet bet'"
  shows "list_all2 R (disk_rows l) (disk_rows l')"
  using assms(1)
proof (cases rule: mutate_elim)
  case (saved x bets)
  from saved(2) show ?thesis
  proof (cases rule: on_row_elim)
    case (found pre bet post status bet')
    then show ?thesis using saved(4) R by (auto intro!: list_all2_appendI list_all2_refl)
  qed (simp add: saved(4) R list_all2_refl)
qed (auto intro: list_all2_refl R)

definition succeeded :: "mutation_result attempt \<Rightarrow> bool" where
  "succeeded r \<longleftrightarrow> (case r of Inl _ \<Rightarrow> False | Inr res \<Rightarrow> mr_ok res)"

lemma succeeded_simps [simp]: "\<not> succeeded (Inl e)" "succeeded (Inr res) \<longleftrightarrow> mr_ok res"
  by (simp_all add: succeeded_def)

context row_contract
begin

lemma file_evolves: "on_file strict i f l = (r, l') \<Longrightarrow> list_all2 evolves (disk_rows l) (disk_rows l')"
  by (erule mutate_elim) (auto intro: list_all2_refl dest: on_row_evolves)

lemma file_life:
  assumes "on_file strict i f l = (r, l')"
  shows "life (disk_rows l') = life (disk_rows l)
    \<or> life (disk_rows l) i = Some Active \<and> life (disk_rows l') = (life (disk_rows l))(i \<mapsto> target)"
  using assms by (cases rule: mutate_elim) (auto dest!: on_row_life split: if_split_asm)

lemma file_failure:
  assumes "on_file strict i f l = (r, l')" and "\<not> succeeded r"
  shows "disk_rows l' = disk_rows l"
  using assms by (cases rule: mutate_elim) (auto dest: on_row_saves)

end

context guarded_row_contract
begin

lemma file_frozen:
  "on_file strict i f l = (r, l') \<Longrightarrow>
   list_all2 (\<lambda>b b'. is_open b \<or> b' = b) (disk_rows l) (disk_rows l')"
  by (erule mutate_elim) (auto intro: list_all2_refl dest: on_row_frozen)

lemma file_success_was_open:
  assumes "on_file strict i f l = (r, l')" and "succeeded r"
  shows "life (disk_rows l) i = Some Active"
  using assms by (cases rule: mutate_elim) (auto dest: on_row_ok_was_open)

end

context saving_row_contract
begin

lemma file_success:
  assumes "on_file strict i f l = (r, l')" and "succeeded r"
  shows "life (disk_rows l) i = Some Active" "life (disk_rows l') = (life (disk_rows l))(i \<mapsto> target)"
  using assms by (cases rule: mutate_elim; auto dest: on_row_ok_life on_row_ok_saves)+

end

section \<open>Identities\<close>

text \<open>Every row has a positive integer id of its own.\<close>

definition positive_id :: "dict \<Rightarrow> bool" where
  "positive_id b \<longleftrightarrow> (case jget b ''id'' of JInt i \<Rightarrow> 0 < i | _ \<Rightarrow> False)"

definition row_id :: "dict \<Rightarrow> int" where
  "row_id b = (case jget b ''id'' of JInt i \<Rightarrow> i | _ \<Rightarrow> 0)"

definition ids_ok :: "dict list \<Rightarrow> bool" where
  "ids_ok bets \<longleftrightarrow> list_all positive_id bets \<and> distinct (map row_id bets)"

lemma positive_id_iff: "positive_id b \<longleftrightarrow> jget b ''id'' = JInt (row_id b) \<and> 0 < row_id b"
  by (auto simp: positive_id_def row_id_def split: json.splits)

lemma evolves_ids:
  assumes "list_all2 evolves bets bets'"
  shows "map row_id bets' = map row_id bets" "list_all positive_id bets' = list_all positive_id bets"
  using assms by (induction rule: list_all2_induct) (auto simp: evolves_def row_id_def positive_id_def)

lemma evolves_ids_ok: "list_all2 evolves bets bets' \<Longrightarrow> ids_ok bets' = ids_ok bets"
  using evolves_ids by (simp add: ids_ok_def)

lemma has_key_positive_id: "positive_id b \<Longrightarrow> has_key b ''id''"
  by (auto simp: positive_id_def has_key_def jget_def split: option.splits)

lemma id_or_zero_positive: "positive_id b \<Longrightarrow> id_or_zero b = JInt (row_id b)"
  using has_key_positive_id positive_id_iff by (simp add: id_or_zero_def)

lemma foldl_max_JInt:
  "foldl (\<lambda>m j. if num_gt j m then j else m) (JInt i) (map JInt is) = JInt (foldl max i is)"
  by (induction "is" arbitrary: i) (auto simp: num_gt_def max_def)

lemma foldl_max_ge: "i \<le> foldl max i is \<and> (\<forall>j \<in> set is. j \<le> foldl max i (is :: int list))"
proof (induction "is" arbitrary: i)
  case (Cons k ks)
  have "max i k \<le> foldl max (max i k) ks" "\<forall>j \<in> set ks. j \<le> foldl max (max i k) ks"
    using Cons.IH [of "max i k"] by blast+
  then show ?case by simp
qed simp

lemma next_id_fresh:
  assumes "list_all positive_id bets"
  shows "\<exists>n. next_id bets = Inr (JInt n) \<and> 0 < n \<and> (\<forall>b \<in> set bets. row_id b < n)"
proof -
  have ids: "map id_or_zero bets = map JInt (map row_id bets)"
    using assms by (auto simp: list_all_iff id_or_zero_positive)
  have num: "list_all (\<lambda>b. num_val (id_or_zero b) \<noteq> None) bets"
    using assms by (auto simp: list_all_iff id_or_zero_positive)
  show ?thesis
  proof (cases bets)
    case Nil
    then show ?thesis by (simp add: next_id_def max_id_def)
  next
    case (Cons b bs)
    define m where "m = foldl max (row_id b) (map row_id bs)"
    have "map id_or_zero bets = JInt (row_id b) # map JInt (map row_id bs)"
      using ids Cons by simp
    then have "max_id bets = JInt m"
      using foldl_max_JInt [of "row_id b" "map row_id bs"]
      by (simp add: max_id_def m_def del: map_map)
    moreover have "row_id b \<le> m \<and> (\<forall>j \<in> set (map row_id bs). j \<le> m)"
      unfolding m_def by (rule foldl_max_ge)
    moreover have "0 < row_id b" using assms Cons by (simp add: positive_id_iff)
    ultimately have "next_id bets = Inr (JInt (m + 1)) \<and> 0 < m + 1 \<and> (\<forall>b \<in> set bets. row_id b < m + 1)"
      using num Cons by (auto simp: next_id_def)
    then show ?thesis by blast
  qed
qed

lemma life_None_fresh: "list_all positive_id bets \<Longrightarrow> (\<forall>b \<in> set bets. row_id b < n) \<Longrightarrow> life bets n = None"
  by (auto simp: life_def find_None_iff list_all_iff positive_id_iff matches_JInt)

lemma life_append_fresh:
  assumes "list_all positive_id bets" "\<forall>b \<in> set bets. row_id b < n" "jget bet ''id'' = JInt n"
  shows "life (bets @ [bet]) = (life bets)(n \<mapsto> lifecycle bet)"
proof
  fix j
  have "List.find (matches n) bets = None"
    using life_None_fresh [OF assms(1,2)] by (simp add: life_def)
  then show "life (bets @ [bet]) j = ((life bets)(n \<mapsto> lifecycle bet)) j"
    using matches_JInt [OF assms(3)] by (simp add: life_def find_append split: option.split)
qed

text \<open>What \<open>add_bet\<close> does to the file, when the metadata does not replace the id.\<close>

lemma jget_add_row_id:
  "''id'' \<notin> fst ` set (nb_metadata a) \<Longrightarrow>
   jget (jupdate (add_row_base stamp a i) (nb_metadata a)) ''id'' = i"
  by (simp add: jget_jupdate_other add_row_base_def jget_Cons)

lemma add_bet_file:
  assumes "add_bet stamp a l = (r, l')" and "\<not> lg_read_only l"
    and "list_all positive_id (disk_rows l)" and "''id'' \<notin> fst ` set (nb_metadata a)"
  shows "\<exists>bet. r = Inr bet \<and> disk_rows l' = disk_rows l @ [bet] \<and> positive_id bet
    \<and> (\<forall>b \<in> set (disk_rows l). row_id b < row_id bet)"
proof -
  obtain n where n: "next_id (disk_rows l) = Inr (JInt n)" "0 < n" "\<forall>b \<in> set (disk_rows l). row_id b < n"
    using next_id_fresh [OF assms(3)] by blast
  let ?bet = "jupdate (add_row_base stamp a (JInt n)) (nb_metadata a)"
  have id: "jget ?bet ''id'' = JInt n" using assms(4) by (rule jget_add_row_id)
  have row: "add_row stamp a (disk_rows l) = Inr (?bet, True, disk_rows l @ [?bet])"
    by (simp add: add_row_def n(1) Let_def)
  have "r = Inr ?bet \<and> disk_rows l' = disk_rows l @ [?bet]"
    using assms(1) unfolding add_bet_def
    by (cases rule: mutate_elim) (use assms(2) row in simp_all)
  then show ?thesis using id n(2,3) by (auto simp: positive_id_def row_id_def)
qed

section \<open>The abstract ledger\<close>

text \<open>A bet is created once, under a new id; an active bet is closed once, with its outcome.\<close>

inductive abstract_step :: "(int \<Rightarrow> lifecycle option) \<Rightarrow> (int \<Rightarrow> lifecycle option) \<Rightarrow> bool" where
  create: "m i = None \<Longrightarrow> abstract_step m (m(i \<mapsto> s))"
| close: "m i = Some Active \<Longrightarrow> s \<in> {Won, Lost, Cancelled} \<Longrightarrow> abstract_step m (m(i \<mapsto> s))"

section \<open>The steps of the code's ledger\<close>

inductive ledger_step :: "(string \<Rightarrow> string) \<Rightarrow> ledger \<Rightarrow> ledger \<Rightarrow> bool" for sha where
  add: "add_bet stamp a l = (r, l') \<Longrightarrow> ''id'' \<notin> fst ` set (nb_metadata a) \<Longrightarrow> ledger_step sha l l'"
| settle: "settle_bet sha stamp i won l = (r', l') \<Longrightarrow> ledger_step sha l l'"
| cancel: "cancel_bet stamp i reason types l = (r', l') \<Longrightarrow> ledger_step sha l l'"
| convert: "convert_limit_bet_to_position i fa l = (r', l') \<Longrightarrow> ledger_step sha l l'"
| price: "update_current_price fromiso now stamp i p l = (r', l') \<Longrightarrow> ledger_step sha l l'"
| cash: "record_cash_debit sha i binding flds l = (r', l') \<Longrightarrow> ledger_step sha l l'"
| update: "update_bet_fields i require_open updates l = (r', l') \<Longrightarrow> harmless updates \<Longrightarrow>
    ledger_step sha l l'"
| refresh: "get_bets fresh l = (bets, l') \<Longrightarrow> ledger_step sha l l'"

inductive_simps abstract_step_simps: "abstract_step m m'"

lemmas file_ops = settle_bet_def cancel_bet_def convert_limit_bet_to_position_def
  update_current_price_def record_cash_debit_def

definition ledger_run :: "(string \<Rightarrow> string) \<Rightarrow> ledger \<Rightarrow> ledger \<Rightarrow> bool" where
  "ledger_run sha = (ledger_step sha)\<^sup>*\<^sup>*"

text \<open>Everything a step can do to the rows of the file.\<close>

definition grows :: "dict list \<Rightarrow> dict list \<Rightarrow> bool" where
  "grows bets bets' \<longleftrightarrow>
     (\<exists>old. list_all2 evolves bets old
        \<and> (bets' = old \<or> (\<exists>bet. bets' = old @ [bet] \<and> positive_id bet
             \<and> (\<forall>b \<in> set bets. row_id b < row_id bet))))"

lemma evolves_list_refl [simp]: "list_all2 evolves bets bets"
  by (simp add: list_all2_refl)

lemma growsI: "list_all2 evolves bets bets' \<Longrightarrow> grows bets bets'"
  by (auto simp: grows_def)

lemma grows_append:
  "positive_id bet \<Longrightarrow> \<forall>b \<in> set bets. row_id b < row_id bet \<Longrightarrow> grows bets (bets @ [bet])"
  unfolding grows_def by (rule exI [of _ bets]) simp

lemma update_file:
  assumes "update_bet_fields i require_open updates l = (r, l')" and "harmless updates"
  shows "list_all2 evolves (disk_rows l) (disk_rows l')"
    and "life (disk_rows l') = life (disk_rows l)"
proof -
  note contract = update_row_contract [OF assms(2), of require_open]
  have "list_all2 evolves (disk_rows l) (disk_rows l') \<and> life (disk_rows l') = life (disk_rows l)"
  proof (cases "updates = []")
    case True
    then show ?thesis using assms(1) by (auto simp: update_bet_fields_def intro: list_all2_refl)
  next
    case False
    then have run: "on_file True i (update_fields_row require_open updates) l = (r, l')"
      using assms(1) by (simp add: update_bet_fields_def)
    show ?thesis
      using row_contract.file_evolves [OF contract run] row_contract.file_life [OF contract run]
      by (auto simp: fun_eq_iff)
  qed
  then show "list_all2 evolves (disk_rows l) (disk_rows l')"
    "life (disk_rows l') = life (disk_rows l)" by blast+
qed

section \<open>What a step and a history can do\<close>

lemma step_grows:
  assumes "ledger_step sha l l'" and "list_all positive_id (disk_rows l)"
  shows "grows (disk_rows l) (disk_rows l')"
  using assms(1)
proof cases
  case (add stamp a r)
  show ?thesis
  proof (cases "lg_read_only l")
    case True
    then have "disk_rows l' = disk_rows l"
      using add(1) by (auto simp: add_bet_def mutate_locked_def)
    then show ?thesis by (simp add: growsI)
  next
    case False
    from add_bet_file [OF add(1) False assms(2) add(2)] show ?thesis
      by (auto intro: grows_append)
  qed
next
  case (update i require_open updates r)
  then show ?thesis using update_file by (blast intro: growsI)
next
  case (refresh fresh bets)
  then have "disk_rows l' = disk_rows l" by (auto simp: get_bets_def Let_def split: if_split_asm)
  then show ?thesis by (simp add: growsI)
qed (simp_all add: file_ops; blast intro: growsI settling.file_evolves cancelling.file_evolves
    converting.file_evolves pricing.file_evolves recording.file_evolves)+

lemma grows_ids_ok:
  assumes "grows bets bets'" and "ids_ok bets"
  shows "ids_ok bets'"
proof -
  obtain old where old: "list_all2 evolves bets old"
    "bets' = old \<or> (\<exists>bet. bets' = old @ [bet] \<and> positive_id bet
       \<and> (\<forall>b \<in> set bets. row_id b < row_id bet))"
    using assms(1) by (auto simp: grows_def)
  have ok: "ids_ok old" using evolves_ids_ok [OF old(1)] assms(2) by simp
  have "row_id ` set old = row_id ` set bets"
    using evolves_ids(1) [OF old(1)] by (metis set_map)
  then have "row_id bet \<notin> row_id ` set old" if "\<forall>b \<in> set bets. row_id b < row_id bet" for bet
    using that by (auto simp: \<open>row_id ` set old = row_id ` set bets\<close>)
  then show ?thesis using old(2) ok by (auto simp: ids_ok_def)
qed

text \<open>The rows that were there stay where they are, with their id; closed ones stay closed.\<close>

definition extends :: "dict list \<Rightarrow> dict list \<Rightarrow> bool" where
  "extends bets bets' \<longleftrightarrow>
     length bets \<le> length bets' \<and> list_all2 evolves bets (take (length bets) bets')"

lemma grows_extends: "grows bets bets' \<Longrightarrow> extends bets bets'"
proof -
  assume "grows bets bets'"
  then obtain old rest where "list_all2 evolves bets old" "bets' = old @ rest"
    by (auto simp: grows_def)
  moreover from this have "length old = length bets" by (simp add: list_all2_lengthD)
  ultimately show ?thesis by (simp add: extends_def)
qed

lemma extends_trans:
  assumes "extends a b" "extends b c"
  shows "extends a c"
proof -
  have "list_all2 evolves (take (length a) b) (take (length a) (take (length b) c))"
    using assms(2) unfolding extends_def by (blast intro: list_all2_takeI)
  then have "list_all2 evolves a (take (length a) c)"
    using assms unfolding extends_def
    by (auto intro: list_all2_trans [OF evolves_trans] simp: min.absorb1)
  then show ?thesis using assms by (simp add: extends_def)
qed

lemma run_history:
  assumes "ledger_run sha l l'" and "ids_ok (disk_rows l)"
  shows "ids_ok (disk_rows l') \<and> extends (disk_rows l) (disk_rows l')"
  using assms(1) unfolding ledger_run_def
proof (induction rule: rtranclp_induct)
  case base
  then show ?case using assms(2) by (simp add: extends_def list_all2_refl)
next
  case (step m n)
  have "grows (disk_rows m) (disk_rows n)"
    using step by (auto intro: step_grows simp: ids_ok_def)
  then show ?case
    using step.IH by (auto intro: grows_ids_ok dest: grows_extends extends_trans)
qed

lemma step_life:
  assumes "ledger_step sha l l'" and "ids_ok (disk_rows l)"
  shows "life (disk_rows l') = life (disk_rows l)
    \<or> abstract_step (life (disk_rows l)) (life (disk_rows l'))"
proof -
  have closes: "?thesis"
    if "life (disk_rows l') = life (disk_rows l)
      \<or> life (disk_rows l) i = Some Active \<and> life (disk_rows l') = (life (disk_rows l))(i \<mapsto> s)"
      "s \<in> {Active, Won, Lost, Cancelled}" for i s
  proof (cases "s = Active")
    case True
    then show ?thesis using that(1) by (metis fun_upd_triv)
  next
    case False
    then show ?thesis using that abstract_step.close [of "life (disk_rows l)" i s] by auto
  qed
  show ?thesis
    using assms(1)
  proof cases
    case (add stamp a r)
    show ?thesis
    proof (cases "lg_read_only l")
      case True
      then show ?thesis using add(1) by (auto simp: add_bet_def mutate_locked_def)
    next
      case False
      have pos: "list_all positive_id (disk_rows l)" using assms(2) by (simp add: ids_ok_def)
      obtain bet where bet: "disk_rows l' = disk_rows l @ [bet]" "positive_id bet"
        "\<forall>b \<in> set (disk_rows l). row_id b < row_id bet"
        using add_bet_file [OF add(1) False pos add(2)] by blast
      have "life (disk_rows l') = (life (disk_rows l))(row_id bet \<mapsto> lifecycle bet)"
        unfolding bet(1) using pos bet(2,3) by (auto intro!: life_append_fresh simp: positive_id_iff)
      then show ?thesis
        using life_None_fresh [OF pos bet(3)] by (simp add: abstract_step.create)
    qed
  next
    case (settle stamp i won r)
    then show ?thesis using closes settling.file_life [of True i sha stamp won l r l']
      by (simp add: file_ops split: if_split_asm)
  next
    case (cancel stamp i reason types r)
    then show ?thesis using closes cancelling.file_life [of True i stamp reason types l r l']
      by (simp add: file_ops)
  next
    case (convert i fa r)
    then show ?thesis using closes converting.file_life [of True i fa l r l']
      by (simp add: file_ops)
  next
    case (price fromiso now stamp i p r)
    then show ?thesis using closes pricing.file_life [of True i fromiso now stamp p l r l']
      by (simp add: file_ops)
  next
    case (cash i binding flds r)
    then show ?thesis using closes recording.file_life [of False i sha binding flds l r l']
      by (simp add: file_ops)
  next
    case (update i require_open updates r)
    then show ?thesis using update_file by blast
  next
    case (refresh fresh bets)
    then show ?thesis by (auto simp: get_bets_def Let_def split: if_split_asm)
  qed
qed

lemma run_life:
  assumes "ledger_run sha l l'" and "ids_ok (disk_rows l)"
  shows "abstract_step\<^sup>*\<^sup>* (life (disk_rows l)) (life (disk_rows l'))"
  using assms(1) unfolding ledger_run_def
proof (induction rule: rtranclp_induct)
  case base
  then show ?case by simp
next
  case (step m n)
  have "ids_ok (disk_rows m)"
    using run_history [OF _ assms(2)] step(1) by (simp add: ledger_run_def)
  from step_life [OF step(2) this] show ?case
    using step.IH by (auto intro: rtranclp.rtrancl_into_rtrancl)
qed

lemma abstract_closed_final:
  assumes "abstract_step\<^sup>*\<^sup>* m m'" and "m i = Some s" and "s \<noteq> Active"
  shows "m' i = Some s"
  using assms(1)
proof (induction rule: rtranclp_induct)
  case (step n k)
  then show ?case using assms(3) by (auto simp: abstract_step_simps)
qed (rule assms(2))

lemmas no_success = settling.file_success_was_open cancelling.file_success_was_open
  converting.file_success_was_open pricing.file_success_was_open recording.file_success_was_open

lemmas failures = settling.file_failure cancelling.file_failure converting.file_failure
  pricing.file_failure recording.file_failure

section \<open>The properties of every history\<close>


text \<open>
  C1: The code's ledger implements the abstract ledger: whatever the operations do to the rows,
  the stages of the bets only move by creating a bet under a new id, or by closing an active bet
  once, as won, lost or cancelled.
\<close>

theorem ledger_refines_lifecycles:
  assumes "ledger_run sha l l'" and "ids_ok (disk_rows l)"
  shows "abstract_step\<^sup>*\<^sup>* (life (disk_rows l)) (life (disk_rows l'))"
  by (rule run_life [OF assms])



text \<open>A ledger file with two paper bets, and one that was lost.\<close>

definition demo_row :: "int \<Rightarrow> string \<Rightarrow> dict" where
  "demo_row i status =
     [(''id'', JInt i), (''fighter'', JStr ''Ann''), (''amount'', JInt 10), (''shares'', JInt 25),
      (''token_id'', JStr ''t1''), (''dry_run'', JBool True), (''status'', JStr status),
      (''cur_price'', JNull), (''order_type'', JStr ''limit''), (''result_pnl'', JNull)]"

definition demo_ledger :: ledger where
  "demo_ledger = open_ledger (Saved [demo_row 1 ''open'', demo_row 2 ''lost'', demo_row 3 ''open''])"

lemma demo_ids: "ids_ok (disk_rows demo_ledger)"
  by code_simp

abbreviation demo_settling :: "mutation_result attempt \<times> ledger" where
  "demo_settling \<equiv> settle_bet id ''now'' 1 True demo_ledger"

lemma demo_settled: "succeeded (fst demo_settling)"
  by code_simp

lemma demo_run: "ledger_run id demo_ledger (snd demo_settling)"
  unfolding ledger_run_def
  by (rule r_into_rtranclp, rule ledger_step.settle [of _ _ 1 True _ "fst demo_settling"]) simp


theorem ledger_refines_lifecycles_witness:
  "abstract_step\<^sup>*\<^sup>* (life (disk_rows demo_ledger)) (life (disk_rows (snd demo_settling)))
   \<and> life (disk_rows demo_ledger) 1 = Some Active \<and> life (disk_rows (snd demo_settling)) 1 = Some Won"
proof -
  have "life (disk_rows demo_ledger) 1 = Some Active" "life (disk_rows (snd demo_settling)) 1 = Some Won"
    by code_simp+
  with ledger_refines_lifecycles [OF demo_run demo_ids] show ?thesis by blast
qed



end
