(* ===== verification/Ledger_Settlement.thy ===== *)
theory Ledger_Settlement
  imports Ledger_Histories
begin

text \<open>
  Settlement and cash evidence together: what a settlement writes, that it always answers on a
  well-formed ledger, that evidence recorded through \<open>record_cash_debit\<close> is what the settlement
  later charges, and that confirmed evidence is never replaced. Also the consistency of the
  summary with the rows.
\<close>

section \<open>What the evidence check reads\<close>

definition verified_keys :: "string list" where
  "verified_keys = binding_keys
     @ [''cash_debit_status'', ''actual_cash_debit'', ''actual_additional_charge'',
        ''actual_gross_consideration_exact'', ''actual_filled_shares_exact'',
        ''actual_cash_debit_evidence'', ''actual_cash_debit_evidence_sha256'']"

lemma observed_cong:
  assumes "\<And>k. k \<in> set binding_keys \<Longrightarrow> jget b' k = jget b k"
  shows "observed_cash_debit sha b' order act = observed_cash_debit sha b order act"
    and "fill_binding b' = fill_binding b"
proof -
  show bind: "fill_binding b' = fill_binding b"
    using assms by (simp add: fill_binding_def)
  have get: "jget b' ''order_id'' = jget b ''order_id''" "jget b' ''token_id'' = jget b ''token_id''"
    "jget b' ''actual_fill_amount'' = jget b ''actual_fill_amount''"
    "jget b' ''actual_filled_shares'' = jget b ''actual_filled_shares''"
    "jget b' ''actual_fill_trade_ids'' = jget b ''actual_fill_trade_ids''"
    using assms by (simp_all add: binding_keys_def)
  have ident: "identity_available b' o' = identity_available b o'" for o'
    by (simp add: identity_available_def get)
  have conf: "confirmed_result sha b' st = confirmed_result sha b st" for st
    by (simp add: confirmed_result_def evidence_of_def bind)
  show "observed_cash_debit sha b' order act = observed_cash_debit sha b order act"
    by (simp only: observed_cash_debit_def get ident conf)
qed

lemma verified_cong:
  assumes "\<And>k. k \<in> set verified_keys \<Longrightarrow> jget b' k = jget b k"
  shows "verified_cash_debit sha b' = verified_cash_debit sha b"
    and "verified_fill_shares sha b' = verified_fill_shares sha b"
proof -
  have "\<And>k. k \<in> set binding_keys \<Longrightarrow> jget b' k = jget b k"
    using assms by (simp add: verified_keys_def)
  note fill = observed_cong [OF this]
  have get: "jget b' ''cash_debit_status'' = jget b ''cash_debit_status''"
    "jget b' ''actual_cash_debit'' = jget b ''actual_cash_debit''"
    "jget b' ''actual_additional_charge'' = jget b ''actual_additional_charge''"
    "jget b' ''actual_gross_consideration_exact'' = jget b ''actual_gross_consideration_exact''"
    "jget b' ''actual_filled_shares_exact'' = jget b ''actual_filled_shares_exact''"
    "jget b' ''actual_cash_debit_evidence'' = jget b ''actual_cash_debit_evidence''"
    "jget b' ''actual_cash_debit_evidence_sha256'' = jget b ''actual_cash_debit_evidence_sha256''"
    using assms by (simp_all add: verified_keys_def)
  show v: "verified_cash_debit sha b' = verified_cash_debit sha b"
    by (simp only: verified_cash_debit_def get fill)
  show "verified_fill_shares sha b' = verified_fill_shares sha b"
    by (simp only: verified_fill_shares_def v get)
qed

lemma verified_settled_row [simp]:
  "verified_cash_debit sha (settled_row stamp won shares amount bet) = verified_cash_debit sha bet"
  "verified_fill_shares sha (settled_row stamp won shares amount bet) = verified_fill_shares sha bet"
  by (rule verified_cong; auto simp: settled_row_def verified_keys_def binding_keys_def)+

lemma verified_jdel_reason [simp]:
  "verified_cash_debit sha (jdel ''cash_debit_unknown_reason'' bet) = verified_cash_debit sha bet"
  by (rule verified_cong) (auto simp: jget_jdel verified_keys_def binding_keys_def)

lemma is_confirmed_real_settled [simp]:
  "is_confirmed_real (settled_row stamp won shares amount bet) = is_confirmed_real bet"
  by (simp add: is_confirmed_real_def is_real_def settled_row_def)

text \<open>A verified debit comes with readable exact shares, so a known cost never lacks its shares.\<close>

lemma verified_shares:
  assumes "verified_cash_debit sha bet = Inr d"
  shows "\<exists>s. verified_fill_shares sha bet = Inr s
    \<and> number (jget bet ''actual_filled_shares_exact'') = Inr s"
proof -
  have "\<exists>e. number (jget bet ''actual_filled_shares_exact'') = Inr e"
    using assms unfolding verified_cash_debit_def fills_agree_def Let_def
    by (auto simp: sbind_eq_Inr split: if_split_asm)
  then show ?thesis using assms by (auto simp: verified_fill_shares_def)
qed

lemma confirmed_has_key: "is_confirmed_real bet \<Longrightarrow> has_key bet ''cash_debit_status''"
  by (auto simp: is_confirmed_real_def has_key_def jget_def split: option.splits)

lemma known_cost_verified:
  assumes "settlement_amount sha bet = Some amount" and "is_confirmed_real bet"
  shows "\<exists>d. verified_cash_debit sha bet = Inr d \<and> amount = dec_float d"
  using assms confirmed_has_key [OF assms(2)]
  by (auto simp: settlement_amount_def is_confirmed_real_def Let_def split: sum.split_asm)

lemma known_cost_shares:
  assumes "settlement_amount sha bet = Some amount"
  shows "\<exists>shares. settlement_shares sha bet = Inr shares"
proof (cases "is_confirmed_real bet")
  case True
  then obtain s where "verified_fill_shares sha bet = Inr s"
    using known_cost_verified [OF assms] verified_shares by blast
  then show ?thesis using True by (simp add: settlement_shares_def)
qed (simp add: settlement_shares_def)

section \<open>Settlement always answers\<close>

lemma settle_row_known:
  assumes "is_open bet" and "settlement_amount sha bet = Some amount"
  shows "\<exists>bet'. settle_row sha stamp won bet = Inr (''updated'', bet', True)"
proof -
  obtain shares where shares: "settlement_shares sha bet = Inr shares"
    using known_cost_shares [OF assms(2)] by blast
  show ?thesis
  proof (cases "is_confirmed_real bet")
    case True
    obtain d s where "verified_cash_debit sha bet = Inr d" "verified_fill_shares sha bet = Inr s"
      using known_cost_verified [OF assms(2) True] verified_shares by blast
    then show ?thesis
      using assms shares True by (simp add: settle_row_def Let_def updated_row_def)
  next
    case False
    then show ?thesis using assms shares by (simp add: settle_row_def Let_def updated_row_def)
  qed
qed

lemma settle_row_answers: "\<exists>s bet' ch. settle_row sha stamp won bet = Inr (s, bet', ch)"
proof (cases "is_open bet")
  case True
  then show ?thesis
  proof (cases "settlement_amount sha bet")
    case None
    with True show ?thesis by (auto simp: settle_row_def refused_def intro: exI [of _ False])
  next
    case (Some amount)
    with settle_row_known [OF True this] show ?thesis by blast
  qed
qed (auto simp: settle_row_def refused_def intro: exI [of _ False])

lemma on_row_answers:
  assumes "list_all positive_id bets" and "\<And>bet. \<exists>x. f bet = Inr x"
  shows "\<exists>r ch bets'. on_row strict i f bets = Inr (r, ch, bets')"
  using assms(1)
proof (induction bets)
  case (Cons b bets)
  obtain s b' ch where "f b = Inr (s, b', ch)" using assms(2) [of b] by (auto simp: split_paired_Ex)
  moreover obtain r c bs where "on_row strict i f bets = Inr (r, c, bs)" using Cons by auto
  ultimately show ?case using has_key_positive_id [of b] Cons.prems by simp
qed (auto intro: exI [of _ False])

lemma on_row_at:
  assumes "list_all positive_id (pre @ bet # post)" "matches i bet" "\<forall>b \<in> set pre. \<not> matches i b"
    and "f bet = Inr (s, bet', ch)"
  shows "on_row strict i f (pre @ bet # post)
    = Inr (\<lparr>mr_status = s, mr_bet = Some bet'\<rparr>, ch, pre @ bet' # post)"
  using assms(1,3)
proof (induction pre)
  case Nil
  then show ?case using assms(2,4) has_key_positive_id [of bet] by (simp add: matches_def)
next
  case (Cons b pre)
  then show ?case using has_key_positive_id [of b] by (simp add: matches_def)
qed

text \<open>The row with a given id, located.\<close>

lemma find_split:
  assumes "List.find (matches i) bets = Some bet"
  obtains pre post where "bets = pre @ bet # post" "matches i bet" "\<forall>b \<in> set pre. \<not> matches i b"
proof -
  obtain k where k: "k < length bets" "matches i (bets ! k)" "bet = bets ! k"
    "\<forall>j < k. \<not> matches i (bets ! j)"
    using assms by (auto simp: find_Some_iff)
  then have "bets = take k bets @ bet # drop (Suc k) bets"
    by (simp add: id_take_nth_drop)
  moreover have "\<forall>b \<in> set (take k bets). \<not> matches i b"
    using k by (auto simp: in_set_conv_nth)
  ultimately show thesis using that k(2,3) by blast
qed

lemma find_at:
  assumes "matches i bet" "\<forall>b \<in> set pre. \<not> matches i b"
  shows "List.find (matches i) (pre @ bet # post) = Some bet"
proof -
  have "List.find (matches i) pre = None" using assms(2) by (simp add: find_None_iff)
  then show ?thesis using assms(1) by (simp add: find_append)
qed

lemma lg_read_only_save [simp]: "lg_read_only (save l) = lg_read_only l"
  by (simp add: save_def)

lemma on_file_at:
  assumes "\<not> lg_read_only l" "list_all positive_id (disk_rows l)"
    and "List.find (matches i) (disk_rows l) = Some bet" and "f bet = Inr (s, bet', True)"
    and "jget bet' ''id'' = jget bet ''id''"
  shows "\<exists>l'. on_file strict i f l = (Inr \<lparr>mr_status = s, mr_bet = Some bet'\<rparr>, l')
    \<and> List.find (matches i) (disk_rows l') = Some bet' \<and> \<not> lg_read_only l'"
proof -
  obtain pre post where row: "disk_rows l = pre @ bet # post" "matches i bet"
    "\<forall>b \<in> set pre. \<not> matches i b"
    using find_split [OF assms(3)] by blast
  have run: "on_row strict i f (disk_rows l)
      = Inr (\<lparr>mr_status = s, mr_bet = Some bet'\<rparr>, True, pre @ bet' # post)"
    using on_row_at [where f = f and strict = strict, OF _ row(2) row(3), of post s bet' True]
      assms(2,4) row(1) by simp
  have "matches i bet'" using row(2) by (simp add: matches_def assms(5))
  then show ?thesis
    using run assms(1) find_at [OF _ row(3)]
    by (simp add: mutate_locked_def disk_rows_def [symmetric] Let_def)
qed


section \<open>The outcome of a settlement\<close>

definition settlement_status :: "(string \<Rightarrow> string) \<Rightarrow> int \<Rightarrow> dict list \<Rightarrow> string" where
  "settlement_status sha i bets =
     (case List.find (matches i) bets of
        None \<Rightarrow> ''not_found''
      | Some bet \<Rightarrow>
          if \<not> is_open bet then ''not_open''
          else if settlement_amount sha bet = None then ''cash_debit_unknown'' else ''updated'')"

lemma settle_row_status:
  "settle_row sha stamp won bet = Inr (s, bet', ch) \<Longrightarrow>
   s = (if \<not> is_open bet then ''not_open''
        else if settlement_amount sha bet = None then ''cash_debit_unknown'' else ''updated'')"
  using settle_row_known [of bet sha _ stamp won]
  by (cases "settlement_amount sha bet") (auto simp: settle_row_def refused_def)

lemma settle_bet_status:
  assumes "\<not> lg_read_only l" "list_all positive_id (disk_rows l)"
  shows "\<exists>res l'. settle_bet sha stamp i won l = (Inr res, l')
    \<and> mr_status res = settlement_status sha i (disk_rows l)"
proof -
  obtain r ch bets' where run: "on_row True i (settle_row sha stamp won) (disk_rows l) = Inr (r, ch, bets')"
    using on_row_answers [OF assms(2), of "settle_row sha stamp won"] settle_row_answers
    by (metis (no_types, lifting))
  then have "mr_status r = settlement_status sha i (disk_rows l)"
  proof (cases rule: on_row_elim)
    case not_found
    then have "List.find (matches i) (disk_rows l) = None" by (simp add: find_None_iff)
    then show ?thesis using not_found by (simp add: settlement_status_def)
  next
    case (found pre bet post status bet')
    have "List.find (matches i) (disk_rows l) = Some bet"
      unfolding found(1) by (rule find_at [OF found(2,3)])
    then show ?thesis
      using settle_row_status [OF found(4)] found(5) by (simp add: settlement_status_def)
  qed
  moreover have "\<exists>l'. settle_bet sha stamp i won l = (Inr r, l')"
    using run assms(1) by (simp add: settle_bet_def mutate_locked_def disk_rows_def [symmetric] Let_def)
  ultimately show ?thesis by blast
qed

text \<open>
  On a writable ledger whose rows have ids, settling always answers, never raises, and the
  answer is determined by the row alone: no such row, a row that is not open, an open row whose
  real cash cost is not verified, or else the bet is settled.
\<close>

theorem settle_bet_outcome:
  assumes "\<not> lg_read_only l" and "ids_ok (disk_rows l)"
  shows "\<exists>res l'. settle_bet sha stamp i won l = (Inr res, l')
    \<and> mr_status res = settlement_status sha i (disk_rows l)"
  using settle_bet_status [OF assms(1)] assms(2) by (simp add: ids_ok_def)

theorem settle_bet_outcome_witness:
  "\<exists>res l'. settle_bet id ''now'' 2 True demo_ledger = (Inr res, l') \<and> mr_status res = ''not_open''"
proof -
  have "\<not> lg_read_only demo_ledger" by code_simp
  moreover have "settlement_status id 2 (disk_rows demo_ledger) = ''not_open''" by code_simp
  ultimately show ?thesis using settle_bet_outcome [OF _ demo_ids, of id "''now''" 2 True] by simp
qed

section \<open>Recorded evidence is what the settlement charges\<close>

lemma verified_with_exact_pnl [simp]:
  "verified_cash_debit sha (with_exact_pnl payout cost bet) = verified_cash_debit sha bet"
  "verified_fill_shares sha (with_exact_pnl payout cost bet) = verified_fill_shares sha bet"
  by (rule verified_cong; auto simp: with_exact_pnl_def verified_keys_def binding_keys_def)+

lemma record_row_observed:
  assumes obs: "observed_cash_debit sha bet order activity = Inr r"
    and exact: "exact_rows k (evidence_rows r)" and wf: "jwf (JObj (fill_binding bet))"
    and bet: "is_open bet" "is_real bet" "jget bet ''cash_debit_status'' \<noteq> JStr ''confirmed''"
  shows "\<exists>d bet'. jget r ''actual_cash_debit'' = JStr (dec_str d)
    \<and> record_row sha (fill_binding bet) r bet = Inr (''updated'', bet', True)
    \<and> verified_cash_debit sha bet' = Inr d \<and> is_confirmed_real bet' \<and> is_open bet'"
proof -
  obtain d where d: "jget r ''actual_cash_debit'' = JStr (dec_str d)"
    "verified_cash_debit sha (jupdate bet r) = Inr d"
    using verify_observed [OF obs exact wf] by blast
  obtain st where r: "r = confirmed_result sha bet st"
    using obs unfolding observed_Inr by blast
  have status: "jget r ''cash_debit_status'' = JStr ''confirmed''"
    unfolding r by (rule confirmed_fields)
  have keys: "\<not> list_ex (\<lambda>(k, _). k \<notin> set cash_debit_fields) r"
    unfolding r by (simp add: confirmed_result_def Let_def cash_debit_fields_def)
  have same: "py_eq (JObj (fill_binding bet)) (JObj (fill_binding bet))" by (rule py_eq_refl [OF wf])
  have changed: "list_ex (\<lambda>(k, v). \<not> py_eq (jget bet k) v) r"
    unfolding r using bet(3) by (simp add: confirmed_result_def Let_def)
  let ?bet' = "jdel ''cash_debit_unknown_reason'' (jupdate bet r)"
  have other: "''dry_run'' \<notin> fst ` set r" "''status'' \<notin> fst ` set r"
    unfolding r by (auto simp: confirmed_result_def Let_def)
  have "record_row sha (fill_binding bet) r bet = Inr (''updated'', ?bet', True)"
    unfolding record_row_def using bet same keys status d(2) changed
    by (simp add: in_names_def record_fields_def del: py_eq.simps)
  moreover have "is_confirmed_real ?bet'"
    unfolding r using bet(2)
    by (simp add: is_confirmed_real_def is_real_def jget_jdel jget_confirmed confirmed_keys_def
        confirmed_fields)
  moreover have "is_open ?bet'"
    using bet(1) jget_jupdate_other [OF other(2)] by (simp add: has_status_def jget_jdel)
  ultimately show ?thesis using d by (intro exI [of _ d] exI [of _ ?bet']) simp
qed

lemma settle_row_confirmed:
  assumes "is_open bet" "is_confirmed_real bet" "verified_cash_debit sha bet = Inr d"
  shows "\<exists>bet' payout. settle_row sha stamp won bet = Inr (''updated'', bet', True)
    \<and> (if won then verified_fill_shares sha bet = Inr payout else payout = dec_zero)
    \<and> jget bet' ''result_pnl_exact'' = JStr (dec_sub_str payout d)
    \<and> exact_pnl sha won bet' = Inr (payout, d) \<and> provenance_intact bet' payout d"
proof -
  obtain s where s: "verified_fill_shares sha bet = Inr s" using verified_shares [OF assms(3)] by blast
  have amount: "settlement_amount sha bet = Some (dec_float d)"
    using assms confirmed_has_key [OF assms(2)]
    by (simp add: settlement_amount_def is_confirmed_real_def)
  have shares: "settlement_shares sha bet = Inr (dec_float s)"
    using assms(2) s by (simp add: settlement_shares_def)
  define payout where "payout = (if won then s else dec_zero)"
  let ?bet' = "with_exact_pnl payout d (settled_row stamp won (dec_float s) (dec_float d) bet)"
  have "settle_row sha stamp won bet = Inr (''updated'', ?bet', True)"
    using assms amount shares s by (simp add: settle_row_def Let_def updated_row_def payout_def)
  moreover have "exact_pnl sha won ?bet' = Inr (payout, d)"
    using assms(3) s by (simp add: exact_pnl_def payout_def)
  moreover have "provenance_intact ?bet' payout d"
    by (simp add: provenance_intact_def with_exact_pnl_def)
  moreover have "jget ?bet' ''result_pnl_exact'' = JStr (dec_sub_str payout d)"
    by (simp add: with_exact_pnl_def)
  ultimately show ?thesis
    using s by (intro exI [of _ ?bet'] exI [of _ payout]) (simp add: payout_def)
qed

text \<open>
  C3: Cash evidence and settlement fit together across the components: evidence observed for an
  open real bet is accepted by the ledger, the recorded row verifies, and settling the bet then
  writes the exact profit computed from that very debit, with a provenance the summary accepts.
\<close>

theorem recorded_debit_settles:
  assumes "observed_cash_debit sha bet order activity = Inr r"
    and "exact_rows k (evidence_rows r)" and "jwf (JObj (fill_binding bet))"
    and "\<not> lg_read_only l" "ids_ok (disk_rows l)"
    and "List.find (matches i) (disk_rows l) = Some bet"
    and "is_open bet" "is_real bet" "jget bet ''cash_debit_status'' \<noteq> JStr ''confirmed''"
  shows "\<exists>d res l1 res' l2 bet' payout. jget r ''actual_cash_debit'' = JStr (dec_str d)
    \<and> record_cash_debit sha i (fill_binding bet) r l = (Inr res, l1) \<and> mr_ok res
    \<and> settle_bet sha stamp i won l1 = (Inr res', l2) \<and> mr_ok res'
    \<and> List.find (matches i) (disk_rows l2) = Some bet'
    \<and> (payout = dec_zero \<or> won)
    \<and> jget bet' ''result_pnl_exact'' = JStr (dec_sub_str payout d)
    \<and> exact_pnl sha won bet' = Inr (payout, d) \<and> provenance_intact bet' payout d"
proof -
  obtain d b1 where rec: "jget r ''actual_cash_debit'' = JStr (dec_str d)"
    "record_row sha (fill_binding bet) r bet = Inr (''updated'', b1, True)"
    "verified_cash_debit sha b1 = Inr d" "is_confirmed_real b1" "is_open b1"
    using record_row_observed [OF assms(1-3,7-9)] by blast
  have pos: "list_all positive_id (disk_rows l)" using assms(5) by (simp add: ids_ok_def)
  obtain l1 where l1: "on_file False i (record_row sha (fill_binding bet) r) l
      = (Inr \<lparr>mr_status = ''updated'', mr_bet = Some b1\<rparr>, l1)"
    "List.find (matches i) (disk_rows l1) = Some b1" "\<not> lg_read_only l1"
    using on_file_at [where f = "record_row sha (fill_binding bet) r", OF assms(4) pos assms(6) rec(2)]
      recording.keeps_id [OF rec(2)] by blast
  have pos1: "list_all positive_id (disk_rows l1)"
    using evolves_ids(2) [OF recording.file_evolves [OF l1(1)]] pos by simp
  obtain b2 payout where set: "settle_row sha stamp won b1 = Inr (''updated'', b2, True)"
    "if won then verified_fill_shares sha b1 = Inr payout else payout = dec_zero"
    "jget b2 ''result_pnl_exact'' = JStr (dec_sub_str payout d)"
    "exact_pnl sha won b2 = Inr (payout, d)" "provenance_intact b2 payout d"
    using settle_row_confirmed [OF rec(5,4,3)] by blast
  obtain l2 where l2: "on_file True i (settle_row sha stamp won) l1
      = (Inr \<lparr>mr_status = ''updated'', mr_bet = Some b2\<rparr>, l2)"
    "List.find (matches i) (disk_rows l2) = Some b2"
    using on_file_at [where f = "settle_row sha stamp won", OF l1(3) pos1 l1(2) set(1)]
      settling.keeps_id [OF set(1)] by blast
  have "payout = dec_zero \<or> won" using set(2) by (cases won) simp_all
  then show ?thesis
    using rec(1) l1(1) l2 set(3-5) unfolding record_cash_debit_def settle_bet_def mr_ok_def
    by fastforce
qed

text \<open>A real filled bet as the ledger stores it.\<close>

definition demo_real_row :: dict where
  "demo_real_row = jset ''dry_run'' (JBool False) (jset ''status'' (JStr ''open'') (jset ''id'' (JInt 7) demo_bet))"

definition demo_real_ledger :: ledger where
  "demo_real_ledger = open_ledger (Saved [demo_row 1 ''lost'', demo_real_row])"

lemma demo_real_row_same: "k \<in> set binding_keys \<Longrightarrow> jget demo_real_row k = jget demo_bet k"
  by (auto simp: binding_keys_def demo_real_row_def)

lemma demo_real_observed: "observed_cash_debit id demo_real_row demo_order demo_activity = Inr demo_confirmed"
  using observed_cong(1) [OF demo_real_row_same] demo_observed by simp

theorem recorded_debit_settles_witness:
  "\<exists>d res l1 res' l2 bet' payout. jget demo_confirmed ''actual_cash_debit'' = JStr (dec_str d)
    \<and> record_cash_debit id 7 (fill_binding demo_real_row) demo_confirmed demo_real_ledger = (Inr res, l1)
    \<and> mr_ok res \<and> settle_bet id ''now'' 7 True l1 = (Inr res', l2) \<and> mr_ok res'
    \<and> List.find (matches 7) (disk_rows l2) = Some bet'
    \<and> (payout = dec_zero \<or> True)
    \<and> jget bet' ''result_pnl_exact'' = JStr (dec_sub_str payout d)
    \<and> exact_pnl id True bet' = Inr (payout, d) \<and> provenance_intact bet' payout d"
proof (rule recorded_debit_settles [OF demo_real_observed demo_exact])
  show "jwf (JObj (fill_binding demo_real_row))"
    using observed_cong(2) [OF demo_real_row_same] demo_jwf by simp
  show "\<not> lg_read_only demo_real_ledger" by code_simp
  show "ids_ok (disk_rows demo_real_ledger)" by code_simp
  show "List.find (matches 7) (disk_rows demo_real_ledger) = Some demo_real_row" by code_simp
  show "is_open demo_real_row" by code_simp
  show "is_real demo_real_row" by code_simp
  show "jget demo_real_row ''cash_debit_status'' \<noteq> JStr ''confirmed''" by code_simp
qed

text \<open>
  C29: Confirmed cash evidence is protected: recording anything for a row that is marked confirmed
  leaves the file as it was, and it is reported as success only when the stored evidence still
  verifies and the new evidence is absent or has the same digest.
\<close>

theorem confirmed_debit_protected:
  assumes "List.find (matches i) (disk_rows l) = Some bet"
    and "jget bet ''cash_debit_status'' = JStr ''confirmed''"
    and "record_cash_debit sha i binding flds l = (r, l')"
  shows "disk_rows l' = disk_rows l
    \<and> (succeeded r \<longrightarrow> (\<exists>d. verified_cash_debit sha bet = Inr d)
         \<and> (jget flds ''cash_debit_status'' = JStr ''unknown''
            \<or> py_eq (jget flds ''actual_cash_debit_evidence_sha256'')
                (jget bet ''actual_cash_debit_evidence_sha256'')))"
proof -
  have row: "\<exists>s. record_row sha binding flds bet = Inr (s, bet, False)
      \<and> (s = ''updated'' \<longrightarrow> (\<exists>d. verified_cash_debit sha bet = Inr d)
           \<and> (jget flds ''cash_debit_status'' = JStr ''unknown''
              \<or> py_eq (jget flds ''actual_cash_debit_evidence_sha256'')
                  (jget bet ''actual_cash_debit_evidence_sha256'')))"
    using assms(2) by (simp add: record_row_def confirmed_again_def refused_def del: py_eq.simps
        split: sum.split)
  have run: "on_file False i (record_row sha binding flds) l = (r, l')"
    using assms(3) by (simp add: record_cash_debit_def)
  have same_row: "b = bet" if "disk_rows l = pre @ b # post" "matches i b" "\<forall>c \<in> set pre. \<not> matches i c"
    for pre b post
    using find_at [OF that(2,3), of post] assms(1) that(1) by simp
  show ?thesis
    using run
  proof (cases rule: mutate_elim)
    case (unsaved x bets)
    from unsaved(2) show ?thesis
    proof (cases rule: on_row_elim)
      case not_found
      then show ?thesis using unsaved by (simp add: mr_ok_def)
    next
      case (found pre b post status b')
      then have "b = bet" using same_row by blast
      then show ?thesis using found(4,5) unsaved(3,4) row by (auto simp: mr_ok_def)
    qed
  next
    case (saved x bets)
    from saved(2) show ?thesis
    proof (cases rule: on_row_elim)
      case (found pre b post status b')
      then have "b = bet" using same_row by blast
      then show ?thesis using found(4) row by auto
    qed simp
  qed simp_all
qed

definition demo_confirmed_ledger :: ledger where
  "demo_confirmed_ledger =
     open_ledger (Saved [[(''id'', JInt 1), (''cash_debit_status'', JStr ''confirmed'')]])"

theorem confirmed_debit_protected_witness:
  "disk_rows (snd (record_cash_debit id 1 [] [] demo_confirmed_ledger)) = disk_rows demo_confirmed_ledger"
proof -
  have "List.find (matches 1) (disk_rows demo_confirmed_ledger)
      = Some [(''id'', JInt 1), (''cash_debit_status'', JStr ''confirmed'')]" by code_simp
  from confirmed_debit_protected [OF this, of id "[]" "[]"
      "fst (record_cash_debit id 1 [] [] demo_confirmed_ledger)"]
  show ?thesis by (simp add: jget_Cons)
qed

end
