(* ===== verification/Ledger_Merge.thy ===== *)
theory Ledger_Merge
  imports Ledger_Histories
begin

text \<open>
  The merged read-only view over the ledgers of all traders (\<open>load_all_trader_ledgers\<close>,
  \<open>resolve_merged_bet_reference\<close> and \<open>ReadOnlyBetLedgerView\<close> of
  \<^verbatim>\<open>src/polymarket/tracker.py\<close>): duplicates are dropped by order id, the rows are put in the
  order of placement and numbered again, and a displayed number leads back to the ledger file and
  the row it came from. The file system is the argument \<open>fs\<close>.
\<close>

section \<open>The operations\<close>

type_synonym ledger_files = "string \<Rightarrow> disk"

definition active_ledger_paths :: "ledger_files \<Rightarrow> string list \<Rightarrow> string \<Rightarrow> string list" where
  "active_ledger_paths fs trader_paths default_path =
     (let existing = filter (\<lambda>p. fs p \<noteq> No_file) trader_paths
      in if existing \<noteq> [] then existing else [default_path])"

definition order_text :: "dict \<Rightarrow> string" where
  "order_text b = text_of (jget b ''order_id'')"

definition tag_row :: "string \<Rightarrow> dict \<Rightarrow> dict" where
  "tag_row path b = jset ''_ledger_path'' (JStr path) (jset ''_original_id'' (jget b ''id'') b)"

text \<open>The loop over the rows of one ledger, with the order ids seen so far.\<close>

fun merge_rows :: "string \<Rightarrow> dict list \<Rightarrow> string list \<Rightarrow> (dict list \<times> string list) attempt" where
  "merge_rows path [] seen = Inr ([], seen)"
| "merge_rows path (b # bs) seen =
     (if order_text b \<noteq> [] \<and> order_text b \<in> set seen then merge_rows path bs seen
      else if \<not> has_key b ''id'' then Inl (KeyError ''id'')
      else sbind (merge_rows path bs (if order_text b \<noteq> [] then order_text b # seen else seen))
        (\<lambda>(rows, seen'). Inr (tag_row path b # rows, seen')))"

fun merge_ledgers :: "ledger_files \<Rightarrow> string list \<Rightarrow> string list \<Rightarrow> dict list attempt" where
  "merge_ledgers fs [] seen = Inr []"
| "merge_ledgers fs (path # paths) seen =
     sbind (merge_rows path (lg_bets (open_ledger (fs path))) seen) (\<lambda>(rows, seen').
       sbind (merge_ledgers fs paths seen') (\<lambda>rest. Inr (rows @ rest)))"

text \<open>\<open>merged.sort(key=lambda b: b.get("placed_at", ""))\<close>, stable; the time of placement is text, as
  \<open>add_bet\<close> writes it, or absent. Comparing text with anything else raises.\<close>

definition placed_at :: "dict \<Rightarrow> string" where
  "placed_at b = str_of (jget b ''placed_at'')"

definition placed_at_ok :: "dict \<Rightarrow> bool" where
  "placed_at_ok b \<longleftrightarrow> \<not> has_key b ''placed_at'' \<or> is_str (jget b ''placed_at'')"

definition sort_by_placement :: "dict list \<Rightarrow> dict list attempt" where
  "sort_by_placement rows =
     (if length rows \<le> 1 \<or> list_all placed_at_ok rows then Inr (sort_key placed_at rows)
      else Inl TypeError)"

fun renumber :: "int \<Rightarrow> dict list \<Rightarrow> dict list" where
  "renumber i [] = []"
| "renumber i (b # bs) = jset ''id'' (JInt i) b # renumber (i + 1) bs"

definition load_all_trader_ledgers ::
  "ledger_files \<Rightarrow> string list \<Rightarrow> string \<Rightarrow> dict list attempt" where
  "load_all_trader_ledgers fs trader_paths default_path =
     sbind (merge_ledgers fs (active_ledger_paths fs trader_paths default_path) []) (\<lambda>rows.
       sbind (sort_by_placement rows) (\<lambda>sorted_rows. Inr (renumber 1 sorted_rows)))"

record bet_reference =
  br_display_id :: int
  br_ledger_path :: string
  br_original_id :: json
  br_placed_at :: json
  br_bet :: dict

definition resolve_merged_bet_reference ::
  "ledger_files \<Rightarrow> string list \<Rightarrow> string \<Rightarrow> int \<Rightarrow> bool \<Rightarrow> bet_reference option attempt" where
  "resolve_merged_bet_reference fs trader_paths default_path bet_id require_open =
     sbind (load_all_trader_ledgers fs trader_paths default_path) (\<lambda>bets.
       Inr (case List.find (\<lambda>b. matches bet_id b \<and> (\<not> require_open \<or> is_open b)) bets of
              None \<Rightarrow> None
            | Some target \<Rightarrow>
                Some \<lparr>br_display_id = bet_id,
                      br_ledger_path = str_of (jget target ''_ledger_path''),
                      br_original_id = jget target ''_original_id'',
                      br_placed_at = jget target ''placed_at'', br_bet = target\<rparr>))"

section \<open>Where the rows come from\<close>

text \<open>\<open>b\<close> is the row \<open>origin\<close> of the ledger \<open>path\<close>, tagged and possibly renumbered.\<close>

definition copy_of :: "string \<Rightarrow> dict \<Rightarrow> dict \<Rightarrow> bool" where
  "copy_of path origin b \<longleftrightarrow>
     jget b ''_ledger_path'' = JStr path \<and> jget b ''_original_id'' = jget origin ''id''
     \<and> (\<forall>k. k \<notin> {''id'', ''_ledger_path'', ''_original_id''} \<longrightarrow> jget b k = jget origin k)"

lemma copy_of_tag_row: "copy_of path b (tag_row path b)"
  by (auto simp: copy_of_def tag_row_def)

lemma copy_of_renumber: "copy_of path origin b \<Longrightarrow> copy_of path origin (jset ''id'' v b)"
  by (auto simp: copy_of_def)

lemma copy_of_order: "copy_of path origin b \<Longrightarrow> order_text b = order_text origin"
  by (simp add: copy_of_def order_text_def)

definition from_ledgers :: "ledger_files \<Rightarrow> string list \<Rightarrow> dict \<Rightarrow> bool" where
  "from_ledgers fs paths b \<longleftrightarrow>
     (\<exists>path \<in> set paths. \<exists>origin \<in> set (read_bets_from_disk (fs path)). copy_of path origin b)"

definition order_ids :: "dict list \<Rightarrow> string list" where
  "order_ids rows = filter (\<lambda>s. s \<noteq> []) (map order_text rows)"

lemma order_ids_simps [simp]:
  "order_ids [] = []"
  "order_ids (b # bs) = (if order_text b = [] then order_ids bs else order_text b # order_ids bs)"
  "order_ids (xs @ ys) = order_ids xs @ order_ids ys"
  by (simp_all add: order_ids_def)

lemma order_text_tag_row [simp]: "order_text (tag_row path b) = order_text b"
  by (simp add: order_text_def tag_row_def)

lemma merge_rows_from:
  "merge_rows path bs seen = Inr (rows, seen') \<Longrightarrow> r \<in> set rows \<Longrightarrow> \<exists>b \<in> set bs. r = tag_row path b"
  by (induction path bs seen arbitrary: rows rule: merge_rows.induct)
    (auto simp: sbind_eq_Inr split: if_split_asm)

lemma merge_rows_Cons:
  assumes "merge_rows path (b # bs) seen = Inr (rows, seen')"
  obtains (duplicate) "order_text b \<noteq> []" "order_text b \<in> set seen"
      "merge_rows path bs seen = Inr (rows, seen')"
  | (kept) rest where "order_text b = [] \<or> order_text b \<notin> set seen"
      "merge_rows path bs (if order_text b \<noteq> [] then order_text b # seen else seen) = Inr (rest, seen')"
      "rows = tag_row path b # rest"
proof (cases "order_text b \<noteq> [] \<and> order_text b \<in> set seen")
  case True
  then show thesis using assms duplicate by simp
next
  case False
  then have "has_key b ''id''" using assms by (simp split: if_split_asm)
  then obtain rest where
    "merge_rows path bs (if order_text b \<noteq> [] then order_text b # seen else seen) = Inr (rest, seen')"
    "rows = tag_row path b # rest"
    using assms False by (auto simp: sbind_eq_Inr simp del: merge_rows.simps(1) split: if_split_asm)
  then show thesis using kept False by blast
qed

lemma merge_rows_distinct:
  "merge_rows path bs seen = Inr (rows, seen') \<Longrightarrow>
   distinct (order_ids rows) \<and> set (order_ids rows) \<inter> set seen = {}
   \<and> set seen' = set seen \<union> set (order_ids rows)"
proof (induction bs arbitrary: seen rows seen')
  case (Cons b bs)
  from Cons.prems show ?case
  proof (cases rule: merge_rows_Cons)
    case duplicate
    then show ?thesis using Cons.IH by blast
  next
    case (kept rest)
    show ?thesis
    proof (cases "order_text b = []")
      case True
      then show ?thesis using Cons.IH [of seen rest seen'] kept by simp
    next
      case False
      then show ?thesis using Cons.IH [of "order_text b # seen" rest seen'] kept by auto
    qed
  qed
qed simp

lemma merge_rows_complete:
  "merge_rows path bs seen = Inr (rows, seen') \<Longrightarrow> b \<in> set bs \<Longrightarrow>
   tag_row path b \<in> set rows \<or> order_text b \<noteq> [] \<and> order_text b \<in> set seen \<union> set (order_ids rows)"
proof (induction bs arbitrary: seen rows seen')
  case (Cons c bs)
  from Cons.prems(1) show ?case
  proof (cases rule: merge_rows_Cons)
    case duplicate
    then show ?thesis using Cons.IH Cons.prems(2) by auto
  next
    case (kept rest)
    then show ?thesis using Cons.IH [OF kept(2)] Cons.prems(2) by (auto split: if_split_asm)
  qed
qed simp

lemma merge_ledgers_from:
  "merge_ledgers fs paths seen = Inr rows \<Longrightarrow> r \<in> set rows \<Longrightarrow> from_ledgers fs paths r"
proof (induction fs paths seen arbitrary: rows rule: merge_ledgers.induct)
  case (2 fs path paths seen)
  then obtain rs seen' rest where parts: "merge_rows path (lg_bets (open_ledger (fs path))) seen = Inr (rs, seen')"
    "merge_ledgers fs paths seen' = Inr rest" "rows = rs @ rest"
    by (auto simp: sbind_eq_Inr)
  show ?case
  proof (cases "r \<in> set rs")
    case True
    then show ?thesis
      using merge_rows_from [OF parts(1)] copy_of_tag_row
      by (fastforce simp: from_ledgers_def open_ledger_def)
  next
    case False
    then have "from_ledgers fs paths r" using 2 parts by auto
    then show ?thesis by (auto simp: from_ledgers_def)
  qed
qed simp

lemma merge_ledgers_distinct:
  "merge_ledgers fs paths seen = Inr rows \<Longrightarrow>
   distinct (order_ids rows) \<and> set (order_ids rows) \<inter> set seen = {}"
proof (induction fs paths seen arbitrary: rows rule: merge_ledgers.induct)
  case (2 fs path paths seen)
  then obtain rs seen' rest where parts: "merge_rows path (lg_bets (open_ledger (fs path))) seen = Inr (rs, seen')"
    "merge_ledgers fs paths seen' = Inr rest" "rows = rs @ rest"
    by (auto simp: sbind_eq_Inr)
  have "distinct (order_ids rest) \<and> set (order_ids rest) \<inter> set seen' = {}"
    using 2 parts by auto
  then show ?case using merge_rows_distinct [OF parts(1)] parts(3) by auto
qed simp

lemma renumber_props:
  "length (renumber i bs) = length bs"
  "k < length bs \<Longrightarrow> renumber i bs ! k = jset ''id'' (JInt (i + int k)) (bs ! k)"
  by (induction i bs arbitrary: k rule: renumber.induct) (auto simp: nth_Cons' algebra_simps split: nat.split)

lemma order_text_jset_id [simp]: "order_text (jset ''id'' v b) = order_text b"
  by (simp add: order_text_def)

lemma order_ids_renumber [simp]: "order_ids (renumber i bs) = order_ids bs"
  by (induction i bs rule: renumber.induct) simp_all

lemma placed_at_jset_id [simp]: "placed_at (jset ''id'' v b) = placed_at b"
  by (simp add: placed_at_def)

lemma map_placed_at_renumber [simp]: "map placed_at (renumber i bs) = map placed_at bs"
  by (induction i bs rule: renumber.induct) simp_all

lemma order_ids_mset: "mset xs = mset ys \<Longrightarrow> mset (order_ids xs) = mset (order_ids ys)"
  by (simp add: order_ids_def)

lemma loadE:
  assumes "load_all_trader_ledgers fs trader_paths default_path = Inr bets"
  obtains rows where "merge_ledgers fs (active_ledger_paths fs trader_paths default_path) [] = Inr rows"
    "bets = renumber 1 (sort_key placed_at rows)"
  using assms
  by (auto simp: load_all_trader_ledgers_def sbind_eq_Inr sort_by_placement_def split: if_split_asm)

lemma load_props:
  assumes "load_all_trader_ledgers fs trader_paths default_path = Inr bets"
  shows "k < length bets \<Longrightarrow> jget (bets ! k) ''id'' = JInt (int k + 1)"
    and "distinct (order_ids bets)"
    and "sorted (map placed_at bets)"
    and "b \<in> set bets \<Longrightarrow> from_ledgers fs (active_ledger_paths fs trader_paths default_path) b"
proof -
  obtain rows where rows: "merge_ledgers fs (active_ledger_paths fs trader_paths default_path) [] = Inr rows"
    "bets = renumber 1 (sort_key placed_at rows)"
    using assms by (rule loadE)
  show "jget (bets ! k) ''id'' = JInt (int k + 1)" if "k < length bets"
    using that rows(2) by (simp add: renumber_props)
  have "mset (order_ids (sort_key placed_at rows)) = mset (order_ids rows)"
    by (rule order_ids_mset) simp
  then have "distinct (order_ids (sort_key placed_at rows))"
    using merge_ledgers_distinct [OF rows(1)] by (metis mset_eq_imp_distinct_iff)
  then show "distinct (order_ids bets)" using rows(2) by simp
  show "sorted (map placed_at bets)" using rows(2) by simp
  show "from_ledgers fs (active_ledger_paths fs trader_paths default_path) b" if b: "b \<in> set bets"
  proof -
    obtain k where k: "k < length bets" "b = bets ! k" using b by (auto simp: in_set_conv_nth)
    then have len: "k < length (sort_key placed_at rows)" using rows(2) by (simp add: renumber_props)
    then have "sort_key placed_at rows ! k \<in> set rows" by (metis nth_mem set_sort)
    then have "from_ledgers fs (active_ledger_paths fs trader_paths default_path) (sort_key placed_at rows ! k)"
      using merge_ledgers_from [OF rows(1)] by blast
    then show ?thesis
      using k(2) rows(2) renumber_props(2) [OF len] copy_of_renumber
      by (fastforce simp: from_ledgers_def)
  qed
qed

section \<open>The view and its references\<close>

text \<open>
  The merged view numbers its rows 1, 2, ... in order of placement, shows no order id twice,
  and shows only rows of the active ledgers, each with its own ledger, original id and otherwise
  unchanged contents.
\<close>

theorem merged_view:
  assumes "load_all_trader_ledgers fs trader_paths default_path = Inr bets"
  shows "(\<forall>k < length bets. jget (bets ! k) ''id'' = JInt (int k + 1))
    \<and> distinct (order_ids bets) \<and> sorted (map placed_at bets)
    \<and> (\<forall>b \<in> set bets. from_ledgers fs (active_ledger_paths fs trader_paths default_path) b)"
  using load_props [OF assms] by blast

text \<open>
  C32: A displayed number leads back to its row: resolving the number of any row of the merged view
  returns that row, with the ledger file and the id under which the file holds the original.
\<close>

theorem resolve_round_trip:
  assumes "load_all_trader_ledgers fs trader_paths default_path = Inr bets" and "k < length bets"
  shows "\<exists>reference origin.
    resolve_merged_bet_reference fs trader_paths default_path (int k + 1) False = Inr (Some reference)
    \<and> br_bet reference = bets ! k \<and> br_display_id reference = int k + 1
    \<and> br_ledger_path reference \<in> set (active_ledger_paths fs trader_paths default_path)
    \<and> origin \<in> set (read_bets_from_disk (fs (br_ledger_path reference)))
    \<and> br_original_id reference = jget origin ''id'' \<and> copy_of (br_ledger_path reference) origin (bets ! k)"
proof -
  have id: "matches i (bets ! j) \<longleftrightarrow> i = int j + 1" if "j < length bets" for i j
    using load_props(1) [OF assms(1) that] by (rule matches_JInt)
  have found: "List.find (\<lambda>b. matches (int k + 1) b \<and> (\<not> False \<or> is_open b)) bets = Some (bets ! k)"
    unfolding find_Some_iff using assms(2) id by (intro exI [of _ k]) auto
  obtain path origin where origin: "path \<in> set (active_ledger_paths fs trader_paths default_path)"
    "origin \<in> set (read_bets_from_disk (fs path))" "copy_of path origin (bets ! k)"
    using load_props(4) [OF assms(1), of "bets ! k"] assms(2) by (auto simp: from_ledgers_def)
  then have fields: "str_of (jget (bets ! k) ''_ledger_path'') = path"
    "jget (bets ! k) ''_original_id'' = jget origin ''id''"
    by (simp_all add: copy_of_def)
  show ?thesis
    unfolding resolve_merged_bet_reference_def assms(1) sbind_simps found option.case
    using origin fields by auto
qed

text \<open>Two ledgers that share an order.\<close>

definition demo_placed :: "int \<Rightarrow> string \<Rightarrow> string \<Rightarrow> dict" where
  "demo_placed i oid placed =
     [(''id'', JInt i), (''order_id'', JStr oid), (''placed_at'', JStr placed),
      (''status'', JStr ''open'')]"

definition demo_fs :: ledger_files where
  "demo_fs path =
     (if path = ''s.json'' then Saved [demo_placed 1 ''o1'' ''2026-02'', demo_placed 2 ''o2'' ''2026-04'']
      else if path = ''c.json'' then Saved [demo_placed 1 ''o2'' ''2026-04'', demo_placed 5 [] ''2026-01'']
      else No_file)"

definition demo_paths :: "string list" where
  "demo_paths = [''s.json'', ''c.json'', ''m.json'']"

definition demo_view :: "dict list" where
  "demo_view =
     (case load_all_trader_ledgers demo_fs demo_paths ''d.json'' of Inl _ \<Rightarrow> [] | Inr bets \<Rightarrow> bets)"

lemma demo_merged: "load_all_trader_ledgers demo_fs demo_paths ''d.json'' = Inr demo_view"
  by code_simp

lemma demo_view_simps: "length demo_view = 3" "jget (demo_view ! 0) ''_original_id'' = JInt 5"
  by code_simp+

theorem merged_view_witness: "distinct (order_ids demo_view) \<and> length demo_view = 3"
  using merged_view [OF demo_merged] demo_view_simps(1) by blast

theorem resolve_round_trip_witness:
  "\<exists>reference. resolve_merged_bet_reference demo_fs demo_paths ''d.json'' 1 False = Inr (Some reference)
     \<and> br_original_id reference = JInt 5"
proof -
  have "0 < length demo_view" by (simp add: demo_view_simps)
  from resolve_round_trip [OF demo_merged this] obtain reference origin where
    "resolve_merged_bet_reference demo_fs demo_paths ''d.json'' 1 False = Inr (Some reference)"
    "br_original_id reference = jget origin ''id''"
    "copy_of (br_ledger_path reference) origin (demo_view ! 0)"
    by auto
  then show ?thesis using demo_view_simps(2) by (auto simp: copy_of_def)
qed

end
