(* ===== verification/Ledger_Sweeps.thy ===== *)
theory Ledger_Sweeps
  imports Ledger_Settlement Live_Control
begin

text \<open>
  The passes of \<^verbatim>\<open>src/polymarket/tracker.py\<close> over the open bets: \<open>auto_settle_from_polymarket\<close>
  settles bets whose market is resolved, \<open>auto_reconcile_sold_positions\<close> cancels bets whose
  position has disappeared. Both are one loop that acts on one open row at a time through the
  ledger; what that loop guarantees is proved once, in a locale for the action, and interpreted
  on the two actions of the code. The market lookup is the argument \<open>market\<close> (\<open>Inl\<close> when it
  raises, \<open>Inr None\<close> when it finds nothing), the environment the argument \<open>E\<close>.
\<close>

section \<open>The winner of a market\<close>

text \<open>\<open>str(token.get("token_id") or token.get("tokenId") or "").strip()\<close>\<close>

definition token_text :: "dict \<Rightarrow> string" where
  "token_text token =
     py_strip (text_of (if truthy (jget token ''token_id'') then jget token ''token_id''
                        else jget token ''tokenId''))"

fun first_winner :: "json list \<Rightarrow> string" where
  "first_winner [] = []"
| "first_winner (t # ts) =
     (if \<not> is_obj t \<or> \<not> truthy (jget (obj_of t) ''winner'') then first_winner ts
      else if token_text (obj_of t) \<noteq> [] then token_text (obj_of t) else first_winner ts)"

definition resolved_flag :: "dict \<Rightarrow> bool" where
  "resolved_flag market =
     (if \<not> has_key market ''resolved'' then False
      else case jget market ''resolved'' of
             JBool b \<Rightarrow> b
           | v \<Rightarrow> py_lower (py_strip (py_str v)) \<in> set [''1'', ''true'', ''yes''])"

definition resolved_winner :: "dict \<Rightarrow> string option" where
  "resolved_winner market =
     (let tokens = jget market ''tokens'';
          winning = (if is_list tokens then first_winner (list_of tokens) else []);
          named = (if winning \<noteq> [] then winning
                   else py_strip (text_of (jget market ''winning_token_id'')))
      in if \<not> (resolved_flag market \<or> winning \<noteq> []) then None
         else if named = [] then None else Some named)"

section \<open>The loops\<close>

type_synonym row_action = "dict \<Rightarrow> ledger \<Rightarrow> (bool \<times> ledger) attempt"

fun sweep :: "row_action \<Rightarrow> dict list \<Rightarrow> nat \<Rightarrow> ledger \<Rightarrow> (nat \<times> ledger) attempt" where
  "sweep act [] n l = Inr (n, l)"
| "sweep act (b # bs) n l =
     sbind (act b l) (\<lambda>(ok, l'). sweep act bs (if ok then n + 1 else n) l')"

definition skip :: "ledger \<Rightarrow> (bool \<times> ledger) attempt" where
  "skip l = Inr (False, l)"

text \<open>\<open>bet["id"]\<close> as the integer that \<open>add_bet\<close> has written.\<close>

definition int_id :: "dict \<Rightarrow> int attempt" where
  "int_id b = (case jget b ''id'' of JInt i \<Rightarrow> Inr i | _ \<Rightarrow> Inl (KeyError ''id''))"

definition market_identifier :: "dict \<Rightarrow> json" where
  "market_identifier b =
     (if truthy (jget b ''condition_id'') then jget b ''condition_id'' else jget b ''market_id'')"

text \<open>Which open rows the settlement may act on.\<close>

definition settleable :: "bool \<Rightarrow> dict \<Rightarrow> bool" where
  "settleable betting_off b \<longleftrightarrow>
     \<not> (betting_off \<and> jget b ''dry_run'' \<noteq> JBool True) \<and> has_confirmed_position b
     \<and> truthy (market_identifier b)"

text \<open>An exception inside the body is logged, with the id of the row, and the loop goes on.\<close>

definition logged :: "dict \<Rightarrow> ledger \<Rightarrow> (bool \<times> ledger) attempt" where
  "logged b l = (if has_key b ''id'' then skip l else Inl (KeyError ''id''))"

definition settle_one ::
  "(string \<Rightarrow> string) \<Rightarrow> string \<Rightarrow> bool \<Rightarrow> (string \<Rightarrow> unit + dict option) \<Rightarrow> row_action" where
  "settle_one sha stamp betting_off market b l =
     (if \<not> settleable betting_off b then skip l
      else case market (py_str (market_identifier b)) of
             Inl _ \<Rightarrow> logged b l
           | Inr found \<Rightarrow>
               (case Option.bind found resolved_winner of
                  None \<Rightarrow> skip l
                | Some token \<Rightarrow>
                    if \<not> has_key b ''token_id'' then logged b l
                    else sbind (int_id b) (\<lambda>i.
                      let (r, l') = settle_bet sha stamp i (jget b ''token_id'' = JStr token) l
                      in Inr (succeeded r, l'))))"

definition auto_settle_from_polymarket ::
  "(string \<Rightarrow> string) \<Rightarrow> string \<Rightarrow> live_env \<Rightarrow> (string \<Rightarrow> unit + dict option) \<Rightarrow> ledger
   \<Rightarrow> (nat \<times> ledger) attempt" where
  "auto_settle_from_polymarket sha stamp E market l =
     (let (open_rows, l') = get_open_bets True l
      in sweep (settle_one sha stamp (resolve_live_mode_from_env E = LM_off) market) open_rows 0 l')"

definition sold_candidate :: "string list \<Rightarrow> dict \<Rightarrow> bool attempt" where
  "sold_candidate live_token_ids b =
     (if \<not> truthy (jget b ''token_id'') then Inr False
      else sbind (in_names (jget b ''placement_state'') UNRESOLVED_PLACEMENT_STATES) (\<lambda>unresolved.
        if unresolved then Inr False
        else sbind (in_names (jget b ''token_id'') live_token_ids) (\<lambda>live. Inr (\<not> live))))"

definition cancel_one :: "string \<Rightarrow> string list \<Rightarrow> row_action" where
  "cancel_one stamp live_token_ids b l =
     sbind (sold_candidate live_token_ids b) (\<lambda>sold.
       if \<not> sold then skip l
       else sbind (int_id b) (\<lambda>i.
         case cancel_bet stamp i (Some ''position_sold'') None l of
           (Inl e, _) \<Rightarrow> Inl e
         | (Inr res, l') \<Rightarrow> Inr (mr_ok res, l')))"

definition auto_reconcile_sold_positions ::
  "string \<Rightarrow> live_env \<Rightarrow> string list \<Rightarrow> ledger \<Rightarrow> (nat \<times> ledger) attempt" where
  "auto_reconcile_sold_positions stamp E live_token_ids l =
     (if resolve_live_mode_from_env E = LM_off then Inr (0, l)
      else let (open_rows, l') = get_open_bets True l
           in sweep (cancel_one stamp live_token_ids) open_rows 0 l')"

section \<open>One operation changes one row\<close>

definition n_open :: "dict list \<Rightarrow> nat" where
  "n_open bets = length (filter is_open bets)"

lemma n_open_simps [simp]:
  "n_open [] = 0" "n_open (b # bs) = (if is_open b then 1 else 0) + n_open bs"
  "n_open (xs @ ys) = n_open xs + n_open ys"
  by (simp_all add: n_open_def)

text \<open>A contract whose success closes the row.\<close>

locale closing_row_contract = saving_row_contract +
  assumes closes: "target \<noteq> Active"
begin

lemma file_n_open:
  assumes "on_file strict i f l = (r, l')"
  shows "n_open (disk_rows l) = n_open (disk_rows l') + (if succeeded r then 1 else 0)"
  using assms
proof (cases rule: mutate_elim)
  case (unsaved x bets)
  then show ?thesis using on_row_ok_saves [OF unsaved(2)] by auto
next
  case (saved x bets)
  have ok: "mr_ok x" using on_row_saves [OF saved(2)] by simp
  from saved(2) show ?thesis
  proof (cases rule: on_row_elim)
    case (found pre bet post status bet')
    have "is_open bet"
      using closed_refused [of bet] found(4) by auto
    moreover from this have "lifecycle bet' = target" using lands [OF found(4)] by simp
    then have "\<not> is_open bet'" using closes by (auto simp: lifecycle_simps)
    ultimately show ?thesis using found(1,6) saved(3,4) ok by simp
  qed simp
qed simp_all

lemma file_closes:
  assumes "on_file strict i f l = (r, l')"
  shows "list_all2 (\<lambda>c c'. c' = c \<or> matches i c \<and> is_open c \<and> jget c' ''id'' = jget c ''id''
      \<and> lifecycle c' = target) (disk_rows l) (disk_rows l')"
proof (rule on_file_rows [OF assms])
  fix bet s bet'
  assume "matches i bet" and row: "f bet = Inr (s, bet', True)"
  moreover have "is_open bet" using closed_refused [of bet] row by auto
  ultimately show "bet' = bet \<or> matches i bet \<and> is_open bet \<and> jget bet' ''id'' = jget bet ''id''
      \<and> lifecycle bet' = target"
    using keeps_id [OF row] lands [OF row] by simp
qed simp

end

interpretation settle_closes: closing_row_contract "settle_row sha stamp won" "if won then Won else Lost"
  for sha stamp won
  by unfold_locales simp

interpretation cancel_closes: closing_row_contract "cancel_row stamp reason types" Cancelled
  for stamp reason types
  by unfold_locales simp

section \<open>What a pass over the open rows guarantees\<close>

text \<open>The action on a row \<open>b\<close> may close the row of the file with the id of \<open>b\<close>, and only when
  \<open>b\<close> is eligible; it reports whether it did.\<close>

definition same_number :: "dict \<Rightarrow> dict \<Rightarrow> bool" where
  "same_number b c \<longleftrightarrow> (\<exists>i. jget b ''id'' = JInt i \<and> matches i c)"

definition closed_by :: "(lifecycle \<Rightarrow> bool) \<Rightarrow> dict \<Rightarrow> dict \<Rightarrow> bool" where
  "closed_by outcome c c' \<longleftrightarrow>
     is_open c \<and> jget c' ''id'' = jget c ''id'' \<and> outcome (lifecycle c')"

locale closing_sweep =
  fixes act :: row_action and eligible :: "dict \<Rightarrow> bool" and outcome :: "lifecycle \<Rightarrow> bool"
  assumes one_row: "act b l = Inr (ok, l') \<Longrightarrow>
      list_all2 (\<lambda>c c'. c' = c \<or> eligible b \<and> same_number b c \<and> closed_by outcome c c')
        (disk_rows l) (disk_rows l')"
    and reported: "act b l = Inr (ok, l') \<Longrightarrow>
      n_open (disk_rows l) = n_open (disk_rows l') + (if ok then 1 else 0)"
    and outcome_closed: "\<not> outcome Active"
begin

lemma sweep_count:
  "sweep act bs n l = Inr (m, l') \<Longrightarrow> n_open (disk_rows l) + n = n_open (disk_rows l') + m"
  by (induction bs arbitrary: n l) (fastforce simp: sbind_eq_Inr dest: reported)+

lemma sweep_rows:
  "sweep act bs n l = Inr (m, l') \<Longrightarrow>
   list_all2 (\<lambda>c c'. c' = c \<or> (\<exists>b \<in> set bs. eligible b \<and> same_number b c) \<and> closed_by outcome c c')
     (disk_rows l) (disk_rows l')"
proof (induction bs arbitrary: n l)
  case (Cons b bs)
  then obtain ok l1 where step: "act b l = Inr (ok, l1)" "sweep act bs (if ok then n + 1 else n) l1 = Inr (m, l')"
    by (auto simp: sbind_eq_Inr)
  have closed: "\<not> is_open c'" if "closed_by outcome c c'" for c c'
    using that outcome_closed by (auto simp: closed_by_def lifecycle_simps(1) [symmetric])
  show ?case
    by (rule list_all2_trans [OF _ one_row [OF step(1)] Cons.IH [OF step(2)]])
      (auto dest: closed simp: closed_by_def)
qed (auto intro: list_all2_refl)

lemma sweep_only_eligible:
  assumes "sweep act (open_bets_from (disk_rows l)) n l = Inr (m, l')" and "ids_ok (disk_rows l)"
  shows "list_all2 (\<lambda>c c'. c' = c \<or> eligible c \<and> closed_by outcome c c') (disk_rows l) (disk_rows l')"
proof -
  have own: "b = c" if "b \<in> set (disk_rows l)" "c \<in> set (disk_rows l)" "same_number b c" for b c
  proof -
    have "jget b ''id'' = JInt (row_id b)" "jget c ''id'' = JInt (row_id c)"
      using assms(2) that(1,2) by (auto simp: ids_ok_def list_all_iff positive_id_iff)
    then have "row_id b = row_id c" using that(3) matches_JInt by (auto simp: same_number_def)
    then show ?thesis using assms(2) that(1,2) by (auto simp: ids_ok_def distinct_map inj_on_def)
  qed
  have all: "list_all2 (\<lambda>c c'. c' = c
      \<or> (\<exists>b \<in> set (open_bets_from (disk_rows l)). eligible b \<and> same_number b c) \<and> closed_by outcome c c')
      (disk_rows l) (disk_rows l')"
    by (rule sweep_rows [OF assms(1)])
  show ?thesis
    unfolding list_all2_conv_all_nth
  proof (intro conjI allI impI)
    show "length (disk_rows l) = length (disk_rows l')" using all by (rule list_all2_lengthD)
    fix k
    assume k: "k < length (disk_rows l)"
    show "disk_rows l' ! k = disk_rows l ! k
        \<or> eligible (disk_rows l ! k) \<and> closed_by outcome (disk_rows l ! k) (disk_rows l' ! k)"
      using list_all2_nthD [OF all k] own [OF _ nth_mem [OF k]] by (auto simp: open_bets_from_def)
  qed
qed

end

section \<open>The two passes of the code\<close>

lemma unchanged_rows [simp]: "list_all2 (\<lambda>c c'. c' = c \<or> P c c') bets bets"
  by (simp add: list_all2_refl)

lemma settle_one_cases:
  assumes "settle_one sha stamp off market b l = Inr (ok, l')"
  shows "\<not> ok \<and> l' = l \<or> (\<exists>i r won. settleable off b \<and> jget b ''id'' = JInt i
    \<and> on_file True i (settle_row sha stamp won) l = (r, l') \<and> ok = succeeded r)"
  using assms
  by (auto simp: settle_one_def skip_def logged_def int_id_def sbind_eq_Inr settle_bet_def Let_def
      split: if_split_asm sum.split_asm option.split_asm json.split_asm prod.split_asm)

lemma cancel_one_cases:
  assumes "cancel_one stamp live b l = Inr (ok, l')"
  shows "\<not> ok \<and> l' = l \<or> (\<exists>i r. sold_candidate live b = Inr True \<and> jget b ''id'' = JInt i
    \<and> on_file True i (cancel_row stamp (Some ''position_sold'') None) l = (r, l') \<and> ok = succeeded r)"
  using assms
  by (auto simp: cancel_one_def skip_def int_id_def sbind_eq_Inr cancel_bet_def
      split: if_split_asm sum.split_asm json.split_asm prod.split_asm)

interpretation settle_sweep: closing_sweep "settle_one sha stamp off market" "settleable off"
  "\<lambda>s. s \<in> {Won, Lost}" for sha stamp off market
proof unfold_locales
  fix b l ok l'
  assume "settle_one sha stamp off market b l = Inr (ok, l')"
  then consider "\<not> ok" "l' = l"
    | i r won where "settleable off b" "jget b ''id'' = JInt i"
      "on_file True i (settle_row sha stamp won) l = (r, l')" "ok = succeeded r"
    using settle_one_cases by blast
  note cases = this
  show "list_all2 (\<lambda>c c'. c' = c \<or> settleable off b \<and> same_number b c
      \<and> closed_by (\<lambda>s. s \<in> {Won, Lost}) c c') (disk_rows l) (disk_rows l')"
    using cases
  proof cases
    case 2
    show ?thesis
      by (rule list_all2_mono [OF settle_closes.file_closes [OF 2(3)]])
        (use 2 in \<open>auto simp: same_number_def closed_by_def split: if_split_asm\<close>)
  qed simp
  show "n_open (disk_rows l) = n_open (disk_rows l') + (if ok then 1 else 0)"
    using cases by cases (use settle_closes.file_n_open in auto)
qed simp

interpretation cancel_sweep: closing_sweep "cancel_one stamp live"
  "\<lambda>b. sold_candidate live b = Inr True" "\<lambda>s. s = Cancelled" for stamp live
proof unfold_locales
  fix b l ok l'
  assume "cancel_one stamp live b l = Inr (ok, l')"
  then consider "\<not> ok" "l' = l"
    | i r where "sold_candidate live b = Inr True" "jget b ''id'' = JInt i"
      "on_file True i (cancel_row stamp (Some ''position_sold'') None) l = (r, l')" "ok = succeeded r"
    using cancel_one_cases by blast
  note cases = this
  show "list_all2 (\<lambda>c c'. c' = c \<or> sold_candidate live b = Inr True \<and> same_number b c
      \<and> closed_by (\<lambda>s. s = Cancelled) c c') (disk_rows l) (disk_rows l')"
    using cases
  proof cases
    case 2
    show ?thesis
      by (rule list_all2_mono [OF cancel_closes.file_closes [OF 2(3)]])
        (use 2 in \<open>auto simp: same_number_def closed_by_def\<close>)
  qed simp
  show "n_open (disk_rows l) = n_open (disk_rows l') + (if ok then 1 else 0)"
    using cases by cases (use cancel_closes.file_n_open in auto)
qed simp

lemma refreshed_rows:
  "get_open_bets True l = (open_bets_from (disk_rows l), l\<lparr>lg_bets := disk_rows l\<rparr>)"
  by (simp add: get_open_bets_def get_bets_def Let_def disk_rows_def)


text \<open>
  The reconciliation pass never acts while betting is off, closes exactly as many open bets as
  it reports, only by cancelling, and only bets with a token that the wallet no longer holds and
  whose placement is not still unresolved.
\<close>

theorem auto_reconcile_effect:
  assumes "auto_reconcile_sold_positions stamp E live l = Inr (n, l')" and "ids_ok (disk_rows l)"
  shows "(resolve_live_mode_from_env E = LM_off \<longrightarrow> l' = l \<and> n = 0)
    \<and> n_open (disk_rows l) = n_open (disk_rows l') + n
    \<and> list_all2 (\<lambda>c c'. c' = c \<or> sold_candidate live c = Inr True
        \<and> closed_by (\<lambda>s. s = Cancelled) c c') (disk_rows l) (disk_rows l')"
proof (cases "resolve_live_mode_from_env E = LM_off")
  case True
  then have "l' = l \<and> n = 0" using assms(1) by (simp add: auto_reconcile_sold_positions_def)
  then show ?thesis by simp
next
  case False
  define l0 where "l0 = l\<lparr>lg_bets := disk_rows l\<rparr>"
  have rows: "disk_rows l0 = disk_rows l" by (simp add: l0_def)
  have run: "sweep (cancel_one stamp live) (open_bets_from (disk_rows l0)) 0 l0 = Inr (n, l')"
    using assms(1) False by (simp add: auto_reconcile_sold_positions_def refreshed_rows l0_def)
  show ?thesis
    using cancel_sweep.sweep_count [OF run] cancel_sweep.sweep_only_eligible [OF run] assms(2) False
    unfolding rows by simp
qed

text \<open>A paper bet and an unfilled real bet on a market that has been decided.\<close>

definition sweep_row :: "int \<Rightarrow> bool \<Rightarrow> string \<Rightarrow> dict" where
  "sweep_row i paper placement =
     [(''id'', JInt i), (''amount'', JInt 10), (''shares'', JInt 25), (''token_id'', JStr ''t1''),
      (''condition_id'', JStr ''0xc''), (''dry_run'', JBool paper), (''status'', JStr ''open''),
      (''placement_state'', JStr placement)]"

definition sweep_ledger :: ledger where
  "sweep_ledger = open_ledger (Saved [sweep_row 1 True ''dry_run'', sweep_row 2 False ''submitted''])"

definition decided_market :: "string \<Rightarrow> unit + dict option" where
  "decided_market ident =
     (if ident = ''0xc''
      then Inr (Some [(''tokens'', JList [JObj [(''token_id'', JStr ''t1''), (''winner'', JBool True)]])])
      else Inr None)"

definition settled_ledger :: ledger where
  "settled_ledger =
     (case auto_settle_from_polymarket id ''now'' demo_env decided_market sweep_ledger of
        Inr (n, l) \<Rightarrow> l | Inl _ \<Rightarrow> sweep_ledger)"

lemma sweep_ids: "ids_ok (disk_rows sweep_ledger)"
  by code_simp

lemma sweep_settled:
  "auto_settle_from_polymarket id ''now'' demo_env decided_market sweep_ledger = Inr (1, settled_ledger)"
proof -
  have "case auto_settle_from_polymarket id ''now'' demo_env decided_market sweep_ledger of
      Inr (n, l) \<Rightarrow> n = 1 | Inl _ \<Rightarrow> False" by code_simp
  then show ?thesis unfolding settled_ledger_def by (simp split: sum.split_asm prod.split_asm)
qed


definition real_env :: live_env where
  "real_env = demo_env\<lparr>le_environ := (\<lambda>_. Some ''real'')\<rparr>"

definition reconciled_ledger :: ledger where
  "reconciled_ledger =
     (case auto_reconcile_sold_positions ''now'' real_env [] sweep_ledger of
        Inr (n, l) \<Rightarrow> l | Inl _ \<Rightarrow> sweep_ledger)"

lemma sweep_reconciled:
  "auto_reconcile_sold_positions ''now'' real_env [] sweep_ledger = Inr (1, reconciled_ledger)"
proof -
  have "case auto_reconcile_sold_positions ''now'' real_env [] sweep_ledger of
      Inr (n, l) \<Rightarrow> n = 1 | Inl _ \<Rightarrow> False" by code_simp
  then show ?thesis unfolding reconciled_ledger_def by (simp split: sum.split_asm prod.split_asm)
qed

theorem auto_reconcile_effect_witness: "n_open (disk_rows reconciled_ledger) = 1"
proof -
  have "n_open (disk_rows sweep_ledger) = 2" by code_simp
  with auto_reconcile_effect [OF sweep_reconciled sweep_ids] show ?thesis by simp
qed

text \<open>The bet that the pass has closed is the paper bet: the code does not ask whether a bet ever
  had a position on the exchange.\<close>

lemma paper_bet_reconciled:
  "map lifecycle (disk_rows reconciled_ledger) = [Cancelled, Active]
   \<and> truthy (jget (disk_rows sweep_ledger ! 0) ''dry_run'')"
  by code_simp

end
