(* ===== verification/Calendar.thy ===== *)
theory Calendar
  imports Betting_Window
begin

text \<open>
  The part of Python's \<open>datetime\<close> that the schedule relies on: the proleptic Gregorian calendar
  (ordinals, month lengths, the reverse conversion), ISO weeks, and the ISO text of an instant.
  An instant is a number of microseconds since 1970-01-01 UTC; a wall-clock time is the same
  number for the local reading of the clock. The definitions follow CPython's \<open>datetime.py\<close>.
\<close>

section \<open>Days\<close>

definition day_us :: int where
  "day_us = 86400000000"

definition leap :: "int \<Rightarrow> bool" where
  "leap y \<longleftrightarrow> y mod 4 = 0 \<and> (y mod 100 \<noteq> 0 \<or> y mod 400 = 0)"

definition days_before_year :: "int \<Rightarrow> int" where
  "days_before_year y = (let p = y - 1 in p * 365 + p div 4 - p div 100 + p div 400)"

definition month_lengths :: "int \<Rightarrow> int list" where
  "month_lengths y = [31, if leap y then 29 else 28, 31, 30, 31, 30, 31, 31, 30, 31, 30, 31]"

definition days_before_month :: "int \<Rightarrow> int \<Rightarrow> int" where
  "days_before_month y m = sum_list (take (nat m - 1) (month_lengths y))"

definition ymd2ord :: "int \<Rightarrow> int \<Rightarrow> int \<Rightarrow> int" where
  "ymd2ord y m d = days_before_year y + days_before_month y m + d"

text \<open>The month and the day of a day of the year, counted from 0.\<close>

fun month_day :: "int list \<Rightarrow> int \<Rightarrow> int \<Rightarrow> int \<times> int" where
  "month_day [] m n = (m, n + 1)"
| "month_day (len # lens) m n = (if n < len then (m, n + 1) else month_day lens (m + 1) (n - len))"

text \<open>Cycles of 400, 100, 4 and 1 years; the last day of a cycle of 400 or of 4 years would be
  the first day of a year that does not exist.\<close>

definition ord2ymd :: "int \<Rightarrow> int \<times> int \<times> int" where
  "ord2ymd ord =
     (let n = ord - 1; n400 = n div 146097; r400 = n mod 146097;
          n100 = r400 div 36524; r100 = r400 mod 36524;
          n4 = r100 div 1461; r4 = r100 mod 1461;
          n1 = r4 div 365; r1 = r4 mod 365;
          year = n400 * 400 + n100 * 100 + n4 * 4 + n1 + 1
      in if n1 = 4 \<or> n100 = 4 then (year - 1, 12, 31)
         else let (m, d) = month_day (month_lengths year) 1 r1 in (year, m, d))"

definition ordinal_of :: "int \<Rightarrow> int" where
  "ordinal_of t = t div day_us + 719163"

definition isoweekday :: "int \<Rightarrow> int" where
  "isoweekday ord = (ord - 1) mod 7 + 1"

section \<open>ISO weeks\<close>

definition iso_week1_monday :: "int \<Rightarrow> int" where
  "iso_week1_monday y =
     (let firstday = ymd2ord y 1 1; firstweekday = (firstday + 6) mod 7;
          monday = firstday - firstweekday
      in if firstweekday > 3 then monday + 7 else monday)"

text \<open>\<open>date.isocalendar()\<close>: the ISO year, the week and the weekday of an ordinal.\<close>

definition isocalendar :: "int \<Rightarrow> int \<times> int \<times> int" where
  "isocalendar ord =
     (let y = fst (ord2ymd ord); week = (ord - iso_week1_monday y) div 7
      in if week < 0
         then (let m = iso_week1_monday (y - 1)
               in (y - 1, (ord - m) div 7 + 1, (ord - m) mod 7 + 1))
         else if 52 \<le> week \<and> iso_week1_monday (y + 1) \<le> ord
         then (y + 1, 1, (ord - iso_week1_monday y) mod 7 + 1)
         else (y, week + 1, (ord - iso_week1_monday y) mod 7 + 1))"

definition long_iso_year :: "int \<Rightarrow> bool" where
  "long_iso_year y \<longleftrightarrow>
     (let w = ymd2ord y 1 1 mod 7 in w = 4 \<or> w = 3 \<and> leap y)"

text \<open>\<open>date.fromisocalendar\<close>; \<open>None\<close> is \<open>ValueError\<close>.\<close>

definition fromisocalendar :: "int \<Rightarrow> int \<Rightarrow> int \<Rightarrow> int option" where
  "fromisocalendar y w d =
     (if \<not> (1 \<le> y \<and> y \<le> 9999) then None
      else if \<not> (0 < w \<and> w < 53 \<or> w = 53 \<and> long_iso_year y) then None
      else if \<not> (1 \<le> d \<and> d \<le> 7) then None
      else Some (iso_week1_monday y + (w - 1) * 7 + (d - 1)))"

section \<open>Text\<close>

definition padded :: "nat \<Rightarrow> int \<Rightarrow> string" where
  "padded n i = (let ds = nat_digits (nat i) in replicate (n - length ds) (CHR ''0'') @ ds)"

text \<open>The digits are computed on integers, since the evaluator counts natural numbers in unary.\<close>

function pos_digits :: "int \<Rightarrow> string" where
  "pos_digits i =
     (if i < 10 then [digit_char (nat i)] else pos_digits (i div 10) @ [digit_char (nat (i mod 10))])"
  by auto
termination by (relation "measure nat") auto

declare pos_digits.simps [simp del]

lemma pos_digits: "0 \<le> i \<Longrightarrow> pos_digits i = nat_digits (nat i)"
proof (induction i rule: pos_digits.induct)
  case (1 i)
  then show ?case
    by (subst pos_digits.simps, subst nat_digits.simps) (auto simp: nat_div_distrib nat_mod_distrib)
qed

lemma padded_code [code]:
  "padded n i = (let ds = pos_digits (if i < 0 then 0 else i) in replicate (n - length ds) (CHR ''0'') @ ds)"
  by (simp add: padded_def pos_digits)

definition date_text :: "int \<Rightarrow> string" where
  "date_text ord =
     (let (y, m, d) = ord2ymd ord in padded 4 y @ ''-'' @ padded 2 m @ ''-'' @ padded 2 d)"

definition clock_text :: "int \<Rightarrow> string" where
  "clock_text us =
     (let s = us div 1000000; f = us mod 1000000
      in padded 2 (s div 3600) @ '':'' @ padded 2 (s div 60 mod 60) @ '':'' @ padded 2 (s mod 60)
         @ (if f = 0 then [] else ''.'' @ padded 6 f))"

definition wall_text :: "int \<Rightarrow> string" where
  "wall_text t = date_text (ordinal_of t) @ ''T'' @ clock_text (t mod day_us)"

text \<open>\<open>isoformat()\<close> of an aware UTC time, and the UTC month \<open>strftime("%Y-%m")\<close>.\<close>

definition utc_iso :: "instant \<Rightarrow> string" where
  "utc_iso t = wall_text t @ ''+00:00''"

definition utc_month_identity :: "instant \<Rightarrow> string" where
  "utc_month_identity t =
     (let (y, m, d) = ord2ymd (ordinal_of t) in padded 4 y @ ''-'' @ padded 2 m)"

section \<open>The conversions agree\<close>

lemma sum_month_lengths: "sum_list (month_lengths y) = (if leap y then 366 else 365)"
  by (simp add: month_lengths_def)

lemma div_pred:
  fixes y k :: int
  assumes "0 < k"
  shows "y div k = (y - 1) div k + (if k dvd y then 1 else 0)"
proof (cases "k dvd y")
  case True
  then obtain q where q: "y = k * q" by blast
  have "(y - 1) div k = q - 1"
    by (rule int_div_pos_eq [of _ _ _ "k - 1"]) (use assms q in \<open>simp_all add: algebra_simps\<close>)
  then show ?thesis using True q assms by simp
next
  case False
  define q r where "q = y div k" and "r = y mod k"
  have r: "y = k * q + r" "0 \<le> r" "r < k" using assms by (simp_all add: q_def r_def)
  have "r \<noteq> 0" using False r_def by (simp add: dvd_eq_mod_eq_0)
  have "(y - 1) div k = q"
    by (rule int_div_pos_eq [of _ _ _ "r - 1"]) (use r \<open>r \<noteq> 0\<close> in simp_all)
  then show ?thesis using False q_def by simp
qed

lemma leap_dvd: "leap y \<longleftrightarrow> 4 dvd y \<and> (\<not> 100 dvd y \<or> 400 dvd y)"
  by (simp add: leap_def dvd_eq_mod_eq_0)

lemma days_before_year_Suc: "days_before_year (y + 1) = days_before_year y + (if leap y then 366 else 365)"
proof -
  define A B C where "A = (y - 1) div 4" and "B = (y - 1) div 100" and "C = (y - 1) div 400"
  define p q r where "p \<longleftrightarrow> (4 :: int) dvd y" and "q \<longleftrightarrow> (100 :: int) dvd y" and "r \<longleftrightarrow> (400 :: int) dvd y"
  have "(100 :: int) dvd y" if "400 dvd y" using that by (rule dvd_trans [rotated]) simp
  moreover have "(4 :: int) dvd y" if "100 dvd y" using that by (rule dvd_trans [rotated]) simp
  ultimately have nested: "r \<longrightarrow> q" "q \<longrightarrow> p" unfolding p_def q_def r_def by blast+
  have "y div 4 = A + (if p then 1 else 0)" "y div 100 = B + (if q then 1 else 0)"
    "y div 400 = C + (if r then 1 else 0)"
    unfolding A_def B_def C_def p_def q_def r_def by (rule div_pred; simp)+
  then have after: "days_before_year (y + 1) = y * 365 + (A + (if p then 1 else 0))
      - (B + (if q then 1 else 0)) + (C + (if r then 1 else 0))"
    unfolding days_before_year_def Let_def add_diff_cancel_right' by (simp only:)
  have before: "days_before_year y = (y - 1) * 365 + A - B + C"
    unfolding days_before_year_def Let_def A_def B_def C_def by (rule refl)
  have "leap y \<longleftrightarrow> p \<and> (\<not> q \<or> r)" by (simp only: leap_dvd p_def q_def r_def)
  then show ?thesis unfolding after before using nested by (cases p; cases q; cases r) simp_all
qed

lemma days_before_year_cycles:
  assumes "0 \<le> b" "b \<le> 3" "0 \<le> c" "c \<le> 24" "0 \<le> d" "d \<le> 3"
  shows "days_before_year (a * 400 + b * 100 + c * 4 + d + 1)
    = a * 146097 + b * 36524 + c * 1461 + d * 365"
proof -
  define p where "p = a * 400 + b * 100 + c * 4 + d"
  have "p div 4 = a * 100 + b * 25 + c"
    by (rule int_div_pos_eq [of _ _ _ d]) (use assms in \<open>simp_all add: p_def\<close>)
  moreover have "p div 100 = a * 4 + b"
    by (rule int_div_pos_eq [of _ _ _ "c * 4 + d"]) (use assms in \<open>simp_all add: p_def\<close>)
  moreover have "p div 400 = a"
    by (rule int_div_pos_eq [of _ _ _ "b * 100 + c * 4 + d"]) (use assms in \<open>simp_all add: p_def\<close>)
  moreover have "days_before_year (p + 1) = p * 365 + p div 4 - p div 100 + p div 400"
    by (simp add: days_before_year_def)
  ultimately show ?thesis by (simp add: p_def)
qed

lemma leap_cycles:
  assumes "0 \<le> b" "b \<le> 3" "0 \<le> c" "c \<le> 24" "0 \<le> d" "d \<le> 3"
  shows "leap (a * 400 + b * 100 + c * 4 + d + 1) \<longleftrightarrow> d = 3 \<and> (c \<noteq> 24 \<or> b = 3)"
proof -
  define y where "y = a * 400 + b * 100 + c * 4 + d + 1"
  have shift: "m dvd m * x + z \<longleftrightarrow> z = m" if "1 \<le> z" "z \<le> m" for m x z :: int
    using that zdvd_imp_le [of m z] by (auto simp: dvd_add_right_iff)
  have y4: "y = 4 * (a * 100 + b * 25 + c) + (d + 1)" by (simp add: y_def)
  have four: "4 dvd y \<longleftrightarrow> d = 3"
    unfolding y4 using shift [of "d + 1" 4 "a * 100 + b * 25 + c"] assms(5,6) by linarith
  show ?thesis
  proof (cases "d = 3")
    case True
    define k where "k = 25 * (4 * a + b) + (c + 1)"
    have k: "y = 4 * k" using True by (simp add: y_def k_def)
    have "100 dvd y \<longleftrightarrow> 25 dvd k"
      unfolding k using dvd_times_left_cancel_iff [of 4 25 k] by simp
    also have "\<dots> \<longleftrightarrow> c = 24"
      unfolding k_def using shift [of "c + 1" 25 "4 * a + b"] assms(3,4) by linarith
    finally have hundred: "100 dvd y \<longleftrightarrow> c = 24" .
    have "400 dvd y \<longleftrightarrow> b = 3" if "c = 24"
    proof -
      have "y = 100 * (4 * a + b + 1)" using that True by (simp add: y_def)
      then have "400 dvd y \<longleftrightarrow> 4 dvd (4 * a + b + 1)"
        using dvd_times_left_cancel_iff [of 100 4 "4 * a + b + 1"] by simp
      also have "\<dots> \<longleftrightarrow> b = 3" using shift [of "b + 1" 4 a] assms(1,2) by (simp add: add.assoc)
      finally show ?thesis .
    qed
    then have "leap y \<longleftrightarrow> c \<noteq> 24 \<or> b = 3"
      using four hundred True unfolding leap_dvd by blast
    then show ?thesis using True unfolding y_def by simp
  next
    case False
    then have "\<not> leap y" using four unfolding leap_dvd by blast
    then show ?thesis using False unfolding y_def by simp
  qed
qed

lemma month_day_sum:
  assumes "0 \<le> n" "n < sum_list lens" "list_all (\<lambda>x. 0 < x) lens" "month_day lens m n = (m', d)"
  shows "m \<le> m' \<and> m' < m + int (length lens) \<and> 1 \<le> d
    \<and> sum_list (take (nat (m' - m)) lens) + d = n + 1"
  using assms
proof (induction lens arbitrary: m n)
  case (Cons len lens)
  show ?case
  proof (cases "n < len")
    case True
    then show ?thesis using Cons.prems by auto
  next
    case False
    then have rest: "m + 1 \<le> m' \<and> m' < m + 1 + int (length lens) \<and> 1 \<le> d
        \<and> sum_list (take (nat (m' - (m + 1))) lens) + d = n - len + 1"
      using Cons.prems by (intro Cons.IH) auto
    then have "nat (m' - m) = Suc (nat (m' - (m + 1)))" by linarith
    then show ?thesis using rest by auto
  qed
qed simp

lemma month_lengths_pos: "list_all (\<lambda>x. 0 < x) (month_lengths y)"
  by (simp add: month_lengths_def)

text \<open>The year, month and day of an ordinal lead back to it.\<close>

lemma ord2ymd_inverse:
  assumes "ord2ymd n = (y, m, d)"
  shows "ymd2ord y m d = n \<and> 1 \<le> m \<and> m \<le> 12 \<and> 1 \<le> d
    \<and> days_before_year y < n \<and> n \<le> days_before_year (y + 1)"
proof -
  define n400 r400 where "n400 = (n - 1) div 146097" and "r400 = (n - 1) mod 146097"
  define n100 r100 where "n100 = r400 div 36524" and "r100 = r400 mod 36524"
  define n4 r4 where "n4 = r100 div 1461" and "r4 = r100 mod 1461"
  define n1 r1 where "n1 = r4 div 365" and "r1 = r4 mod 365"
  define year where "year = n400 * 400 + n100 * 100 + n4 * 4 + n1 + 1"
  note defs = n400_def r400_def n100_def r100_def n4_def r4_def n1_def r1_def
  have steps: "n - 1 = n400 * 146097 + r400" "0 \<le> r400" "r400 < 146097"
    "r400 = n100 * 36524 + r100" "0 \<le> r100" "r100 < 36524"
    "r100 = n4 * 1461 + r4" "0 \<le> r4" "r4 < 1461" "r4 = n1 * 365 + r1" "0 \<le> r1" "r1 < 365"
    by (simp_all add: defs)
  have n: "n - 1 = n400 * 146097 + n100 * 36524 + n4 * 1461 + n1 * 365 + r1"
    using steps by linarith
  have low: "0 \<le> n100" "0 \<le> n4" "0 \<le> n1"
    using steps(2,5,8) by (simp_all only: n100_def n4_def n1_def pos_imp_zdiv_nonneg_iff zero_less_numeral)
  have high: "n100 \<le> 4" "n4 \<le> 24" "n1 \<le> 4" using steps low by linarith+
  have last: "n100 = 4 \<longrightarrow> n4 = 0 \<and> n1 = 0 \<and> r1 = 0" "n1 = 4 \<longrightarrow> r1 = 0"
  proof -
    show "n100 = 4 \<longrightarrow> n4 = 0 \<and> n1 = 0 \<and> r1 = 0"
    proof
      assume "n100 = 4"
      then have "r100 \<le> 0" using steps(3,4) by linarith
      then have "n4 = 0" "r4 = 0" using steps(5,7,8) low(2) by linarith+
      moreover from this have "n1 = 0" "r1 = 0" using steps(10,11) low(3) by linarith+
      ultimately show "n4 = 0 \<and> n1 = 0 \<and> r1 = 0" by blast
    qed
    show "n1 = 4 \<longrightarrow> r1 = 0"
      using steps(9-11) by linarith
  qed
  note bounds = low(1) high(1) low(2) high(2) low(3) high(3) steps(11,12) last
  show ?thesis
  proof (cases "n1 = 4 \<or> n100 = 4")
    case True
    then have y: "y = year - 1" "m = 12" "d = 31"
      using assms unfolding ord2ymd_def Let_def defs year_def by auto
    have before: "days_before_month (year - 1) 12 = (if leap (year - 1) then 335 else 334)"
      by (simp add: days_before_month_def month_lengths_def numeral_eq_Suc)
    have "days_before_year (year - 1) + 366 = n \<and> leap (year - 1)"
    proof (cases "n100 = 4")
      case True
      then have "year - 1 = n400 * 400 + 3 * 100 + 24 * 4 + 3 + 1" "n = n400 * 146097 + 4 * 36524 + 1"
        using bounds(9) n by (simp_all add: year_def)
      then show ?thesis
        using days_before_year_cycles [of 3 24 3 n400] leap_cycles [of 3 24 3 n400] by simp
    next
      case False
      then have four: "n1 = 4" "r1 = 0" "n100 \<le> 3" using True bounds by auto
      have "n4 \<noteq> 24 \<or> n100 = 3"
      proof (rule ccontr)
        assume "\<not> (n4 \<noteq> 24 \<or> n100 = 3)"
        then show False using four steps by linarith
      qed
      moreover have "year - 1 = n400 * 400 + n100 * 100 + n4 * 4 + 3 + 1"
        "n = n400 * 146097 + n100 * 36524 + n4 * 1461 + 4 * 365 + 1"
        using four n by (simp_all add: year_def)
      ultimately show ?thesis
        using days_before_year_cycles [of n100 n4 3 n400] leap_cycles [of n100 n4 3 n400] four bounds
        by auto
    qed
    then show ?thesis using before by (simp add: ymd2ord_def y days_before_year_Suc [of "year - 1", simplified])
  next
    case False
    then have small: "n100 \<le> 3" "n1 \<le> 3" using bounds by auto
    have md: "month_day (month_lengths year) 1 r1 = (m, d)" and y: "y = year"
      using assms False unfolding ord2ymd_def Let_def defs year_def by (auto split: prod.split_asm)
    have "r1 < sum_list (month_lengths year)" using bounds by (simp add: sum_month_lengths)
    from month_day_sum [OF bounds(7) this month_lengths_pos md]
    have "1 \<le> m" "m \<le> 12" "1 \<le> d" "sum_list (take (nat (m - 1)) (month_lengths year)) + d = r1 + 1"
      by (simp_all add: month_lengths_def)
    moreover have "nat (m - 1) = nat m - 1" by linarith
    moreover have "days_before_year year = n - 1 - r1"
      using days_before_year_cycles [of n100 n4 n1 n400] bounds small n by (simp add: year_def)
    ultimately show ?thesis
      using bounds by (simp add: ymd2ord_def days_before_month_def y days_before_year_Suc)
  qed
qed

text \<open>The first Monday of the ISO year, and the length of an ISO year in weeks.\<close>

lemma new_year: "ymd2ord y 1 1 = days_before_year y + 1"
  by (simp add: ymd2ord_def days_before_month_def)

lemma week1_near: "\<bar>iso_week1_monday y - (days_before_year y + 1)\<bar> \<le> 3"
proof -
  define f where "f = (days_before_year y + 1 + 6) mod 7"
  have f: "0 \<le> f" "f < 7" by (simp_all add: f_def)
  then show ?thesis
    unfolding iso_week1_monday_def Let_def new_year f_def [symmetric] by (simp split: if_split)
qed

lemma week1_monday: "iso_week1_monday y mod 7 = 1"
proof -
  define F where "F = days_before_year y + 1"
  have "(F - (F + 6) mod 7) mod 7 = 1" "(F - (F + 6) mod 7 + 7) mod 7 = 1" by presburger+
  then show ?thesis
    unfolding iso_week1_monday_def Let_def new_year F_def [symmetric] by simp
qed

lemma week1_next:
  "iso_week1_monday (y + 1) = iso_week1_monday y + (if long_iso_year y then 371 else 364)"
proof -
  define F where "F = days_before_year y + 1"
  define f where "f = F mod 7"
  define k where "k = F div 7"
  have F: "F = 7 * k + f" "0 \<le> f" "f < 7" by (simp_all add: f_def k_def)
  have next_year: "days_before_year (y + 1) + 1 = F + (if leap y then 366 else 365)"
    by (simp add: F_def days_before_year_Suc)
  have week: "(7 * j + r) mod 7 = r" if "0 \<le> r" "r < 7" for j r :: int
    using that by simp
  have first: "iso_week1_monday y = (if f = 0 then 7 * k + 1 else if f \<le> 4 then 7 * k + 1 else 7 * k + 8)"
  proof -
    have "(F + 6) mod 7 = (if f = 0 then 6 else f - 1)"
      using F week [of 6 k] week [of "f - 1" "k + 1"] by (simp add: algebra_simps)
    then show ?thesis
      using F unfolding iso_week1_monday_def Let_def new_year F_def [symmetric] by (simp split: if_split)
  qed
  have second: "iso_week1_monday (y + 1)
      = F + (if leap y then 366 else 365) - (F + (if leap y then 366 else 365) + 6) mod 7
        + (if 3 < (F + (if leap y then 366 else 365) + 6) mod 7 then 7 else 0)"
    unfolding iso_week1_monday_def Let_def new_year next_year by simp
  have long: "long_iso_year y \<longleftrightarrow> f = 4 \<or> f = 3 \<and> leap y"
    by (simp add: long_iso_year_def Let_def new_year F_def f_def)
  have cases: "f = 0 \<or> f = 1 \<or> f = 2 \<or> f = 3 \<or> f = 4 \<or> f = 5 \<or> f = 6" using F by linarith
  show ?thesis
  proof (cases "leap y")
    case True
    have "(F + 366 + 6) mod 7 = (f + 1) mod 7"
      using F(1) week [of "(f + 1) mod 7" "k + 53 + (f + 1) div 7"] by (simp add: algebra_simps)
    then show ?thesis using cases True F(1) unfolding first second long by auto
  next
    case False
    have "(F + 365 + 6) mod 7 = f mod 7"
      using F(1) week [of f "k + 53"] F(2,3) by (simp add: algebra_simps)
    then show ?thesis using cases False F(1) unfolding first second long by auto
  qed
qed

lemma long_gap: "52 * 7 \<le> iso_week1_monday (y + 1) - iso_week1_monday y"
  "iso_week1_monday (y + 1) - iso_week1_monday y = (if long_iso_year y then 53 * 7 else 52 * 7)"
  by (simp_all add: week1_next)

text \<open>The week and the weekday of \<open>isocalendar\<close> locate the day inside the ISO year.\<close>

lemma isocalendar_spec:
  assumes "isocalendar n = (y, w, d)"
  shows "n = iso_week1_monday y + (w - 1) * 7 + (d - 1) \<and> 1 \<le> w \<and> 1 \<le> d \<and> d \<le> 7
    \<and> (w < 53 \<or> w = 53 \<and> long_iso_year y)"
proof -
  define c where "c = fst (ord2ymd n)"
  obtain m e where civil: "ord2ymd n = (c, m, e)" by (cases "ord2ymd n") (simp add: c_def)
  define M where "M = iso_week1_monday c"
  define M0 where "M0 = iso_week1_monday (c - 1)"
  define M1 where "M1 = iso_week1_monday (c + 1)"
  have range: "days_before_year c < n" "n \<le> days_before_year (c + 1)"
    using ord2ymd_inverse [OF civil] by auto
  have near: "\<bar>M - (days_before_year c + 1)\<bar> \<le> 3" "\<bar>M1 - (days_before_year (c + 1) + 1)\<bar> \<le> 3"
    unfolding M_def M1_def by (rule week1_near)+
  have gaps: "M - M0 = (if long_iso_year (c - 1) then 53 * 7 else 52 * 7)"
    "M1 - M = (if long_iso_year c then 53 * 7 else 52 * 7)"
    unfolding M_def M0_def M1_def using long_gap(2) [of "c - 1"] long_gap(2) [of c] by simp_all
  define q r where "q = (n - M) div 7" and "r = (n - M) mod 7"
  have qr: "n - M = q * 7 + r" "0 \<le> r" "r < 7" by (simp_all add: q_def r_def)
  define q0 r0 where "q0 = (n - M0) div 7" and "r0 = (n - M0) mod 7"
  have qr0: "n - M0 = q0 * 7 + r0" "0 \<le> r0" "r0 < 7" by (simp_all add: q0_def r0_def)
  have iso: "isocalendar n = (if q < 0 then (c - 1, q0 + 1, r0 + 1)
      else if 52 \<le> q \<and> M1 \<le> n then (c + 1, 1, r + 1) else (c, q + 1, r + 1))"
    unfolding isocalendar_def Let_def c_def [symmetric] M_def [symmetric] M0_def [symmetric]
      M1_def [symmetric] q_def r_def q0_def r0_def by (rule refl)
  consider (before) "q < 0" | (after) "0 \<le> q" "52 \<le> q" "M1 \<le> n" | (inside) "0 \<le> q" "\<not> (52 \<le> q \<and> M1 \<le> n)"
    by linarith
  then show ?thesis
  proof cases
    case before
    then have out: "y = c - 1" "w = q0 + 1" "d = r0 + 1" using assms iso by auto
    have "n < M" using before qr by linarith
    moreover have "M - 3 \<le> n" using near(1) range by linarith
    ultimately have "51 \<le> q0" "q0 < (if long_iso_year (c - 1) then 53 else 52)"
      using qr0 gaps(1) by (auto split: if_split_asm)
    then show ?thesis using qr0 out M0_def by (auto split: if_split_asm)
  next
    case after
    then have out: "y = c + 1" "w = 1" "d = r + 1" using assms iso by auto
    have "n \<le> M1 + 3" using near(2) range by linarith
    then have "n - M1 = (q - (if long_iso_year c then 53 else 52)) * 7 + r"
      "q = (if long_iso_year c then 53 else 52)"
      using qr gaps(2) after by (auto split: if_split_asm)
    then have "n = M1 + r" by simp
    then show ?thesis using out M1_def qr by simp
  next
    case inside
    then have out: "y = c" "w = q + 1" "d = r + 1" using assms iso by auto
    have "n \<le> M1 + 3" using near(2) range by linarith
    then have "q \<le> 53" using qr gaps(2) by (auto split: if_split_asm)
    have "q < 52 \<or> n < M1" using inside by linarith
    then have "q < 52 \<or> q = 52 \<and> long_iso_year c"
      using qr gaps(2) by (auto split: if_split_asm)
    then show ?thesis using out qr M_def inside by auto
  qed
qed

lemma fromisocalendar_inverse:
  assumes "isocalendar n = (y, w, d)" and "1 \<le> y" "y \<le> 9999" and "1 \<le> d'" "d' \<le> 7"
  shows "fromisocalendar y w d' = Some (n - (d - 1) + (d' - 1))"
  using isocalendar_spec [OF assms(1)] assms(2-5) by (auto simp: fromisocalendar_def)

text \<open>The weekday of \<open>isocalendar\<close> is \<open>isoweekday\<close>.\<close>

lemma isocalendar_weekday:
  assumes "isocalendar n = (y, w, d)"
  shows "d = isoweekday n"
proof -
  have n: "n = iso_week1_monday y + (w - 1) * 7 + (d - 1)" "1 \<le> d" "d \<le> 7"
    using isocalendar_spec [OF assms] by auto
  obtain k where k: "iso_week1_monday y = 7 * k + 1"
    using week1_monday [of y] by (metis mult_div_mod_eq)
  have "n - 1 = (d - 1) + 7 * (k + w - 1)" using n(1) k by simp
  then have "(n - 1) mod 7 = (d - 1) mod 7" by (simp only: mod_mult_self2)
  then show ?thesis using n(2,3) by (simp add: isoweekday_def)
qed

section \<open>Week and month identities as text\<close>

definition week_text :: "int \<Rightarrow> int \<Rightarrow> string" where
  "week_text y w = padded 4 y @ ''-W'' @ padded 2 w"

text \<open>\<open>_ISO_WEEK_RE.fullmatch\<close> and \<open>_UTC_MONTH_RE.fullmatch\<close>: the digits of the two groups.\<close>

definition digit_pair :: "string \<Rightarrow> string \<Rightarrow> (int \<times> int) option" where
  "digit_pair sep t =
     (let n = 4 + length sep
      in if length t = n + 2 \<and> list_all is_digit (take 4 t) \<and> take (length sep) (drop 4 t) = sep
            \<and> list_all is_digit (drop n t)
         then Some (int (nat_of_digits (take 4 t)), int (nat_of_digits (drop n t))) else None)"

lemma padded_length:
  assumes "0 \<le> i" "i < 10 ^ n" "0 < n"
  shows "length (padded n i) = n"
proof -
  have small: "nat i < 10 ^ n" using assms by (simp add: nat_less_iff)
  have "length (nat_digits m) \<le> k" if "m < 10 ^ k" "0 < k" for m k
    using that
  proof (induction m arbitrary: k rule: nat_digits.induct)
    case (1 m)
    show ?case
    proof (cases "m < 10")
      case True
      then show ?thesis using 1 by (subst nat_digits.simps) simp
    next
      case False
      then obtain j where j: "k = Suc j" "0 < j" using 1 by (cases k; cases "k - 1") auto
      then have "length (nat_digits (m div 10)) \<le> j" using 1 False by auto
      then show ?thesis using False j by (subst nat_digits.simps) simp
    qed
  qed
  from this [OF small assms(3)] show ?thesis by (simp add: padded_def Let_def)
qed

lemma padded_digits: "list_all is_digit (padded n i)"
proof -
  have "is_digit (CHR ''0'')" by (simp add: is_digit_def)
  then have "list_all is_digit (replicate k (CHR ''0''))" for k by (simp add: list_all_iff)
  then show ?thesis by (simp add: padded_def Let_def)
qed

lemma nat_of_padded: "0 \<le> i \<Longrightarrow> int (nat_of_digits (padded n i)) = i"
  by (simp add: padded_def Let_def)

lemma digit_pair_text:
  assumes "0 \<le> y" "y < 10 ^ 4" "0 \<le> w" "w < 10 ^ 2"
  shows "digit_pair sep (padded 4 y @ sep @ padded 2 w) = Some (y, w)"
  using padded_length [of y 4] padded_length [of w 2] assms padded_digits [of 4 y] padded_digits [of 2 w]
  by (simp add: digit_pair_def Let_def nat_of_padded)

lemma py_strip_digits:
  assumes "list_all is_digit a" "a \<noteq> []" "list_all is_digit b" "b \<noteq> []"
  shows "py_strip (a @ s @ b) = a @ s @ b"
proof -
  have plain: "\<not> py_space c" if "is_digit c" for c
    using that by (auto simp: is_digit_def py_space_def Let_def)
  have "dropWhile py_space (a @ s @ b) = a @ s @ b"
    using assms(1,2) plain by (cases a) auto
  moreover have "dropWhile py_space (rev b @ rev s @ rev a) = rev b @ rev s @ rev a"
    using assms(3,4) plain by (cases "rev b") (auto simp: list_all_iff)
  ultimately show ?thesis by (simp add: py_strip_def)
qed

text \<open>Days of the supported range have a year of four digits.\<close>

definition in_range :: "int \<Rightarrow> bool" where
  "in_range t \<longleftrightarrow> (let y = fst (isocalendar (ordinal_of t)) in 1 \<le> y \<and> y \<le> 9999)"

end
