(* ===== verification/Schedule.thy ===== *)
theory Schedule
  imports Calendar Py_Text
begin

text \<open>
  \<^verbatim>\<open>src/data/ufc_update_schedule.py\<close>: the durable calendar of the weekly data update. The state is
  the JSON object in the state file; every operation reads it under the lock and writes it before
  the work begins. A due slot is claimed, a claim is completed, fenced or - when its lease has
  expired - failed. \<open>Schedule_Monthly\<close> adds the monthly candidate.

  The time zone database, \<open>datetime.fromisoformat\<close> and the factory of claim ids are arguments
  (fields of the schedule object). A time that the code holds as an aware local \<open>datetime\<close> is the
  pair of its wall clock and its instant: the code compares the wall clocks and stores the
  instants as UTC text.
\<close>

section \<open>The schedule object and its state\<close>

datatype sched_error =
    State_error string
  | Transition_error string
  | Value_error string
  | Attribute_error

type_synonym 'a sched_result = "sched_error + 'a"

record local_time =
  lt_wall :: int
  lt_utc :: instant

record schedule =
  sd_fromiso :: "string \<Rightarrow> parsed_time option"
  sd_utcoffset :: "instant \<Rightarrow> int"
  sd_wall_offset :: "int \<Rightarrow> int"
  sd_timezone :: string
  sd_promotion_month :: string
  sd_policy :: "(json \<times> string) option"
  sd_stale_after :: int

abbreviation "TUESDAY \<equiv> ''tuesday''"
abbreviation "WEDNESDAY \<equiv> ''wednesday''"
abbreviation "CLAIMED \<equiv> ''claimed''"
abbreviation "SUCCEEDED \<equiv> ''succeeded''"
abbreviation "FAILED \<equiv> ''failed''"
abbreviation "ACTION_NONE \<equiv> ''none''"
abbreviation "ACTION_DATA_UPDATE \<equiv> ''data_update''"
abbreviation "ACTION_MONTHLY_CANDIDATE \<equiv> ''monthly_candidate''"

definition SLOTS :: "string list" where
  "SLOTS = [TUESDAY, WEDNESDAY]"

definition ATTEMPT_STATUSES :: "string list" where
  "ATTEMPT_STATUSES = [CLAIMED, SUCCEEDED, FAILED]"

definition TUESDAY_ISO_WEEKDAY :: int where "TUESDAY_ISO_WEEKDAY = 2"
definition WEDNESDAY_ISO_WEEKDAY :: int where "WEDNESDAY_ISO_WEEKDAY = 3"
definition SCHEDULE_LOCAL_HOUR :: int where "SCHEDULE_LOCAL_HOUR = 11"
definition SCHEDULE_LOCAL_MINUTE :: int where "SCHEDULE_LOCAL_MINUTE = 0"

text \<open>The state file: missing, not readable as JSON, or a JSON value.\<close>

datatype state_file = Missing | Unreadable | Stored json

definition new_state :: dict where
  "new_state =
     [(''schema_version'', JInt 1), (''updated_at_utc'', JNull), (''weekly'', JObj []),
      (''monthly_candidates'', JObj [])]"

definition load_state :: "state_file \<Rightarrow> dict sched_result" where
  "load_state f =
     (case f of
        Missing \<Rightarrow> Inr new_state
      | Unreadable \<Rightarrow> Inl (State_error ''Could not load UFC update schedule state'')
      | Stored (JObj payload) \<Rightarrow>
          if \<not> py_eq (jget payload ''schema_version'') (JInt 1)
          then Inl (State_error ''Unsupported UFC update schedule state schema_version'')
          else if \<not> is_obj (jget payload ''weekly'') \<or> \<not> is_obj (jget payload ''monthly_candidates'')
          then Inl (State_error ''UFC update schedule state field must be an object'')
          else Inr payload
      | Stored _ \<Rightarrow> Inl (State_error ''UFC update schedule state must be a JSON object''))"

definition stamped :: "instant \<Rightarrow> dict \<Rightarrow> dict" where
  "stamped now state = jset ''updated_at_utc'' (JStr (utc_iso now)) state"

text \<open>A transition under the lock: it fails, answers without writing, or writes the new state.\<close>

type_synonym 'r transition = "dict \<Rightarrow> ('r \<times> dict option) sched_result"

definition with_state :: "instant \<Rightarrow> 'r transition \<Rightarrow> state_file \<Rightarrow> 'r sched_result \<times> state_file" where
  "with_state now tr f =
     (case sbind (load_state f) tr of
        Inl e \<Rightarrow> (Inl e, f)
      | Inr (r, None) \<Rightarrow> (Inr r, f)
      | Inr (r, Some state) \<Rightarrow> (Inr r, Stored (JObj (stamped now state))))"

section \<open>Times\<close>

text \<open>\<open>text.replace("Z", "+00:00")\<close>\<close>

definition utc_suffix :: "string \<Rightarrow> string" where
  "utc_suffix s = concat (map (\<lambda>c. if c = CHR ''Z'' then ''+00:00'' else [c]) s)"

definition parse_utc_iso :: "schedule \<Rightarrow> string \<Rightarrow> json \<Rightarrow> instant sched_result" where
  "parse_utc_iso S field value =
     (let text = py_strip (text_of value)
      in if text = [] then Inl (State_error (field @ '' is missing''))
         else case sd_fromiso S (utc_suffix text) of
                None \<Rightarrow> Inl (State_error (field @ '' is not an ISO datetime''))
              | Some (Naive _) \<Rightarrow>
                  Inl (State_error (field @ '' must be a timezone-aware datetime''))
              | Some (Aware t) \<Rightarrow> Inr t)"

definition local_of :: "schedule \<Rightarrow> instant \<Rightarrow> local_time" where
  "local_of S t = \<lparr>lt_wall = t + sd_utcoffset S t, lt_utc = t\<rparr>"

definition at_wall :: "schedule \<Rightarrow> int \<Rightarrow> local_time" where
  "at_wall S w = \<lparr>lt_wall = w, lt_utc = w - sd_wall_offset S w\<rparr>"

definition iso_week_identity :: "schedule \<Rightarrow> instant \<Rightarrow> string" where
  "iso_week_identity S t =
     (let (y, w, d) = isocalendar (ordinal_of (lt_wall (local_of S t))) in week_text y w)"

definition parse_iso_week :: "string \<Rightarrow> (int \<times> int) sched_result" where
  "parse_iso_week value =
     (case digit_pair ''-W'' (py_strip value) of
        None \<Rightarrow> Inl (Value_error ''Invalid ISO-week identity'')
      | Some (y, w) \<Rightarrow>
          if fromisocalendar y w 1 = None then Inl (Value_error ''Invalid ISO-week identity'')
          else Inr (y, w))"

text \<open>A blank month is \<open>None\<close> where it is allowed.\<close>

definition parse_utc_month :: "bool \<Rightarrow> string \<Rightarrow> (int \<times> int) option sched_result" where
  "parse_utc_month allow_blank value =
     (let text = py_strip value
      in if text = [] \<and> allow_blank then Inr None
         else case digit_pair ''-'' text of
                None \<Rightarrow> Inl (Value_error ''Invalid UTC month'')
              | Some (y, m) \<Rightarrow>
                  if 1 \<le> m \<and> m \<le> 12 then Inr (Some (y, m))
                  else Inl (Value_error ''Invalid UTC month''))"

definition wall_at :: "int \<Rightarrow> int" where
  "wall_at ord =
     (ord - 719163) * day_us + (SCHEDULE_LOCAL_HOUR * 60 + SCHEDULE_LOCAL_MINUTE) * 60000000"

definition slot_datetime :: "schedule \<Rightarrow> string \<Rightarrow> string \<Rightarrow> local_time sched_result" where
  "slot_datetime S week_key slot =
     sbind (parse_iso_week week_key) (\<lambda>(y, w).
       sbind (if slot = TUESDAY then Inr TUESDAY_ISO_WEEKDAY
              else if slot = WEDNESDAY then Inr WEDNESDAY_ISO_WEEKDAY
              else Inl (Value_error ''Unknown schedule slot'')) (\<lambda>weekday.
         case fromisocalendar y w weekday of
           None \<Rightarrow> Inl (Value_error ''Invalid ISO date'')
         | Some ord \<Rightarrow> Inr (at_wall S (wall_at ord))))"

definition next_week_key :: "string \<Rightarrow> string sched_result" where
  "next_week_key week_key =
     sbind (parse_iso_week week_key) (\<lambda>(y, w).
       case fromisocalendar y w 1 of
         None \<Rightarrow> Inl (Value_error ''Invalid ISO date'')
       | Some ord \<Rightarrow> (let (y', w', d') = isocalendar (ord + 7) in Inr (week_text y' w')))"

section \<open>Reading the records\<close>

definition context_of :: "string \<Rightarrow> string \<Rightarrow> string" where
  "context_of collection key = collection @ ''.'' @ key"

text \<open>\<open>entry.get("slots", {})\<close>\<close>

definition slots_of :: "string \<Rightarrow> dict \<Rightarrow> dict sched_result" where
  "slots_of context entry =
     (if \<not> has_key entry ''slots'' then Inr []
      else case jget entry ''slots'' of
             JObj d \<Rightarrow> Inr d
           | _ \<Rightarrow> Inl (State_error (context @ ''.slots must be an object'')))"

definition attempt_status :: "string \<Rightarrow> dict \<Rightarrow> string \<Rightarrow> string option sched_result" where
  "attempt_status context slots slot =
     (case jget slots slot of
        JNull \<Rightarrow> Inr None
      | JObj attempt \<Rightarrow>
          (let status = py_strip (text_of (jget attempt ''status''))
           in if status \<in> set ATTEMPT_STATUSES then Inr (Some status)
              else Inl (State_error (context @ ''.slots.'' @ slot @ ''.status is invalid'')))
      | _ \<Rightarrow> Inl (State_error (context @ ''.slots.'' @ slot @ '' must be an object'')))"

definition entry_of :: "string \<Rightarrow> dict \<Rightarrow> string \<Rightarrow> dict sched_result" where
  "entry_of collection records key =
     (if \<not> has_key records key then Inr []
      else case jget records key of
             JObj d \<Rightarrow> Inr d
           | _ \<Rightarrow> Inl (State_error (context_of collection key @ '' must be an object'')))"

definition records :: "dict \<Rightarrow> string \<Rightarrow> dict" where
  "records state collection = obj_of (jget state collection)"

section \<open>The weekly decision\<close>

record decision =
  dc_action :: string
  dc_reason :: string
  dc_now :: instant
  dc_week :: string
  dc_slot :: "string option"
  dc_due :: "local_time option"
  dc_next_due :: "local_time option"
  dc_conditional :: bool
  dc_month :: "string option"
  dc_accepted_id :: "string option"
  dc_accepted_at :: "instant option"
  dc_candidate_only :: bool
  dc_monthly_input :: json
  dc_monthly_context :: json

definition is_due :: "decision \<Rightarrow> bool" where
  "is_due d \<longleftrightarrow> dc_action d \<noteq> ACTION_NONE"

definition weekly_decision ::
  "instant \<Rightarrow> string \<Rightarrow> string \<Rightarrow> string \<Rightarrow> string option \<Rightarrow> local_time option \<Rightarrow> local_time option \<Rightarrow> bool
   \<Rightarrow> decision" where
  "weekly_decision now week action reason slot due next_due conditional =
     \<lparr>dc_action = action, dc_reason = reason, dc_now = now, dc_week = week, dc_slot = slot,
      dc_due = due, dc_next_due = next_due, dc_conditional = conditional, dc_month = None,
      dc_accepted_id = None, dc_accepted_at = None, dc_candidate_only = False,
      dc_monthly_input = JNull, dc_monthly_context = JNull\<rparr>"

text \<open>The search for a claim whose completion evidence is still required.\<close>

definition fenced :: "dict \<Rightarrow> bool" where
  "fenced attempt \<longleftrightarrow>
     jget attempt ''status'' = JStr CLAIMED
     \<and> jget attempt ''completion_evidence_required'' = JBool True"

fun fenced_slot :: "dict \<Rightarrow> string option sched_result" where
  "fenced_slot [] = Inr None"
| "fenced_slot ((slot, attempt) # rest) =
     (if \<not> is_obj attempt then Inl Attribute_error
      else if fenced (obj_of attempt) then Inr (Some slot) else fenced_slot rest)"

fun fenced_claim :: "dict \<Rightarrow> (string \<times> string) option sched_result" where
  "fenced_claim [] = Inr None"
| "fenced_claim ((week, entry) # rest) =
     (if \<not> is_obj entry then Inl Attribute_error
      else sbind (slots_of (context_of ''weekly'' week) (obj_of entry)) (\<lambda>slots.
        sbind (fenced_slot slots) (\<lambda>found.
          case found of None \<Rightarrow> fenced_claim rest | Some slot \<Rightarrow> Inr (Some (week, slot)))))"

text \<open>The decision from the weekday, the wall clock and the two attempts.\<close>

definition waiting_reason :: "string option \<Rightarrow> string" where
  "waiting_reason tuesday_status =
     (if tuesday_status = Some CLAIMED then ''tuesday_update_in_progress''
      else if tuesday_status = Some FAILED then ''waiting_for_wednesday_data_retry''
      else ''tuesday_slot_missed_waiting_for_wednesday'')"

definition weekly_core ::
  "instant \<Rightarrow> string \<Rightarrow> int \<Rightarrow> int \<Rightarrow> local_time \<Rightarrow> local_time \<Rightarrow> local_time
   \<Rightarrow> string option \<Rightarrow> string option \<Rightarrow> decision" where
  "weekly_core now week weekday wall tuesday_due wednesday_due next_tuesday tuesday_status wednesday_status =
     (let decide = weekly_decision now week in
      if weekday < TUESDAY_ISO_WEEKDAY \<or> weekday = TUESDAY_ISO_WEEKDAY \<and> wall < lt_wall tuesday_due
      then decide ACTION_NONE ''waiting_for_tuesday_slot'' None None (Some tuesday_due) False
      else if weekday = TUESDAY_ISO_WEEKDAY \<and> tuesday_status = None
      then decide ACTION_DATA_UPDATE ''tuesday_update_due'' (Some TUESDAY) (Some tuesday_due)
             (Some tuesday_due) False
      else if weekday = TUESDAY_ISO_WEEKDAY \<and> tuesday_status = Some CLAIMED
      then decide ACTION_NONE ''tuesday_update_in_progress'' (Some TUESDAY) (Some tuesday_due)
             (Some wednesday_due) True
      else if weekday = TUESDAY_ISO_WEEKDAY \<and> tuesday_status = Some FAILED
      then decide ACTION_NONE ''waiting_for_wednesday_data_retry'' None None (Some wednesday_due) True
      else if weekday = WEDNESDAY_ISO_WEEKDAY \<and> wall < lt_wall wednesday_due
      then decide ACTION_NONE (waiting_reason tuesday_status) None None (Some wednesday_due) True
      else if weekday = WEDNESDAY_ISO_WEEKDAY \<and> tuesday_status = Some CLAIMED
      then decide ACTION_NONE ''tuesday_update_still_in_progress'' (Some TUESDAY) (Some tuesday_due)
             (Some wednesday_due) True
      else if weekday = WEDNESDAY_ISO_WEEKDAY \<and> wednesday_status = None
              \<and> (tuesday_status = None \<or> tuesday_status = Some FAILED)
      then decide ACTION_DATA_UPDATE
             (if tuesday_status = Some FAILED then ''wednesday_retry_due_after_tuesday_failure''
              else ''wednesday_retry_due_after_missed_tuesday_slot'')
             (Some WEDNESDAY) (Some wednesday_due) (Some wednesday_due) False
      else if weekday = WEDNESDAY_ISO_WEEKDAY \<and> wednesday_status = Some CLAIMED
      then decide ACTION_NONE ''wednesday_data_retry_in_progress'' (Some WEDNESDAY)
             (Some wednesday_due) (Some next_tuesday) False
      else decide ACTION_NONE ''weekly_data_window_complete'' None None (Some next_tuesday) False)"

text \<open>The accepted update of a week, with the consistency checks of the plan.\<close>

definition accepted_update_of :: "string \<Rightarrow> dict \<Rightarrow> string option \<Rightarrow> string option \<Rightarrow> bool sched_result" where
  "accepted_update_of week entry tuesday_status wednesday_status =
     (let accepted = jget entry ''accepted_update''
      in if accepted \<noteq> JNull \<and> \<not> is_obj accepted
         then Inl (State_error (context_of ''weekly'' week @ ''.accepted_update must be an object''))
         else if (tuesday_status = Some SUCCEEDED \<or> wednesday_status = Some SUCCEEDED)
                 \<and> \<not> truthy accepted
         then Inl (State_error (context_of ''weekly'' week
                     @ '' succeeded without accepted_update metadata''))
         else Inr (truthy accepted))"

definition plan_data_update_in :: "schedule \<Rightarrow> instant \<Rightarrow> dict \<Rightarrow> decision sched_result" where
  "plan_data_update_in S now state =
     (let local_now = local_of S now; week = iso_week_identity S now
      in sbind (fenced_claim (records state ''weekly'')) (\<lambda>fence.
        case fence of
          Some (week', slot) \<Rightarrow>
            Inr (weekly_decision now week' ACTION_NONE ''original_completion_evidence_required''
                   (Some slot) None None False)
        | None \<Rightarrow>
            sbind (next_week_key week) (\<lambda>next_week.
            sbind (slot_datetime S next_week TUESDAY) (\<lambda>next_tuesday.
            sbind (slot_datetime S week TUESDAY) (\<lambda>tuesday_due.
            sbind (slot_datetime S week WEDNESDAY) (\<lambda>wednesday_due.
            sbind (entry_of ''weekly'' (records state ''weekly'') week) (\<lambda>entry.
            sbind (slots_of (context_of ''weekly'' week) entry) (\<lambda>slots.
            sbind (attempt_status (context_of ''weekly'' week) slots TUESDAY) (\<lambda>tuesday_status.
            sbind (attempt_status (context_of ''weekly'' week) slots WEDNESDAY) (\<lambda>wednesday_status.
            sbind (accepted_update_of week entry tuesday_status wednesday_status) (\<lambda>accepted.
              if accepted
              then Inr (weekly_decision now week ACTION_NONE ''weekly_update_already_succeeded'' None
                          None (Some next_tuesday) False)
              else Inr (weekly_core now week (isoweekday (ordinal_of (lt_wall local_now)))
                          (lt_wall local_now) tuesday_due wednesday_due next_tuesday
                          tuesday_status wednesday_status))))))))))))"

definition plan_data_update :: "schedule \<Rightarrow> instant \<Rightarrow> state_file \<Rightarrow> decision sched_result \<times> state_file" where
  "plan_data_update S now =
     with_state now (\<lambda>state. sbind (plan_data_update_in S now state) (\<lambda>d. Inr (d, None)))"

section \<open>Claiming\<close>

text \<open>The record of an attempt, inside a collection of the state.\<close>

definition put_slots :: "string \<Rightarrow> string \<Rightarrow> dict \<Rightarrow> dict \<Rightarrow> dict \<Rightarrow> dict" where
  "put_slots collection key entry slots state =
     jset collection
       (JObj (jset key (JObj (jset ''slots'' (JObj slots) entry)) (records state collection))) state"

definition claimed_attempt :: "string \<Rightarrow> local_time option \<Rightarrow> instant \<Rightarrow> dict" where
  "claimed_attempt claim_id due now =
     [(''status'', JStr CLAIMED), (''claim_id'', JStr claim_id),
      (''due_at_utc'', case due of None \<Rightarrow> JNull | Some t \<Rightarrow> JStr (utc_iso (lt_utc t))),
      (''claimed_at_utc'', JStr (utc_iso now))]"

definition policy_record :: "json \<times> string \<Rightarrow> json" where
  "policy_record policy =
     JObj [(''binding'', fst policy), (''promotion_month_utc'', JStr (snd policy))]"

definition weekly_attempt :: "schedule \<Rightarrow> string \<Rightarrow> local_time option \<Rightarrow> instant \<Rightarrow> dict" where
  "weekly_attempt S claim_id due now =
     (case sd_policy S of
        None \<Rightarrow> claimed_attempt claim_id due now
      | Some policy \<Rightarrow> jset ''monthly_policy'' (policy_record policy) (claimed_attempt claim_id due now))"

definition missed_tuesday :: "string \<Rightarrow> string \<Rightarrow> local_time \<Rightarrow> instant \<Rightarrow> dict" where
  "missed_tuesday failure_key failure due now =
     [(''status'', JStr FAILED), (''claim_id'', JNull), (''due_at_utc'', JStr (utc_iso (lt_utc due))),
      (''completed_at_utc'', JStr (utc_iso now)), (failure_key, JStr failure),
      (''synthetic'', JBool True)]"

text \<open>A Wednesday attempt records the Tuesday slot as missed when it was never attempted.\<close>

definition with_missed_tuesday ::
  "schedule \<Rightarrow> string \<Rightarrow> string \<Rightarrow> string \<Rightarrow> instant \<Rightarrow> string \<Rightarrow> dict \<Rightarrow> dict sched_result" where
  "with_missed_tuesday S failure_key failure week now slot slots =
     (if slot = WEDNESDAY \<and> \<not> has_key slots TUESDAY
      then sbind (slot_datetime S week TUESDAY) (\<lambda>due.
        Inr (jset TUESDAY (JObj (missed_tuesday failure_key failure due now)) slots))
      else Inr slots)"

record claim_result =
  cr_decision :: decision
  cr_claimed :: bool
  cr_claim_id :: "string option"
  cr_policy :: json

definition unclaimed :: "decision \<Rightarrow> claim_result" where
  "unclaimed d = \<lparr>cr_decision = d, cr_claimed = False, cr_claim_id = None, cr_policy = JNull\<rparr>"

definition fresh_week :: "string \<Rightarrow> dict" where
  "fresh_week week =
     [(''iso_week'', JStr week), (''slots'', JObj []), (''accepted_update'', JNull)]"

definition claim_data_update_in ::
  "schedule \<Rightarrow> instant \<Rightarrow> string \<Rightarrow> claim_result transition" where
  "claim_data_update_in S now new_id state =
     sbind (plan_data_update_in S now state) (\<lambda>d.
       if dc_action d \<noteq> ACTION_DATA_UPDATE then Inr (unclaimed d, None)
       else (let week = dc_week d; slot = (case dc_slot d of None \<Rightarrow> ''None'' | Some s \<Rightarrow> s);
                 weekly = records state ''weekly''
             in sbind (if has_key weekly week then entry_of ''weekly'' weekly week
                       else Inr (fresh_week week)) (\<lambda>entry.
                  sbind (slots_of (context_of ''weekly'' week) entry) (\<lambda>slots.
                    sbind (with_missed_tuesday S ''failure'' ''tuesday_slot_missed'' week now slot slots)
                      (\<lambda>slots'.
                        let claim_id = py_strip new_id; attempt = weekly_attempt S claim_id (dc_due d) now
                        in if claim_id = []
                           then Inl (Transition_error ''claim_id_factory returned an empty claim ID'')
                           else Inr (\<lparr>cr_decision = d, cr_claimed = True, cr_claim_id = Some claim_id,
                                      cr_policy = jget attempt ''monthly_policy''\<rparr>,
                                     Some (put_slots ''weekly'' week entry
                                             (jset slot (JObj attempt) slots') state)))))))"

definition claim_data_update ::
  "schedule \<Rightarrow> instant \<Rightarrow> string \<Rightarrow> state_file \<Rightarrow> claim_result sched_result \<times> state_file" where
  "claim_data_update S now new_id = with_state now (claim_data_update_in S now new_id)"

end
