(* ===== verification/Schedule_Complete.thy ===== *)
theory Schedule_Complete
  imports Schedule
begin

text \<open>
  The transitions of \<^verbatim>\<open>src/data/ufc_update_schedule.py\<close> on an existing claim: finding it, fencing its
  completion, failing it when its lease has expired, and recording the result of the weekly data
  update together with the reservation of the monthly input.
\<close>

section \<open>Finding a claim\<close>

record located =
  lc_key :: string
  lc_slot :: string
  lc_entry :: dict
  lc_slots :: dict
  lc_attempt :: dict

definition matching_slots :: "string \<Rightarrow> string \<Rightarrow> dict \<Rightarrow> dict \<Rightarrow> located list" where
  "matching_slots claim_id key entry slots =
     map (\<lambda>slot. \<lparr>lc_key = key, lc_slot = slot, lc_entry = entry, lc_slots = slots,
                  lc_attempt = obj_of (jget slots slot)\<rparr>)
       (filter (\<lambda>slot. is_obj (jget slots slot)
                  \<and> text_of (jget (obj_of (jget slots slot)) ''claim_id'') = claim_id) SLOTS)"

fun matching_claims :: "string \<Rightarrow> string \<Rightarrow> dict \<Rightarrow> located list sched_result" where
  "matching_claims collection claim_id [] = Inr []"
| "matching_claims collection claim_id ((key, entry) # rest) =
     (if \<not> is_obj entry then Inl (State_error (context_of collection key @ '' must be an object''))
      else sbind (slots_of (context_of collection key) (obj_of entry)) (\<lambda>slots.
        sbind (matching_claims collection claim_id rest) (\<lambda>found.
          Inr (matching_slots claim_id key (obj_of entry) slots @ found))))"

definition locate_claim :: "string \<Rightarrow> dict \<Rightarrow> string \<Rightarrow> located sched_result" where
  "locate_claim collection recs claim_id =
     sbind (matching_claims collection claim_id recs) (\<lambda>found.
       case found of
         [] \<Rightarrow> Inl (Transition_error (''Unknown '' @ collection @ '' claim ID''))
       | [c] \<Rightarrow> Inr c
       | _ \<Rightarrow> Inl (State_error (''Duplicate '' @ collection @ '' claim ID'')))"

text \<open>The state with the located attempt, and possibly its entry, replaced.\<close>

definition put_attempt :: "string \<Rightarrow> located \<Rightarrow> dict \<Rightarrow> dict \<Rightarrow> dict \<Rightarrow> dict" where
  "put_attempt collection c entry attempt state =
     put_slots collection (lc_key c) entry (jset (lc_slot c) (JObj attempt) (lc_slots c)) state"

definition status_text :: "dict \<Rightarrow> string" where
  "status_text attempt = text_of (jget attempt ''status'')"

definition protect_data_completion_in :: "string \<Rightarrow> unit transition" where
  "protect_data_completion_in claim_id state =
     sbind (locate_claim ''weekly'' (records state ''weekly'') claim_id) (\<lambda>c.
       if jget (lc_attempt c) ''status'' \<noteq> JStr CLAIMED
       then Inl (Transition_error ''Data completion fence requires an active claim'')
       else if jget (lc_attempt c) ''completion_evidence_required'' = JBool True
       then Inr ((), None)
       else Inr ((), Some (put_attempt ''weekly'' c (lc_entry c)
                  (jset ''completion_evidence_required'' (JBool True) (lc_attempt c)) state)))"

definition protect_data_completion ::
  "instant \<Rightarrow> string \<Rightarrow> state_file \<Rightarrow> unit sched_result \<times> state_file" where
  "protect_data_completion now claim_id = with_state now (protect_data_completion_in claim_id)"

section \<open>Expired claims\<close>

record recovered_claim =
  rc_collection :: string
  rc_record :: string
  rc_slot :: string
  rc_claim_id :: json
  rc_age :: pyfloat

text \<open>\<open>(now - claimed_at).total_seconds()\<close>\<close>

definition age_seconds :: "instant \<Rightarrow> instant \<Rightarrow> pyfloat" where
  "age_seconds now claimed_at = to_float (of_int (now - claimed_at) / 1000000)"

definition expired_attempt :: "instant \<Rightarrow> pyfloat \<Rightarrow> dict \<Rightarrow> dict" where
  "expired_attempt now age attempt =
     jupdate attempt
       [(''status'', JStr FAILED), (''completed_at_utc'', JStr (utc_iso now)),
        (''error'', JStr ''interrupted_claim_lease_expired''), (''recovered_after_restart'', JBool True),
        (''claim_age_seconds'', JFloat age)]"

definition slot_field :: "string \<Rightarrow> string \<Rightarrow> string \<Rightarrow> string \<Rightarrow> string" where
  "slot_field collection key slot name =
     context_of collection key @ ''.slots.'' @ slot @ ''.'' @ name"

text \<open>The age of an attempt that has to be failed, if it has to.\<close>

definition expired :: "schedule \<Rightarrow> instant \<Rightarrow> string \<Rightarrow> string \<Rightarrow> string \<Rightarrow> json \<Rightarrow> pyfloat option sched_result"
  where
  "expired S now collection key slot value =
     (let attempt = obj_of value
      in if \<not> is_obj value \<or> status_text attempt \<noteq> CLAIMED then Inr None
         else if collection = ''weekly''
                 \<and> jget attempt ''completion_evidence_required'' = JBool True then Inr None
         else sbind (parse_utc_iso S (slot_field collection key slot ''claimed_at_utc'')
                       (jget attempt ''claimed_at_utc'')) (\<lambda>claimed_at.
           let age = age_seconds now claimed_at
           in Inr (if flt age (Fin (of_int (sd_stale_after S))) then None else Some age)))"

definition failed_entry_status :: "string \<Rightarrow> string" where
  "failed_entry_status slot = (if slot = TUESDAY then ''retry_pending'' else ''failed'')"

text \<open>One slot of an entry: the entry, its slots and what was recovered.\<close>

definition recover_slot ::
  "schedule \<Rightarrow> instant \<Rightarrow> string \<Rightarrow> string \<Rightarrow> string
   \<Rightarrow> dict \<times> dict \<times> recovered_claim list \<Rightarrow> (dict \<times> dict \<times> recovered_claim list) sched_result" where
  "recover_slot S now collection key slot acc =
     (let (entry, slots, recovered) = acc; attempt = obj_of (jget slots slot)
      in sbind (expired S now collection key slot (jget slots slot)) (\<lambda>found.
           case found of
             None \<Rightarrow> Inr (entry, slots, recovered)
           | Some age \<Rightarrow>
               Inr (if collection = ''monthly_candidates''
                    then jset ''status'' (JStr (failed_entry_status slot)) entry else entry,
                    jset slot (JObj (expired_attempt now age attempt)) slots,
                    recovered @ [\<lparr>rc_collection = collection, rc_record = key, rc_slot = slot,
                                  rc_claim_id = jget attempt ''claim_id'', rc_age = age\<rparr>])))"

definition recover_entry ::
  "schedule \<Rightarrow> instant \<Rightarrow> string \<Rightarrow> string \<Rightarrow> json \<Rightarrow> (json \<times> recovered_claim list) sched_result" where
  "recover_entry S now collection key value =
     (if \<not> is_obj value then Inl (State_error (context_of collection key @ '' must be an object''))
      else sbind (slots_of (context_of collection key) (obj_of value)) (\<lambda>slots.
        sbind (recover_slot S now collection key TUESDAY (obj_of value, slots, [])) (\<lambda>acc.
          sbind (recover_slot S now collection key WEDNESDAY acc) (\<lambda>(entry, slots', recovered).
            Inr (if recovered = [] then value else JObj (jset ''slots'' (JObj slots') entry),
                 recovered)))))"

fun recover_records ::
  "schedule \<Rightarrow> instant \<Rightarrow> string \<Rightarrow> dict \<Rightarrow> (dict \<times> recovered_claim list) sched_result" where
  "recover_records S now collection [] = Inr ([], [])"
| "recover_records S now collection ((key, value) # rest) =
     sbind (recover_entry S now collection key value) (\<lambda>(value', r).
       sbind (recover_records S now collection rest) (\<lambda>(rest', r').
         Inr ((key, value') # rest', r @ r')))"

definition reconcile_stale_in :: "schedule \<Rightarrow> instant \<Rightarrow> recovered_claim list transition" where
  "reconcile_stale_in S now state =
     sbind (recover_records S now ''weekly'' (records state ''weekly'')) (\<lambda>(weekly, r).
       sbind (recover_records S now ''monthly_candidates'' (records state ''monthly_candidates''))
         (\<lambda>(monthly, r').
           Inr (r @ r', if r @ r' = [] then None
                        else Some (jset ''monthly_candidates'' (JObj monthly)
                                    (jset ''weekly'' (JObj weekly) state)))))"

definition reconcile_stale_claims ::
  "schedule \<Rightarrow> instant \<Rightarrow> state_file \<Rightarrow> recovered_claim list sched_result \<times> state_file" where
  "reconcile_stale_claims S now = with_state now (reconcile_stale_in S now)"

section \<open>Reserving the monthly input\<close>

definition need_obj :: "json \<Rightarrow> dict sched_result" where
  "need_obj v = (case v of JObj d \<Rightarrow> Inr d | _ \<Rightarrow> Inl Attribute_error)"

text \<open>\<open>d.get(key, {})\<close> that is used as an object.\<close>

definition get_sub :: "dict \<Rightarrow> string \<Rightarrow> dict sched_result" where
  "get_sub d key = (if has_key d key then need_obj (jget d key) else Inr [])"

text \<open>The promotion month that applies to a claim: the schedule's, the one recorded with the claim,
  or the one of the original intent.\<close>

definition promotion_of :: "schedule \<Rightarrow> string \<Rightarrow> string \<Rightarrow> string \<Rightarrow> string \<Rightarrow> dict \<Rightarrow> json sched_result" where
  "promotion_of S month week slot claim_id state =
     sbind (get_sub state ''weekly'') (\<lambda>weekly.
     sbind (get_sub weekly week) (\<lambda>entry.
     sbind (get_sub entry ''slots'') (\<lambda>slots.
     sbind (if truthy (jget slots slot) then need_obj (jget slots slot) else Inr []) (\<lambda>attempt.
     sbind (if jget attempt ''claim_id'' = JStr claim_id \<and> jget attempt ''monthly_policy'' \<noteq> JNull
            then sbind (need_obj (jget attempt ''monthly_policy'')) (\<lambda>p. Inr (jget p ''promotion_month_utc''))
            else Inr (JStr (sd_promotion_month S))) (\<lambda>promotion.
     sbind (get_sub state ''monthly_input_intents'') (\<lambda>intents.
     sbind (get_sub intents month) (\<lambda>intent.
       if jget intent ''context'' = JNull then Inr promotion
       else sbind (need_obj (jget intent ''context'')) (\<lambda>original.
         Inr (if jget original ''claim_id'' = JStr claim_id then jget original ''promotion_month_utc''
              else promotion)))))))))"

definition monthly_context ::
  "schedule \<Rightarrow> string \<Rightarrow> instant \<Rightarrow> string \<Rightarrow> string \<Rightarrow> string \<Rightarrow> json \<Rightarrow> dict" where
  "monthly_context S accepted_id accepted_at week slot claim_id promotion =
     [(''utc_month'', JStr (utc_month_identity accepted_at)), (''accepted_update_id'', JStr accepted_id),
      (''accepted_at_utc'', JStr (utc_iso accepted_at)), (''iso_week'', JStr week),
      (''data_slot'', JStr slot), (''claim_id'', JStr claim_id),
      (''schedule_timezone'', JStr (sd_timezone S)), (''promotion_month_utc'', promotion)]"

text \<open>\<open>_monthly_request\<close>; the copy through JSON text raises on a float that is not finite.\<close>

fun finite_json :: "json \<Rightarrow> bool" and finite_list :: "json list \<Rightarrow> bool" and finite_items :: "dict \<Rightarrow> bool" where
  "finite_json (JFloat x) = is_fin x"
| "finite_json (JList xs) = finite_list xs"
| "finite_json (JObj d) = finite_items d"
| "finite_json _ = True"
| "finite_list [] = True"
| "finite_list (x # xs) = (finite_json x \<and> finite_list xs)"
| "finite_items [] = True"
| "finite_items ((k, v) # d) = (finite_json v \<and> finite_items d)"

definition monthly_request :: "json \<Rightarrow> string + json" where
  "monthly_request request =
     (let value = obj_of request; acceptance = jget value ''acceptance''; root = jget value ''output_root''
      in if \<not> finite_json request then Inl ''Out of range float values are not JSON compliant''
         else if \<not> is_obj request \<or> set (map fst value) \<noteq> set [''acceptance'', ''output_root'']
         then Inl ''monthly request requires acceptance and output_root''
         else if \<not> is_obj acceptance
                 \<or> set (map fst (obj_of acceptance)) \<noteq> set [''path'', ''bytes'', ''sha256'']
         then Inl ''monthly request requires an independent acceptance pin''
         else if \<not> is_str root \<or> str_of root = []
         then Inl ''monthly request requires an explicit output root''
         else Inr request)"

record registration =
  rg_registered :: bool
  rg_changed :: bool
  rg_reason :: string
  rg_month :: string
  rg_accepted_id :: json

definition not_registered :: "string \<Rightarrow> string \<Rightarrow> registration" where
  "not_registered reason month =
     \<lparr>rg_registered = False, rg_changed = False, rg_reason = reason, rg_month = month,
      rg_accepted_id = JNull\<rparr>"

fun month_le :: "int \<times> int \<Rightarrow> int \<times> int \<Rightarrow> bool" where
  "month_le (y, m) (y', m') \<longleftrightarrow> y < y' \<or> y = y' \<and> m \<le> m'"

text \<open>Whether an accepted month is eligible for a promotion month.\<close>

definition month_refusal :: "string \<Rightarrow> json \<Rightarrow> registration option sched_result" where
  "month_refusal month promotion =
     sbind (parse_utc_month False month) (\<lambda>value.
       sbind (parse_utc_month True (text_of promotion)) (\<lambda>limit.
         Inr (case (value, limit) of
                (_, None) \<Rightarrow> Some (not_registered ''v7_promotion_month_not_configured'' month)
              | (Some v, Some p) \<Rightarrow>
                  if month_le v p
                  then Some (not_registered ''accepted_update_not_after_v7_promotion_month'' month)
                  else None
              | (None, _) \<Rightarrow> None)))"

definition new_intent :: "dict \<Rightarrow> dict \<Rightarrow> dict" where
  "new_intent context attempt =
     (let base = [(''schema'', JInt 1), (''context'', JObj context),
                  (''status'', JStr ''waiting_for_accepted_input''), (''attempts'', JList [])];
          policy = (if jget attempt ''claim_id'' = jget context ''claim_id''
                    then jget attempt ''monthly_policy'' else JNull)
      in if policy = JNull then base
         else jset ''policy_binding'' (jget (obj_of policy) ''binding'') base)"

definition intent_attempt :: "json \<Rightarrow> dict \<Rightarrow> dict" where
  "intent_attempt refusal intent =
     jset ''attempts'' (JList (list_of (jget intent ''attempts'') @ [refusal])) intent"

definition refusal_of :: "string \<Rightarrow> json" where
  "refusal_of message =
     JObj [(''stage'', JStr ''accepted_input_provisioning''), (''error'', JStr message)]"

definition intent_request :: "dict \<Rightarrow> json \<Rightarrow> dict \<Rightarrow> dict" where
  "intent_request context request intent =
     (if py_eq (jget intent ''context'') (JObj context) \<and> \<not> has_key intent ''request'' \<and> request \<noteq> JNull
      then (case monthly_request request of
              Inr r \<Rightarrow> jset ''request'' r intent
            | Inl message \<Rightarrow> intent_attempt (refusal_of (''invalid request: '' @ message)) intent)
      else intent)"

definition claim_attempt :: "dict \<Rightarrow> dict \<Rightarrow> dict sched_result" where
  "claim_attempt context state =
     sbind (get_sub state ''weekly'') (\<lambda>weekly.
     sbind (get_sub weekly (str_of (jget context ''iso_week''))) (\<lambda>entry.
     sbind (get_sub entry ''slots'') (\<lambda>slots.
     get_sub slots (str_of (jget context ''data_slot'')))))"

text \<open>The state after the reservation, and the refusal when the month is not eligible.\<close>

definition reserve_monthly_input ::
  "dict \<Rightarrow> json \<Rightarrow> dict \<Rightarrow> (registration option \<times> dict) sched_result" where
  "reserve_monthly_input context request state =
     (let month = str_of (jget context ''utc_month'')
      in sbind (month_refusal month (jget context ''promotion_month_utc'')) (\<lambda>refusal.
        if refusal \<noteq> None then Inr (refusal, state)
        else if has_key (records state ''monthly_candidates'') month then Inr (None, state)
        else (let value = (if has_key state ''monthly_input_intents''
                           then jget state ''monthly_input_intents'' else JObj [])
              in if \<not> is_obj value then Inl (State_error ''monthly_input_intents must be an object'')
                 else sbind (if has_key (obj_of value) month then need_obj (jget (obj_of value) month)
                             else sbind (claim_attempt context state) (\<lambda>attempt.
                               Inr (new_intent context attempt))) (\<lambda>intent.
                   Inr (None,
                        jset ''monthly_input_intents''
                          (JObj (jset month (JObj (intent_request context request intent))
                                   (obj_of value))) state)))))"

section \<open>The result of the data update\<close>

record completion_args =
  ca_succeeded :: bool
  ca_accepted_id :: "string option"
  ca_accepted_at :: "instant option"
  ca_request :: json
  ca_evidence_pin :: json
  ca_expected_context :: json
  ca_error :: "string option"

text \<open>\<open>value not in (None, pin)\<close>\<close>

definition pin_conflict :: "json \<Rightarrow> json \<Rightarrow> bool" where
  "pin_conflict pin value \<longleftrightarrow> pin \<noteq> JNull \<and> value \<noteq> JNull \<and> \<not> py_eq value pin"

definition set_pin :: "json \<Rightarrow> dict \<Rightarrow> dict" where
  "set_pin pin d = (if pin = JNull then d else jset ''completion_evidence_pin'' pin d)"

text \<open>A repeated completion has to agree with what was recorded; it answers the original time.\<close>

definition check_repeated ::
  "schedule \<Rightarrow> completion_args \<Rightarrow> string \<Rightarrow> instant \<Rightarrow> located \<Rightarrow> instant sched_result" where
  "check_repeated S a accepted_id accepted_at c =
     (let expected = (if ca_succeeded a then SUCCEEDED else FAILED);
          accepted = jget (lc_entry c) ''accepted_update''
      in if status_text (lc_attempt c) \<noteq> expected
         then Inl (Transition_error ''Data claim is already in another state'')
         else if pin_conflict (ca_evidence_pin a) (jget (lc_attempt c) ''completion_evidence_pin'')
         then Inl (Transition_error ''Completed attempt evidence conflicts'')
         else if \<not> ca_succeeded a then Inr accepted_at
         else if \<not> is_obj accepted
                 \<or> jget (obj_of accepted) ''accepted_update_id'' \<noteq> JStr accepted_id
         then Inl (Transition_error ''Completed data generation conflicts'')
         else sbind (parse_utc_iso S ''accepted_at_utc'' (jget (obj_of accepted) ''accepted_at_utc''))
           (\<lambda>original_at.
             if ca_accepted_at a \<noteq> None \<and> original_at \<noteq> accepted_at
             then Inl (Transition_error ''Completed data cutoff conflicts'')
             else if pin_conflict (ca_evidence_pin a)
                       (jget (obj_of accepted) ''completion_evidence_pin'')
             then Inl (Transition_error ''Completed data evidence conflicts'')
             else Inr original_at))"

definition completed_attempt :: "completion_args \<Rightarrow> instant \<Rightarrow> dict \<Rightarrow> dict" where
  "completed_attempt a now attempt =
     (let done = set_pin (ca_evidence_pin a)
                   (jset ''completed_at_utc'' (JStr (utc_iso now))
                     (jset ''status'' (JStr (if ca_succeeded a then SUCCEEDED else FAILED)) attempt));
          error = text_or_empty (ca_error a)
      in if ca_succeeded a then done
         else jset ''error'' (JStr (if error = [] then ''update_failed'' else error)) done)"

definition accepted_entry :: "completion_args \<Rightarrow> string \<Rightarrow> instant \<Rightarrow> string \<Rightarrow> dict \<Rightarrow> dict" where
  "accepted_entry a accepted_id accepted_at slot entry =
     (if ca_succeeded a
      then jset ''accepted_update''
             (JObj (set_pin (ca_evidence_pin a)
                      [(''accepted_update_id'', JStr accepted_id),
                       (''accepted_at_utc'', JStr (utc_iso accepted_at)), (''slot'', JStr slot)])) entry
      else entry)"

record completion =
  cm_changed :: bool
  cm_week :: string
  cm_slot :: string
  cm_accepted_at :: instant
  cm_next :: "decision sched_result"

text \<open>What is written for a claim, before the monthly input is reserved.\<close>

definition recorded_completion ::
  "instant \<Rightarrow> completion_args \<Rightarrow> string \<Rightarrow> instant \<Rightarrow> located \<Rightarrow> dict \<Rightarrow> dict" where
  "recorded_completion now a accepted_id cutoff c state =
     (if status_text (lc_attempt c) = CLAIMED
      then put_attempt ''weekly'' c (accepted_entry a accepted_id cutoff (lc_slot c) (lc_entry c))
             (completed_attempt a now (lc_attempt c)) state
      else state)"

definition check_context ::
  "schedule \<Rightarrow> completion_args \<Rightarrow> string \<Rightarrow> instant \<Rightarrow> string \<Rightarrow> located \<Rightarrow> dict \<Rightarrow> unit sched_result" where
  "check_context S a accepted_id accepted_at claim_id c state =
     (if ca_expected_context a = JNull then Inr ()
      else sbind (promotion_of S (utc_month_identity accepted_at) (lc_key c) (lc_slot c) claim_id state)
        (\<lambda>promotion.
          if py_eq (ca_expected_context a)
               (JObj (monthly_context S accepted_id accepted_at (lc_key c) (lc_slot c) claim_id promotion))
          then Inr ()
          else Inl (Transition_error ''Original completion schedule context conflicts'')))"

text \<open>The part of \<open>complete_data_update\<close> under the lock. The next decision is made after the file has
  been written, so its failure is a value of the answer.\<close>

definition complete_data_in ::
  "schedule \<Rightarrow> instant \<Rightarrow> string \<Rightarrow> completion_args \<Rightarrow> completion transition" where
  "complete_data_in S now claim_id a state =
     (let accepted_id = py_strip (text_or_empty (ca_accepted_id a));
          accepted_at = (case ca_accepted_at a of None \<Rightarrow> now | Some t \<Rightarrow> t)
      in sbind (locate_claim ''weekly'' (records state ''weekly'') claim_id) (\<lambda>c.
         sbind (check_context S a accepted_id accepted_at claim_id c state) (\<lambda>_.
         sbind (if status_text (lc_attempt c) = CLAIMED then Inr accepted_at
                else check_repeated S a accepted_id accepted_at c) (\<lambda>cutoff.
           let recorded = recorded_completion now a accepted_id cutoff c state
           in sbind (promotion_of S (utc_month_identity cutoff) (lc_key c) (lc_slot c) claim_id recorded)
             (\<lambda>promotion.
               sbind (if ca_succeeded a
                      then reserve_monthly_input
                             (monthly_context S accepted_id cutoff (lc_key c) (lc_slot c) claim_id promotion)
                             (ca_request a) recorded
                      else Inr (None, recorded)) (\<lambda>(refusal, state').
                 let changed = (status_text (lc_attempt c) = CLAIMED);
                     write = changed \<or> \<not> py_eq (JObj state') (JObj recorded);
                     answer = \<lparr>cm_changed = changed, cm_week = lc_key c, cm_slot = lc_slot c,
                               cm_accepted_at = cutoff,
                               cm_next = plan_data_update_in S now
                                           (if write then stamped now state' else state')\<rparr>
                 in Inr (answer, if write then Some state' else None)))))))"

definition raise_next :: "completion sched_result \<times> state_file \<Rightarrow> completion sched_result \<times> state_file" where
  "raise_next r =
     (case r of
        (Inr answer, f) \<Rightarrow> (case cm_next answer of Inl e \<Rightarrow> (Inl e, f) | Inr _ \<Rightarrow> (Inr answer, f))
      | (Inl e, f) \<Rightarrow> (Inl e, f))"

definition complete_data_locked ::
  "schedule \<Rightarrow> instant \<Rightarrow> string \<Rightarrow> completion_args \<Rightarrow> state_file \<Rightarrow> completion sched_result \<times> state_file"
  where
  "complete_data_locked S now claim_id a f =
     (if py_strip claim_id = [] then (Inl (Value_error ''claim_id must not be empty''), f)
      else if ca_succeeded a \<and> py_strip (text_or_empty (ca_accepted_id a)) = []
      then (Inl (Value_error ''accepted_update_id is required for a successful update''), f)
      else raise_next (with_state now (complete_data_in S now (py_strip claim_id) a) f))"

end
