(* ===== verification/Schedule_Monthly.thy ===== *)
theory Schedule_Monthly
  imports Schedule_Complete
begin

text \<open>
  The monthly candidate of \<^verbatim>\<open>src/data/ufc_update_schedule.py\<close>: the candidate anchored to an
  accepted weekly update is due after that update, may be retried once on Wednesday, and is
  claimed and completed like the weekly slot, without ever acquiring data.
\<close>

section \<open>The candidate of a week\<close>

record anchored =
  an_month :: string
  an_entry :: dict
  an_accepted_at :: instant

fun anchored_entries :: "schedule \<Rightarrow> string \<Rightarrow> dict \<Rightarrow> anchored list sched_result" where
  "anchored_entries S week [] = Inr []"
| "anchored_entries S week ((month, value) # rest) =
     (let context = context_of ''monthly_candidates'' month; source = jget (obj_of value) ''source_update''
      in if \<not> is_obj value then Inl (State_error (context @ '' must be an object''))
         else if \<not> is_obj source then Inl (State_error (context @ ''.source_update must be an object''))
         else if text_of (jget (obj_of source) ''iso_week'') \<noteq> week then anchored_entries S week rest
         else sbind (parse_utc_iso S (context @ ''.source_update.accepted_at_utc'')
                       (jget (obj_of source) ''accepted_at_utc'')) (\<lambda>accepted_at.
           sbind (anchored_entries S week rest) (\<lambda>found.
             Inr (\<lparr>an_month = month, an_entry = obj_of value, an_accepted_at = accepted_at\<rparr> # found))))"

definition monthly_entry_for_week :: "schedule \<Rightarrow> string \<Rightarrow> dict \<Rightarrow> anchored option sched_result" where
  "monthly_entry_for_week S week monthly =
     sbind (anchored_entries S week monthly) (\<lambda>found.
       case found of
         [] \<Rightarrow> Inr None
       | [e] \<Rightarrow> Inr (Some e)
       | _ \<Rightarrow> Inl (State_error ''Multiple monthly candidates are anchored to one ISO week''))"

section \<open>The monthly decision\<close>

definition MONTHLY_STATUSES :: "string list" where
  "MONTHLY_STATUSES = [''pending'', ''in_progress'', ''retry_pending'', ''succeeded'', ''failed'']"

text \<open>What every decision about an anchored candidate carries.\<close>

record candidate_info =
  ci_now :: instant
  ci_week :: string
  ci_month :: string
  ci_update_id :: string
  ci_accepted :: local_time
  ci_input :: json

definition monthly_decision ::
  "candidate_info \<Rightarrow> string \<Rightarrow> string \<Rightarrow> string option \<Rightarrow> local_time option \<Rightarrow> local_time option \<Rightarrow> bool
   \<Rightarrow> decision" where
  "monthly_decision I action reason slot due next_due conditional =
     \<lparr>dc_action = action, dc_reason = reason, dc_now = ci_now I, dc_week = ci_week I, dc_slot = slot,
      dc_due = due, dc_next_due = next_due, dc_conditional = conditional, dc_month = Some (ci_month I),
      dc_accepted_id = Some (ci_update_id I), dc_accepted_at = Some (lt_utc (ci_accepted I)),
      dc_candidate_only = True, dc_monthly_input = ci_input I,
      dc_monthly_context = jget (obj_of (ci_input I)) ''context''\<rparr>"

definition window_complete :: "candidate_info \<Rightarrow> local_time option \<Rightarrow> decision" where
  "window_complete I fallback =
     monthly_decision I ACTION_NONE ''monthly_candidate_window_complete'' None None fallback False"

text \<open>The source update was accepted in the Tuesday slot.\<close>

definition tuesday_core ::
  "candidate_info \<Rightarrow> int \<Rightarrow> int \<Rightarrow> local_time \<Rightarrow> local_time option \<Rightarrow> string option \<Rightarrow> string option
   \<Rightarrow> decision" where
  "tuesday_core I weekday wall wednesday_due fallback tuesday_status wednesday_status =
     (let due_wednesday = (weekday = WEDNESDAY_ISO_WEEKDAY \<and> lt_wall wednesday_due \<le> wall
                           \<and> wednesday_status = None);
          open_window = (weekday \<le> WEDNESDAY_ISO_WEEKDAY)
      in if tuesday_status = None \<and> weekday = TUESDAY_ISO_WEEKDAY \<and> lt_wall (ci_accepted I) \<le> wall
         then monthly_decision I ACTION_MONTHLY_CANDIDATE ''monthly_candidate_due_after_tuesday_update''
                (Some TUESDAY) (Some (ci_accepted I)) (Some (ci_accepted I)) False
         else if tuesday_status = None \<and> due_wednesday
         then monthly_decision I ACTION_MONTHLY_CANDIDATE
                ''wednesday_candidate_only_retry_due_after_missed_tuesday_candidate''
                (Some WEDNESDAY) (Some wednesday_due) (Some wednesday_due) False
         else if tuesday_status = None
         then monthly_decision I ACTION_NONE
                (if open_window then ''waiting_for_wednesday_candidate_only_retry''
                 else ''monthly_candidate_window_complete'')
                None None (if open_window then Some wednesday_due else fallback) open_window
         else if tuesday_status = Some CLAIMED
         then monthly_decision I ACTION_NONE ''tuesday_monthly_candidate_in_progress'' (Some TUESDAY)
                (Some (ci_accepted I)) (Some wednesday_due) True
         else if tuesday_status = Some FAILED \<and> due_wednesday
         then monthly_decision I ACTION_MONTHLY_CANDIDATE ''wednesday_candidate_only_retry_due''
                (Some WEDNESDAY) (Some wednesday_due) (Some wednesday_due) False
         else if tuesday_status = Some FAILED
                 \<and> (weekday < WEDNESDAY_ISO_WEEKDAY
                    \<or> weekday = WEDNESDAY_ISO_WEEKDAY \<and> wall < lt_wall wednesday_due)
         then monthly_decision I ACTION_NONE ''waiting_for_wednesday_candidate_only_retry'' None None
                (Some wednesday_due) True
         else if wednesday_status = Some CLAIMED
         then monthly_decision I ACTION_NONE ''wednesday_monthly_candidate_in_progress'' (Some WEDNESDAY)
                (Some wednesday_due) fallback False
         else window_complete I fallback)"

text \<open>The source update was accepted in the Wednesday slot.\<close>

definition wednesday_core ::
  "candidate_info \<Rightarrow> int \<Rightarrow> int \<Rightarrow> local_time option \<Rightarrow> string option \<Rightarrow> decision" where
  "wednesday_core I weekday wall fallback wednesday_status =
     (if wednesday_status = None \<and> weekday = WEDNESDAY_ISO_WEEKDAY \<and> lt_wall (ci_accepted I) \<le> wall
      then monthly_decision I ACTION_MONTHLY_CANDIDATE ''monthly_candidate_due_after_wednesday_update''
             (Some WEDNESDAY) (Some (ci_accepted I)) (Some (ci_accepted I)) False
      else if wednesday_status = Some CLAIMED
      then monthly_decision I ACTION_NONE ''wednesday_monthly_candidate_in_progress'' (Some WEDNESDAY)
             (Some (ci_accepted I)) fallback False
      else window_complete I fallback)"

definition monthly_core ::
  "candidate_info \<Rightarrow> string \<Rightarrow> string \<Rightarrow> int \<Rightarrow> int \<Rightarrow> local_time \<Rightarrow> local_time option
   \<Rightarrow> string option \<Rightarrow> string option \<Rightarrow> decision" where
  "monthly_core I status source_slot weekday wall wednesday_due fallback tuesday_status wednesday_status =
     (if status = ''succeeded''
      then monthly_decision I ACTION_NONE ''monthly_candidate_already_succeeded'' None None fallback False
      else if status = ''failed''
      then monthly_decision I ACTION_NONE ''monthly_candidate_retry_exhausted'' None None fallback False
      else if source_slot = TUESDAY
      then tuesday_core I weekday wall wednesday_due fallback tuesday_status wednesday_status
      else wednesday_core I weekday wall fallback wednesday_status)"

definition no_candidate :: "schedule \<Rightarrow> instant \<Rightarrow> string \<Rightarrow> local_time option \<Rightarrow> decision" where
  "no_candidate S now week fallback =
     weekly_decision now week ACTION_NONE
       (if py_strip (sd_promotion_month S) = [] then ''v7_promotion_month_not_configured''
        else ''no_eligible_accepted_update_for_iso_week'')
       None None fallback True"

text \<open>The checks of an anchored entry, and its decision.\<close>

definition anchored_decision ::
  "schedule \<Rightarrow> instant \<Rightarrow> string \<Rightarrow> local_time \<Rightarrow> local_time option \<Rightarrow> anchored \<Rightarrow> decision sched_result" where
  "anchored_decision S now week wednesday_due fallback e =
     (let context = context_of ''monthly_candidates'' (an_month e);
          source = obj_of (jget (an_entry e) ''source_update'');
          update_id = py_strip (text_of (jget source ''accepted_update_id''));
          source_slot = py_strip (text_of (jget source ''data_slot''));
          status = py_strip (text_of (jget (an_entry e) ''status''));
          wall = lt_wall (local_of S now);
          info = \<lparr>ci_now = now, ci_week = week, ci_month = an_month e, ci_update_id = update_id,
                  ci_accepted = local_of S (an_accepted_at e), ci_input = jget source ''monthly_input''\<rparr>
      in if update_id = [] then Inl (State_error (context @ ''.source_update.accepted_update_id is missing''))
         else if source_slot \<notin> set SLOTS
         then Inl (State_error (context @ ''.source_update.data_slot is invalid''))
         else if status \<notin> set MONTHLY_STATUSES then Inl (State_error (context @ ''.status is invalid''))
         else sbind (slots_of context (an_entry e)) (\<lambda>slots.
           sbind (attempt_status context slots TUESDAY) (\<lambda>tuesday_status.
           sbind (attempt_status context slots WEDNESDAY) (\<lambda>wednesday_status.
             if truthy (jget source ''monthly_input'') \<and> \<not> is_obj (jget source ''monthly_input'')
             then Inl Attribute_error
             else Inr (monthly_core info status source_slot (isoweekday (ordinal_of wall)) wall
                         wednesday_due fallback tuesday_status wednesday_status)))))"

definition plan_monthly_in :: "schedule \<Rightarrow> instant \<Rightarrow> dict \<Rightarrow> decision sched_result" where
  "plan_monthly_in S now state =
     (let week = iso_week_identity S now
      in sbind (slot_datetime S week WEDNESDAY) (\<lambda>wednesday_due.
        sbind (plan_data_update_in S now state) (\<lambda>next_data.
        sbind (monthly_entry_for_week S week (records state ''monthly_candidates'')) (\<lambda>matched.
          case matched of
            None \<Rightarrow> Inr (no_candidate S now week (dc_next_due next_data))
          | Some e \<Rightarrow> anchored_decision S now week wednesday_due (dc_next_due next_data) e))))"

definition plan_monthly_candidate ::
  "schedule \<Rightarrow> instant \<Rightarrow> state_file \<Rightarrow> decision sched_result \<times> state_file" where
  "plan_monthly_candidate S now =
     with_state now (\<lambda>state. sbind (plan_monthly_in S now state) (\<lambda>d. Inr (d, None)))"

section \<open>Claiming and completing the candidate\<close>

definition option_text :: "string option \<Rightarrow> string" where
  "option_text v = (case v of None \<Rightarrow> ''None'' | Some s \<Rightarrow> s)"

definition claim_monthly_in :: "schedule \<Rightarrow> instant \<Rightarrow> string \<Rightarrow> claim_result transition" where
  "claim_monthly_in S now new_id state =
     sbind (plan_monthly_in S now state) (\<lambda>d.
       if dc_action d \<noteq> ACTION_MONTHLY_CANDIDATE then Inr (unclaimed d, None)
       else (let month = option_text (dc_month d); slot = option_text (dc_slot d);
                 monthly = records state ''monthly_candidates'';
                 context = context_of ''monthly_candidates'' month
             in if \<not> is_obj (jget monthly month) then Inl (State_error (context @ '' must be an object''))
                else (let entry = obj_of (jget monthly month)
                      in sbind (slots_of context entry) (\<lambda>slots.
                        sbind (with_missed_tuesday S ''error''
                                 ''tuesday_candidate_slot_interrupted_or_missed'' (dc_week d) now slot slots)
                          (\<lambda>slots'.
                            let claim_id = py_strip new_id
                            in if claim_id = []
                               then Inl (Transition_error ''claim_id_factory returned an empty claim ID'')
                               else Inr (\<lparr>cr_decision = d, cr_claimed = True, cr_claim_id = Some claim_id,
                                          cr_policy = JNull\<rparr>,
                                         Some (put_slots ''monthly_candidates'' month
                                                 (jset ''status'' (JStr ''in_progress'') entry)
                                                 (jset slot (JObj (claimed_attempt claim_id (dc_due d) now))
                                                    slots') state)))))))"

definition claim_monthly_candidate ::
  "schedule \<Rightarrow> instant \<Rightarrow> string \<Rightarrow> state_file \<Rightarrow> claim_result sched_result \<times> state_file" where
  "claim_monthly_candidate S now new_id = with_state now (claim_monthly_in S now new_id)"

record candidate_completion =
  cc_changed :: bool
  cc_month :: string
  cc_slot :: string
  cc_next :: "decision sched_result"

definition candidate_attempt :: "bool \<Rightarrow> string \<Rightarrow> string option \<Rightarrow> instant \<Rightarrow> dict \<Rightarrow> dict" where
  "candidate_attempt succeeded candidate_id error now attempt =
     (let done = jset ''completed_at_utc'' (JStr (utc_iso now))
                   (jset ''status'' (JStr (if succeeded then SUCCEEDED else FAILED)) attempt);
          message = text_or_empty error
      in if succeeded then jset ''candidate_id'' (JStr candidate_id) done
         else jset ''error'' (JStr (if message = [] then ''candidate_failed'' else message)) done)"

definition candidate_entry :: "bool \<Rightarrow> string \<Rightarrow> instant \<Rightarrow> string \<Rightarrow> dict \<Rightarrow> dict" where
  "candidate_entry succeeded candidate_id now slot entry =
     (if succeeded
      then jset ''succeeded_at_utc'' (JStr (utc_iso now))
             (jset ''successful_candidate_id'' (JStr candidate_id)
               (jset ''status'' (JStr ''succeeded'') entry))
      else jset ''status'' (JStr (failed_entry_status slot)) entry)"

definition complete_monthly_in ::
  "schedule \<Rightarrow> instant \<Rightarrow> string \<Rightarrow> bool \<Rightarrow> string \<Rightarrow> string option \<Rightarrow> candidate_completion transition" where
  "complete_monthly_in S now claim_id succeeded candidate_id error state =
     sbind (locate_claim ''monthly_candidates'' (records state ''monthly_candidates'') claim_id) (\<lambda>c.
       let status = status_text (lc_attempt c); expected = (if succeeded then SUCCEEDED else FAILED)
       in if status = SUCCEEDED \<or> status = FAILED
          then (if status \<noteq> expected
                then Inl (Transition_error ''Candidate claim is already in another state'')
                else if succeeded \<and> text_of (jget (lc_attempt c) ''candidate_id'') \<noteq> candidate_id
                then Inl (Transition_error ''Candidate claim already completed for a different candidate'')
                else Inr (\<lparr>cc_changed = False, cc_month = lc_key c, cc_slot = lc_slot c,
                           cc_next = plan_monthly_in S now state\<rparr>, None))
          else if status \<noteq> CLAIMED
          then Inl (Transition_error ''Candidate claim is not in progress'')
          else (let state' = put_attempt ''monthly_candidates'' c
                               (candidate_entry succeeded candidate_id now (lc_slot c) (lc_entry c))
                               (candidate_attempt succeeded candidate_id error now (lc_attempt c)) state
                in Inr (\<lparr>cc_changed = True, cc_month = lc_key c, cc_slot = lc_slot c,
                         cc_next = plan_monthly_in S now (stamped now state')\<rparr>, Some state')))"

definition complete_monthly_candidate ::
  "schedule \<Rightarrow> instant \<Rightarrow> string \<Rightarrow> bool \<Rightarrow> string option \<Rightarrow> string option \<Rightarrow> state_file
   \<Rightarrow> candidate_completion sched_result \<times> state_file" where
  "complete_monthly_candidate S now claim_id succeeded candidate_id error f =
     (let cand = py_strip (text_or_empty candidate_id)
      in if py_strip claim_id = [] then (Inl (Value_error ''claim_id must not be empty''), f)
         else if succeeded \<and> cand = []
         then (Inl (Value_error ''candidate_id is required for a successful candidate''), f)
         else (case with_state now (complete_monthly_in S now (py_strip claim_id) succeeded cand error) f of
                 (Inr answer, f') \<Rightarrow> (case cc_next answer of Inl e \<Rightarrow> (Inl e, f') | Inr _ \<Rightarrow> (Inr answer, f'))
               | (Inl e, f') \<Rightarrow> (Inl e, f')))"

text \<open>\<open>status()\<close>: both decisions in one read.\<close>

definition schedule_status ::
  "schedule \<Rightarrow> instant \<Rightarrow> state_file \<Rightarrow> (dict \<times> decision \<times> decision) sched_result \<times> state_file" where
  "schedule_status S now =
     with_state now (\<lambda>state.
       sbind (plan_data_update_in S now state) (\<lambda>d.
         sbind (plan_monthly_in S now state) (\<lambda>m. Inr ((state, d, m), None))))"

end
