(* ===== verification/Schedule_Laws.thy ===== *)
theory Schedule_Laws
  imports Schedule_Monthly
begin

text \<open>
  The schedule as a state machine. Every slot of every week and month is free, running, or done;
  what the operations do to the record of an attempt decides how the slot moves. Also the records
  of the state as association lists, and what a due slot and an accepted update mean.
\<close>

section \<open>Records of the state\<close>

lemma all_jset: "list_all P d \<Longrightarrow> P (k, v) \<Longrightarrow> list_all P (jset k v d)"
  by (induction k v d rule: jset.induct) auto

lemma all_jget: "list_all P d \<Longrightarrow> has_key d k \<Longrightarrow> P (k, jget d k)"
  by (auto simp: has_key_def jget_def list_all_iff dest: map_of_SomeD)

lemma jget_absent: "\<not> has_key d k \<Longrightarrow> jget d k = JNull"
  by (auto simp: has_key_def jget_def)

lemma has_key_if: "jget d k \<noteq> JNull \<Longrightarrow> has_key d k"
  using jget_absent by blast

definition slot_at :: "dict \<Rightarrow> string \<Rightarrow> string \<Rightarrow> string \<Rightarrow> json" where
  "slot_at state collection key slot =
     jget (obj_of (jget (obj_of (jget (records state collection) key)) ''slots'')) slot"

definition record_at :: "dict \<Rightarrow> string \<Rightarrow> string \<Rightarrow> dict" where
  "record_at state collection key = obj_of (jget (records state collection) key)"

lemma slot_at_put_slots [simp]:
  "slot_at (put_slots collection key entry slots state) collection' key' slot' =
     (if collection' = collection \<and> key' = key then jget slots slot'
      else slot_at state collection' key' slot')"
  by (simp add: slot_at_def put_slots_def records_def)

lemma records_stamped [simp]:
  "collection \<noteq> ''updated_at_utc'' \<Longrightarrow> records (stamped now state) collection = records state collection"
  by (simp add: records_def stamped_def)

lemma slots_of_Inr: "slots_of context entry = Inr slots \<Longrightarrow> slots = obj_of (jget entry ''slots'')"
  by (auto simp: slots_of_def jget_absent split: if_split_asm json.split_asm)

lemma entry_of_Inr: "entry_of collection recs key = Inr entry \<Longrightarrow> entry = obj_of (jget recs key)"
  by (auto simp: entry_of_def jget_absent split: if_split_asm json.split_asm)

lemma attempt_status_None: "attempt_status context slots slot = Inr None \<longleftrightarrow> jget slots slot = JNull"
  by (auto simp: attempt_status_def Let_def split: json.splits if_splits)

lemma attempt_status_Some:
  "attempt_status context slots slot = Inr (Some s) \<Longrightarrow>
   is_obj (jget slots slot) \<and> py_strip (text_of (jget (obj_of (jget slots slot)) ''status'')) = s"
  by (auto simp: attempt_status_def Let_def split: json.splits if_splits)

section \<open>The stages of a slot\<close>

datatype stage = Free | Running | Succeeded | Failed | Odd

definition stage :: "json \<Rightarrow> stage" where
  "stage v =
     (case v of
        JNull \<Rightarrow> Free
      | JObj a \<Rightarrow>
          (if status_text a = CLAIMED then Running
           else if status_text a = SUCCEEDED then Succeeded
           else if status_text a = FAILED then Failed else Odd)
      | _ \<Rightarrow> Odd)"

text \<open>The moves of a slot: it is claimed once, a Tuesday that was missed is recorded as failed, and
  a running attempt ends in one of the two ways.\<close>

inductive moves :: "stage \<Rightarrow> stage \<Rightarrow> bool" where
  stay: "moves s s"
| claim: "moves Free Running"
| missed: "moves Free Failed"
| succeed: "moves Running Succeeded"
| fail: "moves Running Failed"

inductive_simps moves_simps: "moves s s'"

text \<open>Over many steps: done is final, and a running slot never becomes free.\<close>

definition reaches :: "stage \<Rightarrow> stage \<Rightarrow> bool" where
  "reaches s s' \<longleftrightarrow> s' = s \<or> s = Free \<and> s' \<in> {Running, Succeeded, Failed}
     \<or> s = Running \<and> s' \<in> {Succeeded, Failed}"

lemma moves_reaches: "moves s s' \<Longrightarrow> reaches s s'"
  by (auto simp: moves_simps reaches_def)

lemma reaches_trans: "reaches a b \<Longrightarrow> reaches b c \<Longrightarrow> reaches a c"
  by (auto simp: reaches_def)

lemma stage_simps [simp]: "stage JNull = Free"
  by (simp add: stage_def)

lemma stage_JObj: "stage (JObj a) =
    (if status_text a = CLAIMED then Running else if status_text a = SUCCEEDED then Succeeded
     else if status_text a = FAILED then Failed else Odd)"
  by (simp add: stage_def)

lemma status_text_jset: "status_text (jset k v a) = (if k = ''status'' then text_of v else status_text a)"
  by (simp add: status_text_def)

definition slots_move :: "dict \<Rightarrow> dict \<Rightarrow> bool" where
  "slots_move state state' \<longleftrightarrow>
     (\<forall>collection \<in> {''weekly'', ''monthly_candidates''}. \<forall>key slot.
        moves (stage (slot_at state collection key slot)) (stage (slot_at state' collection key slot)))"

lemma slots_move_refl [simp]: "slots_move state state"
  by (simp add: slots_move_def moves.stay)

lemma slots_move_stamped [simp]: "slots_move state (stamped now state') = slots_move state state'"
  by (simp add: slots_move_def slot_at_def)

lemma slots_move_put:
  assumes "\<And>slot. moves (stage (slot_at state collection key slot)) (stage (jget slots slot))"
  shows "slots_move state (put_slots collection key entry slots state)"
  using assms by (auto simp: slots_move_def moves.stay)

section \<open>A weekly claim\<close>

text \<open>What it means that the plan asks for a data update.\<close>

record due_facts =
  df_entry :: dict
  df_slots :: dict
  df_tuesday :: local_time
  df_wednesday :: local_time

definition due_in_slot :: "schedule \<Rightarrow> instant \<Rightarrow> dict \<Rightarrow> string \<Rightarrow> due_facts \<Rightarrow> bool" where
  "due_in_slot S now state slot F \<longleftrightarrow>
     (let week = iso_week_identity S now; wall = lt_wall (local_of S now);
          weekday = isoweekday (ordinal_of wall)
      in entry_of ''weekly'' (records state ''weekly'') week = Inr (df_entry F)
         \<and> slots_of (context_of ''weekly'' week) (df_entry F) = Inr (df_slots F)
         \<and> slot_datetime S week TUESDAY = Inr (df_tuesday F)
         \<and> slot_datetime S week WEDNESDAY = Inr (df_wednesday F)
         \<and> fenced_claim (records state ''weekly'') = Inr None
         \<and> \<not> truthy (jget (df_entry F) ''accepted_update'')
         \<and> jget (df_slots F) slot = JNull
         \<and> (slot = TUESDAY \<and> weekday = 2 \<and> lt_wall (df_tuesday F) \<le> wall
            \<or> slot = WEDNESDAY \<and> weekday = 3 \<and> lt_wall (df_wednesday F) \<le> wall
              \<and> (jget (df_slots F) TUESDAY = JNull
                 \<or> attempt_status (context_of ''weekly'' week) (df_slots F) TUESDAY = Inr (Some FAILED))))"

lemma weekly_core_due:
  assumes "dc_action (weekly_core now week weekday wall t w nx ts ws) = ACTION_DATA_UPDATE"
  shows "dc_week (weekly_core now week weekday wall t w nx ts ws) = week
    \<and> (dc_slot (weekly_core now week weekday wall t w nx ts ws) = Some TUESDAY
         \<and> dc_due (weekly_core now week weekday wall t w nx ts ws) = Some t
         \<and> ts = None \<and> weekday = 2 \<and> lt_wall t \<le> wall
       \<or> dc_slot (weekly_core now week weekday wall t w nx ts ws) = Some WEDNESDAY
         \<and> dc_due (weekly_core now week weekday wall t w nx ts ws) = Some w
         \<and> ws = None \<and> weekday = 3 \<and> lt_wall w \<le> wall \<and> (ts = None \<or> ts = Some FAILED))"
  using assms unfolding weekly_core_def Let_def weekly_decision_def TUESDAY_ISO_WEEKDAY_def
    WEDNESDAY_ISO_WEEKDAY_def
  by (simp split: if_split_asm)

lemma if_Inr: "(if b then Inr x else Inr y) = Inr (if b then x else y)"
  by simp

lemma plan_due:
  assumes "plan_data_update_in S now state = Inr d" and "dc_action d = ACTION_DATA_UPDATE"
  obtains F slot where "due_in_slot S now state slot F" "dc_slot d = Some slot"
    "dc_week d = iso_week_identity S now"
    "dc_due d = Some (if slot = TUESDAY then df_tuesday F else df_wednesday F)"
proof -
  define week where "week = iso_week_identity S now"
  define wall where "wall = lt_wall (local_of S now)"
  note plan = assms(1) [unfolded plan_data_update_in_def Let_def, folded week_def, folded wall_def]
  obtain fence where fence: "fenced_claim (records state ''weekly'') = Inr fence"
    using plan by (auto simp: sbind_eq_Inr)
  have none: "fence = None"
  proof (rule ccontr)
    assume "fence \<noteq> None"
    then obtain k where "fence = Some k" by blast
    then have "dc_action d = ACTION_NONE"
      using plan fence by (cases k) (auto simp: weekly_decision_def)
    then show False using assms(2) by simp
  qed
  obtain nk nx t w entry slots ts ws acc where parts:
    "next_week_key week = Inr nk" "slot_datetime S nk TUESDAY = Inr nx"
    "slot_datetime S week TUESDAY = Inr t" "slot_datetime S week WEDNESDAY = Inr w"
    "entry_of ''weekly'' (records state ''weekly'') week = Inr entry"
    "slots_of (context_of ''weekly'' week) entry = Inr slots"
    "attempt_status (context_of ''weekly'' week) slots TUESDAY = Inr ts"
    "attempt_status (context_of ''weekly'' week) slots WEDNESDAY = Inr ws"
    "accepted_update_of week entry ts ws = Inr acc"
    and d: "d = (if acc then weekly_decision now week ACTION_NONE ''weekly_update_already_succeeded'' None
                  None (Some nx) False
                else weekly_core now week (isoweekday (ordinal_of wall)) wall t w nx ts ws)"
    using plan unfolding fence none sbind_simps option.case sbind_eq_Inr if_Inr sum.inject
    by (elim exE conjE) (rule that, assumption+, rule sym, assumption)
  have "\<not> acc" using d assms(2) by (auto simp: weekly_decision_def)
  then have core: "d = weekly_core now week (isoweekday (ordinal_of wall)) wall t w nx ts ws"
    using d by simp
  have acc: "\<not> truthy (jget entry ''accepted_update'')"
    using parts(9) \<open>\<not> acc\<close> by (auto simp: accepted_update_of_def Let_def split: if_split_asm)
  note due = weekly_core_due [OF assms(2) [unfolded core], folded core]
  define F where "F = \<lparr>df_entry = entry, df_slots = slots, df_tuesday = t, df_wednesday = w\<rparr>"
  have tue: "jget slots TUESDAY = JNull" if "ts = None"
    using parts(7) that by (simp only: attempt_status_None)
  have wed: "jget slots WEDNESDAY = JNull" if "ws = None"
    using parts(8) that by (simp only: attempt_status_None)
  have base: "due_in_slot S now state slot F \<longleftrightarrow> jget slots slot = JNull \<and>
      (slot = TUESDAY \<and> isoweekday (ordinal_of wall) = 2 \<and> lt_wall t \<le> wall
       \<or> slot = WEDNESDAY \<and> isoweekday (ordinal_of wall) = 3 \<and> lt_wall w \<le> wall
         \<and> (jget slots TUESDAY = JNull
            \<or> attempt_status (context_of ''weekly'' week) slots TUESDAY = Inr (Some FAILED)))" for slot
    using parts(3-6) fence none acc
    unfolding due_in_slot_def Let_def week_def [symmetric] wall_def [symmetric] F_def by simp
  from due have "dc_slot d = Some TUESDAY \<and> dc_due d = Some t \<and> due_in_slot S now state TUESDAY F
     \<or> dc_slot d = Some WEDNESDAY \<and> dc_due d = Some w \<and> due_in_slot S now state WEDNESDAY F"
    using tue wed parts(7) unfolding base by blast
  then show thesis
  proof (elim disjE conjE)
    assume "dc_slot d = Some TUESDAY" "dc_due d = Some t" "due_in_slot S now state TUESDAY F"
    then show thesis using that [of TUESDAY F] due week_def by (simp add: F_def)
  next
    assume "dc_slot d = Some WEDNESDAY" "dc_due d = Some w" "due_in_slot S now state WEDNESDAY F"
    then show thesis using that [of WEDNESDAY F] due week_def by (simp add: F_def)
  qed
qed

text \<open>Both kinds of claim write one attempt, and possibly the missed Tuesday.\<close>

lemma missed_tuesday_stage [simp]: "stage (JObj (missed_tuesday key message due now)) = Failed"
  by (simp add: stage_JObj missed_tuesday_def status_text_def jget_Cons)

lemma claimed_attempt_status [simp]: "status_text (claimed_attempt claim_id due now) = CLAIMED"
  by (simp add: claimed_attempt_def status_text_def jget_Cons)

lemma weekly_attempt_status [simp]: "status_text (weekly_attempt S claim_id due now) = CLAIMED"
  by (simp add: weekly_attempt_def status_text_jset split: option.split)

lemma with_missed_tuesday_moves:
  assumes "with_missed_tuesday S key message week now slot slots = Inr slots'"
  shows "moves (stage (jget slots k)) (stage (jget slots' k))"
  using assms
  by (auto simp: with_missed_tuesday_def sbind_eq_Inr moves.stay jget_absent moves.missed
      split: if_split_asm)

lemma claim_slots_move:
  assumes "with_missed_tuesday S key message week now slot slots = Inr slots'"
    and "jget slots slot = JNull" and "slot \<in> set SLOTS" and "status_text attempt = CLAIMED"
  shows "moves (stage (jget slots k)) (stage (jget (jset slot (JObj attempt) slots') k))"
  using with_missed_tuesday_moves [OF assms(1), of k] assms(2,4)
  by (auto simp: stage_JObj moves.claim)

lemma claim_data_written:
  assumes "claim_data_update_in S now new_id state = Inr (r, Some state')"
  obtains F slot slots' claim_id where "due_in_slot S now state slot F"
    "claim_id = py_strip new_id" "claim_id \<noteq> []"
    "with_missed_tuesday S ''failure'' ''tuesday_slot_missed'' (iso_week_identity S now) now slot
       (df_slots F) = Inr slots'"
    "cr_claimed r" "cr_claim_id r = Some claim_id" "dc_slot (cr_decision r) = Some slot"
    "dc_week (cr_decision r) = iso_week_identity S now"
    "\<exists>entry due. state' = put_slots ''weekly'' (iso_week_identity S now) entry
       (jset slot (JObj (weekly_attempt S claim_id due now)) slots') state
       \<and> (entry = df_entry F \<or> entry = fresh_week (iso_week_identity S now))"
proof -
  obtain d where d: "plan_data_update_in S now state = Inr d" "dc_action d = ACTION_DATA_UPDATE"
    using assms by (auto simp: claim_data_update_in_def sbind_eq_Inr split: if_split_asm)
  obtain F slot where F: "due_in_slot S now state slot F" "dc_slot d = Some slot"
    "dc_week d = iso_week_identity S now"
    using plan_due [OF d] by blast
  define week where "week = iso_week_identity S now"
  define weekly where "weekly = records state ''weekly''"
  note run = assms [unfolded claim_data_update_in_def d(1) sbind_simps d(2) F(2,3) Let_def option.case
      simp_thms if_False, folded week_def weekly_def]
  obtain entry slots slots' where steps:
    "(if has_key weekly week then entry_of ''weekly'' weekly week else Inr (fresh_week week)) = Inr entry"
    "slots_of (context_of ''weekly'' week) entry = Inr slots"
    "with_missed_tuesday S ''failure'' ''tuesday_slot_missed'' week now slot slots = Inr slots'"
    "py_strip new_id \<noteq> []"
    "r = \<lparr>cr_decision = d, cr_claimed = True, cr_claim_id = Some (py_strip new_id),
          cr_policy = jget (weekly_attempt S (py_strip new_id) (dc_due d) now) ''monthly_policy''\<rparr>"
    "state' = put_slots ''weekly'' week entry
       (jset slot (JObj (weekly_attempt S (py_strip new_id) (dc_due d) now)) slots') state"
    using run by (auto simp: sbind_eq_Inr split: if_split_asm)
  have known: "entry_of ''weekly'' weekly week = Inr (df_entry F)"
    "slots_of (context_of ''weekly'' week) (df_entry F) = Inr (df_slots F)"
    using F(1) by (auto simp: due_in_slot_def Let_def week_def weekly_def)
  have "slots = df_slots F \<and> (entry = df_entry F \<or> entry = fresh_week week)"
  proof (cases "has_key weekly week")
    case True
    then show ?thesis using steps(1,2) known by simp
  next
    case False
    then have "df_entry F = []" using known(1) by (simp add: entry_of_def)
    then have "df_slots F = []" using known(2) by (simp add: slots_of_def has_key_def)
    moreover have "slots = []"
      using steps(1,2) False by (auto simp: slots_of_def fresh_week_def has_key_def jget_Cons split: if_split_asm)
    ultimately show ?thesis using steps(1) False by simp
  qed
  then show thesis
    using that [OF F(1) refl steps(4)] steps(3,5,6) F(2,3) unfolding week_def by auto
qed

lemma due_slot: "due_in_slot S now state slot F \<Longrightarrow> slot \<in> set SLOTS"
  by (auto simp: due_in_slot_def Let_def SLOTS_def)

lemma due_slots_at:
  assumes "due_in_slot S now state slot F"
  shows "slot_at state ''weekly'' (iso_week_identity S now) k = jget (df_slots F) k"
  using assms by (auto simp: due_in_slot_def Let_def slot_at_def dest!: slots_of_Inr entry_of_Inr)

lemma claim_data_moves:
  assumes "claim_data_update_in S now new_id state = Inr (r, Some state')"
  shows "slots_move state state'"
  using assms
proof (rule claim_data_written)
  fix F slot slots' claim_id
  assume F: "due_in_slot S now state slot F"
    and slots': "with_missed_tuesday S ''failure'' ''tuesday_slot_missed'' (iso_week_identity S now) now
      slot (df_slots F) = Inr slots'"
    and "\<exists>entry due. state' = put_slots ''weekly'' (iso_week_identity S now) entry
       (jset slot (JObj (weekly_attempt S claim_id due now)) slots') state
       \<and> (entry = df_entry F \<or> entry = fresh_week (iso_week_identity S now))"
  then obtain entry due where state': "state' = put_slots ''weekly'' (iso_week_identity S now) entry
       (jset slot (JObj (weekly_attempt S claim_id due now)) slots') state" by blast
  have free: "jget (df_slots F) slot = JNull" using F by (simp add: due_in_slot_def Let_def)
  show ?thesis
    unfolding state'
    by (rule slots_move_put)
      (simp only: due_slots_at [OF F] claim_slots_move [OF slots' free due_slot [OF F] weekly_attempt_status])
qed

end
