(* ===== verification/Schedule_Moves.thy ===== *)
theory Schedule_Moves
  imports Schedule_Laws
begin

text \<open>
  Every operation of the schedule obeys one contract: it keeps the shape of the state and moves
  slots only forward. The contract is the locale \<open>schedule_transition\<close>; histories of operations
  follow from it alone.
\<close>

section \<open>The shape of the state\<close>

text \<open>A state that loads, with no key twice in a collection.\<close>

definition state_ok :: "dict \<Rightarrow> bool" where
  "state_ok state \<longleftrightarrow>
     py_eq (jget state ''schema_version'') (JInt 1)
     \<and> is_obj (jget state ''weekly'') \<and> is_obj (jget state ''monthly_candidates'')
     \<and> distinct (map fst (records state ''weekly''))
     \<and> distinct (map fst (records state ''monthly_candidates''))"

lemma state_ok_new: "state_ok new_state"
  by (simp add: state_ok_def new_state_def jget_Cons records_def num_eq_def feq_def)

lemma state_ok_stamped [simp]: "state_ok (stamped now state) = state_ok state"
  by (simp add: state_ok_def) (simp add: stamped_def)

lemma state_ok_load: "state_ok state \<Longrightarrow> load_state (Stored (JObj state)) = Inr state"
  by (simp add: load_state_def state_ok_def)

lemma records_put_slots [simp]:
  "records (put_slots collection key entry slots state) collection' =
     (if collection' = collection
      then jset key (JObj (jset ''slots'' (JObj slots) entry)) (records state collection)
      else records state collection')"
  by (simp add: records_def put_slots_def)

lemma state_ok_put_slots:
  "state_ok state \<Longrightarrow> collection \<in> {''weekly'', ''monthly_candidates''} \<Longrightarrow>
   state_ok (put_slots collection key entry slots state)"
  unfolding state_ok_def
  by (elim conjE, intro conjI)
    (auto simp: distinct_jset put_slots_def records_def simp del: py_eq.simps)

section \<open>The located claim\<close>

definition slots_in :: "json \<Rightarrow> dict" where
  "slots_in v = obj_of (jget (obj_of v) ''slots'')"

lemma slot_at_slots_in: "slot_at state collection key slot = jget (slots_in (jget (records state collection) key)) slot"
  by (simp add: slot_at_def slots_in_def)

lemma is_obj_iff: "is_obj v \<longleftrightarrow> (\<exists>d. v = JObj d)"
  by (cases v) auto

text \<open>A claim that is found is the record of exactly one slot.\<close>

lemma matching_claims_in:
  "matching_claims collection claim_id recs = Inr found \<Longrightarrow>
   c \<in> set found \<longleftrightarrow>
     (\<exists>v. (lc_key c, v) \<in> set recs \<and> v = JObj (lc_entry c) \<and> lc_slots c = slots_in v
        \<and> lc_slot c \<in> set SLOTS \<and> jget (lc_slots c) (lc_slot c) = JObj (lc_attempt c)
        \<and> text_of (jget (lc_attempt c) ''claim_id'') = claim_id)"
proof (induction collection claim_id recs arbitrary: found rule: matching_claims.induct)
  case (1 collection claim_id)
  then show ?case by simp
next
  case (2 collection claim_id key entry rest)
  obtain d where d: "entry = JObj d" using "2.prems" by (auto simp: is_obj_iff split: if_split_asm)
  obtain slots more where parts: "slots_of (context_of collection key) d = Inr slots"
    "matching_claims collection claim_id rest = Inr more"
    "found = matching_slots claim_id key d slots @ more"
    using "2.prems" by (auto simp: d sbind_eq_Inr)
  have slots: "slots = slots_in entry" using slots_of_Inr [OF parts(1)] by (simp add: slots_in_def d)
  have IH: "c \<in> set more \<longleftrightarrow>
     (\<exists>v. (lc_key c, v) \<in> set rest \<and> v = JObj (lc_entry c) \<and> lc_slots c = slots_in v
        \<and> lc_slot c \<in> set SLOTS \<and> jget (lc_slots c) (lc_slot c) = JObj (lc_attempt c)
        \<and> text_of (jget (lc_attempt c) ''claim_id'') = claim_id)"
    by (rule "2.IH" [OF _ parts(2)]) (simp add: d)
  have first: "c \<in> set (matching_slots claim_id key d slots) \<longleftrightarrow>
      lc_key c = key \<and> entry = JObj (lc_entry c) \<and> lc_slots c = slots_in entry
        \<and> lc_slot c \<in> set SLOTS \<and> jget (lc_slots c) (lc_slot c) = JObj (lc_attempt c)
        \<and> text_of (jget (lc_attempt c) ''claim_id'') = claim_id"
    by (cases c) (auto simp: matching_slots_def image_iff slots d is_obj_iff)
  show ?case unfolding parts(3) set_append Un_iff IH first by auto
qed

lemma locate_claim_Inr:
  assumes "locate_claim collection recs claim_id = Inr c" and "distinct (map fst recs)"
  shows "jget recs (lc_key c) = JObj (lc_entry c)" "lc_slots c = slots_in (JObj (lc_entry c))"
    "lc_slot c \<in> set SLOTS" "jget (lc_slots c) (lc_slot c) = JObj (lc_attempt c)"
    "text_of (jget (lc_attempt c) ''claim_id'') = claim_id"
proof -
  obtain found where found: "matching_claims collection claim_id recs = Inr found" "found = [c]"
  proof -
    obtain found where 1: "matching_claims collection claim_id recs = Inr found"
      and 2: "(case found of [] \<Rightarrow> Inl (Transition_error (''Unknown '' @ collection @ '' claim ID''))
         | [c] \<Rightarrow> Inr c | _ \<Rightarrow> Inl (State_error (''Duplicate '' @ collection @ '' claim ID''))) = Inr c"
      using assms(1) unfolding locate_claim_def sbind_eq_Inr by blast
    from 2 have "found = [c]" by (auto split: list.split_asm)
    with 1 show thesis by (rule that)
  qed
  then have "c \<in> set found" by simp
  with matching_claims_in [OF found(1), of c] obtain v where
    v: "(lc_key c, v) \<in> set recs" "v = JObj (lc_entry c)" "lc_slots c = slots_in v"
      "lc_slot c \<in> set SLOTS" "jget (lc_slots c) (lc_slot c) = JObj (lc_attempt c)"
      "text_of (jget (lc_attempt c) ''claim_id'') = claim_id" by blast
  show "jget recs (lc_key c) = JObj (lc_entry c)"
    using v(1,2) assms(2) by (simp add: jget_def)
  show "lc_slots c = slots_in (JObj (lc_entry c))" using v(2,3) by simp
  show "lc_slot c \<in> set SLOTS" "jget (lc_slots c) (lc_slot c) = JObj (lc_attempt c)"
    "text_of (jget (lc_attempt c) ''claim_id'') = claim_id" using v by simp_all
qed

lemma locate_slot_at:
  assumes "locate_claim collection (records state collection) claim_id = Inr c"
    and "distinct (map fst (records state collection))"
  shows "slot_at state collection (lc_key c) slot = jget (lc_slots c) slot"
  using locate_claim_Inr [OF assms] by (simp add: slot_at_slots_in)

lemma put_attempt_moves:
  assumes "locate_claim collection (records state collection) claim_id = Inr c"
    and "distinct (map fst (records state collection))"
    and "moves (stage (JObj (lc_attempt c))) (stage (JObj attempt))"
  shows "slots_move state (put_attempt collection c entry attempt state)"
  unfolding put_attempt_def
  by (rule slots_move_put)
    (use assms(3) locate_claim_Inr(4) [OF assms(1,2)] in
      \<open>auto simp: locate_slot_at [OF assms(1,2)] moves.stay\<close>)

section \<open>The contract\<close>

locale schedule_transition =
  fixes tr :: "'r transition"
  assumes keeps_shape: "state_ok state \<Longrightarrow> tr state = Inr (r, Some state') \<Longrightarrow> state_ok state'"
    and moves_slots: "state_ok state \<Longrightarrow> tr state = Inr (r, Some state') \<Longrightarrow> slots_move state state'"

definition file_slot :: "state_file \<Rightarrow> string \<Rightarrow> string \<Rightarrow> string \<Rightarrow> json" where
  "file_slot f collection key slot =
     (case load_state f of Inl _ \<Rightarrow> JNull | Inr state \<Rightarrow> slot_at state collection key slot)"

definition file_ok :: "state_file \<Rightarrow> bool" where
  "file_ok f \<longleftrightarrow> (\<exists>state. load_state f = Inr state \<and> state_ok state)"

definition file_moves :: "state_file \<Rightarrow> state_file \<Rightarrow> bool" where
  "file_moves f f' \<longleftrightarrow>
     (\<forall>collection \<in> {''weekly'', ''monthly_candidates''}. \<forall>key slot.
        moves (stage (file_slot f collection key slot)) (stage (file_slot f' collection key slot)))"

lemma file_moves_refl: "file_moves f f"
  by (simp add: file_moves_def moves.stay)

context schedule_transition
begin

lemma step_ok:
  assumes "file_ok f"
  shows "file_ok (snd (with_state now tr f)) \<and> file_moves f (snd (with_state now tr f))"
proof -
  obtain state where state: "load_state f = Inr state" "state_ok state"
    using assms by (auto simp: file_ok_def)
  consider (1) "snd (with_state now tr f) = f"
    | (2) r state' where "tr state = Inr (r, Some state')"
      "snd (with_state now tr f) = Stored (JObj (stamped now state'))"
  proof (cases "tr state")
    case (Inl e)
    then show thesis using 1 state(1) by (simp add: with_state_def)
  next
    case (Inr a)
    obtain r w where "a = (r, w)" by (cases a)
    with Inr show thesis using 1 2 [of r] state(1) by (cases w) (simp_all add: with_state_def)
  qed
  then show ?thesis
  proof cases
    case 1
    then show ?thesis using assms by (simp add: file_moves_refl)
  next
    case 2
    have ok: "state_ok (stamped now state')" using keeps_shape [OF state(2) 2(1)] by simp
    have "slots_move state (stamped now state')" using moves_slots [OF state(2) 2(1)] by simp
    then show ?thesis
      using ok state(1) 2(2) state_ok_load [OF ok]
      by (auto simp: file_ok_def file_moves_def file_slot_def slots_move_def)
  qed
qed

end

section \<open>The operations keep the contract\<close>

interpretation claiming: schedule_transition "claim_data_update_in S now new_id" for S now new_id
proof unfold_locales
  fix state r state'
  assume ok: "state_ok state" and run: "claim_data_update_in S now new_id state = Inr (r, Some state')"
  show "slots_move state state'" using run by (rule claim_data_moves)
  show "state_ok state'"
    using run by (rule claim_data_written) (use ok in \<open>auto simp: state_ok_put_slots\<close>)
qed

lemma stage_fence [simp]: "stage (JObj (jset ''completion_evidence_required'' v a)) = stage (JObj a)"
  by (simp add: stage_JObj status_text_jset)

lemma put_attempt_ok:
  "state_ok state \<Longrightarrow> collection \<in> {''weekly'', ''monthly_candidates''} \<Longrightarrow>
   state_ok (put_attempt collection c entry attempt state)"
  by (simp add: put_attempt_def state_ok_put_slots)

interpretation protecting: schedule_transition "protect_data_completion_in claim_id" for claim_id
proof unfold_locales
  fix state r state'
  assume ok: "state_ok state" and run: "protect_data_completion_in claim_id state = Inr (r, Some state')"
  obtain c where c: "locate_claim ''weekly'' (records state ''weekly'') claim_id = Inr c"
    "state' = put_attempt ''weekly'' c (lc_entry c)
       (jset ''completion_evidence_required'' (JBool True) (lc_attempt c)) state"
    using run by (auto simp: protect_data_completion_in_def sbind_eq_Inr split: if_split_asm)
  show "state_ok state'" using ok c(2) by (simp add: put_attempt_ok)
  show "slots_move state state'"
    unfolding c(2) by (rule put_attempt_moves [OF c(1)]) (use ok in \<open>simp_all add: state_ok_def moves.stay\<close>)
qed

lemma stage_completed:
  assumes "status_text attempt = CLAIMED"
  shows "moves (stage (JObj attempt)) (stage (JObj (completed_attempt a now attempt)))"
  using assms
  by (auto simp: stage_JObj completed_attempt_def set_pin_def Let_def status_text_jset
      moves.succeed moves.fail)

lemma recorded_moves:
  assumes "locate_claim ''weekly'' (records state ''weekly'') claim_id = Inr c" and "state_ok state"
  shows "slots_move state (recorded_completion now a accepted_id cutoff c state)
    \<and> state_ok (recorded_completion now a accepted_id cutoff c state)"
proof -
  have "distinct (map fst (records state ''weekly''))" using assms(2) by (simp add: state_ok_def)
  from put_attempt_moves [OF assms(1) this] stage_completed show ?thesis
    using assms(2) by (simp add: recorded_completion_def put_attempt_ok)
qed


text \<open>Reserving the monthly input leaves both collections alone.\<close>

lemma reserve_keeps:
  assumes "reserve_monthly_input context request state = Inr (refusal, state')"
  shows "records state' ''weekly'' = records state ''weekly''
    \<and> records state' ''monthly_candidates'' = records state ''monthly_candidates''
    \<and> jget state' ''weekly'' = jget state ''weekly''
    \<and> jget state' ''monthly_candidates'' = jget state ''monthly_candidates''
    \<and> jget state' ''schema_version'' = jget state ''schema_version''"
  using assms
  by (auto simp: reserve_monthly_input_def Let_def sbind_eq_Inr records_def split: if_split_asm)

lemma complete_data_written:
  assumes "complete_data_in S now claim_id a state = Inr (r, Some state')"
  obtains c accepted_id cutoff where "locate_claim ''weekly'' (records state ''weekly'') claim_id = Inr c"
    "records state' ''weekly'' = records (recorded_completion now a accepted_id cutoff c state) ''weekly''"
    "records state' ''monthly_candidates'' = records (recorded_completion now a accepted_id cutoff c state) ''monthly_candidates''"
    "jget state' ''weekly'' = jget (recorded_completion now a accepted_id cutoff c state) ''weekly''"
    "jget state' ''monthly_candidates'' = jget (recorded_completion now a accepted_id cutoff c state) ''monthly_candidates''"
    "jget state' ''schema_version'' = jget (recorded_completion now a accepted_id cutoff c state) ''schema_version''"
    "accepted_id = py_strip (text_or_empty (ca_accepted_id a))"
proof -
  define accepted_id where "accepted_id = py_strip (text_or_empty (ca_accepted_id a))"
  obtain c cutoff promotion res where c:
    "locate_claim ''weekly'' (records state ''weekly'') claim_id = Inr c"
    "(if ca_succeeded a
      then reserve_monthly_input
             (monthly_context S accepted_id cutoff (lc_key c) (lc_slot c) claim_id promotion)
             (ca_request a) (recorded_completion now a accepted_id cutoff c state)
      else Inr (None, recorded_completion now a accepted_id cutoff c state)) = Inr res" "snd res = state'"
    using assms unfolding complete_data_in_def Let_def sbind_eq_Inr accepted_id_def [symmetric] case_prod_beta
      sum.inject
    by (elim exE conjE) (rule that, assumption, assumption, simp split: if_split_asm del: py_eq.simps)
  show thesis
  proof (cases "ca_succeeded a")
    case True
    then have "reserve_monthly_input
        (monthly_context S accepted_id cutoff (lc_key c) (lc_slot c) claim_id promotion)
        (ca_request a) (recorded_completion now a accepted_id cutoff c state) = Inr (fst res, state')"
      using c(2,3) by (cases res) simp
    from reserve_keeps [OF this] show thesis
      by (intro that [OF c(1) _ _ _ _ _ accepted_id_def]) simp_all
  next
    case False
    then show thesis using c(2,3) by (intro that [OF c(1) _ _ _ _ _ accepted_id_def]) auto
  qed
qed

interpretation completing: schedule_transition "complete_data_in S now claim_id a" for S now claim_id a
proof unfold_locales
  fix state r state'
  assume ok: "state_ok state" and run: "complete_data_in S now claim_id a state = Inr (r, Some state')"
  from run obtain c accepted_id cutoff where
    c: "locate_claim ''weekly'' (records state ''weekly'') claim_id = Inr c"
    and same: "records state' ''weekly'' = records (recorded_completion now a accepted_id cutoff c state) ''weekly''"
    "records state' ''monthly_candidates'' = records (recorded_completion now a accepted_id cutoff c state) ''monthly_candidates''"
    "jget state' ''weekly'' = jget (recorded_completion now a accepted_id cutoff c state) ''weekly''"
    "jget state' ''monthly_candidates'' = jget (recorded_completion now a accepted_id cutoff c state) ''monthly_candidates''"
    "jget state' ''schema_version'' = jget (recorded_completion now a accepted_id cutoff c state) ''schema_version''"
    by (rule complete_data_written)
  from recorded_moves [OF c ok, of now a accepted_id cutoff]
  have "slots_move state (recorded_completion now a accepted_id cutoff c state)"
    and "state_ok (recorded_completion now a accepted_id cutoff c state)" by simp_all
  then show "slots_move state state'" "state_ok state'"
    by (simp_all add: slots_move_def slot_at_def state_ok_def same)
qed

section \<open>Expiry\<close>

text \<open>What the recovery makes of one slot.\<close>

definition aged :: "schedule \<Rightarrow> instant \<Rightarrow> string \<Rightarrow> string \<Rightarrow> string \<Rightarrow> json \<Rightarrow> json" where
  "aged S now collection key slot v =
     (case expired S now collection key slot v of
        Inr (Some age) \<Rightarrow> JObj (expired_attempt now age (obj_of v))
      | _ \<Rightarrow> v)"

lemma expired_JNull [simp]: "expired S now collection key slot JNull = Inr None"
  by (simp add: expired_def)

lemma aged_JNull [simp]: "aged S now collection key slot JNull = JNull"
  by (simp add: aged_def)

lemma expired_Some:
  assumes "expired S now collection key slot v = Inr (Some age)"
  shows "is_obj v" "status_text (obj_of v) = CLAIMED"
    "collection = ''weekly'' \<longrightarrow> jget (obj_of v) ''completion_evidence_required'' \<noteq> JBool True"
    "\<exists>claimed_at. parse_utc_iso S (slot_field collection key slot ''claimed_at_utc'')
         (jget (obj_of v) ''claimed_at_utc'') = Inr claimed_at
       \<and> age = age_seconds now claimed_at \<and> \<not> flt age (Fin (of_int (sd_stale_after S)))"
  using assms by (auto simp: expired_def Let_def sbind_eq_Inr split: if_split_asm)

lemma expired_attempt_status [simp]: "status_text (expired_attempt now age attempt) = FAILED"
  by (simp add: expired_attempt_def status_text_def)

lemma aged_moves: "moves (stage v) (stage (aged S now collection key slot v))"
proof (cases "expired S now collection key slot v")
  case (Inr found)
  show ?thesis
  proof (cases found)
    case (Some age)
    with Inr have e: "expired S now collection key slot v = Inr (Some age)" by simp
    then show ?thesis
      using expired_Some(1,2) [OF e] by (auto simp: aged_def stage_JObj is_obj_iff moves.fail)
  qed (use Inr in \<open>simp add: aged_def moves.stay\<close>)
qed (simp add: aged_def moves.stay)

lemma recover_slot_spec:
  assumes "recover_slot S now collection key slot (entry, slots, recovered) = Inr (entry', slots', recovered')"
  shows "jget slots' k = (if k = slot then aged S now collection key slot (jget slots slot) else jget slots k)"
    "\<exists>found. expired S now collection key slot (jget slots slot) = Inr found"
    "recovered' = recovered \<and> slots' = slots \<or> recovered' \<noteq> [] \<and> (\<exists>r. recovered' = recovered @ [r])"
  using assms
  by (auto simp: recover_slot_def Let_def sbind_eq_Inr aged_def split: option.split_asm)

definition aged_slot :: "schedule \<Rightarrow> instant \<Rightarrow> string \<Rightarrow> string \<Rightarrow> string \<Rightarrow> json \<Rightarrow> json" where
  "aged_slot S now collection key slot v =
     (if slot \<in> set SLOTS then aged S now collection key slot v else v)"

lemma recover_entry_spec:
  assumes "recover_entry S now collection key v = Inr (v', r)"
  shows "jget (slots_in v') slot = aged_slot S now collection key slot (jget (slots_in v) slot)"
    "slot \<in> set SLOTS \<Longrightarrow> \<exists>found. expired S now collection key slot (jget (slots_in v) slot) = Inr found"
    "is_obj v'"
proof -
  obtain d where v: "v = JObj d"
    using assms by (auto simp: recover_entry_def is_obj_iff split: if_split_asm)
  obtain slots e1 s1 r1 e2 s2 where steps:
    "slots_of (context_of collection key) d = Inr slots"
    "recover_slot S now collection key TUESDAY (d, slots, []) = Inr (e1, s1, r1)"
    "recover_slot S now collection key WEDNESDAY (e1, s1, r1) = Inr (e2, s2, r)"
    "v' = (if r = [] then v else JObj (jset ''slots'' (JObj s2) e2))"
    using assms by (auto simp: recover_entry_def v sbind_eq_Inr)
  have slots: "slots = slots_in v" using slots_of_Inr [OF steps(1)] by (simp add: slots_in_def v)
  note t = recover_slot_spec [OF steps(2)] and w = recover_slot_spec [OF steps(3)]
  have same: "jget s1 WEDNESDAY = jget slots WEDNESDAY" using t(1) [of WEDNESDAY] by simp
  have s2: "jget s2 k = aged_slot S now collection key k (jget slots k)" for k
    using t(1) [of k] w(1) [of k] same by (auto simp: aged_slot_def SLOTS_def)
  have "jget (slots_in v') k = jget s2 k" for k
  proof (cases "r = []")
    case True
    then have "s2 = slots" using t(3) w(3) by auto
    then show ?thesis using True by (simp add: steps(4) slots)
  next
    case False
    then show ?thesis by (simp add: steps(4) slots_in_def)
  qed
  then show "jget (slots_in v') slot = aged_slot S now collection key slot (jget (slots_in v) slot)"
    using s2 slots by simp
  show "\<exists>found. expired S now collection key slot (jget (slots_in v) slot) = Inr found"
    if "slot \<in> set SLOTS"
    using that t(2) w(2) same by (auto simp: SLOTS_def slots)
  show "is_obj v'" by (simp add: steps(4) v)
qed

lemma recover_records_spec:
  "recover_records S now collection recs = Inr (recs', r) \<Longrightarrow>
   map fst recs' = map fst recs
   \<and> jget (slots_in (jget recs' key)) slot
       = aged_slot S now collection key slot (jget (slots_in (jget recs key)) slot)
   \<and> (slot \<in> set SLOTS \<longrightarrow>
        (\<exists>found. expired S now collection key slot (jget (slots_in (jget recs key)) slot) = Inr found))"
proof (induction S now collection recs arbitrary: recs' r rule: recover_records.induct)
  case (1 S now collection)
  then show ?case by (simp add: slots_in_def aged_slot_def)
next
  case (2 S now collection k v rest)
  obtain v' r1 rest' r2 where parts: "recover_entry S now collection k v = Inr (v', r1)"
    "recover_records S now collection rest = Inr (rest', r2)" "recs' = (k, v') # rest'"
    using "2.prems" by (auto simp: sbind_eq_Inr)
  show ?case
    using "2.IH" [OF parts(2)] recover_entry_spec(1,2) [OF parts(1), of slot] recover_entry_spec(3) [OF parts(1)]
    by (auto simp: parts(3) jget_Cons)
qed

lemma recover_records_quiet:
  "recover_records S now collection recs = Inr (recs', []) \<Longrightarrow> recs' = recs"
proof (induction S now collection recs arbitrary: recs' rule: recover_records.induct)
  case (2 S now collection k v rest)
  obtain v' rest' where parts: "recover_entry S now collection k v = Inr (v', [])"
    "recover_records S now collection rest = Inr (rest', [])" "recs' = (k, v') # rest'"
    using "2.prems" by (auto simp: sbind_eq_Inr)
  have "v' = v" using parts(1) by (auto simp: recover_entry_def sbind_eq_Inr split: if_split_asm)
  then show ?case using "2.IH" [OF parts(2)] parts(3) by simp
qed simp

lemma reconcile_result:
  assumes "reconcile_stale_in S now state = Inr (r, w)"
  obtains weekly r1 monthly r2 where
    "recover_records S now ''weekly'' (records state ''weekly'') = Inr (weekly, r1)"
    "recover_records S now ''monthly_candidates'' (records state ''monthly_candidates'') = Inr (monthly, r2)"
    "r = r1 @ r2"
    "w = (if r = [] then None
          else Some (jset ''monthly_candidates'' (JObj monthly) (jset ''weekly'' (JObj weekly) state)))"
proof -
  obtain x y where
    "recover_records S now ''weekly'' (records state ''weekly'') = Inr x"
    "recover_records S now ''monthly_candidates'' (records state ''monthly_candidates'') = Inr y"
    "snd x @ snd y = r"
    "(if snd x @ snd y = [] then None
      else Some (jset ''monthly_candidates'' (JObj (fst y)) (jset ''weekly'' (JObj (fst x)) state))) = w"
    using assms unfolding reconcile_stale_in_def sbind_eq_Inr case_prod_beta sum.inject prod.inject
    by (elim exE conjE) (rule that, assumption+)
  then show thesis by (intro that [of "fst x" "snd x" "fst y" "snd y"]) auto
qed

lemma reconcile_slots:
  assumes "reconcile_stale_in S now state = Inr (r, w)"
    and "collection \<in> {''weekly'', ''monthly_candidates''}"
  shows "slot_at (case w of None \<Rightarrow> state | Some s \<Rightarrow> s) collection key slot =
      aged_slot S now collection key slot (slot_at state collection key slot)"
    "slot \<in> set SLOTS \<longrightarrow>
       (\<exists>found. expired S now collection key slot (slot_at state collection key slot) = Inr found)"
proof -
  from assms(1) obtain weekly r1 monthly r2 where parts:
    "recover_records S now ''weekly'' (records state ''weekly'') = Inr (weekly, r1)"
    "recover_records S now ''monthly_candidates'' (records state ''monthly_candidates'') = Inr (monthly, r2)"
    "r = r1 @ r2"
    "w = (if r = [] then None
          else Some (jset ''monthly_candidates'' (JObj monthly) (jset ''weekly'' (JObj weekly) state)))"
    by (rule reconcile_result)
  have quiet: "r1 = [] \<Longrightarrow> weekly = records state ''weekly''" "r2 = [] \<Longrightarrow> monthly = records state ''monthly_candidates''"
    using recover_records_quiet parts(1,2) by blast+
  define final where "final = (case w of None \<Rightarrow> state | Some s \<Rightarrow> s)"
  have "records final ''weekly'' = weekly \<and> records final ''monthly_candidates'' = monthly"
    using quiet parts(3) by (cases "r = []") (auto simp: final_def parts(4) records_def)
  then show "slot_at (case w of None \<Rightarrow> state | Some s \<Rightarrow> s) collection key slot =
      aged_slot S now collection key slot (slot_at state collection key slot)"
    using assms(2) recover_records_spec [OF parts(1), of key slot] recover_records_spec [OF parts(2), of key slot]
    unfolding slot_at_slots_in final_def [symmetric] by auto
  show "slot \<in> set SLOTS \<longrightarrow>
       (\<exists>found. expired S now collection key slot (slot_at state collection key slot) = Inr found)"
    using assms(2) recover_records_spec [OF parts(1), of key slot] recover_records_spec [OF parts(2), of key slot]
    unfolding slot_at_slots_in by auto
qed

interpretation expiring: schedule_transition "reconcile_stale_in S now" for S now
proof unfold_locales
  fix state r state'
  assume ok: "state_ok state" and run: "reconcile_stale_in S now state = Inr (r, Some state')"
  show "slots_move state state'"
    unfolding slots_move_def using reconcile_slots(1) [OF run] by (simp add: aged_slot_def aged_moves moves.stay)
  from run obtain weekly r1 monthly r2 where parts:
    "recover_records S now ''weekly'' (records state ''weekly'') = Inr (weekly, r1)"
    "recover_records S now ''monthly_candidates'' (records state ''monthly_candidates'') = Inr (monthly, r2)"
    "r = r1 @ r2"
    "Some state' = (if r = [] then None
          else Some (jset ''monthly_candidates'' (JObj monthly) (jset ''weekly'' (JObj weekly) state)))"
    by (rule reconcile_result)
  have "state' = jset ''monthly_candidates'' (JObj monthly) (jset ''weekly'' (JObj weekly) state)"
    using parts(4) by (simp split: if_split_asm)
  then show "state_ok state'"
    using ok recover_records_spec [OF parts(1)] recover_records_spec [OF parts(2)]
    unfolding state_ok_def by (simp add: records_def)
qed

section \<open>The monthly candidate\<close>

lemma candidate_attempt_stage:
  assumes "status_text attempt = CLAIMED"
  shows "moves (stage (JObj attempt)) (stage (JObj (candidate_attempt succeeded candidate_id err now attempt)))"
  using assms
  by (auto simp: stage_JObj candidate_attempt_def Let_def status_text_jset moves.succeed moves.fail)

interpretation candidate_completing: schedule_transition "complete_monthly_in S now claim_id succeeded candidate_id err"
  for S now claim_id succeeded candidate_id err
proof unfold_locales
  fix state r state'
  assume ok: "state_ok state"
    and run: "complete_monthly_in S now claim_id succeeded candidate_id err state = Inr (r, Some state')"
  obtain c where c: "locate_claim ''monthly_candidates'' (records state ''monthly_candidates'') claim_id = Inr c"
    "status_text (lc_attempt c) = CLAIMED"
    "state' = put_attempt ''monthly_candidates'' c
                (candidate_entry succeeded candidate_id now (lc_slot c) (lc_entry c))
                (candidate_attempt succeeded candidate_id err now (lc_attempt c)) state"
    using run by (auto simp: complete_monthly_in_def sbind_eq_Inr Let_def split: if_split_asm)
  show "state_ok state'" using ok c(3) by (simp add: put_attempt_ok)
  show "slots_move state state'"
    unfolding c(3)
    by (rule put_attempt_moves [OF c(1)]) (use ok c(2) in \<open>simp_all add: state_ok_def candidate_attempt_stage\<close>)
qed

text \<open>A monthly claim is of a slot that is free.\<close>

lemma monthly_core_due:
  assumes "dc_action (monthly_core I status source weekday wall w fb ts ws) = ACTION_MONTHLY_CANDIDATE"
  shows "dc_month (monthly_core I status source weekday wall w fb ts ws) = Some (ci_month I)
    \<and> dc_week (monthly_core I status source weekday wall w fb ts ws) = ci_week I
    \<and> (dc_slot (monthly_core I status source weekday wall w fb ts ws) = Some TUESDAY
         \<and> ts = None \<and> weekday = 2 \<and> lt_wall (ci_accepted I) \<le> wall \<and> source = TUESDAY
       \<or> dc_slot (monthly_core I status source weekday wall w fb ts ws) = Some WEDNESDAY
         \<and> ws = None \<and> weekday = 3
         \<and> (source = TUESDAY \<and> lt_wall w \<le> wall \<and> (ts = None \<or> ts = Some FAILED)
            \<or> source \<noteq> TUESDAY \<and> lt_wall (ci_accepted I) \<le> wall))"
  using assms unfolding monthly_core_def tuesday_core_def wednesday_core_def window_complete_def Let_def
    monthly_decision_def TUESDAY_ISO_WEEKDAY_def WEDNESDAY_ISO_WEEKDAY_def
  by (simp split: if_split_asm)

lemma anchored_entries_in:
  "anchored_entries S week recs = Inr found \<Longrightarrow> e \<in> set found \<Longrightarrow>
   (an_month e, JObj (an_entry e)) \<in> set recs
   \<and> text_of (jget (obj_of (jget (an_entry e) ''source_update'')) ''iso_week'') = week
   \<and> parse_utc_iso S (context_of ''monthly_candidates'' (an_month e) @ ''.source_update.accepted_at_utc'')
        (jget (obj_of (jget (an_entry e) ''source_update'')) ''accepted_at_utc'') = Inr (an_accepted_at e)"
proof (induction S week recs arbitrary: found rule: anchored_entries.induct)
  case (1 S week)
  then show ?case by simp
next
  case (2 S week month v rest)
  obtain d where d: "v = JObj d" using "2.prems"(1) by (auto simp: is_obj_iff Let_def split: if_split_asm)
  show ?case
  proof (cases "text_of (jget (obj_of (jget d ''source_update'')) ''iso_week'') = week")
    case False
    then have "anchored_entries S week rest = Inr found"
      using "2.prems"(1) by (simp add: d Let_def split: if_split_asm)
    then show ?thesis using "2.IH"(1) [OF refl refl _ _ _ _ "2.prems"(2)] "2.prems"(1) False
      by (auto simp: d Let_def split: if_split_asm)
  next
    case True
    note same = True
    obtain t more where parts: "anchored_entries S week rest = Inr more"
      "parse_utc_iso S (context_of ''monthly_candidates'' month @ ''.source_update.accepted_at_utc'')
         (jget (obj_of (jget d ''source_update'')) ''accepted_at_utc'') = Inr t"
      "found = \<lparr>an_month = month, an_entry = d, an_accepted_at = t\<rparr> # more"
      using "2.prems"(1) True by (auto simp: d Let_def sbind_eq_Inr split: if_split_asm)
    show ?thesis
    proof (cases "e \<in> set more")
      case True
      then show ?thesis using "2.IH"(2) [OF refl refl _ _ _ parts(1)] "2.prems"(1) parts(2) same
        by (auto simp: d Let_def split: if_split_asm)
    next
      case False
      then show ?thesis using "2.prems"(2) parts same by (simp add: d)
    qed
  qed
qed

lemma plan_monthly_due:
  assumes "plan_monthly_in S now state = Inr d" and "dc_action d = ACTION_MONTHLY_CANDIDATE"
  obtains e :: anchored and I :: candidate_info and status source w fb slots ts ws where
    "(an_month e, JObj (an_entry e)) \<in> set (records state ''monthly_candidates'')"
    "text_of (jget (obj_of (jget (an_entry e) ''source_update'')) ''iso_week'') = iso_week_identity S now"
    "slots_of (context_of ''monthly_candidates'' (an_month e)) (an_entry e) = Inr slots"
    "attempt_status (context_of ''monthly_candidates'' (an_month e)) slots TUESDAY = Inr ts"
    "attempt_status (context_of ''monthly_candidates'' (an_month e)) slots WEDNESDAY = Inr ws"
    "slot_datetime S (iso_week_identity S now) WEDNESDAY = Inr w"
    "ci_month I = an_month e" "ci_week I = iso_week_identity S now" "ci_accepted I = local_of S (an_accepted_at e)"
    "source = py_strip (text_of (jget (obj_of (jget (an_entry e) ''source_update'')) ''data_slot''))"
    "d = monthly_core I status source (isoweekday (ordinal_of (lt_wall (local_of S now))))
           (lt_wall (local_of S now)) w fb ts ws"
proof -
  obtain w nd matched where parts: "slot_datetime S (iso_week_identity S now) WEDNESDAY = Inr w"
    and "plan_data_update_in S now state = Inr nd" and
      anchor: "monthly_entry_for_week S (iso_week_identity S now) (records state ''monthly_candidates'') = Inr matched"
    "(case matched of
        None \<Rightarrow> Inr (no_candidate S now (iso_week_identity S now) (dc_next_due nd))
      | Some e \<Rightarrow> anchored_decision S now (iso_week_identity S now) w (dc_next_due nd) e) = Inr d"
    using assms(1) unfolding plan_monthly_in_def Let_def sbind_eq_Inr
    by (elim exE conjE) (rule that, assumption+)
  obtain e where e: "matched = Some e"
    using anchor(2) assms(2) by (cases matched) (auto simp: no_candidate_def weekly_decision_def)
  then have "anchored_entries S (iso_week_identity S now) (records state ''monthly_candidates'') = Inr [e]"
    using anchor(1) unfolding monthly_entry_for_week_def sbind_eq_Inr
    by (elim exE conjE) (rename_tac found, case_tac found, simp_all split: list.split_asm)
  from anchored_entries_in [OF this, of e] have known:
    "(an_month e, JObj (an_entry e)) \<in> set (records state ''monthly_candidates'')"
    "text_of (jget (obj_of (jget (an_entry e) ''source_update'')) ''iso_week'') = iso_week_identity S now"
    by simp_all
  define source where "source = obj_of (jget (an_entry e) ''source_update'')"
  define I where "I = \<lparr>ci_now = now, ci_week = iso_week_identity S now, ci_month = an_month e,
     ci_update_id = py_strip (text_of (jget source ''accepted_update_id'')),
     ci_accepted = local_of S (an_accepted_at e), ci_input = jget source ''monthly_input''\<rparr>"
  have dec: "anchored_decision S now (iso_week_identity S now) w (dc_next_due nd) e = Inr d"
    using anchor(2) e by simp
  obtain slots ts ws where statuses:
    "slots_of (context_of ''monthly_candidates'' (an_month e)) (an_entry e) = Inr slots"
    "attempt_status (context_of ''monthly_candidates'' (an_month e)) slots TUESDAY = Inr ts"
    "attempt_status (context_of ''monthly_candidates'' (an_month e)) slots WEDNESDAY = Inr ws"
    "d = monthly_core I (py_strip (text_of (jget (an_entry e) ''status''))) (py_strip (text_of (jget source ''data_slot'')))
           (isoweekday (ordinal_of (lt_wall (local_of S now)))) (lt_wall (local_of S now)) w
           (dc_next_due nd) ts ws"
    using dec unfolding anchored_decision_def Let_def source_def [symmetric] I_def [symmetric]
    by (simp only: sbind_eq_Inr sum.inject split: if_split_asm) (auto intro: that)
  show thesis
    by (intro that [of e slots ts ws w I "py_strip (text_of (jget source ''data_slot''))" _ "dc_next_due nd"])
      (rule known statuses(1-3) parts statuses(4) refl | simp add: I_def source_def)+
qed

lemma stage_claimed_candidate [simp]: "stage (JObj (claimed_attempt claim_id due now)) = Running"
  by (simp add: stage_JObj)

lemma claim_monthly_written:
  assumes "claim_monthly_in S now new_id state = Inr (r, Some state')" and "state_ok state"
  obtains month slot entry slots' where
    "slot_at state ''monthly_candidates'' month slot = JNull" "slot \<in> set SLOTS"
    "with_missed_tuesday S ''error'' ''tuesday_candidate_slot_interrupted_or_missed''
       (dc_week (cr_decision r)) now slot (slots_in (jget (records state ''monthly_candidates'') month)) = Inr slots'"
    "state' = put_slots ''monthly_candidates'' month entry
       (jset slot (JObj (claimed_attempt (py_strip new_id) (dc_due (cr_decision r)) now)) slots') state"
proof -
  obtain d where d: "plan_monthly_in S now state = Inr d" "dc_action d = ACTION_MONTHLY_CANDIDATE"
    using assms(1) by (auto simp: claim_monthly_in_def sbind_eq_Inr split: if_split_asm)
  from d obtain e :: anchored and I :: candidate_info and status source w fb slots ts ws where facts:
    "(an_month e, JObj (an_entry e)) \<in> set (records state ''monthly_candidates'')"
    "slots_of (context_of ''monthly_candidates'' (an_month e)) (an_entry e) = Inr slots"
    "attempt_status (context_of ''monthly_candidates'' (an_month e)) slots TUESDAY = Inr ts"
    "attempt_status (context_of ''monthly_candidates'' (an_month e)) slots WEDNESDAY = Inr ws"
    "ci_month I = an_month e"
    and core: "d = monthly_core I status source (isoweekday (ordinal_of (lt_wall (local_of S now))))
           (lt_wall (local_of S now)) w fb ts ws"
    by (rule plan_monthly_due)
  note due = monthly_core_due [OF d(2) [unfolded core], folded core]
  have entry: "jget (records state ''monthly_candidates'') (an_month e) = JObj (an_entry e)"
    using facts(1) assms(2) by (simp add: state_ok_def jget_def)
  have slots: "slots = slots_in (JObj (an_entry e))"
    using slots_of_Inr [OF facts(2)] by (simp add: slots_in_def)
  obtain slot where slot: "dc_slot d = Some slot" "slot \<in> set SLOTS" "jget slots slot = JNull"
    using due facts(3,4) by (auto simp: SLOTS_def attempt_status_None)
  have month: "dc_month d = Some (an_month e)" using due facts(5) by simp
  obtain slots' where steps:
    "with_missed_tuesday S ''error'' ''tuesday_candidate_slot_interrupted_or_missed'' (dc_week d) now slot slots
       = Inr slots'"
    "cr_decision r = d"
    "state' = put_slots ''monthly_candidates'' (an_month e) (jset ''status'' (JStr ''in_progress'') (an_entry e))
       (jset slot (JObj (claimed_attempt (py_strip new_id) (dc_due d) now)) slots') state"
    using assms(1) unfolding claim_monthly_in_def d(1) sbind_simps Let_def slot(1) month
    by (auto simp: d(2) option_text_def entry facts(2) sbind_eq_Inr split: if_split_asm)
  show thesis
    by (rule that [of "an_month e" slot slots'])
      (use steps slot slots entry in \<open>simp_all add: slot_at_slots_in\<close>)
qed

interpretation candidate_claiming: schedule_transition "claim_monthly_in S now new_id" for S now new_id
proof unfold_locales
  fix state r state'
  assume ok: "state_ok state" and run: "claim_monthly_in S now new_id state = Inr (r, Some state')"
  from run ok obtain month slot entry slots' where w:
    "slot_at state ''monthly_candidates'' month slot = JNull" "slot \<in> set SLOTS"
    "with_missed_tuesday S ''error'' ''tuesday_candidate_slot_interrupted_or_missed''
       (dc_week (cr_decision r)) now slot (slots_in (jget (records state ''monthly_candidates'') month)) = Inr slots'"
    "state' = put_slots ''monthly_candidates'' month entry
       (jset slot (JObj (claimed_attempt (py_strip new_id) (dc_due (cr_decision r)) now)) slots') state"
    by (rule claim_monthly_written)
  show "state_ok state'" using ok w(4) by (simp add: state_ok_put_slots)
  show "slots_move state state'"
    unfolding w(4)
  proof (rule slots_move_put)
    fix k
    show "moves (stage (slot_at state ''monthly_candidates'' month k))
       (stage (jget (jset slot (JObj (claimed_attempt (py_strip new_id) (dc_due (cr_decision r)) now)) slots') k))"
      using claim_slots_move [OF w(3) _ w(2) claimed_attempt_status] w(1) by (simp only: slot_at_slots_in)
  qed
qed

end
