(* ===== verification/Schedule_Histories.thy ===== *)
theory Schedule_Histories
  imports Schedule_Moves
begin

text \<open>
  Histories of the schedule: any sequence of the operations, each with its own schedule object,
  clock and arguments. A slot advances and is never claimed twice; a claim was due; the expiry of
  claims touches only what it may touch.
\<close>

section \<open>Histories\<close>

inductive schedule_step :: "state_file \<Rightarrow> state_file \<Rightarrow> bool" where
  claim: "schedule_step f (snd (claim_data_update S now new_id f))"
| protect: "schedule_step f (snd (protect_data_completion now claim_id f))"
| expire: "schedule_step f (snd (reconcile_stale_claims S now f))"
| complete: "schedule_step f (snd (complete_data_locked S now claim_id a f))"
| claim_candidate: "schedule_step f (snd (claim_monthly_candidate S now new_id f))"
| complete_candidate:
    "schedule_step f (snd (complete_monthly_candidate S now claim_id succeeded candidate_id err f))"

abbreviation schedule_run :: "state_file \<Rightarrow> state_file \<Rightarrow> bool" where
  "schedule_run \<equiv> schedule_step\<^sup>*\<^sup>*"

lemma raise_next_file [simp]: "snd (raise_next r) = snd r"
  by (cases r) (auto simp: raise_next_def split: sum.splits)

lemma complete_locked_file:
  "snd (complete_data_locked S now claim_id a f)
     \<in> {f, snd (with_state now (complete_data_in S now (py_strip claim_id) a) f)}"
  by (simp add: complete_data_locked_def)

lemma complete_candidate_file:
  "snd (complete_monthly_candidate S now claim_id succeeded candidate_id err f)
     \<in> {f, snd (with_state now (complete_monthly_in S now (py_strip claim_id) succeeded
               (py_strip (text_or_empty candidate_id)) err) f)}"
  by (auto simp: complete_monthly_candidate_def Let_def split: sum.splits prod.splits)

lemma schedule_step_ok:
  "schedule_step f f' \<Longrightarrow> file_ok f \<Longrightarrow> file_ok f' \<and> file_moves f f'"
proof (induction rule: schedule_step.cases)
  case (complete f S now claim_id a)
  then show ?case
    using complete_locked_file [of S now claim_id a f] completing.step_ok [of f]
    by (auto simp: file_moves_refl)
next
  case (complete_candidate f S now claim_id succeeded candidate_id err)
  then show ?case
    using complete_candidate_file [of S now claim_id succeeded candidate_id err f]
      candidate_completing.step_ok [of f]
    by (auto simp: file_moves_refl)
qed (simp_all add: claim_data_update_def protect_data_completion_def reconcile_stale_claims_def
    claim_monthly_candidate_def claiming.step_ok protecting.step_ok expiring.step_ok
    candidate_claiming.step_ok)

definition file_reaches :: "state_file \<Rightarrow> state_file \<Rightarrow> bool" where
  "file_reaches f f' \<longleftrightarrow>
     (\<forall>collection \<in> {''weekly'', ''monthly_candidates''}. \<forall>key slot.
        reaches (stage (file_slot f collection key slot)) (stage (file_slot f' collection key slot)))"

lemma run_ok: "schedule_run f f' \<Longrightarrow> file_ok f \<Longrightarrow> file_ok f' \<and> file_reaches f f'"
proof (induction rule: rtranclp_induct)
  case base
  then show ?case by (simp add: file_reaches_def reaches_def)
next
  case (step f1 f2)
  then have "file_ok f1" "file_reaches f f1" by simp_all
  moreover have "file_ok f2" "file_moves f1 f2" using schedule_step_ok step.hyps(2) \<open>file_ok f1\<close> by blast+
  ultimately show ?case
    unfolding file_reaches_def file_moves_def by (blast intro: reaches_trans moves_reaches)
qed

lemma file_ok_Missing: "file_ok Missing"
  by (simp add: file_ok_def load_state_def state_ok_new)


section \<open>Claims\<close>

text \<open>What the granted claim of a data update says about the file before and after.\<close>

definition weekly_record :: "state_file \<Rightarrow> string \<Rightarrow> dict" where
  "weekly_record f week =
     (case load_state f of Inl _ \<Rightarrow> [] | Inr state \<Rightarrow> record_at state ''weekly'' week)"

definition slot_due :: "schedule \<Rightarrow> instant \<Rightarrow> string \<Rightarrow> bool" where
  "slot_due S now slot \<longleftrightarrow>
     (let wall = lt_wall (local_of S now); weekday = isoweekday (ordinal_of wall);
          reached = (\<lambda>slot. case slot_datetime S (iso_week_identity S now) slot of
                       Inl _ \<Rightarrow> False | Inr due \<Rightarrow> lt_wall due \<le> wall)
      in slot = TUESDAY \<and> weekday = 2 \<and> reached TUESDAY
         \<or> slot = WEDNESDAY \<and> weekday = 3 \<and> reached WEDNESDAY)"

lemma claim_granted:
  assumes "claim_data_update S now new_id f = (Inr r, f')" and "cr_claimed r"
  obtains state state' F slot slots' claim_id where
    "load_state f = Inr state" "f' = Stored (JObj (stamped now state'))"
    "due_in_slot S now state slot F" "claim_id = py_strip new_id" "claim_id \<noteq> []"
    "with_missed_tuesday S ''failure'' ''tuesday_slot_missed'' (iso_week_identity S now) now slot
       (df_slots F) = Inr slots'"
    "cr_claim_id r = Some claim_id" "dc_slot (cr_decision r) = Some slot"
    "dc_week (cr_decision r) = iso_week_identity S now"
    "\<exists>entry due. state' = put_slots ''weekly'' (iso_week_identity S now) entry
       (jset slot (JObj (weekly_attempt S claim_id due now)) slots') state
       \<and> (entry = df_entry F \<or> entry = fresh_week (iso_week_identity S now))"
proof -
  obtain state where state: "load_state f = Inr state"
    using assms(1) by (cases "load_state f") (auto simp: claim_data_update_def with_state_def)
  obtain w where w: "claim_data_update_in S now new_id state = Inr (r, w)"
    "f' = (case w of None \<Rightarrow> f | Some s \<Rightarrow> Stored (JObj (stamped now s)))"
    using assms(1) state
    by (cases "claim_data_update_in S now new_id state")
      (auto simp: claim_data_update_def with_state_def split: option.split_asm)
  have "w \<noteq> None"
  proof
    assume "w = None"
    then have "\<not> cr_claimed r"
      using w(1) by (auto simp: claim_data_update_in_def sbind_eq_Inr Let_def unclaimed_def split: if_split_asm)
    then show False using assms(2) by simp
  qed
  then obtain state' where w': "w = Some state'" by blast
  show thesis
    by (rule claim_data_written [OF w(1) [unfolded w']])
      (rule that [OF state], use w(2) w' in simp_all)
qed

lemma due_slot_due:
  assumes "due_in_slot S now state slot F"
  shows "slot_due S now slot"
  using assms by (auto simp: due_in_slot_def slot_due_def Let_def)

lemma stored_slot:
  assumes "file_ok f" and "load_state f = Inr state"
    and "f' = Stored (JObj (stamped now (put_slots ''weekly'' week entry slots state)))"
  shows "file_slot f' ''weekly'' week slot = jget slots slot"
proof -
  have "state_ok state" using assms(1,2) by (simp add: file_ok_def)
  then have ok: "state_ok (stamped now (put_slots ''weekly'' week entry slots state))"
    by (simp add: state_ok_put_slots)
  show ?thesis
    unfolding assms(3) file_slot_def state_ok_load [OF ok]
    by (simp add: slot_at_def records_stamped)
qed

lemma fenced_slot_None: "fenced_slot slots = Inr None \<Longrightarrow> \<not> fenced (obj_of (jget slots slot))"
  by (induction slots rule: fenced_slot.induct)
    (auto simp: jget_Cons fenced_def split: if_split_asm)

lemma fenced_claim_None:
  "fenced_claim recs = Inr None \<Longrightarrow> \<not> fenced (obj_of (jget (slots_in (jget recs week)) slot))"
proof (induction recs rule: fenced_claim.induct)
  case 1
  then show ?case by (simp add: slots_in_def fenced_def)
next
  case (2 k entry rest)
  obtain d slots where d: "entry = JObj d" "slots_of (context_of ''weekly'' k) d = Inr slots"
    "fenced_slot slots = Inr None" "fenced_claim rest = Inr None"
    using "2.prems" by (auto simp: is_obj_iff sbind_eq_Inr split: if_split_asm option.split_asm)
  have "slots = slots_in entry" using slots_of_Inr [OF d(2)] by (simp add: slots_in_def d(1))
  then show ?case
    using fenced_slot_None [OF d(3), of slot] "2.IH" d(1,4) by (auto simp: jget_Cons)
qed

lemma with_missed_other:
  "with_missed_tuesday S key message week now slot slots = Inr slots' \<Longrightarrow>
   jget (jset slot v slots') slot = v"
  by simp

lemma weekly_attempt_id [simp]:
  "jget (weekly_attempt S claim_id due now) ''claim_id'' = JStr claim_id"
  by (simp add: weekly_attempt_def claimed_attempt_def jget_Cons split: option.split)

lemma weekly_claim_facts:
  assumes "claim_data_update S now new_id f = (Inr r, f')" and "cr_claimed r" and "file_ok f"
  shows "\<exists>slot a claim_id.
     slot_due S now slot \<and> dc_slot (cr_decision r) = Some slot
     \<and> dc_week (cr_decision r) = iso_week_identity S now
     \<and> file_slot f ''weekly'' (iso_week_identity S now) slot = JNull
     \<and> \<not> truthy (jget (weekly_record f (iso_week_identity S now)) ''accepted_update'')
     \<and> \<not> fenced (obj_of (file_slot f ''weekly'' week' slot'))
     \<and> (slot = TUESDAY \<or> file_slot f ''weekly'' (iso_week_identity S now) TUESDAY = JNull
        \<or> py_strip (status_text (obj_of (file_slot f ''weekly'' (iso_week_identity S now) TUESDAY))) = FAILED)
     \<and> file_slot f' ''weekly'' (iso_week_identity S now) slot = JObj a
     \<and> status_text a = CLAIMED \<and> jget a ''claim_id'' = JStr claim_id
     \<and> cr_claim_id r = Some claim_id \<and> claim_id \<noteq> []"
  using assms(1,2)
proof (rule claim_granted)
  fix state state' F slot slots' claim_id
  assume state: "load_state f = Inr state"
    and f': "f' = Stored (JObj (stamped now state'))"
    and F: "due_in_slot S now state slot F"
    and id: "claim_id \<noteq> []" "cr_claim_id r = Some claim_id"
    and dec: "dc_slot (cr_decision r) = Some slot" "dc_week (cr_decision r) = iso_week_identity S now"
    and "\<exists>entry due. state' = put_slots ''weekly'' (iso_week_identity S now) entry
       (jset slot (JObj (weekly_attempt S claim_id due now)) slots') state
       \<and> (entry = df_entry F \<or> entry = fresh_week (iso_week_identity S now))"
  then obtain entry due where state': "state' = put_slots ''weekly'' (iso_week_identity S now) entry
       (jset slot (JObj (weekly_attempt S claim_id due now)) slots') state" by blast
  define week where "week = iso_week_identity S now"
  note facts = F [unfolded due_in_slot_def Let_def, folded week_def]
  have before: "file_slot f ''weekly'' week k = jget (df_slots F) k" for k
    using due_slots_at [OF F] by (simp add: file_slot_def state week_def)
  have after: "file_slot f' ''weekly'' week slot = JObj (weekly_attempt S claim_id due now)"
    using stored_slot [OF assms(3) state f' [unfolded state']] by (simp add: week_def)
  have entry: "weekly_record f week = df_entry F"
    using facts by (auto simp: weekly_record_def state record_at_def dest: entry_of_Inr)
  have none: "\<not> fenced (obj_of (file_slot f ''weekly'' week' slot'))"
    using facts fenced_claim_None by (simp add: file_slot_def state slot_at_slots_in)
  have free: "jget (df_slots F) slot = JNull" using facts by blast
  have unaccepted: "\<not> truthy (jget (df_entry F) ''accepted_update'')" using facts by blast
  have tuesday: "slot = TUESDAY \<or> jget (df_slots F) TUESDAY = JNull
      \<or> py_strip (status_text (obj_of (jget (df_slots F) TUESDAY))) = FAILED"
    using facts attempt_status_Some [of "context_of ''weekly'' week" "df_slots F" TUESDAY FAILED]
    unfolding status_text_def by blast
  show ?thesis
    unfolding week_def [symmetric] before entry
    by (rule exI [of _ slot], rule exI [of _ "weekly_attempt S claim_id due now"], rule exI [of _ claim_id],
        intro conjI)
      (rule due_slot_due [OF F] dec [folded week_def] id after none free unaccepted tuesday
        weekly_attempt_status weekly_attempt_id)+
qed

text \<open>
  C23: A data update that is granted was due: its slot was free in this ISO week's record, the local
  weekday and time of the slot are reached, no update of the week has been accepted, no claim
  anywhere waits for completion evidence, and a Wednesday claim follows a Tuesday that failed or was
  never attempted. Afterwards the file holds the slot as claimed under the returned non-empty id.
\<close>

theorem weekly_claim_sound:
  assumes "claim_data_update S now new_id f = (Inr r, f')" and "cr_claimed r" and "file_ok f"
  shows "\<exists>slot a claim_id.
     slot_due S now slot \<and> dc_slot (cr_decision r) = Some slot
     \<and> dc_week (cr_decision r) = iso_week_identity S now
     \<and> file_slot f ''weekly'' (iso_week_identity S now) slot = JNull
     \<and> \<not> truthy (jget (weekly_record f (iso_week_identity S now)) ''accepted_update'')
     \<and> \<not> (jget (obj_of (file_slot f ''weekly'' week' slot')) ''status'' = JStr CLAIMED
        \<and> jget (obj_of (file_slot f ''weekly'' week' slot')) ''completion_evidence_required'' = JBool True)
     \<and> (slot = TUESDAY \<or> file_slot f ''weekly'' (iso_week_identity S now) TUESDAY = JNull
        \<or> py_strip (status_text (obj_of (file_slot f ''weekly'' (iso_week_identity S now) TUESDAY))) = FAILED)
     \<and> file_slot f' ''weekly'' (iso_week_identity S now) slot = JObj a
     \<and> status_text a = CLAIMED \<and> jget a ''claim_id'' = JStr claim_id
     \<and> cr_claim_id r = Some claim_id \<and> claim_id \<noteq> []"
  using weekly_claim_facts [OF assms, of week' slot'] unfolding fenced_def .

text \<open>A concrete schedule: UTC, and a parser for the two instants that occur.\<close>

definition demo_tuesday :: instant where
  "demo_tuesday = 20522 * day_us + 11 * 3600 * 1000000"

definition demo_schedule :: schedule where
  "demo_schedule =
     \<lparr>sd_fromiso = (\<lambda>text. if text = ''2026-03-10T11:00:00+00:00'' then Some (Aware demo_tuesday) else None),
      sd_utcoffset = (\<lambda>_. 0), sd_wall_offset = (\<lambda>_. 0), sd_timezone = ''UTC'',
      sd_promotion_month = ''2026-01'', sd_policy = None, sd_stale_after = 3600\<rparr>"

definition demo_claim :: "claim_result sched_result \<times> state_file" where
  "demo_claim = claim_data_update demo_schedule demo_tuesday ''first'' Missing"

definition claimed_of :: "claim_result sched_result \<Rightarrow> bool" where
  "claimed_of r = (case r of Inl _ \<Rightarrow> False | Inr c \<Rightarrow> cr_claimed c)"

definition slot_claimed :: "claim_result sched_result \<Rightarrow> (string \<times> string option) option" where
  "slot_claimed r =
     (case r of Inl _ \<Rightarrow> None
      | Inr c \<Rightarrow> if cr_claimed c then Some (dc_week (cr_decision c), dc_slot (cr_decision c)) else None)"

text \<open>The state after the claim, written out.\<close>

definition demo_held :: dict where
  "demo_held =
     [(''schema_version'', JInt 1), (''updated_at_utc'', JStr ''2026-03-10T11:00:00+00:00''),
      (''weekly'', JObj [(''2026-W11'', JObj
         [(''iso_week'', JStr ''2026-W11''),
          (''slots'', JObj [(TUESDAY, JObj
             [(''status'', JStr CLAIMED), (''claim_id'', JStr ''first''),
              (''due_at_utc'', JStr ''2026-03-10T11:00:00+00:00''),
              (''claimed_at_utc'', JStr ''2026-03-10T11:00:00+00:00'')])]),
          (''accepted_update'', JNull)])]),
      (''monthly_candidates'', JObj [])]"

lemma demo_claim_held: "snd demo_claim = Stored (JObj demo_held)"
  by code_simp

lemma demo_claim_granted: "claimed_of (fst demo_claim)"
  by code_simp

lemma claimed_of_elim:
  assumes "claimed_of r" obtains c where "r = Inr c" "cr_claimed c"
  using assms by (cases r) (auto simp: claimed_of_def)

theorem weekly_claim_sound_witness:
  "\<exists>r slot. fst demo_claim = Inr r \<and> slot_due demo_schedule demo_tuesday slot
     \<and> dc_slot (cr_decision r) = Some slot"
proof -
  obtain r where r: "fst demo_claim = Inr r" "cr_claimed r"
    using demo_claim_granted by (rule claimed_of_elim)
  have "claim_data_update demo_schedule demo_tuesday ''first'' Missing = (Inr r, snd demo_claim)"
    using r(1) by (simp add: demo_claim_def prod_eq_iff)
  from weekly_claim_sound [OF this r(2) file_ok_Missing] show ?thesis using r(1) by blast
qed


section \<open>At most one claim of a slot\<close>

lemma granted_slot:
  assumes "claim_data_update S now new_id f = (r, f')" and "slot_claimed r = Some (week, slot)" and "file_ok f"
  obtains s where "slot = Some s" "file_slot f ''weekly'' week s = JNull"
    "stage (file_slot f' ''weekly'' week s) = Running"
proof -
  obtain c where c: "r = Inr c" "cr_claimed c" "week = dc_week (cr_decision c)" "slot = dc_slot (cr_decision c)"
    using assms(2) by (auto simp: slot_claimed_def split: sum.split_asm if_split_asm)
  from weekly_claim_facts [OF assms(1) [unfolded c(1)] c(2) assms(3)] obtain s a where
    "dc_slot (cr_decision c) = Some s" "dc_week (cr_decision c) = iso_week_identity S now"
    "file_slot f ''weekly'' (iso_week_identity S now) s = JNull"
    "file_slot f' ''weekly'' (iso_week_identity S now) s = JObj a" "status_text a = CLAIMED"
    by blast
  then show thesis using that [of s] c(3,4) by (simp add: stage_JObj)
qed

text \<open>
  C12: In every history of the schedule a slot of a week is claimed at most once: of two granted
  claims, whatever happens between them and whenever they are made, the later one is for another
  week or another slot.
\<close>

theorem weekly_slot_claimed_once:
  assumes "claim_data_update S now new_id f1 = (r, f2)" and "slot_claimed r = Some claimed"
    and "schedule_run f2 f3"
    and "claim_data_update S' now' new_id' f3 = (r', f4)" and "slot_claimed r' = Some claimed'"
    and "file_ok f1"
  shows "claimed \<noteq> claimed'"
proof
  assume same: "claimed = claimed'"
  obtain week slot where ws: "claimed = (week, slot)" by (cases claimed)
  obtain s where s: "slot = Some s" "stage (file_slot f2 ''weekly'' week s) = Running"
    using granted_slot [OF assms(1) assms(2) [unfolded ws] assms(6)] by blast
  have "schedule_step f1 f2" using schedule_step.claim [of f1 S now new_id] assms(1) by simp
  then have ok: "file_ok f2" using schedule_step_ok assms(6) by blast
  have later: "file_ok f3" "file_reaches f2 f3" using run_ok [OF assms(3) ok] by simp_all
  obtain s' where "slot = Some s'" "file_slot f3 ''weekly'' week s' = JNull"
    using granted_slot [OF assms(4) assms(5) [folded same, unfolded ws] later(1)] by blast
  then have "stage (file_slot f3 ''weekly'' week s) = Free" using s(1) by simp
  moreover have "reaches (stage (file_slot f2 ''weekly'' week s)) (stage (file_slot f3 ''weekly'' week s))"
    using later(2) by (simp add: file_reaches_def)
  ultimately show False using s(2) by (simp add: reaches_def)
qed

definition demo_next :: "claim_result sched_result \<times> state_file" where
  "demo_next = claim_data_update demo_schedule (demo_tuesday + 7 * day_us) ''second'' (Stored (JObj demo_held))"

theorem weekly_slot_claimed_once_witness:
  "slot_claimed (fst demo_claim) = Some (''2026-W11'', Some TUESDAY)
   \<and> slot_claimed (fst demo_next) = Some (''2026-W12'', Some TUESDAY)
   \<and> (''2026-W11'', Some TUESDAY) \<noteq> (''2026-W12'', Some TUESDAY)"
proof -
  have first: "slot_claimed (fst demo_claim) = Some (''2026-W11'', Some TUESDAY)" by code_simp
  have second: "slot_claimed (fst demo_next) = Some (''2026-W12'', Some TUESDAY)" by code_simp
  have "claim_data_update demo_schedule demo_tuesday ''first'' Missing = (fst demo_claim, snd demo_claim)"
    "claim_data_update demo_schedule (demo_tuesday + 7 * day_us) ''second'' (snd demo_claim)
      = (fst demo_next, snd demo_next)"
    by (simp add: demo_claim_def) (simp add: demo_claim_held demo_next_def)
  from weekly_slot_claimed_once [OF this(1) first rtranclp.rtrancl_refl this(2) second file_ok_Missing]
  show ?thesis using first second by blast
qed

section \<open>Expiry\<close>

lemma reconcile_files:
  assumes "reconcile_stale_claims S now f = (Inr r, f')" and "file_ok f"
  obtains state w where "load_state f = Inr state" "reconcile_stale_in S now state = Inr (r, w)"
    "load_state f' = Inr (case w of None \<Rightarrow> state | Some s \<Rightarrow> stamped now s)"
proof -
  obtain state where state: "load_state f = Inr state" "state_ok state"
    using assms(2) by (auto simp: file_ok_def)
  obtain w where w: "reconcile_stale_in S now state = Inr (r, w)"
    "f' = (case w of None \<Rightarrow> f | Some s \<Rightarrow> Stored (JObj (stamped now s)))"
    using assms(1) state(1)
    by (cases "reconcile_stale_in S now state")
      (auto simp: reconcile_stale_claims_def with_state_def split: option.split_asm)
  have "load_state f' = Inr (case w of None \<Rightarrow> state | Some s \<Rightarrow> stamped now s)"
  proof (cases w)
    case (Some s)
    then have "state_ok (stamped now s)" using expiring.keeps_shape [OF state(2) w(1) [unfolded Some]] by simp
    then show ?thesis using w(2) Some by (simp add: state_ok_load)
  qed (use w(2) state(1) in simp)
  then show thesis using that state(1) w(1) by blast
qed

lemma reconcile_file_slots:
  assumes "reconcile_stale_claims S now f = (Inr r, f')" and "file_ok f"
    and "collection \<in> {''weekly'', ''monthly_candidates''}"
  shows "file_slot f' collection key slot = aged_slot S now collection key slot (file_slot f collection key slot)"
    "slot \<in> set SLOTS \<longrightarrow>
       (\<exists>found. expired S now collection key slot (file_slot f collection key slot) = Inr found)"
proof -
  obtain state w where w: "load_state f = Inr state" "reconcile_stale_in S now state = Inr (r, w)"
    "load_state f' = Inr (case w of None \<Rightarrow> state | Some s \<Rightarrow> stamped now s)"
    using reconcile_files [OF assms(1,2)] by blast
  have "slot_at (case w of None \<Rightarrow> state | Some s \<Rightarrow> stamped now s) collection key slot
      = slot_at (case w of None \<Rightarrow> state | Some s \<Rightarrow> s) collection key slot"
    using assms(3) by (cases w) (auto simp: slot_at_def)
  then show "file_slot f' collection key slot = aged_slot S now collection key slot (file_slot f collection key slot)"
    "slot \<in> set SLOTS \<longrightarrow>
       (\<exists>found. expired S now collection key slot (file_slot f collection key slot) = Inr found)"
    using reconcile_slots [OF w(2) assms(3), where key = key and slot = slot] w(1,3) by (simp_all add: file_slot_def)
qed

definition claim_time :: "schedule \<Rightarrow> string \<Rightarrow> string \<Rightarrow> string \<Rightarrow> json \<Rightarrow> instant sched_result" where
  "claim_time S collection key slot v =
     parse_utc_iso S (slot_field collection key slot ''claimed_at_utc'') (jget (obj_of v) ''claimed_at_utc'')"

definition lease_over :: "schedule \<Rightarrow> instant \<Rightarrow> instant \<Rightarrow> bool" where
  "lease_over S now claimed_at \<longleftrightarrow> \<not> flt (age_seconds now claimed_at) (Fin (of_int (sd_stale_after S)))"

text \<open>
  C24: Recovering stale claims fails exactly the running claims of the two slots whose lease is over
  and that do not wait for completion evidence; the recorded time of such a claim is then readable.
  Every other slot of every record is left exactly as it was.
\<close>

theorem recovery_fails_exactly_expired:
  assumes "reconcile_stale_claims S now f = (Inr r, f')" and "file_ok f"
    and "collection \<in> {''weekly'', ''monthly_candidates''}"
  shows "let v = file_slot f collection key slot; v' = file_slot f' collection key slot;
             stale = (slot \<in> set SLOTS \<and> stage v = Running
               \<and> \<not> (collection = ''weekly'' \<and> jget (obj_of v) ''completion_evidence_required'' = JBool True)
               \<and> (\<exists>t. claim_time S collection key slot v = Inr t \<and> lease_over S now t))
         in (if stale then stage v' = Failed else v' = v)"
proof -
  define v where "v = file_slot f collection key slot"
  note now = reconcile_file_slots [OF assms, where key = key and slot = slot, folded v_def]
  have running: "stage v = Running \<longleftrightarrow> is_obj v \<and> status_text (obj_of v) = CLAIMED"
    by (cases v) (simp_all add: stage_def)
  show ?thesis
  proof (cases "slot \<in> set SLOTS")
    case False
    then show ?thesis using now(1) by (simp add: aged_slot_def Let_def v_def)
  next
    case True
    then obtain found where found: "expired S now collection key slot v = Inr found" using now(2) by blast
    have v': "file_slot f' collection key slot
        = (case found of None \<Rightarrow> v | Some age \<Rightarrow> JObj (expired_attempt now age (obj_of v)))"
      using now(1) True found by (cases found) (simp_all add: aged_slot_def aged_def)
    have "(found \<noteq> None) \<longleftrightarrow> stage v = Running
        \<and> \<not> (collection = ''weekly'' \<and> jget (obj_of v) ''completion_evidence_required'' = JBool True)
        \<and> (\<exists>t. claim_time S collection key slot v = Inr t \<and> lease_over S now t)"
      using found unfolding running claim_time_def lease_over_def
      by (auto simp: expired_def Let_def sbind_eq_Inr split: if_split_asm)
    then show ?thesis
      using True v' by (cases found) (auto simp: Let_def v_def stage_JObj)
  qed
qed

theorem recovery_fails_exactly_expired_witness:
  "stage (file_slot (Stored (JObj demo_held)) ''weekly'' ''2026-W11'' TUESDAY) = Running
   \<and> stage (file_slot (snd (reconcile_stale_claims demo_schedule (demo_tuesday + day_us) (Stored (JObj demo_held))))
        ''weekly'' ''2026-W11'' TUESDAY) = Failed"
proof -
  define recovery where "recovery = reconcile_stale_claims demo_schedule (demo_tuesday + day_us) (Stored (JObj demo_held))"
  have "\<not> isl (fst recovery)" unfolding recovery_def by code_simp
  then obtain r where r: "recovery = (Inr r, snd recovery)"
    by (cases recovery; cases "fst recovery") simp_all
  have "schedule_step Missing (Stored (JObj demo_held))"
    unfolding demo_claim_held [symmetric] demo_claim_def by (rule schedule_step.claim)
  then have ok: "file_ok (Stored (JObj demo_held))" using schedule_step_ok file_ok_Missing by blast
  have running: "stage (file_slot (Stored (JObj demo_held)) ''weekly'' ''2026-W11'' TUESDAY) = Running" by code_simp
  have open_claim: "jget (obj_of (file_slot (Stored (JObj demo_held)) ''weekly'' ''2026-W11'' TUESDAY))
      ''completion_evidence_required'' = JNull" by code_simp
  have time: "claim_time demo_schedule ''weekly'' ''2026-W11'' TUESDAY
      (file_slot (Stored (JObj demo_held)) ''weekly'' ''2026-W11'' TUESDAY) = Inr demo_tuesday" by code_simp
  have late: "lease_over demo_schedule (demo_tuesday + day_us) demo_tuesday" by code_simp
  have "''weekly'' \<in> {''weekly'', ''monthly_candidates''}" by simp
  from recovery_fails_exactly_expired [OF r [unfolded recovery_def] ok this, of "''2026-W11''" TUESDAY]
  show ?thesis using running open_claim time late by (simp add: Let_def SLOTS_def recovery_def)
qed

end
