(* ===== verification/Schedule_Typing.thy ===== *)
theory Schedule_Typing
  imports Schedule_Histories
begin

text \<open>
  The records of the weekly updates are well formed in every state the operations produce, so that
  planning cannot fail on them; a due update is granted; and a week that has succeeded is over.
\<close>

section \<open>Clocks inside the calendar\<close>

text \<open>The ISO years of the local day and of the next Monday have four digits.\<close>

definition clock_ok :: "schedule \<Rightarrow> instant \<Rightarrow> bool" where
  "clock_ok S now \<longleftrightarrow>
     (let n = ordinal_of (lt_wall (local_of S now)); (y, w, d) = isocalendar n;
          y' = fst (isocalendar (n - (d - 1) + 7))
      in 1 \<le> y \<and> y \<le> 9999 \<and> 1 \<le> y' \<and> y' \<le> 9999)"

lemma parse_week_text:
  assumes "isocalendar n = (y, w, d)" "1 \<le> y" "y \<le> 9999"
  shows "parse_iso_week (week_text y w) = Inr (y, w)"
proof -
  have w: "1 \<le> w" "w \<le> 53" using isocalendar_spec [OF assms(1)] by auto
  have "padded 4 y \<noteq> []" "padded 2 w \<noteq> []"
    using padded_length [of y 4] padded_length [of w 2] assms(2,3) w by force+
  then have "py_strip (week_text y w) = week_text y w"
    unfolding week_text_def by (intro py_strip_digits padded_digits)
  moreover have "digit_pair ''-W'' (week_text y w) = Some (y, w)"
    unfolding week_text_def using digit_pair_text [of y w "''-W''"] assms(2,3) w by simp
  moreover have "fromisocalendar y w 1 \<noteq> None"
    using fromisocalendar_inverse [OF assms, of 1] by simp
  ultimately show ?thesis by (simp add: parse_iso_week_def)
qed

lemma slot_datetime_text:
  assumes "isocalendar n = (y, w, d)" "1 \<le> y" "y \<le> 9999" "slot \<in> set SLOTS"
  shows "\<exists>t. slot_datetime S (week_text y w) slot = Inr t"
proof -
  have "slot = TUESDAY \<or> slot = WEDNESDAY" using assms(4) by (simp add: SLOTS_def)
  then show ?thesis
    using fromisocalendar_inverse [OF assms(1-3), of 2] fromisocalendar_inverse [OF assms(1-3), of 3]
    by (auto simp: slot_datetime_def parse_week_text [OF assms(1-3)] TUESDAY_ISO_WEEKDAY_def
        WEDNESDAY_ISO_WEEKDAY_def)
qed

lemma next_week_text:
  assumes "isocalendar n = (y, w, d)" "1 \<le> y" "y \<le> 9999"
  shows "next_week_key (week_text y w)
    = Inr (let (y', w', d') = isocalendar (n - (d - 1) + 7) in week_text y' w')"
  using fromisocalendar_inverse [OF assms, of 1]
  by (simp add: next_week_key_def parse_week_text [OF assms] split: prod.split)

text \<open>With such a clock, the identity of the week and the due times always exist.\<close>

lemma clock_weeks:
  assumes "clock_ok S now"
  obtains nk nt t w where "next_week_key (iso_week_identity S now) = Inr nk"
    "slot_datetime S nk TUESDAY = Inr nt"
    "slot_datetime S (iso_week_identity S now) TUESDAY = Inr t"
    "slot_datetime S (iso_week_identity S now) WEDNESDAY = Inr w"
proof -
  define n where "n = ordinal_of (lt_wall (local_of S now))"
  obtain y w d where iso: "isocalendar n = (y, w, d)" by (cases "isocalendar n")
  obtain y' w' d' where iso': "isocalendar (n - (d - 1) + 7) = (y', w', d')"
    by (cases "isocalendar (n - (d - 1) + 7)")
  have years: "1 \<le> y" "y \<le> 9999" "1 \<le> y'" "y' \<le> 9999"
    using assms unfolding clock_ok_def n_def [symmetric] Let_def iso split_conv iso' fst_conv by blast+
  have week: "iso_week_identity S now = week_text y w"
    by (simp add: iso_week_identity_def n_def [symmetric] iso)
  have next_week: "next_week_key (week_text y w) = Inr (week_text y' w')"
    using next_week_text [OF iso years(1,2)] iso' by simp
  have slots: "TUESDAY \<in> set SLOTS" "WEDNESDAY \<in> set SLOTS" by (simp_all add: SLOTS_def)
  show thesis
    using that [OF next_week [folded week]]
      slot_datetime_text [OF iso' years(3,4) slots(1), of S]
      slot_datetime_text [OF iso years(1,2) slots(1), of S]
      slot_datetime_text [OF iso years(1,2) slots(2), of S]
    unfolding week by blast
qed

section \<open>Well-formed weekly records\<close>

definition attempt_ok :: "json \<Rightarrow> bool" where
  "attempt_ok v \<longleftrightarrow> is_obj v \<and> status_text (obj_of v) \<in> set ATTEMPT_STATUSES"

definition succeeded_in :: "dict \<Rightarrow> bool" where
  "succeeded_in slots \<longleftrightarrow> list_ex (\<lambda>(k, v). status_text (obj_of v) = SUCCEEDED) slots"

definition entry_ok :: "json \<Rightarrow> bool" where
  "entry_ok v \<longleftrightarrow>
     is_obj v \<and> (has_key (obj_of v) ''slots'' \<longrightarrow> is_obj (jget (obj_of v) ''slots''))
     \<and> list_all (\<lambda>(k, a). attempt_ok a) (slots_in v)
     \<and> (jget (obj_of v) ''accepted_update'' = JNull \<or> is_obj (jget (obj_of v) ''accepted_update''))
     \<and> (succeeded_in (slots_in v) \<longrightarrow> truthy (jget (obj_of v) ''accepted_update''))"

definition weekly_ok :: "dict \<Rightarrow> bool" where
  "weekly_ok state \<longleftrightarrow> list_all (\<lambda>(k, v). entry_ok v) (records state ''weekly'')"

lemma entry_ok_JNull_slots: "\<not> has_key d ''slots'' \<Longrightarrow> slots_in (JObj d) = []"
  by (simp add: slots_in_def jget_absent)

lemma slots_of_ok: "entry_ok (JObj d) \<Longrightarrow> slots_of context d = Inr (slots_in (JObj d))"
  by (auto simp: entry_ok_def slots_of_def slots_in_def jget_absent is_obj_iff)

lemma attempt_at:
  "list_all (\<lambda>(k, a). attempt_ok a) slots \<Longrightarrow> jget slots slot = JNull \<or> attempt_ok (jget slots slot)"
  using all_jget [of "\<lambda>(k, a). attempt_ok a" slots slot] jget_absent by fastforce

lemma attempt_status_ok:
  assumes "list_all (\<lambda>(k, a). attempt_ok a) slots"
  shows "attempt_status context slots slot
    = Inr (if jget slots slot = JNull then None else Some (status_text (obj_of (jget slots slot))))"
proof -
  have strip: "py_strip s = s" if "s \<in> set ATTEMPT_STATUSES" for s
    using that by (auto simp: ATTEMPT_STATUSES_def) (code_simp)+
  show ?thesis
    using attempt_at [OF assms, of slot] strip
    by (auto simp: attempt_status_def attempt_ok_def is_obj_iff Let_def status_text_def)
qed

lemma succeeded_at:
  "list_all (\<lambda>(k, a). attempt_ok a) slots \<Longrightarrow> jget slots slot \<noteq> JNull \<Longrightarrow>
   status_text (obj_of (jget slots slot)) = SUCCEEDED \<Longrightarrow> succeeded_in slots"
  unfolding succeeded_in_def list_ex_iff
  by (rule bexI [of _ "(slot, jget slots slot)"])
    (auto simp: jget_def dest: map_of_SomeD split: option.splits)

lemma weekly_entry:
  "weekly_ok state \<Longrightarrow> has_key (records state ''weekly'') week \<Longrightarrow>
   entry_ok (jget (records state ''weekly'') week)"
  unfolding weekly_ok_def using all_jget [of "\<lambda>(k, v). entry_ok v" "records state ''weekly''" week] by simp

lemma fenced_slot_ok: "list_all (\<lambda>(k, a). attempt_ok a) slots \<Longrightarrow> \<exists>found. fenced_slot slots = Inr found"
  by (induction slots rule: fenced_slot.induct) (auto simp: attempt_ok_def)

lemma fenced_claim_ok: "list_all (\<lambda>(k, v). entry_ok v) recs \<Longrightarrow> \<exists>found. fenced_claim recs = Inr found"
proof (induction recs rule: fenced_claim.induct)
  case (2 week entry rest)
  then have ok: "entry_ok entry" by simp
  then obtain d where d: "entry = JObj d" by (auto simp: entry_ok_def is_obj_iff)
  have slots: "slots_of (context_of ''weekly'' week) d = Inr (slots_in entry)"
    using slots_of_ok ok by (simp add: d)
  obtain found where "fenced_slot (slots_in entry) = Inr found"
    using fenced_slot_ok ok by (auto simp: entry_ok_def)
  then show ?case using 2 slots by (auto simp: d split: option.split)
qed simp

section \<open>The operations keep the records well formed\<close>

lemma list_all_jset:
  "list_all P d \<Longrightarrow> P (k, v) \<Longrightarrow> list_all P (jset k v d)"
  by (rule all_jset)

lemma succeeded_jset:
  "succeeded_in (jset k v slots) \<Longrightarrow> status_text (obj_of v) \<noteq> SUCCEEDED \<Longrightarrow> succeeded_in slots"
  by (induction k v slots rule: jset.induct) (auto simp: succeeded_in_def split: if_split_asm)

text \<open>The record of a week after one of its slots was written.\<close>

definition accepted_ok :: "json \<Rightarrow> bool" where
  "accepted_ok v \<longleftrightarrow> v = JNull \<or> is_obj v"

lemma put_slots_weekly_ok:
  assumes "weekly_ok state" and "list_all (\<lambda>(k, a). attempt_ok a) slots"
    and "accepted_ok (jget entry ''accepted_update'')"
    and "succeeded_in slots \<Longrightarrow> truthy (jget entry ''accepted_update'')"
  shows "weekly_ok (put_slots ''weekly'' week entry slots state)"
proof -
  have "entry_ok (JObj (jset ''slots'' (JObj slots) entry))"
    using assms(2-4) by (simp add: entry_ok_def slots_in_def accepted_ok_def)
  then show ?thesis
    using assms(1) unfolding weekly_ok_def by (simp add: list_all_jset)
qed

locale typed_transition = schedule_transition tr for tr :: "'r transition" +
  assumes keeps_weekly: "state_ok state \<Longrightarrow> weekly_ok state \<Longrightarrow> tr state = Inr (r, Some state') \<Longrightarrow> weekly_ok state'"

definition file_typed :: "state_file \<Rightarrow> bool" where
  "file_typed f \<longleftrightarrow> (\<exists>state. load_state f = Inr state \<and> state_ok state \<and> weekly_ok state)"

lemma file_typed_ok: "file_typed f \<Longrightarrow> file_ok f"
  by (auto simp: file_typed_def file_ok_def)

lemma weekly_ok_stamped [simp]: "weekly_ok (stamped now state) = weekly_ok state"
  by (simp add: weekly_ok_def)

context typed_transition
begin

lemma step_typed:
  assumes "file_typed f"
  shows "file_typed (snd (with_state now tr f))"
proof -
  obtain state where state: "load_state f = Inr state" "state_ok state" "weekly_ok state"
    using assms by (auto simp: file_typed_def)
  show ?thesis
  proof (cases "tr state")
    case (Inl e)
    then show ?thesis using assms state(1) by (simp add: with_state_def)
  next
    case (Inr a)
    obtain r w where a: "a = (r, w)" by (cases a)
    show ?thesis
    proof (cases w)
      case None
      then show ?thesis using assms state(1) Inr a by (simp add: with_state_def)
    next
      case (Some state')
      then have run: "tr state = Inr (r, Some state')" using Inr a by simp
      have ok: "state_ok (stamped now state')" "weekly_ok (stamped now state')"
        using keeps_shape [OF state(2) run] keeps_weekly [OF state(2,3) run] by simp_all
      show ?thesis
        using state_ok_load [OF ok(1)] ok run state(1) by (simp add: with_state_def file_typed_def)
    qed
  qed
qed

end

lemma due_entry:
  assumes "due_in_slot S now state slot F" and "weekly_ok state"
  shows "list_all (\<lambda>(k, a). attempt_ok a) (df_slots F)" "\<not> succeeded_in (df_slots F)"
    "accepted_ok (jget (df_entry F) ''accepted_update'')"
proof -
  define week where "week = iso_week_identity S now"
  have F: "entry_of ''weekly'' (records state ''weekly'') week = Inr (df_entry F)"
    "slots_of (context_of ''weekly'' week) (df_entry F) = Inr (df_slots F)"
    "\<not> truthy (jget (df_entry F) ''accepted_update'')"
    using assms(1) by (auto simp: due_in_slot_def Let_def week_def)
  have "entry_ok (JObj (df_entry F)) \<or> df_entry F = []"
    using F(1) weekly_entry [OF assms(2), of week]
    by (auto simp: entry_of_def split: if_split_asm json.split_asm)
  moreover have "df_slots F = slots_in (JObj (df_entry F))"
    using slots_of_Inr [OF F(2)] by (simp add: slots_in_def)
  ultimately show "list_all (\<lambda>(k, a). attempt_ok a) (df_slots F)" "\<not> succeeded_in (df_slots F)"
    "accepted_ok (jget (df_entry F) ''accepted_update'')"
    using F(3) by (auto simp: entry_ok_def accepted_ok_def slots_in_def succeeded_in_def)
qed

lemma with_missed_typed:
  assumes "with_missed_tuesday S key message week now slot slots = Inr slots'"
    and "list_all (\<lambda>(k, a). attempt_ok a) slots" and "\<not> succeeded_in slots"
  shows "list_all (\<lambda>(k, a). attempt_ok a) slots' \<and> \<not> succeeded_in slots'"
proof -
  have failed: "status_text (missed_tuesday key message due now) = FAILED" for due
    by (simp add: missed_tuesday_def status_text_def jget_Cons)
  have "slots' = slots \<or> (\<exists>due. slots' = jset TUESDAY (JObj (missed_tuesday key message due now)) slots)"
    using assms(1) by (auto simp: with_missed_tuesday_def sbind_eq_Inr split: if_split_asm)
  then show ?thesis
  proof (elim disjE exE)
    fix due
    assume slots': "slots' = jset TUESDAY (JObj (missed_tuesday key message due now)) slots"
    have "attempt_ok (JObj (missed_tuesday key message due now))"
      by (simp add: attempt_ok_def failed ATTEMPT_STATUSES_def)
    then have "list_all (\<lambda>(k, a). attempt_ok a) slots'"
      unfolding slots' by (intro list_all_jset assms(2)) simp
    moreover have "\<not> succeeded_in slots'"
      using succeeded_jset [of TUESDAY "JObj (missed_tuesday key message due now)" slots] assms(3) failed
      by (auto simp: slots')
    ultimately show ?thesis ..
  qed (use assms(2,3) in simp)
qed

interpretation typed_claiming: typed_transition "claim_data_update_in S now new_id" for S now new_id
proof unfold_locales
  fix state r state'
  assume ok: "state_ok state" "weekly_ok state"
    and run: "claim_data_update_in S now new_id state = Inr (r, Some state')"
  from run show "weekly_ok state'"
  proof (rule claim_data_written)
    fix F slot slots' claim_id
    assume F: "due_in_slot S now state slot F"
      and slots': "with_missed_tuesday S ''failure'' ''tuesday_slot_missed'' (iso_week_identity S now) now
        slot (df_slots F) = Inr slots'"
      and "\<exists>entry due. state' = put_slots ''weekly'' (iso_week_identity S now) entry
         (jset slot (JObj (weekly_attempt S claim_id due now)) slots') state
         \<and> (entry = df_entry F \<or> entry = fresh_week (iso_week_identity S now))"
    then obtain entry due where state': "state' = put_slots ''weekly'' (iso_week_identity S now) entry
         (jset slot (JObj (weekly_attempt S claim_id due now)) slots') state"
      and entry: "entry = df_entry F \<or> entry = fresh_week (iso_week_identity S now)" by blast
    have slots: "list_all (\<lambda>(k, a). attempt_ok a) slots'" "\<not> succeeded_in slots'"
      using with_missed_typed [OF slots' due_entry(1,2) [OF F ok(2)]] by simp_all
    have new: "list_all (\<lambda>(k, a). attempt_ok a) (jset slot (JObj (weekly_attempt S claim_id due now)) slots')"
      using slots(1) by (intro list_all_jset) (simp_all add: attempt_ok_def ATTEMPT_STATUSES_def)
    have none: "\<not> succeeded_in (jset slot (JObj (weekly_attempt S claim_id due now)) slots')"
      using slots(2) succeeded_jset [of slot "JObj (weekly_attempt S claim_id due now)" slots'] by auto
    have "accepted_ok (jget entry ''accepted_update'')"
      using entry due_entry(3) [OF F ok(2)] by (auto simp: accepted_ok_def fresh_week_def jget_Cons)
    then show ?thesis
      unfolding state' using none by (intro put_slots_weekly_ok [OF ok(2) new]) simp_all
  qed
qed

text \<open>Changing the attempt of a located claim.\<close>

lemma located_ok:
  assumes "locate_claim ''weekly'' (records state ''weekly'') claim_id = Inr c"
    and "state_ok state" "weekly_ok state"
  shows "list_all (\<lambda>(k, a). attempt_ok a) (lc_slots c)"
    "accepted_ok (jget (lc_entry c) ''accepted_update'')"
    "succeeded_in (lc_slots c) \<Longrightarrow> truthy (jget (lc_entry c) ''accepted_update'')"
proof -
  have d: "distinct (map fst (records state ''weekly''))" using assms(2) by (simp add: state_ok_def)
  have "jget (records state ''weekly'') (lc_key c) = JObj (lc_entry c)"
    by (rule locate_claim_Inr(1) [OF assms(1) d])
  then have "entry_ok (JObj (lc_entry c))"
    using weekly_entry [OF assms(3), of "lc_key c"] has_key_if [of "records state ''weekly''" "lc_key c"]
    by simp
  moreover have "lc_slots c = slots_in (JObj (lc_entry c))" by (rule locate_claim_Inr(2) [OF assms(1) d])
  ultimately show "list_all (\<lambda>(k, a). attempt_ok a) (lc_slots c)"
    "accepted_ok (jget (lc_entry c) ''accepted_update'')"
    "succeeded_in (lc_slots c) \<Longrightarrow> truthy (jget (lc_entry c) ''accepted_update'')"
    by (auto simp: entry_ok_def accepted_ok_def)
qed

lemma put_attempt_weekly_ok:
  assumes "locate_claim ''weekly'' (records state ''weekly'') claim_id = Inr c"
    and "state_ok state" "weekly_ok state"
    and "status_text attempt \<in> set ATTEMPT_STATUSES"
    and "entry = lc_entry c \<and> status_text attempt \<noteq> SUCCEEDED
      \<or> is_obj (jget entry ''accepted_update'') \<and> truthy (jget entry ''accepted_update'')"
  shows "weekly_ok (put_attempt ''weekly'' c entry attempt state)"
  unfolding put_attempt_def
proof (rule put_slots_weekly_ok [OF assms(3)])
  note known = located_ok [OF assms(1-3)]
  show "list_all (\<lambda>(k, a). attempt_ok a) (jset (lc_slot c) (JObj attempt) (lc_slots c))"
    using known(1) assms(4) by (intro list_all_jset) (simp_all add: attempt_ok_def)
  show "accepted_ok (jget entry ''accepted_update'')"
    using known(2) assms(5) by (auto simp: accepted_ok_def)
  show "truthy (jget entry ''accepted_update'')"
    if s: "succeeded_in (jset (lc_slot c) (JObj attempt) (lc_slots c))"
    using assms(5)
  proof
    assume e: "entry = lc_entry c \<and> status_text attempt \<noteq> SUCCEEDED"
    then have "succeeded_in (lc_slots c)" using succeeded_jset [OF s] by simp
    then show ?thesis using known(3) e by simp
  qed simp
qed

interpretation typed_protecting: typed_transition "protect_data_completion_in claim_id" for claim_id
proof unfold_locales
  fix state r state'
  assume ok: "state_ok state" "weekly_ok state"
    and run: "protect_data_completion_in claim_id state = Inr (r, Some state')"
  obtain c where c: "locate_claim ''weekly'' (records state ''weekly'') claim_id = Inr c"
    "jget (lc_attempt c) ''status'' = JStr CLAIMED"
    "state' = put_attempt ''weekly'' c (lc_entry c)
       (jset ''completion_evidence_required'' (JBool True) (lc_attempt c)) state"
    using run by (auto simp: protect_data_completion_in_def sbind_eq_Inr split: if_split_asm)
  have "text_of (JStr CLAIMED) = CLAIMED" by code_simp
  then have "status_text (jset ''completion_evidence_required'' (JBool True) (lc_attempt c)) = CLAIMED"
    using c(2) by (simp add: status_text_def)
  then show "weekly_ok state'"
    unfolding c(3) by (intro put_attempt_weekly_ok [OF c(1) ok]) (simp_all add: ATTEMPT_STATUSES_def)
qed

lemma completed_attempt_status:
  "status_text (completed_attempt a now attempt) = (if ca_succeeded a then SUCCEEDED else FAILED)"
  by (simp add: completed_attempt_def set_pin_def Let_def status_text_jset)

interpretation typed_completing: typed_transition "complete_data_in S now claim_id a" for S now claim_id a
proof unfold_locales
  fix state r state'
  assume ok: "state_ok state" "weekly_ok state" and run: "complete_data_in S now claim_id a state = Inr (r, Some state')"
  from run obtain c accepted_id cutoff where
    c: "locate_claim ''weekly'' (records state ''weekly'') claim_id = Inr c"
    and same: "records state' ''weekly'' = records (recorded_completion now a accepted_id cutoff c state) ''weekly''"
    by (rule complete_data_written)
  have "weekly_ok (recorded_completion now a accepted_id cutoff c state)"
  proof (cases "status_text (lc_attempt c) = CLAIMED")
    case True
    have "weekly_ok (put_attempt ''weekly'' c (accepted_entry a accepted_id cutoff (lc_slot c) (lc_entry c))
        (completed_attempt a now (lc_attempt c)) state)"
      by (rule put_attempt_weekly_ok [OF c ok])
        (auto simp: completed_attempt_status ATTEMPT_STATUSES_def accepted_entry_def set_pin_def)
    then show ?thesis using True by (simp add: recorded_completion_def)
  qed (use ok in \<open>simp add: recorded_completion_def\<close>)
  then show "weekly_ok state'" by (simp add: weekly_ok_def same)
qed

lemma aged_attempt_ok: "attempt_ok v \<Longrightarrow> attempt_ok (aged S now collection key slot v)"
  by (auto simp: aged_def attempt_ok_def ATTEMPT_STATUSES_def split: sum.split option.split)

lemma recover_slot_typed:
  assumes "recover_slot S now ''weekly'' key slot (entry, slots, recovered) = Inr (entry', slots', recovered')"
    and "list_all (\<lambda>(k, a). attempt_ok a) slots"
  shows "entry' = entry" "list_all (\<lambda>(k, a). attempt_ok a) slots'"
    "succeeded_in slots' \<Longrightarrow> succeeded_in slots"
proof -
  obtain found where found: "expired S now ''weekly'' key slot (jget slots slot) = Inr found"
    using assms(1) by (auto simp: recover_slot_def Let_def sbind_eq_Inr)
  have "entry' = entry \<and> list_all (\<lambda>(k, a). attempt_ok a) slots' \<and> (succeeded_in slots' \<longrightarrow> succeeded_in slots)"
  proof (cases found)
    case None
    then show ?thesis using assms found by (simp add: recover_slot_def Let_def)
  next
    case (Some age)
    then have slots': "entry' = entry" "slots' = jset slot (JObj (expired_attempt now age (obj_of (jget slots slot)))) slots"
      using assms(1) found by (simp_all add: recover_slot_def Let_def)
    have "attempt_ok (JObj (expired_attempt now age (obj_of (jget slots slot))))"
      by (simp add: attempt_ok_def ATTEMPT_STATUSES_def)
    then have "list_all (\<lambda>(k, a). attempt_ok a) slots'"
      unfolding slots' by (intro list_all_jset assms(2)) simp
    then show ?thesis using slots' succeeded_jset by fastforce
  qed
  then show "entry' = entry" "list_all (\<lambda>(k, a). attempt_ok a) slots'"
    "succeeded_in slots' \<Longrightarrow> succeeded_in slots" by blast+
qed

lemma recover_entry_typed:
  assumes "recover_entry S now ''weekly'' key v = Inr (v', r)" and "entry_ok v"
  shows "entry_ok v'"
proof -
  obtain d where v: "v = JObj d" using assms(2) by (auto simp: entry_ok_def is_obj_iff)
  obtain e1 s1 r1 e2 s2 where steps:
    "recover_slot S now ''weekly'' key TUESDAY (d, slots_in v, []) = Inr (e1, s1, r1)"
    "recover_slot S now ''weekly'' key WEDNESDAY (e1, s1, r1) = Inr (e2, s2, r)"
    "v' = (if r = [] then v else JObj (jset ''slots'' (JObj s2) e2))"
    using assms(1) slots_of_ok [of d] assms(2) by (auto simp: recover_entry_def v sbind_eq_Inr)
  have ok: "list_all (\<lambda>(k, a). attempt_ok a) (slots_in v)" using assms(2) by (simp add: entry_ok_def)
  note t = recover_slot_typed [OF steps(1) ok]
  note w = recover_slot_typed [OF steps(2) t(2)]
  show ?thesis
    using assms(2) t(1,3) w unfolding steps(3) entry_ok_def by (auto simp: v slots_in_def)
qed

lemma recover_records_typed:
  "recover_records S now ''weekly'' recs = Inr (recs', r) \<Longrightarrow> list_all (\<lambda>(k, v). entry_ok v) recs \<Longrightarrow>
   list_all (\<lambda>(k, v). entry_ok v) recs'"
  by (induction recs arbitrary: recs' r) (auto simp: sbind_eq_Inr recover_entry_typed)

interpretation typed_expiring: typed_transition "reconcile_stale_in S now" for S now
proof unfold_locales
  fix state r state'
  assume ok: "state_ok state" "weekly_ok state" and run: "reconcile_stale_in S now state = Inr (r, Some state')"
  from run obtain weekly r1 monthly r2 where parts:
    "recover_records S now ''weekly'' (records state ''weekly'') = Inr (weekly, r1)"
    "recover_records S now ''monthly_candidates'' (records state ''monthly_candidates'') = Inr (monthly, r2)"
    "r = r1 @ r2"
    "Some state' = (if r = [] then None
          else Some (jset ''monthly_candidates'' (JObj monthly) (jset ''weekly'' (JObj weekly) state)))"
    by (rule reconcile_result)
  have "records state' ''weekly'' = weekly" using parts(4) by (simp add: records_def split: if_split_asm)
  then show "weekly_ok state'"
    using recover_records_typed [OF parts(1)] ok(2) by (simp add: weekly_ok_def)
qed

text \<open>The monthly operations do not touch the weekly records.\<close>

lemma put_monthly_weekly_ok [simp]:
  "weekly_ok (put_slots ''monthly_candidates'' key entry slots state) = weekly_ok state"
  by (simp add: weekly_ok_def)

interpretation typed_candidate_claiming: typed_transition "claim_monthly_in S now new_id" for S now new_id
proof unfold_locales
  fix state r state'
  assume "state_ok state" and ok: "weekly_ok state" and "claim_monthly_in S now new_id state = Inr (r, Some state')"
  then show "weekly_ok state'" by (elim claim_monthly_written) (simp_all add: ok)
qed

interpretation typed_candidate_completing:
  typed_transition "complete_monthly_in S now claim_id succeeded candidate_id err"
  for S now claim_id succeeded candidate_id err
proof unfold_locales
  fix state r state'
  assume ok: "weekly_ok state"
    and run: "complete_monthly_in S now claim_id succeeded candidate_id err state = Inr (r, Some state')"
  obtain c entry attempt where "state' = put_attempt ''monthly_candidates'' c entry attempt state"
    using run by (auto simp: complete_monthly_in_def sbind_eq_Inr Let_def split: if_split_asm)
  then show "weekly_ok state'" using ok by (simp add: put_attempt_def)
qed

section \<open>Histories of well-formed files\<close>

lemma schedule_step_typed: "schedule_step f f' \<Longrightarrow> file_typed f \<Longrightarrow> file_typed f'"
proof (induction rule: schedule_step.cases)
  case (complete f S now claim_id a)
  then show ?case
    using complete_locked_file [of S now claim_id a f] typed_completing.step_typed [of f] by auto
next
  case (complete_candidate f S now claim_id succeeded candidate_id err)
  then show ?case
    using complete_candidate_file [of S now claim_id succeeded candidate_id err f]
      typed_candidate_completing.step_typed [of f] by auto
qed (simp_all add: claim_data_update_def protect_data_completion_def reconcile_stale_claims_def
    claim_monthly_candidate_def typed_claiming.step_typed typed_protecting.step_typed
    typed_expiring.step_typed typed_candidate_claiming.step_typed)

lemma run_typed: "schedule_run f f' \<Longrightarrow> file_typed f \<Longrightarrow> file_typed f'"
  by (induction rule: rtranclp_induct) (auto intro: schedule_step_typed)

lemma file_typed_Missing: "file_typed Missing"
  by (simp add: file_typed_def load_state_def state_ok_new)
    (simp add: weekly_ok_def new_state_def records_def jget_Cons)

text \<open>Planning on a well-formed state, with the statuses it reads.\<close>

definition status_at :: "dict \<Rightarrow> string \<Rightarrow> string option" where
  "status_at slots slot = (if jget slots slot = JNull then None else Some (status_text (obj_of (jget slots slot))))"

lemma typed_entry:
  assumes "weekly_ok state"
  obtains entry where "entry_of ''weekly'' (records state ''weekly'') week = Inr entry"
    "entry = record_at state ''weekly'' week"
    "slots_of (context_of ''weekly'' week) entry = Inr (slots_in (JObj entry))"
    "list_all (\<lambda>(k, a). attempt_ok a) (slots_in (JObj entry))"
    "accepted_ok (jget entry ''accepted_update'')"
    "succeeded_in (slots_in (JObj entry)) \<Longrightarrow> truthy (jget entry ''accepted_update'')"
proof (cases "has_key (records state ''weekly'') week")
  case True
  then have ok: "entry_ok (jget (records state ''weekly'') week)" using weekly_entry [OF assms] by simp
  then obtain d where d: "jget (records state ''weekly'') week = JObj d" by (auto simp: entry_ok_def is_obj_iff)
  show thesis
    by (rule that [of d])
      (use True ok d slots_of_ok [of d] in
        \<open>auto simp: entry_of_def record_at_def entry_ok_def accepted_ok_def\<close>)
next
  case False
  show thesis
    by (rule that [of "[]"])
      (use False in \<open>auto simp: entry_of_def record_at_def jget_absent slots_of_def has_key_def slots_in_def
        accepted_ok_def succeeded_in_def\<close>)
qed

lemma plan_typed:
  assumes "weekly_ok state" and "clock_ok S now"
  obtains (fenced) week slot where "fenced_claim (records state ''weekly'') = Inr (Some (week, slot))"
    "plan_data_update_in S now state = Inr (weekly_decision now week ACTION_NONE
       ''original_completion_evidence_required'' (Some slot) None None False)"
  | (accepted) nt where "truthy (jget (record_at state ''weekly'' (iso_week_identity S now)) ''accepted_update'')"
    "plan_data_update_in S now state = Inr (weekly_decision now (iso_week_identity S now) ACTION_NONE
       ''weekly_update_already_succeeded'' None None (Some nt) False)"
  | (open_week) nt t w where
    "\<not> truthy (jget (record_at state ''weekly'' (iso_week_identity S now)) ''accepted_update'')"
    "slot_datetime S (iso_week_identity S now) TUESDAY = Inr t"
    "slot_datetime S (iso_week_identity S now) WEDNESDAY = Inr w"
    "plan_data_update_in S now state = Inr (weekly_core now (iso_week_identity S now)
       (isoweekday (ordinal_of (lt_wall (local_of S now)))) (lt_wall (local_of S now)) t w nt
       (status_at (slots_in (JObj (record_at state ''weekly'' (iso_week_identity S now)))) TUESDAY)
       (status_at (slots_in (JObj (record_at state ''weekly'' (iso_week_identity S now)))) WEDNESDAY))"
proof -
  define week where "week = iso_week_identity S now"
  obtain found where found: "fenced_claim (records state ''weekly'') = Inr found"
    using fenced_claim_ok assms(1) by (auto simp: weekly_ok_def)
  obtain nk nt t w where times: "next_week_key week = Inr nk" "slot_datetime S nk TUESDAY = Inr nt"
    "slot_datetime S week TUESDAY = Inr t" "slot_datetime S week WEDNESDAY = Inr w"
    using clock_weeks [OF assms(2)] unfolding week_def by blast
  obtain entry where entry: "entry_of ''weekly'' (records state ''weekly'') week = Inr entry"
    "entry = record_at state ''weekly'' week"
    "slots_of (context_of ''weekly'' week) entry = Inr (slots_in (JObj entry))"
    "list_all (\<lambda>(k, a). attempt_ok a) (slots_in (JObj entry))"
    "accepted_ok (jget entry ''accepted_update'')"
    "succeeded_in (slots_in (JObj entry)) \<Longrightarrow> truthy (jget entry ''accepted_update'')"
    using typed_entry [OF assms(1)] by blast
  have status: "attempt_status (context_of ''weekly'' week) (slots_in (JObj entry)) slot
      = Inr (status_at (slots_in (JObj entry)) slot)" for slot
    using attempt_status_ok [OF entry(4)] by (simp add: status_at_def)
  have finished: "truthy (jget entry ''accepted_update'')"
    if "status_at (slots_in (JObj entry)) slot = Some SUCCEEDED" for slot
    using that succeeded_at [OF entry(4), of slot] entry(6) by (auto simp: status_at_def split: if_split_asm)
  have accepted: "accepted_update_of week entry (status_at (slots_in (JObj entry)) TUESDAY)
      (status_at (slots_in (JObj entry)) WEDNESDAY) = Inr (truthy (jget entry ''accepted_update''))"
    using entry(5) finished [of TUESDAY] finished [of WEDNESDAY]
    by (auto simp: accepted_update_of_def accepted_ok_def Let_def)
  show thesis
  proof (cases found)
    case (Some k)
    then show thesis
      using found by (cases k) (auto intro: fenced simp: plan_data_update_in_def Let_def)
  next
    case None
    have plan: "plan_data_update_in S now state =
        (if truthy (jget entry ''accepted_update'')
         then Inr (weekly_decision now week ACTION_NONE ''weekly_update_already_succeeded'' None None (Some nt) False)
         else Inr (weekly_core now week (isoweekday (ordinal_of (lt_wall (local_of S now))))
           (lt_wall (local_of S now)) t w nt (status_at (slots_in (JObj entry)) TUESDAY)
           (status_at (slots_in (JObj entry)) WEDNESDAY)))"
      unfolding plan_data_update_in_def Let_def week_def [symmetric] found None
      by (simp only: sbind_simps option.case times entry(1,3) status accepted)
    show thesis
    proof (cases "truthy (jget entry ''accepted_update'')")
      case True
      then show thesis using accepted [unfolded entry(2)] plan that(2) entry(2) by (simp add: week_def)
    next
      case False
      show thesis
        by (rule that(3) [of t w nt]) (use False plan times entry(2) in \<open>simp_all add: week_def\<close>)
    qed
  qed
qed

text \<open>
  C25: Planning is total on every state the schedule produces: after any history of the operations
  that starts from well-formed weekly records - the missing file among them - planning the data
  update answers a decision, as long as the clock is inside the years of four digits, and does
  not touch the file.
\<close>

theorem planning_never_fails:
  assumes "schedule_run f f'" and "file_typed f" and "clock_ok S now"
  shows "\<exists>d. plan_data_update S now f' = (Inr d, f')"
proof -
  obtain state where state: "load_state f' = Inr state" "weekly_ok state"
    using run_typed [OF assms(1,2)] by (auto simp: file_typed_def)
  obtain d where "plan_data_update_in S now state = Inr d"
    using plan_typed [OF state(2) assms(3)] by metis
  then show ?thesis using state(1) by (simp add: plan_data_update_def with_state_def)
qed

theorem planning_never_fails_witness:
  "\<exists>d. plan_data_update demo_schedule demo_tuesday (snd demo_claim) = (Inr d, snd demo_claim)"
proof -
  have "schedule_run Missing (snd demo_claim)"
    unfolding demo_claim_def by (rule r_into_rtranclp) (rule schedule_step.claim)
  moreover have "clock_ok demo_schedule demo_tuesday" by code_simp
  ultimately show ?thesis using planning_never_fails file_typed_Missing by blast
qed

section \<open>A week that has succeeded is over\<close>

lemma succeeded_record:
  assumes "file_typed f" and "stage (file_slot f ''weekly'' week slot) = Succeeded"
  shows "truthy (jget (weekly_record f week) ''accepted_update'')"
proof -
  obtain state where state: "load_state f = Inr state" "weekly_ok state"
    using assms(1) by (auto simp: file_typed_def)
  have slot: "file_slot f ''weekly'' week slot = jget (slots_in (jget (records state ''weekly'') week)) slot"
    by (simp add: file_slot_def state(1) slot_at_slots_in)
  then have key: "has_key (records state ''weekly'') week"
    using assms(2) jget_absent by (fastforce simp: slots_in_def)
  then have ok: "entry_ok (jget (records state ''weekly'') week)" using weekly_entry state(2) by blast
  have "status_text (obj_of (file_slot f ''weekly'' week slot)) = SUCCEEDED \<and> file_slot f ''weekly'' week slot \<noteq> JNull"
    using assms(2) by (auto simp: stage_def split: json.splits if_splits)
  then have "succeeded_in (slots_in (jget (records state ''weekly'') week))"
    using succeeded_at ok unfolding slot entry_ok_def by blast
  then show ?thesis
    using ok by (simp add: entry_ok_def weekly_record_def record_at_def state(1))
qed

text \<open>
  A weekly update succeeds at most once: when a slot of a week has succeeded, no claim that is
  granted later, after whatever operations, is for that week.
\<close>

theorem succeeded_week_is_over:
  assumes "file_typed f" and "stage (file_slot f ''weekly'' week slot) = Succeeded"
    and "schedule_run f f1" and "claim_data_update S now new_id f1 = (Inr r, f2)" and "cr_claimed r"
  shows "dc_week (cr_decision r) \<noteq> week"
proof
  assume same: "dc_week (cr_decision r) = week"
  have ok: "file_ok f" using assms(1) by (rule file_typed_ok)
  have later: "file_typed f1" "file_ok f1" "file_reaches f f1"
    using run_typed [OF assms(3,1)] run_ok [OF assms(3) ok] by simp_all
  have "reaches (stage (file_slot f ''weekly'' week slot)) (stage (file_slot f1 ''weekly'' week slot))"
    using later(3) by (simp add: file_reaches_def)
  then have "stage (file_slot f1 ''weekly'' week slot) = Succeeded"
    using assms(2) by (simp add: reaches_def)
  then have "truthy (jget (weekly_record f1 week) ''accepted_update'')"
    by (rule succeeded_record [OF later(1)])
  moreover from weekly_claim_facts [OF assms(4,5) later(2)]
  have "\<not> truthy (jget (weekly_record f1 (iso_week_identity S now)) ''accepted_update'')
    \<and> dc_week (cr_decision r) = iso_week_identity S now" by blast
  ultimately show False using same by simp
qed

section \<open>A due update is granted\<close>

definition unfenced :: "state_file \<Rightarrow> bool" where
  "unfenced f \<longleftrightarrow>
     (case load_state f of Inl _ \<Rightarrow> False
      | Inr state \<Rightarrow>
          list_all (\<lambda>(week, v). list_all (\<lambda>(slot, a). \<not> fenced (obj_of a)) (slots_in v)) (records state ''weekly''))"

lemma unfenced_slot: "fenced_slot slots = Inr (Some slot) \<Longrightarrow> \<not> list_all (\<lambda>(slot, a). \<not> fenced (obj_of a)) slots"
  by (induction slots rule: fenced_slot.induct) (auto split: if_split_asm)

lemma unfenced_claim:
  "fenced_claim recs = Inr (Some k) \<Longrightarrow>
   \<not> list_all (\<lambda>(week, v). list_all (\<lambda>(slot, a). \<not> fenced (obj_of a)) (slots_in v)) recs"
proof (induction recs rule: fenced_claim.induct)
  case (2 week entry rest)
  obtain d slots found where d: "entry = JObj d" "slots_of (context_of ''weekly'' week) d = Inr slots"
    "fenced_slot slots = Inr found" "(case found of None \<Rightarrow> fenced_claim rest | Some slot \<Rightarrow> Inr (Some (week, slot))) = Inr (Some k)"
    using "2.prems" by (auto simp: is_obj_iff sbind_eq_Inr split: if_split_asm)
  have "slots = slots_in entry" using slots_of_Inr [OF d(2)] by (simp add: slots_in_def d(1))
  then show ?case
    using d(3,4) unfenced_slot [of slots] "2.IH" d(1) by (cases found) auto
qed simp

lemma core_tuesday:
  "lt_wall t \<le> wall \<Longrightarrow> dc_action (weekly_core now week 2 wall t w nt None ws) = ACTION_DATA_UPDATE
   \<and> dc_slot (weekly_core now week 2 wall t w nt None ws) = Some TUESDAY
   \<and> dc_week (weekly_core now week 2 wall t w nt None ws) = week"
  by (simp add: weekly_core_def Let_def weekly_decision_def TUESDAY_ISO_WEEKDAY_def WEDNESDAY_ISO_WEEKDAY_def)

lemma core_wednesday:
  "lt_wall w \<le> wall \<Longrightarrow> ts = None \<or> ts = Some FAILED \<Longrightarrow>
   dc_action (weekly_core now week 3 wall t w nt ts None) = ACTION_DATA_UPDATE
   \<and> dc_slot (weekly_core now week 3 wall t w nt ts None) = Some WEDNESDAY
   \<and> dc_week (weekly_core now week 3 wall t w nt ts None) = week"
  by (auto simp: weekly_core_def Let_def weekly_decision_def TUESDAY_ISO_WEEKDAY_def WEDNESDAY_ISO_WEEKDAY_def)

lemma claim_runs:
  assumes "plan_data_update_in S now state = Inr d" "dc_action d = ACTION_DATA_UPDATE"
    and "dc_slot d = Some slot" "dc_week d = iso_week_identity S now"
    and "weekly_ok state" "slot_datetime S (iso_week_identity S now) TUESDAY = Inr t" "py_strip new_id \<noteq> []"
  shows "\<exists>r state'. claim_data_update_in S now new_id state = Inr (r, Some state') \<and> cr_claimed r \<and> cr_decision r = d"
proof -
  define week where "week = iso_week_identity S now"
  obtain entry where entry: "entry_of ''weekly'' (records state ''weekly'') week = Inr entry"
    "slots_of (context_of ''weekly'' week) entry = Inr (slots_in (JObj entry))"
    using typed_entry [OF assms(5)] by blast
  obtain entry' slots where start:
    "(if has_key (records state ''weekly'') week then entry_of ''weekly'' (records state ''weekly'') week
      else Inr (fresh_week week)) = Inr entry'" "slots_of (context_of ''weekly'' week) entry' = Inr slots"
  proof (cases "has_key (records state ''weekly'') week")
    case True
    then show thesis using that entry by simp
  next
    case False
    have "slots_of (context_of ''weekly'' week) (fresh_week week) = Inr []"
      by (simp add: slots_of_def fresh_week_def has_key_def jget_Cons)
    then show thesis using that False by simp
  qed
  obtain slots' where missed:
    "with_missed_tuesday S ''failure'' ''tuesday_slot_missed'' week now slot slots = Inr slots'"
    using assms(6) that
    by (cases "slot = WEDNESDAY \<and> \<not> has_key slots TUESDAY") (simp_all add: with_missed_tuesday_def week_def)
  show ?thesis
    unfolding claim_data_update_in_def
    using assms(7) by (simp add: assms(1-3) Let_def assms(4) week_def [symmetric] start missed)
qed

text \<open>A slot that is due, free and not fenced is what the plan proposes.\<close>

lemma due_slot_planned:
  assumes "load_state f = Inr state" "weekly_ok state" "clock_ok S now" "slot_due S now slot" "unfenced f"
    and "file_slot f ''weekly'' (iso_week_identity S now) slot = JNull"
    and "\<not> truthy (jget (weekly_record f (iso_week_identity S now)) ''accepted_update'')"
    and "slot = TUESDAY \<or> stage (file_slot f ''weekly'' (iso_week_identity S now) TUESDAY) \<in> {Free, Failed}"
  obtains d t where "plan_data_update_in S now state = Inr d" "dc_action d = ACTION_DATA_UPDATE"
    "dc_slot d = Some slot" "dc_week d = iso_week_identity S now" "slot_datetime S (iso_week_identity S now) TUESDAY = Inr t"
proof -
  define week where "week = iso_week_identity S now"
  note that = that [folded week_def]
  define slots where "slots = slots_in (JObj (record_at state ''weekly'' week))"
  have at: "file_slot f ''weekly'' week k = jget slots k" for k
    by (simp add: file_slot_def assms(1) slot_at_def slots_def slots_in_def record_at_def)
  have free: "status_at slots slot = None" using assms(6) at week_def by (simp add: status_at_def)
  have tuesday: "slot = TUESDAY \<or> status_at slots TUESDAY = None \<or> status_at slots TUESDAY = Some FAILED"
    using assms(8) unfolding week_def [symmetric] at
    by (auto simp: status_at_def stage_def split: json.splits if_splits)
  have open_now: "\<not> truthy (jget (record_at state ''weekly'' week) ''accepted_update'')"
    using assms(7) by (simp add: weekly_record_def assms(1) week_def)
  have no_fence: "fenced_claim (records state ''weekly'') \<noteq> Inr (Some k)" for k
    using assms(5) unfenced_claim [of "records state ''weekly''" k] by (auto simp: unfenced_def assms(1))
  show thesis
  proof (cases rule: plan_typed [OF assms(2,3), folded week_def, case_names fenced accepted open_week])
    case (open_week nt t w)
    note core = open_week(4) [folded slots_def]
    have due: "slot = TUESDAY \<and> isoweekday (ordinal_of (lt_wall (local_of S now))) = 2 \<and> lt_wall t \<le> lt_wall (local_of S now)
        \<or> slot = WEDNESDAY \<and> isoweekday (ordinal_of (lt_wall (local_of S now))) = 3 \<and> lt_wall w \<le> lt_wall (local_of S now)"
      using assms(4) open_week(2,3) unfolding slot_due_def Let_def week_def [symmetric] by simp
    then show thesis
    proof (elim disjE conjE)
      assume *: "slot = TUESDAY" "isoweekday (ordinal_of (lt_wall (local_of S now))) = 2"
        "lt_wall t \<le> lt_wall (local_of S now)"
      show thesis
        using core_tuesday [OF *(3), of now week w nt] that [OF core _ _ _ open_week(2)] free
        by (simp add: *(1,2))
    next
      assume *: "slot = WEDNESDAY" "isoweekday (ordinal_of (lt_wall (local_of S now))) = 3"
        "lt_wall w \<le> lt_wall (local_of S now)"
      have "status_at slots TUESDAY = None \<or> status_at slots TUESDAY = Some FAILED"
        using tuesday *(1) by simp
      from core_wednesday [OF *(3) this, of now week t nt] show thesis
        using that [OF core _ _ _ open_week(2)] free by (simp add: *(1,2))
    qed
  qed (use no_fence open_now in auto)
qed

text \<open>
  C26: A due update is never starved: on a file with well-formed weekly records, when the local
  weekday and time of a slot are reached, the slot is free, no update of the week was accepted, no
  claim waits for completion evidence and - for Wednesday - Tuesday was missed or has failed, then
  asking for the update claims exactly that slot.
\<close>

theorem due_update_granted:
  assumes "file_typed f" "clock_ok S now" "slot_due S now slot" "unfenced f" "py_strip new_id \<noteq> []"
    and "file_slot f ''weekly'' (iso_week_identity S now) slot = JNull"
    and "\<not> truthy (jget (weekly_record f (iso_week_identity S now)) ''accepted_update'')"
    and "slot = TUESDAY \<or> stage (file_slot f ''weekly'' (iso_week_identity S now) TUESDAY) \<in> {Free, Failed}"
  shows "\<exists>r f'. claim_data_update S now new_id f = (Inr r, f') \<and> cr_claimed r
    \<and> dc_slot (cr_decision r) = Some slot \<and> dc_week (cr_decision r) = iso_week_identity S now"
proof -
  obtain state where state: "load_state f = Inr state" "weekly_ok state"
    using assms(1) by (auto simp: file_typed_def)
  obtain d t where d: "plan_data_update_in S now state = Inr d" "dc_action d = ACTION_DATA_UPDATE" "dc_slot d = Some slot"
    "dc_week d = iso_week_identity S now" "slot_datetime S (iso_week_identity S now) TUESDAY = Inr t"
    by (rule due_slot_planned [OF state assms(2-4) assms(6-8)])
  obtain r state' where "claim_data_update_in S now new_id state = Inr (r, Some state')" "cr_claimed r" "cr_decision r = d"
    using claim_runs [OF d(1-4) state(2) d(5) assms(5)] by blast
  then show ?thesis
    using state(1) d(3,4) by (simp add: claim_data_update_def with_state_def)
qed

theorem due_update_granted_witness:
  "\<exists>r f'. claim_data_update demo_schedule demo_tuesday ''first'' Missing = (Inr r, f') \<and> cr_claimed r
     \<and> dc_slot (cr_decision r) = Some TUESDAY"
proof -
  have "clock_ok demo_schedule demo_tuesday" by code_simp
  moreover have "slot_due demo_schedule demo_tuesday TUESDAY" by code_simp
  moreover have "unfenced Missing" by code_simp
  moreover have "py_strip ''first'' \<noteq> []" by code_simp
  moreover have "file_slot Missing ''weekly'' (iso_week_identity demo_schedule demo_tuesday) TUESDAY = JNull"
    by code_simp
  moreover have
    "\<not> truthy (jget (weekly_record Missing (iso_week_identity demo_schedule demo_tuesday)) ''accepted_update'')"
    by code_simp
  ultimately show ?thesis using due_update_granted [OF file_typed_Missing] by blast
qed

definition demo_done :: dict where
  "demo_done =
     [(''schema_version'', JInt 1), (''updated_at_utc'', JNull),
      (''weekly'', JObj [(''2026-W11'', JObj
         [(''slots'', JObj [(TUESDAY, JObj [(''status'', JStr SUCCEEDED), (''claim_id'', JStr ''first'')])]),
          (''accepted_update'', JObj [(''accepted_update_id'', JStr ''u1'')])])]),
      (''monthly_candidates'', JObj [])]"

theorem succeeded_week_is_over_witness:
  "slot_claimed (fst (claim_data_update demo_schedule (demo_tuesday + 7 * day_us) ''second'' (Stored (JObj demo_done))))
     = Some (''2026-W12'', Some TUESDAY)
   \<and> ''2026-W12'' \<noteq> ''2026-W11''"
proof -
  have ok: "state_ok demo_done" "weekly_ok demo_done" by code_simp+
  then have typed: "file_typed (Stored (JObj demo_done))"
    using state_ok_load by (auto simp: file_typed_def)
  have stage: "stage (file_slot (Stored (JObj demo_done)) ''weekly'' ''2026-W11'' TUESDAY) = Succeeded" by code_simp
  define claim where
    "claim = claim_data_update demo_schedule (demo_tuesday + 7 * day_us) ''second'' (Stored (JObj demo_done))"
  have granted: "slot_claimed (fst claim) = Some (''2026-W12'', Some TUESDAY)" unfolding claim_def by code_simp
  then obtain r where r: "fst claim = Inr r" "cr_claimed r" "dc_week (cr_decision r) = ''2026-W12''"
    by (auto simp: slot_claimed_def split: sum.split_asm if_split_asm)
  then have "claim = (Inr r, snd claim)" by (cases claim) simp
  from succeeded_week_is_over [OF typed stage rtranclp.rtrancl_refl this [unfolded claim_def] r(2)]
  show ?thesis using granted r(3) by (simp add: claim_def)
qed

end
