(* ===== verification/Order_Evidence.thy ===== *)
theory Order_Evidence
  imports Ledger
begin

text \<open>
  \<^verbatim>\<open>src/polymarket/executor.py\<close>, the part that decides what has become of a limit order: the orders
  that rest on the book, the order lookup and the trade history of the exchange, and what they
  prove about one bet of the ledger. The exchange is the record \<open>clob\<close> of its answers; an
  exception that leaves a function is the \<open>Inl\<close> side.
\<close>

section \<open>Answers of the exchange\<close>

datatype order_error = AttributeError | NotIterable | DivisionError | LedgerError ledger_error
  | OrderRuntimeError string

type_synonym 'a order_attempt = "order_error + 'a"

text \<open>\<open>get_order\<close> answers or raises; a \<open>KeyError\<close> is told apart from other exceptions, of which
  the message counts.\<close>

datatype fetched = Answer json | Raised_key_error | Raised string

text \<open>A field is \<open>None\<close> when the client has no such method. \<open>get_trades\<close> takes the token and the
  earliest time in seconds, and is \<open>None\<close> when it raises.\<close>

record clob =
  cl_get_order :: "(string \<Rightarrow> fetched) option"
  cl_get_trades :: "(string option \<Rightarrow> int option \<Rightarrow> json option) option"

section \<open>Reading an order\<close>

text \<open>\<open>_safe_float(value, default)\<close>\<close>

definition safe_float :: "json \<Rightarrow> pyfloat \<Rightarrow> pyfloat" where
  "safe_float v d = (case float_of v of None \<Rightarrow> d | Some x \<Rightarrow> x)"

text \<open>\<open>d.get(k, default)\<close> and \<open>a or b\<close>\<close>

definition jget_or :: "dict \<Rightarrow> string \<Rightarrow> json \<Rightarrow> json" where
  "jget_or d k v = (if has_key d k then jget d k else v)"

definition jor :: "json \<Rightarrow> json \<Rightarrow> json" where
  "jor a b = (if truthy a then a else b)"

text \<open>\<open>str(value or "").strip()\<close>, and the recorded order id of a bet.\<close>

definition stripped :: "json \<Rightarrow> string" where
  "stripped v = py_strip (text_of v)"

definition recorded_order_id :: "dict \<Rightarrow> string" where
  "recorded_order_id bet = stripped (jget bet ''order_id'')"

definition open_order_id :: "json \<Rightarrow> string option" where
  "open_order_id order =
     (case order of
        JObj d \<Rightarrow>
          (let oid = jor (jor (jget d ''id'') (jget d ''order_id'')) (jget d ''orderID'')
           in if truthy oid then Some (py_str oid) else None)
      | _ \<Rightarrow> None)"

definition unwrap_clob_order :: "json \<Rightarrow> dict" where
  "unwrap_clob_order payload =
     (case payload of
        JObj d \<Rightarrow> (if is_obj (jget d ''order'') then obj_of (jget d ''order'')
                   else if is_obj (jget d ''data'') then obj_of (jget d ''data'') else d)
      | _ \<Rightarrow> [])"

definition status_char :: "char \<Rightarrow> char" where
  "status_char c = (if c = CHR ''-'' \<or> c = CHR '' '' then CHR ''_'' else c)"

definition normalize_order_status :: "json \<Rightarrow> string" where
  "normalize_order_status v = map status_char (py_lower (stripped v))"

record fill_metrics =
  fm_status :: string
  fm_original :: pyfloat
  fm_matched :: pyfloat
  fm_remaining :: pyfloat
  fm_confirmed :: bool

definition order_fill_metrics :: "dict \<Rightarrow> json \<Rightarrow> fill_metrics" where
  "order_fill_metrics bet payload =
     (let order = unwrap_clob_order payload;
          fallback = safe_float (jget bet ''shares'') (Fin 0);
          size = safe_float (jget_or order ''original_size'' (jget order ''size'')) fallback;
          original = (if fle size (Fin 0) then fallback else size);
          reported = safe_float (jget order ''size_matched'') NaN;
          confirmed = is_fin reported \<and> fle (Fin 0) reported;
          matched = (if confirmed then reported else Fin 0);
          status = normalize_order_status
            (jor (jor (jget order ''status'') (jget order ''order_status'')) (jget order ''state''));
          capped = (if flt (Fin 0) original then py_min matched original else matched)
      in \<lparr>fm_status = status, fm_original = original, fm_matched = capped,
          fm_remaining = py_max (fsub original capped) (Fin 0), fm_confirmed = confirmed\<rparr>)"

definition mentions :: "string list \<Rightarrow> string \<Rightarrow> bool" where
  "mentions tokens status = list_ex (\<lambda>t. has_infix t status) tokens"

definition order_status_is_resting :: "string \<Rightarrow> bool" where
  "order_status_is_resting =
     mentions [''live'', ''open'', ''rest'', ''unmatch'', ''active'', ''delay'']"

definition order_terminal_state_is_confirmed :: "fill_metrics \<Rightarrow> bool" where
  "order_terminal_state_is_confirmed m \<longleftrightarrow>
     fm_confirmed m
     \<and> (mentions [''cancel'', ''expire'', ''reject''] (fm_status m)
        \<or> flt (Fin 0) (fm_matched m)
          \<and> (fm_status m = ''confirmed_via_trades''
             \<or> mentions [''match'', ''fill'', ''execut'', ''complete''] (fm_status m)))"

definition float_eps :: pyfloat where
  "float_eps = lit (1 / 1000000000)"

definition order_has_partial_fill :: "dict \<Rightarrow> json \<Rightarrow> bool" where
  "order_has_partial_fill bet order \<longleftrightarrow>
     (let m = order_fill_metrics bet order
      in flt float_eps (fm_matched m) \<and> flt float_eps (fm_remaining m))"

text \<open>The account order that carries the recorded id of the bet.\<close>

definition resolve_open_clob_order :: "dict \<Rightarrow> json list \<Rightarrow> json option" where
  "resolve_open_clob_order bet open_orders =
     (let order_id = recorded_order_id bet
      in if order_id = [] then None
         else find (\<lambda>order. open_order_id order = Some order_id) open_orders)"

section \<open>The trade history\<close>

text \<open>\<open>str.upper\<close> on the characters below 256; the two letters whose upper case lies above that
  range are kept.\<close>

definition py_upper_char :: "char \<Rightarrow> string" where
  "py_upper_char c =
     (let n = (of_char c :: nat)
      in if 97 \<le> n \<and> n \<le> 122 \<or> 224 \<le> n \<and> n \<le> 254 \<and> n \<noteq> 247 then [char_of (n - 32)]
         else if n = 223 then ''SS'' else [c])"

definition py_upper :: "string \<Rightarrow> string" where
  "py_upper s = concat (map py_upper_char s)"

text \<open>\<open>_parse_placed_at\<close>: the instant of the placement; every \<open>Z\<close> is replaced.\<close>

definition parse_placed_at :: "(string \<Rightarrow> parsed_time option) \<Rightarrow> json \<Rightarrow> instant option" where
  "parse_placed_at fromiso raw =
     (if \<not> truthy raw then None
      else case fromiso (concat (map (\<lambda>c. if c = CHR ''Z'' then ''+00:00'' else [c]) (py_str raw))) of
             None \<Rightarrow> None
           | Some (Aware t) \<Rightarrow> Some t
           | Some (Naive t) \<Rightarrow> Some t)"

text \<open>The lower bound of the trade query: five minutes before the placement, in seconds.\<close>

definition trades_after :: "(string \<Rightarrow> parsed_time option) \<Rightarrow> dict \<Rightarrow> int option" where
  "trades_after fromiso bet =
     map_option (\<lambda>t. max (t div 1000000 - 300) 0) (parse_placed_at fromiso (jget bet ''placed_at''))"

definition token_of :: "dict \<Rightarrow> string option" where
  "token_of bet = nonempty (Some (stripped (jget bet ''token_id'')))"

definition asset_of :: "dict \<Rightarrow> json" where
  "asset_of d = jor (jget d ''asset_id'') (jget d ''assetId'')"

definition taker_order_id :: "dict \<Rightarrow> string" where
  "taker_order_id trade = stripped (jor (jget trade ''taker_order_id'') (jget trade ''takerOrderId''))"

definition transaction_of :: "dict \<Rightarrow> string" where
  "transaction_of trade =
     py_lower (text_of (jor (jget trade ''transaction_hash'') (jget trade ''transactionHash'')))"

text \<open>The iteration over \<open>trade.get("maker_orders") or trade.get("makerOrders") or []\<close>: the
  elements of a string or a dictionary are strings, which have no \<open>get\<close>.\<close>

definition maker_orders :: "dict \<Rightarrow> json list order_attempt" where
  "maker_orders trade =
     (let v = jor (jget trade ''maker_orders'') (jget trade ''makerOrders'')
      in if \<not> truthy v then Inr []
         else case v of
                JList xs \<Rightarrow> Inr xs
              | JStr _ \<Rightarrow> Inl AttributeError
              | JObj _ \<Rightarrow> Inl AttributeError
              | _ \<Rightarrow> Inl NotIterable)"

definition maker_order_id :: "dict \<Rightarrow> string" where
  "maker_order_id m = stripped (jor (jor (jget m ''order_id'') (jget m ''orderID'')) (jget m ''id''))"

definition maker_token :: "dict \<Rightarrow> dict \<Rightarrow> string" where
  "maker_token trade m = stripped (jor (asset_of m) (asset_of trade))"

definition maker_matched :: "dict \<Rightarrow> pyfloat" where
  "maker_matched m =
     safe_float (jget_or m ''matched_amount'' (jget m ''matchedAmount''))
       (safe_float (jget_or m ''size_matched'' (jget m ''maker_amount'')) (Fin 0))"

text \<open>A fill of our order inside a trade: quantity and price as they were reported. The inner
  \<open>None\<close> is the early \<open>return False, None\<close>.\<close>

type_synonym owned_fill = "json \<times> json"

fun maker_fills ::
  "string \<Rightarrow> string option \<Rightarrow> dict \<Rightarrow> json list \<Rightarrow> owned_fill list \<Rightarrow> owned_fill list option order_attempt"
  where
  "maker_fills order_id token trade [] fills = Inr (Some fills)"
| "maker_fills order_id token trade (m # ms) fills =
     (case m of
        JObj d \<Rightarrow>
          if maker_order_id d \<noteq> order_id then maker_fills order_id token trade ms fills
          else if token \<noteq> Some (maker_token trade d) \<or> taker_order_id trade = order_id then Inr None
          else maker_fills order_id token trade ms
                 (fills @ [(JFloat (maker_matched d), jget_or d ''price'' (jget trade ''price''))])
      | _ \<Rightarrow> Inl AttributeError)"

definition taker_fills :: "string \<Rightarrow> string option \<Rightarrow> dict \<Rightarrow> owned_fill list option" where
  "taker_fills order_id token trade =
     (if taker_order_id trade \<noteq> order_id then Some []
      else if token \<noteq> Some (stripped (asset_of trade)) then None
      else Some [(jget trade ''size'', jget trade ''price'')])"

definition owned_fills :: "string \<Rightarrow> string option \<Rightarrow> dict \<Rightarrow> owned_fill list option order_attempt" where
  "owned_fills order_id token trade =
     (case taker_fills order_id token trade of
        None \<Rightarrow> Inr None
      | Some fills \<Rightarrow> sbind (maker_orders trade) (\<lambda>ms. maker_fills order_id token trade ms fills))"

definition FINAL_TRADE_STATUSES :: "string list" where
  "FINAL_TRADE_STATUSES = [''confirmed'', ''complete'', ''completed'', ''success'', ''successful'']"

definition fill_ok :: "owned_fill \<Rightarrow> bool" where
  "fill_ok f =
     (let q = safe_float (fst f) NaN; p = safe_float (snd f) NaN
      in is_fin q \<and> flt (Fin 0) q \<and> is_fin p \<and> flt (Fin 0) p \<and> flt p (Fin 1))"

fun add_fills :: "owned_fill list \<Rightarrow> pyfloat \<times> pyfloat \<Rightarrow> (pyfloat \<times> pyfloat) option" where
  "add_fills [] acc = Some acc"
| "add_fills (f # fs) acc =
     (if \<not> fill_ok f then None
      else (let q = safe_float (fst f) NaN; p = safe_float (snd f) NaN
            in add_fills fs (fadd (fst acc) q, fadd (snd acc) (fmul q p))))"

definition fill_component :: "string \<Rightarrow> string option \<Rightarrow> string \<Rightarrow> dict \<Rightarrow> owned_fill \<Rightarrow> json" where
  "fill_component order_id token trade_id trade f =
     JObj [(''trade_id'', JStr trade_id), (''order_id'', JStr order_id),
           (''token_id'', case token of None \<Rightarrow> JNull | Some t \<Rightarrow> JStr t),
           (''role'', JStr (if taker_order_id trade = order_id then ''taker'' else ''maker'')),
           (''side'', JStr (py_upper (text_of (jget trade ''side'')))),
           (''shares'', JStr (py_str (fst f))), (''price'', JStr (py_str (snd f))),
           (''transaction_hash'', JStr (transaction_of trade))]"

text \<open>What the loop over the trades has collected.\<close>

record trade_state =
  ts_shares :: pyfloat
  ts_amount :: pyfloat
  ts_pending :: bool
  ts_seen :: "(string \<times> json) list"
  ts_ids :: "string list"
  ts_components :: "json list"

definition trade_init :: trade_state where
  "trade_init = \<lparr>ts_shares = Fin 0, ts_amount = Fin 0, ts_pending = False, ts_seen = [],
     ts_ids = [], ts_components = []\<rparr>"

text \<open>An owned trade with an id: a final status counts, a failed trade does not, any other status
  leaves the outcome open.\<close>

definition count_trade ::
  "string \<Rightarrow> string option \<Rightarrow> string \<Rightarrow> dict \<Rightarrow> owned_fill list \<Rightarrow> trade_state \<Rightarrow> trade_state option" where
  "count_trade order_id token trade_id trade fills st =
     (let status = normalize_order_status (jget trade ''status'')
      in if status \<in> set FINAL_TRADE_STATUSES
         then (case add_fills fills (ts_shares st, ts_amount st) of
                 None \<Rightarrow> None
               | Some (shares, amount) \<Rightarrow>
                   Some (st\<lparr>ts_shares := shares, ts_amount := amount,
                            ts_ids := ts_ids st @ [trade_id],
                            ts_components := ts_components st
                              @ [fill_component order_id token trade_id trade (hd fills)]\<rparr>))
         else if status \<noteq> ''failed'' then Some (st\<lparr>ts_pending := True\<rparr>)
         else Some st)"

definition trade_step ::
  "string \<Rightarrow> string option \<Rightarrow> json \<Rightarrow> trade_state \<Rightarrow> trade_state option order_attempt" where
  "trade_step order_id token tr st =
     (case tr of
        JObj trade \<Rightarrow>
          (let trade_id = stripped (jget trade ''id'')
           in case (if trade_id = [] then None else map_of (ts_seen st) trade_id) of
                Some earlier \<Rightarrow> Inr (if py_eq earlier tr then Some st else None)
              | None \<Rightarrow>
                  (let st' = (if trade_id = [] then st
                              else st\<lparr>ts_seen := (trade_id, tr) # ts_seen st\<rparr>)
                   in sbind (owned_fills order_id token trade) (\<lambda>fills.
                        case fills of
                          None \<Rightarrow> Inr None
                        | Some [] \<Rightarrow> Inr (Some st')
                        | Some fs \<Rightarrow>
                            Inr (if trade_id = [] then None
                                 else count_trade order_id token trade_id trade fs st'))))
      | _ \<Rightarrow> Inr None)"

fun trade_loop ::
  "string \<Rightarrow> string option \<Rightarrow> json list \<Rightarrow> trade_state \<Rightarrow> trade_state option order_attempt" where
  "trade_loop order_id token [] st = Inr (Some st)"
| "trade_loop order_id token (tr # trs) st =
     sbind (trade_step order_id token tr st) (\<lambda>r.
       case r of None \<Rightarrow> Inr None | Some st' \<Rightarrow> trade_loop order_id token trs st')"

text \<open>The size of the original request: conversion keeps it apart from the rounded holding.\<close>

definition requested_size :: "dict \<Rightarrow> pyfloat" where
  "requested_size bet =
     safe_float (jget bet (if jget bet ''order_type'' = JStr ''filled_limit''
                              \<and> has_key bet ''requested_shares''
                           then ''requested_shares'' else ''shares'')) (Fin 0)"

definition size_plausible :: "pyfloat \<Rightarrow> pyfloat \<Rightarrow> bool" where
  "size_plausible original matched \<longleftrightarrow>
     is_fin original \<and> \<not> fle original (Fin 0)
     \<and> \<not> flt (fadd original (lit (1 / 100000000))) matched \<and> \<not> fle matched float_eps"

definition activity_conflicts :: "string option \<Rightarrow> json list \<Rightarrow> trade_state \<Rightarrow> bool" where
  "activity_conflicts token trades st =
     (let owned = map (\<lambda>c. jget (obj_of c) ''transaction_hash'') (ts_components st)
      in list_ex (\<lambda>tr. let trade = obj_of tr
           in text_of (jget trade ''id'') \<notin> set (ts_ids st)
              \<and> token = Some (text_of (asset_of trade))
              \<and> JStr (transaction_of trade) \<in> set owned) trades)"

definition trade_evidence ::
  "string \<Rightarrow> pyfloat \<Rightarrow> pyfloat \<Rightarrow> bool \<Rightarrow> trade_state \<Rightarrow> dict" where
  "trade_evidence order_id original price conflicts st =
     [(''id'', JStr order_id), (''status'', JStr ''confirmed_via_trades''),
      (''price'', JFloat price), (''original_size'', JFloat original),
      (''size_matched'', JFloat (ts_shares st)), (''actual_fill_amount'', JFloat (ts_amount st)),
      (''actual_fill_price'', JFloat price), (''actual_fill_source'', JStr ''clob_trade_history''),
      (''actual_fill_trade_ids'', JList (map JStr (ts_ids st))),
      (''actual_fill_trade_components'', JList (ts_components st)),
      (''actual_fill_activity_conflicts'', JBool conflicts)]"

definition conclude_trades ::
  "dict \<Rightarrow> string \<Rightarrow> json list \<Rightarrow> trade_state \<Rightarrow> dict option order_attempt" where
  "conclude_trades bet order_id trades st =
     (if ts_pending st \<or> \<not> size_plausible (requested_size bet) (ts_shares st) then Inr None
      else case fdiv (ts_amount st) (ts_shares st) of
             None \<Rightarrow> Inl DivisionError
           | Some price \<Rightarrow>
               Inr (Some (trade_evidence order_id (requested_size bet) price
                            (activity_conflicts (token_of bet) trades st) st)))"

text \<open>\<open>Inr None\<close> is the answer \<open>(False, None)\<close>, \<open>Inr (Some order)\<close> the answer \<open>(True, order)\<close>.\<close>

definition lookup_order_from_trade_history ::
  "(string \<Rightarrow> parsed_time option) \<Rightarrow> clob \<Rightarrow> dict \<Rightarrow> string \<Rightarrow> dict option order_attempt" where
  "lookup_order_from_trade_history fromiso cl bet order_id =
     (case cl_get_trades cl of
        None \<Rightarrow> Inr None
      | Some get_trades \<Rightarrow>
          (case get_trades (token_of bet) (trades_after fromiso bet) of
             Some (JList trades) \<Rightarrow>
               sbind (trade_loop order_id (token_of bet) trades trade_init) (\<lambda>r.
                 case r of None \<Rightarrow> Inr None | Some st \<Rightarrow> conclude_trades bet order_id trades st)
           | _ \<Rightarrow> Inr None))"

section \<open>The order lookup\<close>

text \<open>\<open>math.isclose(a, b, abs_tol=1e-8)\<close>\<close>

definition isclose :: "pyfloat \<Rightarrow> pyfloat \<Rightarrow> bool" where
  "isclose a b \<longleftrightarrow>
     feq a b
     \<or> a \<notin> {PInf, NInf} \<and> b \<notin> {PInf, NInf}
       \<and> (let diff = fabs (fsub b a); rel = lit (1 / 1000000000)
          in fle diff (fabs (fmul rel b)) \<or> fle diff (fabs (fmul rel a))
             \<or> fle diff (lit (1 / 100000000)))"

definition fill_claimed :: "fill_metrics \<Rightarrow> bool" where
  "fill_claimed m \<longleftrightarrow> flt (Fin 0) (fm_matched m) \<and> \<not> order_status_is_resting (fm_status m)"

text \<open>What the order lookup makes of an answer; the limit price of an order is not its execution
  price, so a fill that it reports must be found among the trades. An exception in here is caught
  by the lookup and reads as \<open>(False, None)\<close>.\<close>

definition judge_answer ::
  "(string \<Rightarrow> parsed_time option) \<Rightarrow> clob \<Rightarrow> dict \<Rightarrow> string \<Rightarrow> json \<Rightarrow> dict option order_attempt" where
  "judge_answer fromiso cl bet order_id answer =
     (let order = unwrap_clob_order answer; returned = open_order_id (JObj order);
          history = lookup_order_from_trade_history fromiso cl bet order_id;
          m = order_fill_metrics bet (JObj order)
      in if order = [] then history
         else if text_or_empty returned \<noteq> [] \<and> returned \<noteq> Some order_id then Inr None
         else if fill_claimed m
         then sbind history (\<lambda>found. Inr (case found of
                None \<Rightarrow> None
              | Some evidence \<Rightarrow>
                  if isclose (fm_matched m) (safe_float (jget evidence ''size_matched'') NaN)
                  then Some evidence else None))
         else Inr (Some order))"

definition lookup_closed_clob_order ::
  "(string \<Rightarrow> parsed_time option) \<Rightarrow> clob \<Rightarrow> dict \<Rightarrow> dict option order_attempt" where
  "lookup_closed_clob_order fromiso cl bet =
     (let order_id = recorded_order_id bet;
          history = lookup_order_from_trade_history fromiso cl bet order_id
      in if order_id = [] then Inr None
         else case cl_get_order cl of
                None \<Rightarrow> history
              | Some get_order \<Rightarrow>
                  (case get_order order_id of
                     Raised_key_error \<Rightarrow> history
                   | Raised msg \<Rightarrow>
                       if mentions [''404'', ''not found''] (py_lower msg) then history else Inr None
                   | Answer v \<Rightarrow>
                       (case judge_answer fromiso cl bet order_id v of
                          Inl _ \<Rightarrow> Inr None | Inr r \<Rightarrow> Inr r)))"

section \<open>The state of an order\<close>

datatype book_state = Resting | Unsettled | Closed

record order_state =
  os_state :: book_state
  os_order :: "json option"
  os_order_id :: "string option"
  os_reason :: "string option"

definition or_else :: "string option \<Rightarrow> string option \<Rightarrow> string option" where
  "or_else a b = (if text_or_empty a \<noteq> [] then a else b)"

definition or_text :: "string \<Rightarrow> string \<Rightarrow> string" where
  "or_text a b = (if a \<noteq> [] then a else b)"

definition inspect_limit_order_state ::
  "(string \<Rightarrow> parsed_time option) \<Rightarrow> clob \<Rightarrow> dict \<Rightarrow> json list \<Rightarrow> order_state order_attempt" where
  "inspect_limit_order_state fromiso cl bet open_orders =
     (let recorded = nonempty (Some (recorded_order_id bet))
      in case resolve_open_clob_order bet open_orders of
           Some order \<Rightarrow>
             Inr \<lparr>os_state = Resting, os_order = Some order,
                  os_order_id = or_else (open_order_id order) recorded, os_reason = None\<rparr>
         | None \<Rightarrow>
             sbind (lookup_closed_clob_order fromiso cl bet) (\<lambda>found.
               case found of
                 None \<Rightarrow> Inr \<lparr>os_state = Unsettled, os_order = None, os_order_id = recorded,
                              os_reason = None\<rparr>
               | Some order \<Rightarrow>
                   (let m = order_fill_metrics bet (JObj order);
                        answer = \<lparr>os_state = Closed, os_order = Some (JObj order),
                                  os_order_id = or_else (open_order_id (JObj order)) recorded,
                                  os_reason = Some (or_text (fm_status m) ''not_on_clob'')\<rparr>
                    in Inr (if order_status_is_resting (fm_status m)
                            then answer\<lparr>os_state := Resting, os_reason := None\<rparr>
                            else if \<not> order_terminal_state_is_confirmed m
                            then answer\<lparr>os_state := Unsettled,
                                   os_reason := Some ''terminal status or actual filled quantity unconfirmed''\<rparr>
                            else answer))))"

definition closed_limit_order_state_from_lookup ::
  "(string \<Rightarrow> parsed_time option) \<Rightarrow> clob \<Rightarrow> dict \<Rightarrow> string option \<Rightarrow> order_state option order_attempt"
  where
  "closed_limit_order_state_from_lookup fromiso cl bet fallback_order_id =
     sbind (lookup_closed_clob_order fromiso cl bet) (\<lambda>found.
       case found of
         None \<Rightarrow> Inr None
       | Some order \<Rightarrow>
           (let m = order_fill_metrics bet (JObj order)
            in Inr (if order_status_is_resting (fm_status m)
                       \<or> \<not> order_terminal_state_is_confirmed m then None
                    else Some \<lparr>os_state = Closed, os_order = Some (JObj order),
                           os_order_id = or_else (open_order_id (JObj order)) fallback_order_id,
                           os_reason = Some (or_text (fm_status m) ''not_on_clob'')\<rparr>)))"

end
