(* ===== verification/Order_Reconcile.thy ===== *)
theory Order_Reconcile
  imports Order_Evidence Bankroll
begin

text \<open>
  \<^verbatim>\<open>src/polymarket/executor.py\<close>: what the executor does with the fate of a limit order. A confirmed
  fill turns the bet into a holding and returns the unused cash, a confirmed end without a fill
  cancels the bet and returns its cash, anything else leaves the books alone. The state is the
  ledger the bet is in, the bankroll manager, the order log and the order ids of which the exchange
  was asked to cancel the order; \<open>dk_own\<close> says that the ledger is the executor's own, of which the
  bankroll manager holds the cash.
\<close>

section \<open>The desk\<close>

record desk =
  dk_dry_run :: bool
  dk_own :: bool
  dk_ledger :: ledger
  dk_bank :: manager
  dk_log :: "dict list"
  dk_cancels :: "string list"

definition RESTING_LIMIT_ORDER_TYPES :: "string list" where
  "RESTING_LIMIT_ORDER_TYPES = [''limit_bid'', ''limit'', ''near_miss_limit'', ''marketable_limit'']"

datatype outcome = Unchanged | Position | Cancelled_order

text \<open>\<open>ledger_bet["id"]\<close>; ids are integers.\<close>

definition bet_id :: "dict \<Rightarrow> int order_attempt" where
  "bet_id bet = (case jget bet ''id'' of JInt i \<Rightarrow> Inr i | _ \<Rightarrow> Inl (LedgerError (KeyError ''id'')))"

definition lift_error :: "'a attempt \<Rightarrow> 'a order_attempt" where
  "lift_error r = (case r of Inl e \<Rightarrow> Inl (LedgerError e) | Inr x \<Rightarrow> Inr x)"

text \<open>An operation of the ledger, on the ledger of the desk.\<close>

definition on_ledger ::
  "(ledger \<Rightarrow> mutation_result attempt \<times> ledger) \<Rightarrow> desk \<Rightarrow> mutation_result order_attempt \<times> desk" where
  "on_ledger f d = (let (r, l) = f (dk_ledger d) in (lift_error r, d\<lparr>dk_ledger := l\<rparr>))"

definition release_reserved_cash :: "pyfloat \<Rightarrow> desk \<Rightarrow> desk" where
  "release_reserved_cash amount d =
     (if fle amount (Fin 0) \<or> \<not> dk_own d then d
      else d\<lparr>dk_bank := release_bet (dk_bank d) amount\<rparr>)"

definition log_entry :: "dict \<Rightarrow> desk \<Rightarrow> desk" where
  "log_entry e d = d\<lparr>dk_log := dk_log d @ [e]\<rparr>"

definition json_opt :: "string option \<Rightarrow> json" where
  "json_opt s = (case s of None \<Rightarrow> JNull | Some x \<Rightarrow> JStr x)"

type_synonym 'a desk_op = "desk \<Rightarrow> 'a order_attempt \<times> desk"

definition dreturn :: "'a \<Rightarrow> 'a desk_op" where
  "dreturn x d = (Inr x, d)"

definition dbind :: "'a desk_op \<Rightarrow> ('a \<Rightarrow> 'b desk_op) \<Rightarrow> 'b desk_op" where
  "dbind m f d = (case m d of (Inl e, d') \<Rightarrow> (Inl e, d') | (Inr x, d') \<Rightarrow> f x d')"

definition dlift :: "'a order_attempt \<Rightarrow> 'a desk_op" where
  "dlift r d = (r, d)"

definition dmodify :: "(desk \<Rightarrow> desk) \<Rightarrow> unit desk_op" where
  "dmodify g d = (Inr (), g d)"

text \<open>\<open>str(ledger_bet.get("fighter", "?"))\<close>\<close>

definition fighter_text :: "dict \<Rightarrow> string" where
  "fighter_text bet = py_str (jget_or bet ''fighter'' (JStr ''?''))"

section \<open>Reconciling a closed order\<close>

text \<open>The proof of a fill that a live desk asks for.\<close>

definition fill_proved :: "dict \<Rightarrow> bool" where
  "fill_proved order \<longleftrightarrow>
     (let amount = safe_float (jget order ''actual_fill_amount'') NaN;
          price = safe_float (jget order ''actual_fill_price'') NaN
      in is_fin amount \<and> \<not> fle amount (Fin 0) \<and> is_fin price
         \<and> flt (Fin 0) price \<and> flt price (Fin 1)
         \<and> jget order ''actual_fill_source'' = JStr ''clob_trade_history'')"

definition filled_amount :: "dict \<Rightarrow> dict \<Rightarrow> pyfloat \<Rightarrow> pyfloat" where
  "filled_amount bet order shares =
     (let actual = safe_float (jget order ''actual_fill_amount'') NaN;
          price = safe_float (jget bet ''price'') (Fin 0)
      in fround (if is_fin actual then actual else fmul shares price) 2)"

definition refund_amount :: "dict \<Rightarrow> pyfloat \<Rightarrow> pyfloat" where
  "refund_amount bet filled =
     py_max (fround (fsub (safe_float (jget bet ''amount'') (Fin 0)) filled) 2) (Fin 0)"

text \<open>The arguments of the conversion. The lookups store a float, a text and a list of texts.\<close>

definition fill_arguments :: "dict \<Rightarrow> pyfloat \<Rightarrow> pyfloat \<Rightarrow> string option \<Rightarrow> fill_args" where
  "fill_arguments order shares filled reason =
     \<lparr>fl_shares = shares, fl_cancel_reason = reason, fl_amount = Some filled,
      fl_price = float_of (jget order ''actual_fill_price''),
      fl_source = (case jget order ''actual_fill_source'' of JStr s \<Rightarrow> Some s | _ \<Rightarrow> None),
      fl_trade_ids = (case jget order ''actual_fill_trade_ids'' of
                        JList ids \<Rightarrow> Some (map str_of ids) | _ \<Rightarrow> None)\<rparr>"

definition base_log :: "desk \<Rightarrow> dict \<Rightarrow> string \<Rightarrow> json \<Rightarrow> dict" where
  "base_log d bet status reason =
     [(''fighter'', JStr (fighter_text bet)), (''status'', JStr status),
      (''order_type'', jget bet ''order_type''), (''cancel_reason'', reason),
      (''bet_id'', jget bet ''id''), (''dry_run'', JBool (dk_dry_run d))]"

definition order_id_entry :: "dict \<Rightarrow> dict" where
  "order_id_entry bet = [(''order_id'', json_opt (nonempty (Some (recorded_order_id bet))))]"

text \<open>What follows a successful conversion and a successful cancellation.\<close>

definition book_position ::
  "dict \<Rightarrow> json \<Rightarrow> pyfloat \<Rightarrow> pyfloat \<Rightarrow> desk \<Rightarrow> desk" where
  "book_position bet reason shares released d =
     log_entry (base_log d bet ''reconciled'' reason @ order_id_entry bet
                @ [(''filled_shares'', JFloat shares), (''released_amount'', JFloat released)])
       (if flt (Fin 0) released then release_reserved_cash released d else d)"

definition book_cancellation :: "dict \<Rightarrow> json \<Rightarrow> bool \<Rightarrow> pyfloat \<Rightarrow> desk \<Rightarrow> desk" where
  "book_cancellation bet reason release amount d =
     log_entry (base_log d bet ''cancelled'' reason @ order_id_entry bet)
       (if release then release_reserved_cash amount d else d)"

definition reconcile_fill ::
  "dict \<Rightarrow> string option \<Rightarrow> dict \<Rightarrow> bool \<Rightarrow> pyfloat \<Rightarrow> outcome desk_op" where
  "reconcile_fill bet reason order release shares d =
     (let filled = filled_amount bet order shares; refund = refund_amount bet filled;
          why = (if flt (Fin 0) refund then reason else None)
      in if \<not> dk_dry_run d \<and> \<not> fill_proved order then (Inr Unchanged, d)
         else dbind (dlift (bet_id bet)) (\<lambda>i.
           dbind (on_ledger (convert_limit_bet_to_position i (fill_arguments order shares filled why)))
             (\<lambda>result.
               if \<not> mr_ok result then dreturn Unchanged
               else dbind (dmodify (book_position bet (json_opt why) shares
                             (if release then refund else Fin 0)))
                      (\<lambda>_. dreturn Position))) d)"

definition reconcile_cancellation ::
  "string \<Rightarrow> dict \<Rightarrow> string option \<Rightarrow> bool \<Rightarrow> outcome desk_op" where
  "reconcile_cancellation stamp bet reason release =
     dbind (dlift (bet_id bet)) (\<lambda>i.
       dbind (on_ledger (cancel_bet stamp i reason (Some RESTING_LIMIT_ORDER_TYPES))) (\<lambda>result.
         if \<not> mr_ok result then dreturn Unchanged
         else dbind (dmodify (book_cancellation bet (json_opt reason) release
                       (safe_float (jget bet ''amount'') (Fin 0))))
                (\<lambda>_. dreturn Cancelled_order)))"

definition reconcile_closed_limit_order ::
  "string \<Rightarrow> dict \<Rightarrow> string option \<Rightarrow> dict \<Rightarrow> bool \<Rightarrow> outcome desk_op" where
  "reconcile_closed_limit_order stamp bet reason order release d =
     (let m = order_fill_metrics bet (JObj order); shares = fround (fm_matched m) 2
      in if \<not> dk_dry_run d \<and> \<not> order_terminal_state_is_confirmed m then (Inr Unchanged, d)
         else if flt float_eps shares then reconcile_fill bet reason order release shares d
         else reconcile_cancellation stamp bet reason release d)"

section \<open>The journal of a submission\<close>

definition unit_op :: "'a desk_op \<Rightarrow> unit desk_op" where
  "unit_op m = dbind m (\<lambda>_. dreturn ())"

text \<open>\<open>_update_submission_state\<close>; a refused update is only logged.\<close>

definition update_submission_state ::
  "dict \<Rightarrow> string \<Rightarrow> json \<Rightarrow> json option \<Rightarrow> unit desk_op" where
  "update_submission_state bet state submission_error order_id d =
     (let original = recorded_order_id bet
      in if original \<noteq> [] \<and> map_option py_str order_id \<notin> {None, Some original}
         then (Inl (OrderRuntimeError ''CLOB response order id differs from the journalled signed order''), d)
         else dbind (dlift (bet_id bet)) (\<lambda>i. unit_op (on_ledger (update_bet_fields i True
                ([(''placement_state'', JStr state), (''submission_error'', submission_error)]
                 @ (case order_id of None \<Rightarrow> [] | Some oid \<Rightarrow> [(''order_id'', oid)]))))) d)"

text \<open>\<open>_record_prepared_order_id\<close>; the result is the bet with its id.\<close>

definition record_prepared_order_id :: "dict \<Rightarrow> string \<Rightarrow> dict desk_op" where
  "record_prepared_order_id bet order_id d =
     (let original = recorded_order_id bet
      in if order_id = []
         then (Inl (OrderRuntimeError ''Signed order has no durable identity''), d)
         else if original \<noteq> [] \<and> original \<noteq> order_id
         then (Inl (OrderRuntimeError ''Refusing to replace the original signed order identity''), d)
         else dbind (dlift (bet_id bet)) (\<lambda>i.
                dbind (on_ledger (update_bet_fields i True [(''order_id'', JStr order_id)])) (\<lambda>result.
                  if mr_ok result then dreturn (jset ''order_id'' (JStr order_id) bet)
                  else dlift (Inl (OrderRuntimeError
                         ''Order intent is no longer open; submission aborted'')))) d)"

definition cancel_submission_attempt :: "string \<Rightarrow> dict \<Rightarrow> string \<Rightarrow> unit desk_op" where
  "cancel_submission_attempt stamp bet reason =
     dbind (dlift (bet_id bet)) (\<lambda>i.
       dbind (on_ledger (cancel_bet stamp i (Some reason) None)) (\<lambda>result.
         if \<not> mr_ok result then dreturn ()
         else unit_op (on_ledger (update_bet_fields i False
                [(''placement_state'', JStr ''failed''), (''submission_error'', JStr reason)]))))"

text \<open>\<open>_reload_ledger_entry\<close>; ids are integers.\<close>

definition same_id :: "int \<Rightarrow> dict \<Rightarrow> bool" where
  "same_id i row \<longleftrightarrow> jget_or row ''id'' (JInt (- 1)) = JInt i"

definition reload_ledger_entry :: "dict \<Rightarrow> dict desk_op" where
  "reload_ledger_entry bet =
     dbind (dlift (bet_id bet)) (\<lambda>i d.
       let (bets, l) = get_bets True (dk_ledger d)
       in (Inr (case find (same_id i) bets of
                  None \<Rightarrow> bet
                | Some row \<Rightarrow>
                    if truthy (jget bet ''_ledger_path'')
                    then jset ''_ledger_path'' (jget bet ''_ledger_path'') row else row),
           d\<lparr>dk_ledger := l\<rparr>))"

section \<open>An unresolved submission\<close>

definition unresolved_reason :: "dict \<Rightarrow> json" where
  "unresolved_reason bet =
     jor (jget bet ''submission_error'')
       (JStr (py_str (jor (jget_or bet ''order_type'' (JStr ''order'')) (JStr ''order''))
              @ '' submission unresolved: ''
              @ ''durable order id unavailable; account order ownership unconfirmed''))"

text \<open>\<open>open_orders\<close> are the orders that were passed in or fetched; \<open>None\<close> when fetching raised. An
  exception of the inspection is caught and leaves the bet as it is.\<close>

definition settle_submission ::
  "string \<Rightarrow> dict \<Rightarrow> order_state \<Rightarrow> unit desk_op" where
  "settle_submission stamp bet st =
     (case os_state st of
        Resting \<Rightarrow> update_submission_state bet ''submitted'' JNull None
      | Closed \<Rightarrow> unit_op (reconcile_closed_limit_order stamp bet (os_reason st)
                    (case os_order st of Some (JObj order) \<Rightarrow> order | _ \<Rightarrow> []) False)
      | Unsettled \<Rightarrow> dreturn ())"

definition reconcile_unresolved_submission ::
  "(string \<Rightarrow> parsed_time option) \<Rightarrow> clob \<Rightarrow> string \<Rightarrow> dict \<Rightarrow> json list option \<Rightarrow> dict desk_op" where
  "reconcile_unresolved_submission fromiso cl stamp bet open_orders d =
     (let state = placement_state bet
      in if dk_dry_run d \<or> state \<notin> {''pending_submit'', ''unknown''} then (Inr bet, d)
         else if recorded_order_id bet \<noteq> []
         then (case open_orders of
                 None \<Rightarrow> (Inr bet, d)
               | Some orders \<Rightarrow>
                   (case inspect_limit_order_state fromiso cl bet orders of
                      Inl _ \<Rightarrow> (Inr bet, d)
                    | Inr st \<Rightarrow> dbind (settle_submission stamp bet st) (\<lambda>_. reload_ledger_entry bet) d))
         else dbind (if state = ''pending_submit''
                     then update_submission_state bet ''unknown'' (unresolved_reason bet) None
                     else dreturn ())
                (\<lambda>_. reload_ledger_entry bet) d)"

section \<open>After a cancellation\<close>

text \<open>What the exchange answers in one attempt: its open orders (\<open>None\<close> when there is no such method
  or it raises) and the two lookups, which are made one after the other.\<close>

record exchange_round =
  xr_open :: "json list option"
  xr_first :: clob
  xr_second :: clob

definition POST_CANCEL_CONFIRMATION_ATTEMPTS :: nat where
  "POST_CANCEL_CONFIRMATION_ATTEMPTS = 2"

definition observe_round ::
  "(string \<Rightarrow> parsed_time option) \<Rightarrow> exchange_round \<Rightarrow> dict \<Rightarrow> order_state order_attempt" where
  "observe_round fromiso x bet =
     sbind (inspect_limit_order_state fromiso (xr_first x) bet
              (case xr_open x of None \<Rightarrow> [] | Some orders \<Rightarrow> orders)) (\<lambda>st.
       if os_state st \<noteq> Resting then Inr st
       else sbind (closed_limit_order_state_from_lookup fromiso (xr_second x) bet
                     (or_else (os_order_id st) (nonempty (Some (recorded_order_id bet))))) (\<lambda>closed.
              Inr (case closed of None \<Rightarrow> st | Some st' \<Rightarrow> st')))"

text \<open>The order is cancelled once more, at most once; whatever that call answers is ignored.\<close>

definition request_cancel :: "string \<Rightarrow> desk \<Rightarrow> desk" where
  "request_cancel order_id d = d\<lparr>dk_cancels := dk_cancels d @ [order_id]\<rparr>"

fun confirm_cancel ::
  "(string \<Rightarrow> parsed_time option) \<Rightarrow> (nat \<Rightarrow> exchange_round) \<Rightarrow> dict \<Rightarrow> bool \<Rightarrow> nat \<Rightarrow> nat
   \<Rightarrow> order_state desk_op" where
  "confirm_cancel fromiso xs bet retry k 0 =
     dreturn \<lparr>os_state = Unsettled, os_order = None,
       os_order_id = nonempty (Some (recorded_order_id bet)), os_reason = None\<rparr>"
| "confirm_cancel fromiso xs bet retry k (Suc left) =
     dbind (dlift (observe_round fromiso (xs k) bet)) (\<lambda>st.
       if os_state st \<noteq> Resting \<or> left = 0 then dreturn st
       else (let target = or_else (os_order_id st) (nonempty (Some (recorded_order_id bet)))
             in if retry \<and> text_or_empty target \<noteq> []
                then dbind (dmodify (request_cancel (text_or_empty target)))
                       (\<lambda>_. confirm_cancel fromiso xs bet False (Suc k) left)
                else confirm_cancel fromiso xs bet retry (Suc k) left))"

definition finalize_cancelled_limit_order_outcome ::
  "(string \<Rightarrow> parsed_time option) \<Rightarrow> (nat \<Rightarrow> exchange_round) \<Rightarrow> string \<Rightarrow> dict \<Rightarrow> string option \<Rightarrow> bool
   \<Rightarrow> outcome desk_op" where
  "finalize_cancelled_limit_order_outcome fromiso xs stamp bet reason retry =
     dbind (confirm_cancel fromiso xs bet retry 0 (max 1 POST_CANCEL_CONFIRMATION_ATTEMPTS)) (\<lambda>st.
       if os_state st = Closed
       then reconcile_closed_limit_order stamp bet reason
              (case os_order st of Some (JObj order) \<Rightarrow> order | _ \<Rightarrow> []) True
       else dreturn Unchanged)"

definition finalize_cancelled_limit_order ::
  "(string \<Rightarrow> parsed_time option) \<Rightarrow> (nat \<Rightarrow> exchange_round) \<Rightarrow> string \<Rightarrow> dict \<Rightarrow> string option \<Rightarrow> bool
   \<Rightarrow> bool desk_op" where
  "finalize_cancelled_limit_order fromiso xs stamp bet reason retry =
     dbind (finalize_cancelled_limit_order_outcome fromiso xs stamp bet reason retry)
       (\<lambda>out. dreturn (out \<noteq> Unchanged))"

section \<open>Cancelling an order\<close>

text \<open>The answer of the exchange to a cancellation: accepted, not confirmed, or an exception.\<close>

datatype cancel_answer = Cancel_accepted | Cancel_unconfirmed | Cancel_raised

definition cancel_simulated ::
  "string \<Rightarrow> dict \<Rightarrow> string \<Rightarrow> outcome desk_op" where
  "cancel_simulated stamp bet reason =
     dbind (dlift (bet_id bet)) (\<lambda>i.
       dbind (on_ledger (cancel_bet stamp i (Some reason) (Some RESTING_LIMIT_ORDER_TYPES))) (\<lambda>result.
         if \<not> mr_ok result then dreturn Unchanged
         else dbind (dmodify (\<lambda>d.
                log_entry (base_log d bet ''cancelled'' (JStr reason))
                  (d\<lparr>dk_bank := release_bet (dk_bank d) (safe_float (jget bet ''amount'') (Fin 0))\<rparr>)))
                (\<lambda>_. dreturn Cancelled_order)))"

definition cancel_limit_order_for_refresh_outcome ::
  "(string \<Rightarrow> parsed_time option) \<Rightarrow> (string \<Rightarrow> cancel_answer) \<Rightarrow> (nat \<Rightarrow> exchange_round) \<Rightarrow> string
   \<Rightarrow> dict \<Rightarrow> string \<Rightarrow> string option \<Rightarrow> outcome desk_op" where
  "cancel_limit_order_for_refresh_outcome fromiso answer xs stamp bet reason resolved_order_id d =
     (if dk_dry_run d then cancel_simulated stamp bet reason d
      else (let order_id = or_text (text_or_empty resolved_order_id) (recorded_order_id bet)
            in if order_id = [] then (Inr Unchanged, d)
               else dbind (dmodify (request_cancel order_id)) (\<lambda>_.
                      if answer order_id = Cancel_raised then dreturn Unchanged
                      else finalize_cancelled_limit_order_outcome fromiso xs stamp bet (Some reason) True)
                    d))"

definition cancel_limit_order_for_refresh ::
  "(string \<Rightarrow> parsed_time option) \<Rightarrow> (string \<Rightarrow> cancel_answer) \<Rightarrow> (nat \<Rightarrow> exchange_round) \<Rightarrow> string
   \<Rightarrow> dict \<Rightarrow> string \<Rightarrow> string option \<Rightarrow> bool desk_op" where
  "cancel_limit_order_for_refresh fromiso answer xs stamp bet reason resolved_order_id =
     dbind (cancel_limit_order_for_refresh_outcome fromiso answer xs stamp bet reason resolved_order_id)
       (\<lambda>out. dreturn (out \<noteq> Unchanged))"

end
