(* ===== verification/Order_Laws.thy ===== *)
theory Order_Laws
  imports Order_Reconcile Ledger_Histories
begin

text \<open>
  What every operation of the desk guarantees, proved once. A relation between the desk before and
  after that is a preorder and holds for the elementary changes (\<open>booking_relation\<close>, and \<open>desk_relation\<close>
  with the requests to the exchange) holds for every operation of the executor. It is interpreted on
  four relations: the ledger only goes through operations of \<open>BetLedger\<close>; also no cash moves; only
  one bet of the ledger changes; no request is sent.
\<close>

section \<open>Composing operations\<close>

lemma dbind_elim:
  assumes "dbind m f d = (r, d')"
  obtains (raised) e where "m d = (Inl e, d')" "r = Inl e"
  | (went_on) x d1 where "m d = (Inr x, d1)" "f x d1 = (r, d')"
  using assms by (cases "m d"; cases "fst (m d)") (auto simp: dbind_def)

lemma dbind_Inr:
  "dbind m f d = (Inr y, d') \<longleftrightarrow> (\<exists>x d1. m d = (Inr x, d1) \<and> f x d1 = (Inr y, d'))"
  by (auto simp: dbind_def split: prod.splits sum.splits)

lemma dreturn_iff [simp]: "dreturn x d = (r, d') \<longleftrightarrow> r = Inr x \<and> d' = d"
  by (auto simp: dreturn_def)

lemma dlift_iff [simp]: "dlift x d = (r, d') \<longleftrightarrow> x = r \<and> d' = d"
  by (auto simp: dlift_def)

lemma dmodify_iff [simp]: "dmodify g d = (r, d') \<longleftrightarrow> r = Inr () \<and> d' = g d"
  by (auto simp: dmodify_def)

lemma on_ledger_elim:
  assumes "on_ledger f d = (r, d')"
  obtains r0 l where "f (dk_ledger d) = (r0, l)" "r = lift_error r0" "d' = d\<lparr>dk_ledger := l\<rparr>"
  using assms by (cases "f (dk_ledger d)") (auto simp: on_ledger_def)

lemma lift_error_Inr [simp]: "lift_error r = Inr x \<longleftrightarrow> r = Inr x"
  by (auto simp: lift_error_def split: sum.splits)

definition obeys :: "(desk \<Rightarrow> desk \<Rightarrow> bool) \<Rightarrow> 'a desk_op \<Rightarrow> bool" where
  "obeys Q m \<longleftrightarrow> (\<forall>d r d'. m d = (r, d') \<longrightarrow> Q d d')"

lemma obeysD: "obeys Q m \<Longrightarrow> m d = (r, d') \<Longrightarrow> Q d d'"
  by (simp add: obeys_def)

lemma obeys_on_ledger:
  "(\<And>d r l. f (dk_ledger d) = (r, l) \<Longrightarrow> Q d (d\<lparr>dk_ledger := l\<rparr>)) \<Longrightarrow> obeys Q (on_ledger f)"
  by (auto simp: obeys_def elim!: on_ledger_elim)

section \<open>The executor without its guards\<close>

definition book_fill ::
  "dict \<Rightarrow> string option \<Rightarrow> dict \<Rightarrow> bool \<Rightarrow> pyfloat \<Rightarrow> outcome desk_op" where
  "book_fill bet reason order release shares =
     (let filled = filled_amount bet order shares; refund = refund_amount bet filled;
          why = (if flt (Fin 0) refund then reason else None)
      in dbind (dlift (bet_id bet)) (\<lambda>i.
           dbind (on_ledger (convert_limit_bet_to_position i (fill_arguments order shares filled why)))
             (\<lambda>result.
               if \<not> mr_ok result then dreturn Unchanged
               else dbind (dmodify (book_position bet (json_opt why) shares
                             (if release then refund else Fin 0)))
                      (\<lambda>_. dreturn Position))))"

lemma reconcile_fill_alt:
  "reconcile_fill bet reason order release shares =
     (\<lambda>d. if \<not> dk_dry_run d \<and> \<not> fill_proved order then dreturn Unchanged d
          else book_fill bet reason order release shares d)"
  by (simp add: fun_eq_iff reconcile_fill_def book_fill_def dreturn_def Let_def)

lemma reconcile_closed_alt:
  "reconcile_closed_limit_order stamp bet reason order release =
     (\<lambda>d. if \<not> dk_dry_run d \<and> \<not> order_terminal_state_is_confirmed (order_fill_metrics bet (JObj order))
          then dreturn Unchanged d
          else (if flt float_eps (fround (fm_matched (order_fill_metrics bet (JObj order))) 2)
                then reconcile_fill bet reason order release
                       (fround (fm_matched (order_fill_metrics bet (JObj order))) 2)
                else reconcile_cancellation stamp bet reason release) d)"
  by (simp add: fun_eq_iff reconcile_closed_limit_order_def dreturn_def Let_def)

lemma update_submission_alt:
  "update_submission_state bet state err order_id =
     (if recorded_order_id bet \<noteq> [] \<and> map_option py_str order_id \<notin> {None, Some (recorded_order_id bet)}
      then dlift (Inl (OrderRuntimeError
             ''CLOB response order id differs from the journalled signed order''))
      else dbind (dlift (bet_id bet)) (\<lambda>i. unit_op (on_ledger (update_bet_fields i True
             ([(''placement_state'', JStr state), (''submission_error'', err)]
              @ (case order_id of None \<Rightarrow> [] | Some oid \<Rightarrow> [(''order_id'', oid)]))))))"
  by (simp only: fun_eq_iff update_submission_state_def Let_def dlift_def split: if_split) blast

lemma record_prepared_alt:
  "record_prepared_order_id bet order_id =
     (if order_id = []
      then dlift (Inl (OrderRuntimeError ''Signed order has no durable identity''))
      else if recorded_order_id bet \<noteq> [] \<and> recorded_order_id bet \<noteq> order_id
      then dlift (Inl (OrderRuntimeError ''Refusing to replace the original signed order identity''))
      else dbind (dlift (bet_id bet)) (\<lambda>i.
             dbind (on_ledger (update_bet_fields i True [(''order_id'', JStr order_id)])) (\<lambda>result.
               if mr_ok result then dreturn (jset ''order_id'' (JStr order_id) bet)
               else dlift (Inl (OrderRuntimeError
                      ''Order intent is no longer open; submission aborted'')))))"
  by (simp only: fun_eq_iff record_prepared_order_id_def Let_def dlift_def split: if_split) blast

definition recover_named ::
  "(string \<Rightarrow> parsed_time option) \<Rightarrow> clob \<Rightarrow> string \<Rightarrow> dict \<Rightarrow> json list option \<Rightarrow> dict desk_op" where
  "recover_named fromiso cl stamp bet orders =
     (case orders of
        None \<Rightarrow> dreturn bet
      | Some os \<Rightarrow>
          (case inspect_limit_order_state fromiso cl bet os of
             Inl _ \<Rightarrow> dreturn bet
           | Inr st \<Rightarrow> dbind (settle_submission stamp bet st) (\<lambda>_. reload_ledger_entry bet)))"

lemma reconcile_unresolved_alt:
  "reconcile_unresolved_submission fromiso cl stamp bet orders =
     (\<lambda>d. if dk_dry_run d \<or> placement_state bet \<notin> {''pending_submit'', ''unknown''}
          then dreturn bet d
          else (if recorded_order_id bet \<noteq> [] then recover_named fromiso cl stamp bet orders
                else dbind (if placement_state bet = ''pending_submit''
                            then update_submission_state bet ''unknown'' (unresolved_reason bet) None
                            else dreturn ())
                       (\<lambda>_. reload_ledger_entry bet)) d)"
  by (simp add: fun_eq_iff reconcile_unresolved_submission_def recover_named_def dreturn_def Let_def
      split: option.split sum.split)

lemma cancel_for_refresh_alt:
  "cancel_limit_order_for_refresh_outcome fromiso answer xs stamp bet reason resolved =
     (\<lambda>d. if dk_dry_run d then cancel_simulated stamp bet reason d
          else (if or_text (text_or_empty resolved) (recorded_order_id bet) = [] then dreturn Unchanged
                else dbind (dmodify (request_cancel
                         (or_text (text_or_empty resolved) (recorded_order_id bet)))) (\<lambda>_.
                       if answer (or_text (text_or_empty resolved) (recorded_order_id bet)) = Cancel_raised
                       then dreturn Unchanged
                       else finalize_cancelled_limit_order_outcome fromiso xs stamp bet (Some reason) True)) d)"
  by (simp add: fun_eq_iff cancel_limit_order_for_refresh_outcome_def dreturn_def Let_def)

lemma journal_harmless [simp]:
  "harmless ([(''placement_state'', a), (''submission_error'', b)]
     @ (case oid of None \<Rightarrow> [] | Some x \<Rightarrow> [(''order_id'', x)]))"
  "harmless [(''placement_state'', a), (''submission_error'', b)]"
  "harmless [(''order_id'', a)]"
  by (auto simp: harmless_def split: option.splits)

text \<open>What the bookings leave alone.\<close>

lemma log_entry_desk [simp]:
  "dk_ledger (log_entry e d) = dk_ledger d" "dk_own (log_entry e d) = dk_own d"
  "dk_dry_run (log_entry e d) = dk_dry_run d" "dk_log (log_entry e d) = dk_log d @ [e]"
  "dk_cancels (log_entry e d) = dk_cancels d" "dk_bank (log_entry e d) = dk_bank d"
  by (simp_all add: log_entry_def)

lemma booking_desk [simp]:
  "dk_ledger (book_position bet reason shares released d) = dk_ledger d"
  "dk_ledger (book_cancellation bet reason release amount d) = dk_ledger d"
  by (simp_all add: book_position_def book_cancellation_def release_reserved_cash_def)

section \<open>The contract of the desk\<close>

text \<open>\<open>may\<close> says which bets of the ledger may change, \<open>cash\<close> whether cash may come back.\<close>

definition allowed_bet :: "(int \<Rightarrow> bool) \<Rightarrow> dict \<Rightarrow> bool" where
  "allowed_bet may bet \<longleftrightarrow> (\<forall>i. bet_id bet = Inr i \<longrightarrow> may i)"

locale desk_preorder =
  fixes Q :: "desk \<Rightarrow> desk \<Rightarrow> bool"
  assumes Q_refl: "Q d d"
    and Q_trans: "Q a b \<Longrightarrow> Q b c \<Longrightarrow> Q a c"
begin

lemma o_return: "obeys Q (dreturn x)"
  by (simp add: obeys_def Q_refl)

lemma o_lift: "obeys Q (dlift x)"
  by (simp add: obeys_def Q_refl)

lemma o_bind: "obeys Q m \<Longrightarrow> (\<And>x. obeys Q (f x)) \<Longrightarrow> obeys Q (dbind m f)"
  unfolding obeys_def by (blast elim: dbind_elim intro: Q_trans)

lemma o_bet:
  assumes "\<And>i. bet_id bet = Inr i \<Longrightarrow> obeys Q (f i)"
  shows "obeys Q (dbind (dlift (bet_id bet)) f)"
  using assms by (cases "bet_id bet") (auto simp: obeys_def dbind_def dlift_def Q_refl)

lemma o_unit: "obeys Q m \<Longrightarrow> obeys Q (unit_op m)"
  unfolding unit_op_def by (intro o_bind o_return)

lemma o_modify: "(\<And>d. Q d (g d)) \<Longrightarrow> obeys Q (dmodify g)"
  by (simp add: obeys_def)

lemma o_ite: "obeys Q m \<Longrightarrow> obeys Q n \<Longrightarrow> obeys Q (if b then m else n)"
  by simp

lemma o_if: "obeys Q m \<Longrightarrow> obeys Q n \<Longrightarrow> obeys Q (\<lambda>d. if P d then m d else n d)"
  by (auto simp: obeys_def split: if_split_asm)

lemmas o_rules = o_bind o_unit o_return o_lift o_ite

end

locale booking_relation = desk_preorder +
  fixes may :: "int \<Rightarrow> bool" and cash :: bool
  assumes Q_convert: "may i \<Longrightarrow> obeys Q (on_ledger (convert_limit_bet_to_position i a))"
    and Q_cancel: "may i \<Longrightarrow> obeys Q (on_ledger (cancel_bet stamp i reason types))"
    and Q_update: "may i \<Longrightarrow> harmless u \<Longrightarrow> obeys Q (on_ledger (update_bet_fields i ro u))"
    and Q_refresh: "Q d (d\<lparr>dk_ledger := snd (get_bets True (dk_ledger d))\<rparr>)"
    and Q_log: "Q d (log_entry e d)"
    and Q_bank: "cash \<Longrightarrow> Q d (d\<lparr>dk_bank := b\<rparr>)"
begin

lemma Q_release: "cash \<or> fle amount (Fin 0) \<Longrightarrow> Q d (release_reserved_cash amount d)"
  using Q_bank Q_refl by (auto simp: release_reserved_cash_def)

lemma Q_position: "cash \<or> released = Fin 0 \<Longrightarrow> Q d (book_position bet reason shares released d)"
  unfolding book_position_def by (rule Q_trans [OF _ Q_log]) (auto intro: Q_release Q_refl)

lemma Q_cancellation: "cash \<or> \<not> release \<Longrightarrow> Q d (book_cancellation bet reason release amount d)"
  unfolding book_cancellation_def by (rule Q_trans [OF _ Q_log]) (auto intro: Q_release Q_refl)

lemma o_book_fill:
  assumes "allowed_bet may bet" "cash \<or> \<not> release"
  shows "obeys Q (book_fill bet reason order release shares)"
  unfolding book_fill_def Let_def
  by (rule o_bet, intro o_rules o_modify Q_convert Q_position) (use assms in \<open>auto simp: allowed_bet_def\<close>)

lemma o_cancellation:
  assumes "allowed_bet may bet" "cash \<or> \<not> release"
  shows "obeys Q (reconcile_cancellation stamp bet reason release)"
  unfolding reconcile_cancellation_def
  by (rule o_bet, intro o_rules o_modify Q_cancel Q_cancellation) (use assms in \<open>auto simp: allowed_bet_def\<close>)

lemma o_reconcile:
  assumes "allowed_bet may bet" "cash \<or> \<not> release"
  shows "obeys Q (reconcile_closed_limit_order stamp bet reason order release)"
  unfolding reconcile_closed_alt reconcile_fill_alt
  by (intro o_if o_ite o_return o_book_fill o_cancellation assms)

lemma o_update_submission:
  assumes "allowed_bet may bet"
  shows "obeys Q (update_submission_state bet state err order_id)"
  unfolding update_submission_alt
  by (rule o_ite [OF o_lift], rule o_bet, intro o_rules Q_update journal_harmless)
    (use assms in \<open>simp add: allowed_bet_def\<close>)

lemma o_record_prepared:
  assumes "allowed_bet may bet"
  shows "obeys Q (record_prepared_order_id bet order_id)"
  unfolding record_prepared_alt
  by (rule o_ite [OF o_lift], rule o_ite [OF o_lift], rule o_bet,
      intro o_rules Q_update journal_harmless)
    (use assms in \<open>simp add: allowed_bet_def\<close>)

lemma o_cancel_attempt:
  assumes "allowed_bet may bet"
  shows "obeys Q (cancel_submission_attempt stamp bet reason)"
  unfolding cancel_submission_attempt_def
  by (rule o_bet, intro o_rules Q_cancel Q_update journal_harmless)
    (use assms in \<open>simp_all add: allowed_bet_def\<close>)

lemma o_reload: "obeys Q (reload_ledger_entry bet)"
  unfolding reload_ledger_entry_def
  by (rule o_bet) (auto simp: obeys_def Q_refresh split: prod.split, metis Q_refresh snd_conv)

lemma o_settle_submission:
  assumes "allowed_bet may bet"
  shows "obeys Q (settle_submission stamp bet st)"
  unfolding settle_submission_def
  by (cases "os_state st"; simp only: book_state.case;
      intro o_rules o_update_submission o_reconcile assms disjI2) simp

lemma o_unresolved:
  assumes "allowed_bet may bet"
  shows "obeys Q (reconcile_unresolved_submission fromiso cl stamp bet orders)"
proof -
  have "obeys Q (recover_named fromiso cl stamp bet orders)"
    unfolding recover_named_def
    by (auto split: option.split sum.split
        intro: o_return o_bind o_reload o_settle_submission assms)
  then show ?thesis
    unfolding reconcile_unresolved_alt
    by (intro o_if o_rules o_update_submission o_reload assms)
qed

end

text \<open>The exchange may also be asked to cancel an order.\<close>

locale desk_relation = booking_relation +
  assumes Q_request: "Q d (request_cancel oid d)"
begin

lemma o_confirm: "obeys Q (confirm_cancel fromiso xs bet retry k n)"
proof (induction n arbitrary: retry k)
  case (Suc n)
  show ?case
    unfolding confirm_cancel.simps Let_def
    by (intro o_rules o_modify Q_request Suc.IH)
qed (simp add: o_return)

lemma o_finalize:
  assumes "allowed_bet may bet" "cash"
  shows "obeys Q (finalize_cancelled_limit_order_outcome fromiso xs stamp bet reason retry)"
  unfolding finalize_cancelled_limit_order_outcome_def
  by (intro o_rules o_confirm o_reconcile) (use assms in auto)

lemma o_simulated:
  assumes "allowed_bet may bet" "cash"
  shows "obeys Q (cancel_simulated stamp bet reason)"
  unfolding cancel_simulated_def
  by (rule o_bet, intro o_rules o_modify Q_cancel Q_trans [OF _ Q_log] Q_bank)
    (use assms in \<open>auto simp: allowed_bet_def\<close>)

lemma o_cancel_for_refresh:
  assumes "allowed_bet may bet" "cash"
  shows "obeys Q (cancel_limit_order_for_refresh_outcome fromiso answer xs stamp bet reason resolved)"
  unfolding cancel_for_refresh_alt
  by (intro o_if o_rules o_modify Q_request o_simulated o_finalize assms)

end

section \<open>Four relations\<close>

lemma run_refl [simp]: "ledger_run sha l l"
  by (simp add: ledger_run_def)

lemma run_trans: "ledger_run sha a b \<Longrightarrow> ledger_run sha b c \<Longrightarrow> ledger_run sha a c"
  unfolding ledger_run_def by (rule rtranclp_trans)

lemma run_step: "ledger_step sha l l' \<Longrightarrow> ledger_run sha l l'"
  unfolding ledger_run_def by (rule r_into_rtranclp)

lemma get_bets_run: "ledger_run sha l (snd (get_bets fresh l))"
  by (rule run_step, rule ledger_step.refresh [of fresh _ "fst (get_bets fresh l)"]) simp

definition grown :: "desk \<Rightarrow> desk \<Rightarrow> bool" where
  "grown d d' \<longleftrightarrow>
     dk_own d' = dk_own d \<and> dk_dry_run d' = dk_dry_run d
     \<and> (\<exists>es. dk_log d' = dk_log d @ es) \<and> (\<exists>cs. dk_cancels d' = dk_cancels d @ cs)"

text \<open>The ledger only goes through operations of \<open>BetLedger\<close>, and the logs only grow.\<close>

definition ledger_relation :: "(string \<Rightarrow> string) \<Rightarrow> desk \<Rightarrow> desk \<Rightarrow> bool" where
  "ledger_relation sha d d' \<longleftrightarrow> ledger_run sha (dk_ledger d) (dk_ledger d') \<and> grown d d'"

text \<open>Also, no cash moves.\<close>

definition cashless_relation :: "(string \<Rightarrow> string) \<Rightarrow> desk \<Rightarrow> desk \<Rightarrow> bool" where
  "cashless_relation sha d d' \<longleftrightarrow> ledger_relation sha d d' \<and> dk_bank d' = dk_bank d"

text \<open>Only the row of one bet changes, and it keeps its id.\<close>

definition touched :: "int \<Rightarrow> dict \<Rightarrow> dict \<Rightarrow> bool" where
  "touched i b b' \<longleftrightarrow> b' = b \<or> matches i b \<and> jget b' ''id'' = jget b ''id''"

definition one_bet_relation :: "int \<Rightarrow> desk \<Rightarrow> desk \<Rightarrow> bool" where
  "one_bet_relation i d d' \<longleftrightarrow>
     list_all2 (touched i) (disk_rows (dk_ledger d)) (disk_rows (dk_ledger d'))"

lemma touched_refl [simp]: "touched i b b"
  by (simp add: touched_def)

lemma touched_trans: "touched i a b \<Longrightarrow> touched i b c \<Longrightarrow> touched i a c"
  by (auto simp: touched_def matches_def)

context row_contract
begin

lemma file_touched:
  "on_file strict i f l = (r, l') \<Longrightarrow> list_all2 (touched i) (disk_rows l) (disk_rows l')"
  by (erule on_file_rows) (auto simp: touched_def keeps_id)

end

lemma update_touched:
  assumes "update_bet_fields i ro u l = (r, l')" and "harmless u"
  shows "list_all2 (touched i) (disk_rows l) (disk_rows l')"
  using assms row_contract.file_touched [OF update_row_contract [OF assms(2), of ro], of True i l r l']
  by (auto simp: update_bet_fields_def list_all2_refl split: if_split_asm)

lemmas relation_defs = ledger_relation_def cashless_relation_def one_bet_relation_def grown_def

lemmas op_runs = ledger_step.convert [THEN run_step] ledger_step.cancel [THEN run_step]
  ledger_step.update [THEN run_step]

interpretation any_op: desk_relation "ledger_relation sha" "\<lambda>_. True" True for sha
  by unfold_locales
    (auto simp: relation_defs log_entry_def request_cancel_def intro!: obeys_on_ledger
      intro: run_trans op_runs get_bets_run)

interpretation free_op: desk_relation "cashless_relation sha" "\<lambda>_. True" False for sha
  by unfold_locales
    (auto simp: relation_defs log_entry_def request_cancel_def intro!: obeys_on_ledger
      intro: run_trans op_runs get_bets_run)

text \<open>Booking the fate of an order asks nothing of the exchange.\<close>

definition same_requests :: "desk \<Rightarrow> desk \<Rightarrow> bool" where
  "same_requests d d' \<longleftrightarrow> dk_cancels d' = dk_cancels d"

interpretation quiet_op: booking_relation same_requests "\<lambda>_. True" True
  by unfold_locales (auto simp: same_requests_def intro!: obeys_on_ledger)

interpretation single_op: desk_relation "one_bet_relation i" "\<lambda>j. j = i" True for i
  by unfold_locales
    (auto simp: one_bet_relation_def log_entry_def request_cancel_def get_bets_def Let_def
      convert_limit_bet_to_position_def cancel_bet_def list_all2_refl
      intro!: obeys_on_ledger
      intro: list_all2_trans [OF touched_trans] converting.file_touched cancelling.file_touched update_touched)

lemma may_any [simp]: "allowed_bet (\<lambda>_. True) bet"
  by (simp add: allowed_bet_def)

end
