(* ===== verification/Order_Trades.thy ===== *)
theory Order_Trades
  imports Order_Evidence
begin

text \<open>
  What the trade history proves: a reference description of the trades that count for an order,
  and the proof that the loop of \<open>_lookup_order_from_trade_history\<close> collects exactly those, each once.
\<close>

section \<open>The trades that count\<close>

definition trade_id :: "json \<Rightarrow> string" where
  "trade_id tr = stripped (jget (obj_of tr) ''id'')"

definition trade_status :: "json \<Rightarrow> string" where
  "trade_status tr = normalize_order_status (jget (obj_of tr) ''status'')"

definition fills_in :: "string \<Rightarrow> string option \<Rightarrow> json \<Rightarrow> owned_fill list" where
  "fills_in oid tok tr =
     (case owned_fills oid tok (obj_of tr) of Inr (Some fs) \<Rightarrow> fs | _ \<Rightarrow> [])"

text \<open>The first trade of every id; trades without an id are all kept.\<close>

fun first_trades :: "string list \<Rightarrow> json list \<Rightarrow> json list" where
  "first_trades seen [] = []"
| "first_trades seen (tr # trs) =
     (if trade_id tr \<noteq> [] \<and> trade_id tr \<in> set seen then first_trades seen trs
      else tr # first_trades (if trade_id tr = [] then seen else trade_id tr # seen) trs)"

abbreviation is_final :: "json \<Rightarrow> bool" where
  "is_final tr \<equiv> trade_status tr \<in> set FINAL_TRADE_STATUSES"

definition counted :: "string \<Rightarrow> string option \<Rightarrow> string list \<Rightarrow> json list \<Rightarrow> json list" where
  "counted oid tok seen trades =
     filter (\<lambda>tr. fills_in oid tok tr \<noteq> [] \<and> is_final tr) (first_trades seen trades)"

text \<open>No trade of the order is still under way.\<close>

definition all_over :: "string \<Rightarrow> string option \<Rightarrow> string list \<Rightarrow> json list \<Rightarrow> bool" where
  "all_over oid tok seen trades \<longleftrightarrow>
     list_all (\<lambda>tr. fills_in oid tok tr = [] \<or> is_final tr \<or> trade_status tr = ''failed'')
       (first_trades seen trades)"

definition fill_quantity :: "owned_fill \<Rightarrow> pyfloat" where
  "fill_quantity f = safe_float (fst f) NaN"

definition fill_cost :: "owned_fill \<Rightarrow> pyfloat" where
  "fill_cost f = fmul (fill_quantity f) (safe_float (snd f) NaN)"

text \<open>A trade names the order: as its taker, or among its makers, and for the token of the bet.\<close>

definition names_order :: "string \<Rightarrow> string option \<Rightarrow> dict \<Rightarrow> bool" where
  "names_order oid tok trade \<longleftrightarrow>
     taker_order_id trade = oid \<and> tok = Some (stripped (asset_of trade))
     \<or> (\<exists>ms d. maker_orders trade = Inr ms \<and> JObj d \<in> set ms \<and> maker_order_id d = oid
          \<and> tok = Some (maker_token trade d))"

section \<open>Fills\<close>

lemma add_fills_append:
  "add_fills (fs @ gs) acc = (case add_fills fs acc of None \<Rightarrow> None | Some acc' \<Rightarrow> add_fills gs acc')"
  by (induction fs arbitrary: acc) (simp_all add: Let_def)

lemma add_fills_Some:
  "add_fills fs acc = Some acc' \<longleftrightarrow>
   list_all fill_ok fs
   \<and> acc' = (foldl fadd (fst acc) (map fill_quantity fs), foldl fadd (snd acc) (map fill_cost fs))"
  by (induction fs arbitrary: acc) (auto simp: Let_def fill_quantity_def fill_cost_def)

lemma maker_fills_named:
  "maker_fills oid tok trade ms fs = Inr (Some fs') \<Longrightarrow>
   fs' = fs \<or> (\<exists>d. JObj d \<in> set ms \<and> maker_order_id d = oid \<and> tok = Some (maker_token trade d))"
proof (induction ms arbitrary: fs)
  case (Cons m ms)
  then show ?case by (cases m) (auto split: if_split_asm)
qed simp

lemma owned_fills_named:
  assumes "owned_fills oid tok trade = Inr (Some fs)" and "fs \<noteq> []"
  shows "names_order oid tok trade"
  using assms maker_fills_named [of oid tok trade _ "[]" fs]
  by (auto simp: owned_fills_def taker_fills_def names_order_def sbind_eq_Inr split: if_split_asm)

section \<open>The loop\<close>

lemma count_trade_Some:
  assumes "count_trade oid tok i trade fs st = Some st'"
  shows "ts_seen st' = ts_seen st"
    and "normalize_order_status (jget trade ''status'') \<in> set FINAL_TRADE_STATUSES \<Longrightarrow>
      ts_ids st' = ts_ids st @ [i] \<and> ts_pending st' = ts_pending st
      \<and> add_fills fs (ts_shares st, ts_amount st) = Some (ts_shares st', ts_amount st')"
    and "normalize_order_status (jget trade ''status'') \<notin> set FINAL_TRADE_STATUSES \<Longrightarrow>
      ts_ids st' = ts_ids st \<and> ts_shares st' = ts_shares st \<and> ts_amount st' = ts_amount st
      \<and> ts_pending st' = (ts_pending st \<or> normalize_order_status (jget trade ''status'') \<noteq> ''failed'')"
  using assms by (auto simp: count_trade_def Let_def split: if_split_asm option.split_asm)

abbreviation seen_ids :: "trade_state \<Rightarrow> string list" where
  "seen_ids st \<equiv> map fst (ts_seen st)"

text \<open>One round of the loop: a repeated trade is passed over, a first one is remembered and, when it
  names the order, counted, ignored as failed, or noted as pending.\<close>

lemma trade_step_cases:
  assumes "trade_step oid tok tr st = Inr (Some st')"
  obtains (repeated) "trade_id tr \<noteq> []" "trade_id tr \<in> set (seen_ids st)" "st' = st"
  | (foreign) "trade_id tr = [] \<or> trade_id tr \<notin> set (seen_ids st)" "fills_in oid tok tr = []"
      "st' = (if trade_id tr = [] then st else st\<lparr>ts_seen := (trade_id tr, tr) # ts_seen st\<rparr>)"
  | (owned) trade where "tr = JObj trade" "trade_id tr \<noteq> []" "trade_id tr \<notin> set (seen_ids st)"
      "fills_in oid tok tr \<noteq> []"
      "count_trade oid tok (trade_id tr) trade (fills_in oid tok tr)
         (st\<lparr>ts_seen := (trade_id tr, tr) # ts_seen st\<rparr>) = Some st'"
proof -
  obtain trade where tr: "tr = JObj trade"
    using assms by (cases tr) (simp_all add: trade_step_def)
  let ?i = "stripped (jget trade ''id'')"
  have i: "trade_id tr = ?i" by (simp add: trade_id_def tr)
  show thesis
  proof (cases "?i \<noteq> [] \<and> map_of (ts_seen st) ?i \<noteq> None")
    case True
    then have "st' = st" using assms by (auto simp: trade_step_def tr split: if_split_asm)
    then show thesis using True repeated i by (simp add: map_of_eq_None_iff)
  next
    case False
    let ?st = "if ?i = [] then st else st\<lparr>ts_seen := (?i, tr) # ts_seen st\<rparr>"
    have fresh: "trade_id tr = [] \<or> trade_id tr \<notin> set (seen_ids st)"
      using False i by (force simp: map_of_eq_None_iff)
    have none: "(if ?i = [] then None else map_of (ts_seen st) ?i) = None" using False by auto
    obtain r where r: "owned_fills oid tok trade = Inr r"
      and result: "(case r of None \<Rightarrow> Inr None | Some [] \<Rightarrow> Inr (Some ?st)
        | Some fs \<Rightarrow> Inr (if ?i = [] then None else count_trade oid tok ?i trade fs ?st))
        = (Inr (Some st') :: trade_state option order_attempt)"
      using assms unfolding trade_step_def tr json.case Let_def none option.case sbind_eq_Inr by blast
    from result obtain fs where "r = Some fs" by (cases r) simp_all
    with r result have fs: "owned_fills oid tok trade = Inr (Some fs)"
      "(case fs of [] \<Rightarrow> Some ?st | _ \<Rightarrow> if ?i = [] then None else count_trade oid tok ?i trade fs ?st)
        = Some st'"
      by (auto split: list.split_asm if_split_asm)
    have in_fs: "fills_in oid tok tr = fs" by (simp add: fills_in_def tr fs(1))
    show thesis
    proof (cases fs)
      case Nil
      then show thesis using foreign [OF fresh] fs(2) in_fs i by auto
    next
      case (Cons f fs')
      then show thesis using owned [OF tr] fresh fs(2) in_fs i by (auto split: if_split_asm)
    qed
  qed
qed

lemma trade_loop_effect:
  assumes "trade_loop oid tok trades st = Inr (Some st')"
  shows "ts_ids st' = ts_ids st @ map trade_id (counted oid tok (seen_ids st) trades)
    \<and> add_fills (concat (map (fills_in oid tok) (counted oid tok (seen_ids st) trades)))
        (ts_shares st, ts_amount st) = Some (ts_shares st', ts_amount st')
    \<and> (\<not> ts_pending st' \<longrightarrow> \<not> ts_pending st \<and> all_over oid tok (seen_ids st) trades)
    \<and> list_all (\<lambda>tr. trade_id tr \<noteq> []) (counted oid tok (seen_ids st) trades)"
  using assms
proof (induction trades arbitrary: st)
  case Nil
  then show ?case by (simp add: counted_def all_over_def)
next
  case (Cons tr trades)
  obtain st1 where step: "trade_step oid tok tr st = Inr (Some st1)"
    and rest: "trade_loop oid tok trades st1 = Inr (Some st')"
    using Cons.prems by (auto simp: sbind_eq_Inr split: option.split_asm)
  note IH = Cons.IH [OF rest]
  from step show ?case
  proof (cases rule: trade_step_cases)
    case repeated
    then show ?thesis using IH by (simp add: counted_def all_over_def)
  next
    case foreign
    then show ?thesis using IH by (auto simp: counted_def all_over_def)
  next
    case (owned trade)
    have status: "trade_status tr = normalize_order_status (jget trade ''status'')"
      by (simp add: trade_status_def owned(1))
    show ?thesis
      using IH owned(2-4) count_trade_Some [OF owned(5)]
      by (cases "is_final tr") (auto simp: counted_def all_over_def status add_fills_append)
  qed
qed

section \<open>The evidence\<close>

lemma distinct_first_trades:
  "distinct (map trade_id (filter (\<lambda>tr. trade_id tr \<noteq> []) (first_trades seen trades)))
   \<and> (\<forall>tr \<in> set (first_trades seen trades). trade_id tr \<notin> set seen \<or> trade_id tr = [])"
proof (induction trades arbitrary: seen)
  case (Cons tr trades)
  show ?case
  proof (cases "trade_id tr = []")
    case True
    then show ?thesis using Cons.IH [of seen] by simp
  next
    case False
    have "trade_id tr \<notin> trade_id ` {x \<in> set (first_trades (trade_id tr # seen) trades). trade_id x \<noteq> []}"
      using Cons.IH [of "trade_id tr # seen"] by auto
    then show ?thesis
      using False Cons.IH [of seen] Cons.IH [of "trade_id tr # seen"] by auto
  qed
qed simp

lemma counted_distinct:
  assumes "list_all (\<lambda>tr. trade_id tr \<noteq> []) (counted oid tok [] trades)"
  shows "distinct (map trade_id (counted oid tok [] trades))"
proof -
  let ?P = "\<lambda>tr. fills_in oid tok tr \<noteq> [] \<and> is_final tr"
  have named: "?P tr \<Longrightarrow> trade_id tr \<noteq> []" if "tr \<in> set (first_trades [] trades)" for tr
    using assms that by (simp add: counted_def list_all_iff)
  have "filter ?P (first_trades [] trades)
      = filter (\<lambda>tr. trade_id tr \<noteq> [] \<and> ?P tr) (first_trades [] trades)"
    by (rule filter_cong [OF refl]) (use named in blast)
  also have "\<dots> = filter ?P (filter (\<lambda>tr. trade_id tr \<noteq> []) (first_trades [] trades))"
    by (simp only: filter_filter)
  finally have "counted oid tok [] trades = \<dots>" unfolding counted_def .
  moreover have "distinct (map trade_id (filter ?P (filter (\<lambda>tr. trade_id tr \<noteq> []) (first_trades [] trades))))"
    using distinct_first_trades [of "[]" trades] by (blast intro: distinct_map_filter)
  ultimately show ?thesis by simp
qed

lemma counted_names_order: "tr \<in> set (counted oid tok seen trades) \<Longrightarrow> names_order oid tok (obj_of tr)"
  by (auto simp: counted_def fills_in_def split: sum.split_asm option.split_asm intro: owned_fills_named)

lemma evidence_fields:
  "jget (trade_evidence oid original price conflicts st) ''size_matched'' = JFloat (ts_shares st)"
  "jget (trade_evidence oid original price conflicts st) ''actual_fill_amount'' = JFloat (ts_amount st)"
  "jget (trade_evidence oid original price conflicts st) ''actual_fill_price'' = JFloat price"
  "jget (trade_evidence oid original price conflicts st) ''actual_fill_trade_ids'' =
     JList (map JStr (ts_ids st))"
  by (simp_all add: trade_evidence_def jget_Cons)

text \<open>
  C15: The evidence of a fill is exactly what the exchange reported for this order: the trades that
  name the order and the token of the bet, each id once, every one of them final and none still under
  way. The filled quantity and cost are their sums, every fill has a positive quantity and a price
  between zero and one, the quantity is positive and does not exceed what the bet asked for, and
  the execution price is the cost divided by the quantity.
\<close>

theorem trade_evidence_exact:
  assumes "lookup_order_from_trade_history fromiso cl bet oid = Inr (Some evidence)"
  shows "\<exists>get_trades trades counts fills shares cost.
    cl_get_trades cl = Some get_trades
    \<and> get_trades (token_of bet) (trades_after fromiso bet) = Some (JList trades)
    \<and> counts = counted oid (token_of bet) [] trades \<and> all_over oid (token_of bet) [] trades
    \<and> distinct (map trade_id counts) \<and> list_all (\<lambda>tr. names_order oid (token_of bet) (obj_of tr)) counts
    \<and> fills = concat (map (fills_in oid (token_of bet)) counts) \<and> list_all fill_ok fills
    \<and> shares = foldl fadd (Fin 0) (map fill_quantity fills)
    \<and> cost = foldl fadd (Fin 0) (map fill_cost fills)
    \<and> size_plausible (requested_size bet) shares
    \<and> jget evidence ''actual_fill_trade_ids'' = JList (map (\<lambda>tr. JStr (trade_id tr)) counts)
    \<and> jget evidence ''size_matched'' = JFloat shares
    \<and> jget evidence ''actual_fill_amount'' = JFloat cost
    \<and> map_option JFloat (fdiv cost shares) = Some (jget evidence ''actual_fill_price'')"
proof -
  obtain get_trades trades st where get: "cl_get_trades cl = Some get_trades"
    "get_trades (token_of bet) (trades_after fromiso bet) = Some (JList trades)"
    and loop: "trade_loop oid (token_of bet) trades trade_init = Inr (Some st)"
    and fin: "conclude_trades bet oid trades st = Inr (Some evidence)"
    using assms
    by (auto simp: lookup_order_from_trade_history_def sbind_eq_Inr
        split: option.split_asm json.split_asm)
  note effect = trade_loop_effect [OF loop, simplified trade_init_def, simplified]
  obtain price where over: "\<not> ts_pending st" "size_plausible (requested_size bet) (ts_shares st)"
    and price: "fdiv (ts_amount st) (ts_shares st) = Some price"
    and evidence: "evidence = trade_evidence oid (requested_size bet) price
        (activity_conflicts (token_of bet) trades st) st"
    using fin by (auto simp: conclude_trades_def split: if_split_asm option.split_asm)
  let ?counts = "counted oid (token_of bet) [] trades"
  have "distinct (map trade_id ?counts)" using effect by (simp add: counted_distinct)
  moreover have "list_all (\<lambda>tr. names_order oid (token_of bet) (obj_of tr)) ?counts"
    by (simp add: list_all_iff counted_names_order)
  ultimately show ?thesis
    using get effect over price
    by (simp add: evidence evidence_fields add_fills_Some comp_def)
qed

section \<open>An order filled in two trades\<close>

definition demo_bet :: dict where
  "demo_bet =
     [(''id'', JInt 1), (''fighter'', JStr ''Ann''), (''amount'', JInt 10), (''price'', JStr ''0.4''),
      (''shares'', JInt 25), (''token_id'', JStr ''t1''), (''order_id'', JStr ''0xabc''),
      (''dry_run'', JBool False), (''status'', JStr ''open''),
      (''placement_state'', JStr ''pending_submit''), (''order_type'', JStr ''limit'')]"

definition demo_taken :: json where
  "demo_taken = JObj
     [(''id'', JStr ''x''), (''taker_order_id'', JStr ''0xabc''), (''asset_id'', JStr ''t1''),
      (''size'', JStr ''10''), (''price'', JStr ''0.4''), (''status'', JStr ''CONFIRMED''),
      (''side'', JStr ''buy''), (''transaction_hash'', JStr ''0xA1'')]"

definition demo_made :: json where
  "demo_made = JObj
     [(''id'', JStr ''y''), (''taker_order_id'', JStr ''0xdef''), (''asset_id'', JStr ''t2''),
      (''size'', JStr ''5''), (''price'', JStr ''0.6''), (''status'', JStr ''CONFIRMED''),
      (''maker_orders'', JList [JObj [(''order_id'', JStr ''0xabc''), (''asset_id'', JStr ''t1''),
         (''matched_amount'', JStr ''5''), (''price'', JStr ''0.38'')]])]"

text \<open>The exchange no longer knows the order; its trades come with one repetition.\<close>

definition demo_clob :: clob where
  "demo_clob = \<lparr>cl_get_order = Some (\<lambda>_. Raised ''Order Not Found''),
     cl_get_trades = Some (\<lambda>_ _. Some (JList [demo_taken, demo_made, demo_taken]))\<rparr>"

definition demo_lookup :: "dict option order_attempt" where
  "demo_lookup = lookup_order_from_trade_history (\<lambda>_. None) demo_clob demo_bet ''0xabc''"

definition found :: "dict option order_attempt \<Rightarrow> bool" where
  "found r = (case r of Inr (Some _) \<Rightarrow> True | _ \<Rightarrow> False)"

lemma found_iff: "found r \<longleftrightarrow> (\<exists>d. r = Inr (Some d))"
  by (auto simp: found_def split: sum.split option.split)

lemma demo_found: "found demo_lookup"
  by code_simp

theorem trade_evidence_exact_witness:
  "\<exists>evidence shares. demo_lookup = Inr (Some evidence)
     \<and> jget evidence ''size_matched'' = JFloat shares \<and> size_plausible (requested_size demo_bet) shares"
proof -
  obtain evidence where "demo_lookup = Inr (Some evidence)"
    using demo_found by (auto simp: found_iff)
  with trade_evidence_exact [OF this [unfolded demo_lookup_def]] show ?thesis by blast
qed

end
