(* ===== verification/Order_Outcomes.thy ===== *)
theory Order_Outcomes
  imports Order_Laws Order_Trades
begin

text \<open>
  What a reconciliation means: when the books may change and by how much cash, that it happens once
  per order, that recovering an unresolved submission moves no cash, and which trades make up the
  evidence of a fill.
\<close>

section \<open>One row, twice\<close>

lemma on_row_again:
  assumes "on_row True i f bets = Inr (r, ch, bets')" and "mr_ok r"
    and refuses: "\<And>b b' ch. f b = Inr (''updated'', b', ch) \<Longrightarrow>
        jget b' ''id'' = jget b ''id'' \<and> (\<exists>s. s \<noteq> ''updated'' \<and> g b' = Inr (s, b', False))"
  shows "\<exists>r'. on_row True i g bets' = Inr (r', False, bets') \<and> \<not> mr_ok r'"
  using assms(1)
proof (induction bets arbitrary: bets')
  case Nil
  then show ?case using assms(2) by (auto simp: mr_ok_def)
next
  case (Cons b bets)
  have key: "has_key b ''id''" using Cons.prems by (auto split: if_split_asm)
  show ?case
  proof (cases "py_eq (jget b ''id'') (JInt i)")
    case True
    then obtain s b' where f: "f b = Inr (s, b', ch)" "r = \<lparr>mr_status = s, mr_bet = Some b'\<rparr>"
      "bets' = b' # bets"
      using Cons.prems key by (auto simp: sbind_eq_Inr)
    then have "s = ''updated''" using assms(2) by (simp add: mr_ok_def)
    from refuses [OF f(1) [unfolded this]] obtain s' where
      g: "jget b' ''id'' = jget b ''id''" "s' \<noteq> ''updated''" "g b' = Inr (s', b', False)" by blast
    have "has_key b' ''id''"
      using g(1) True by (cases "has_key b' ''id''") (auto simp: jget_def has_key_def num_eq_def)
    then show ?thesis using g True f(3) by (simp add: mr_ok_def)
  next
    case False
    then obtain rest where "on_row True i f bets = Inr (r, ch, rest)" "bets' = b # rest"
      using Cons.prems key by (auto simp: sbind_eq_Inr)
    with Cons.IH [of rest] False key show ?thesis by auto
  qed
qed

lemma mutate_read_only: "mutate_locked m l = (r, l') \<Longrightarrow> lg_read_only l' = lg_read_only l"
  by (auto simp: mutate_locked_def save_def Let_def split: if_split_asm sum.split_asm prod.split_asm)

lemma mutate_refused:
  assumes "\<not> lg_read_only l" "m (disk_rows l) = Inr (res, False, disk_rows l)"
  shows "mutate_locked m l = (Inr res, l\<lparr>lg_bets := disk_rows l\<rparr>)"
  using assms by (simp add: mutate_locked_def disk_rows_def)

lemma file_again:
  assumes "on_file True i f l = (Inr res, l')" and "mr_ok res" and f: "saving_row_contract f target"
    and refuses: "\<And>b b' ch. f b = Inr (''updated'', b', ch) \<Longrightarrow>
        jget b' ''id'' = jget b ''id'' \<and> (\<exists>s. s \<noteq> ''updated'' \<and> g b' = Inr (s, b', False))"
  shows "\<exists>r' l''. on_file True i g l' = (Inr r', l'') \<and> \<not> mr_ok r' \<and> disk_rows l'' = disk_rows l'"
  using assms(1)
proof (cases rule: mutate_elim)
  case (unsaved x bets)
  then show ?thesis
    using saving_row_contract.on_row_ok_saves [OF f unsaved(2)] assms(2) by simp
next
  case (saved x bets)
  then have "on_row True i f (disk_rows l) = Inr (res, True, bets)" by simp
  then have "\<exists>r'. on_row True i g bets = Inr (r', False, bets) \<and> \<not> mr_ok r'"
    using assms(2) by (rule on_row_again) (rule refuses)
  then obtain r' where
    again: "on_row True i g bets = Inr (r', False, bets)" "\<not> mr_ok r'" by blast
  have "\<not> lg_read_only l'" using saved(1) mutate_read_only [OF assms(1)] by simp
  from mutate_refused [OF this, of "on_row True i g"] again saved(4) show ?thesis by simp
qed simp_all

section \<open>The ledger half of a reconciliation\<close>

lemma Inr_lift_error: "Inr x = lift_error r \<longleftrightarrow> r = Inr x"
  using lift_error_Inr [of r x] by metis

lemma lifted_success:
  assumes "on_ledger f d = (Inr res, d')"
  obtains l where "f (dk_ledger d) = (Inr res, l)" "d' = d\<lparr>dk_ledger := l\<rparr>"
  using assms by (elim on_ledger_elim) (simp add: Inr_lift_error)

lemma converted_order_type: "jget (converted_row a shares amount bet) ''order_type'' = JStr ''filled_limit''"
  by (simp add: converted_row_def Let_def jget_jset_opt jget_jdefault split: option.splits)

lemma bet_id_Inr: "bet_id bet = Inr i \<longleftrightarrow> jget bet ''id'' = JInt i"
  by (auto simp: bet_id_def split: json.splits)

text \<open>Both closing operations refuse a row that either of them has closed.\<close>

lemma converted_refused:
  assumes "convert_row a b = Inr (''updated'', b', ch)"
  shows "jget b' ''id'' = jget b ''id''"
    and "\<exists>s. s \<noteq> ''updated'' \<and> convert_row a' b' = Inr (s, b', False)"
    and "\<exists>s. s \<noteq> ''updated''
      \<and> cancel_row stamp reason (Some RESTING_LIMIT_ORDER_TYPES) b' = Inr (s, b', False)"
proof -
  obtain shares amount where b': "b' = converted_row a shares amount b"
    using assms by (auto simp: convert_row_def row_ops Let_def split: if_split_asm)
  then have "is_open b'" "in_names (jget b' ''order_type'') LIMIT_ORDER_TYPES = Inr False"
    "in_names (jget b' ''order_type'') RESTING_LIMIT_ORDER_TYPES = Inr False"
    by (simp_all add: has_status_def jget_converted converted_order_type in_names_def
        LIMIT_ORDER_TYPES_def RESTING_LIMIT_ORDER_TYPES_def)
  then show "\<exists>s. s \<noteq> ''updated'' \<and> convert_row a' b' = Inr (s, b', False)"
    "\<exists>s. s \<noteq> ''updated''
      \<and> cancel_row stamp reason (Some RESTING_LIMIT_ORDER_TYPES) b' = Inr (s, b', False)"
    by (simp_all add: convert_row_def cancel_row_def refused_def)
  show "jget b' ''id'' = jget b ''id''" by (simp add: b' jget_converted)
qed

lemma cancelled_refused:
  assumes "cancel_row stamp reason types b = Inr (''updated'', b', ch)"
  shows "jget b' ''id'' = jget b ''id''"
    and "\<exists>s. s \<noteq> ''updated'' \<and> convert_row a' b' = Inr (s, b', False)"
    and "\<exists>s. s \<noteq> ''updated'' \<and> cancel_row stamp' reason' types' b' = Inr (s, b', False)"
proof -
  have b': "b' = cancelled_row stamp reason b"
    using assms by (auto simp: cancel_row_def row_ops split: if_split_asm)
  then have "\<not> is_open b'" using lifecycle_simps(1) [of b'] by simp
  then show "\<exists>s. s \<noteq> ''updated'' \<and> convert_row a' b' = Inr (s, b', False)"
    "\<exists>s. s \<noteq> ''updated'' \<and> cancel_row stamp' reason' types' b' = Inr (s, b', False)"
    by (simp_all add: convert_row_def cancel_row_def refused_def)
  show "jget b' ''id'' = jget b ''id''" by (simp add: b')
qed

section \<open>The ways a reconciliation can end\<close>

abbreviation order_metrics :: "dict \<Rightarrow> dict \<Rightarrow> fill_metrics" where
  "order_metrics bet order \<equiv> order_fill_metrics bet (JObj order)"

definition filled_shares :: "dict \<Rightarrow> dict \<Rightarrow> pyfloat" where
  "filled_shares bet order = fround (fm_matched (order_metrics bet order)) 2"

text \<open>The cash that comes back: the unused part of the stake, or all of it.\<close>

definition unused_cash :: "dict \<Rightarrow> dict \<Rightarrow> pyfloat" where
  "unused_cash bet order =
     refund_amount bet (filled_amount bet order (filled_shares bet order))"

definition stake :: "dict \<Rightarrow> pyfloat" where
  "stake bet = safe_float (jget bet ''amount'') (Fin 0)"

lemma ledger_then_book:
  assumes "dbind (dlift (bet_id bet)) (\<lambda>i. dbind (on_ledger (f i)) (\<lambda>result.
      if \<not> mr_ok result then dreturn Unchanged
      else dbind (dmodify g) (\<lambda>_. dreturn x))) d = (Inr out, d')"
  obtains i res l where "jget bet ''id'' = JInt i" "f i (dk_ledger d) = (Inr res, l)"
    "out = (if mr_ok res then x else Unchanged)"
    "d' = (if mr_ok res then g (d\<lparr>dk_ledger := l\<rparr>) else d\<lparr>dk_ledger := l\<rparr>)"
proof -
  obtain i res d1 where i: "bet_id bet = Inr i" and res: "on_ledger (f i) d = (Inr res, d1)"
    and rest: "(if \<not> mr_ok res then dreturn Unchanged
      else dbind (dmodify g) (\<lambda>_. dreturn x)) d1 = (Inr out, d')"
    using assms by (auto simp: dbind_Inr)
  obtain l where l: "f i (dk_ledger d) = (Inr res, l)" "d1 = d\<lparr>dk_ledger := l\<rparr>"
    using res by (rule lifted_success)
  show thesis
    by (rule that [of i res l]) (use i l rest in \<open>auto simp: bet_id_Inr dbind_Inr split: if_split_asm\<close>)
qed

lemma fill_cases:
  assumes "book_fill bet reason order release shares d = (Inr out, d')"
  obtains i fa res l why where "jget bet ''id'' = JInt i"
      "convert_limit_bet_to_position i fa (dk_ledger d) = (Inr res, l)"
      "out = (if mr_ok res then Position else Unchanged)"
      "d' = (if mr_ok res
             then book_position bet why shares
                    (if release then refund_amount bet (filled_amount bet order shares) else Fin 0)
                    (d\<lparr>dk_ledger := l\<rparr>)
             else d\<lparr>dk_ledger := l\<rparr>)"
  using assms unfolding book_fill_def Let_def by (elim ledger_then_book) (rule that)

lemma cancellation_cases:
  assumes "reconcile_cancellation stamp bet reason release d = (Inr out, d')"
  obtains i res l why where "jget bet ''id'' = JInt i"
      "cancel_bet stamp i reason (Some RESTING_LIMIT_ORDER_TYPES) (dk_ledger d) = (Inr res, l)"
      "out = (if mr_ok res then Cancelled_order else Unchanged)"
      "d' = (if mr_ok res
             then book_cancellation bet why release (stake bet) (d\<lparr>dk_ledger := l\<rparr>)
             else d\<lparr>dk_ledger := l\<rparr>)"
  using assms unfolding reconcile_cancellation_def stake_def [symmetric]
  by (elim ledger_then_book) (rule that)

lemma booking_bank:
  "dk_bank (book_position bet why shares released d) =
     (if dk_own d \<and> flt (Fin 0) released then release_bet (dk_bank d) released else dk_bank d)"
  "dk_bank (book_cancellation bet why release amount d) =
     (if dk_own d \<and> release then release_bet (dk_bank d) amount else dk_bank d)"
  by (auto simp: book_position_def book_cancellation_def release_reserved_cash_def release_bet_def)

lemma reconcile_split:
  assumes "reconcile_closed_limit_order stamp bet reason order release d = (Inr out, d')"
  obtains (refused) "out = Unchanged" "d' = d"
  | (fill) "dk_dry_run d \<or> order_terminal_state_is_confirmed (order_metrics bet order) \<and> fill_proved order"
      "flt float_eps (filled_shares bet order)"
      "book_fill bet reason order release (filled_shares bet order) d = (Inr out, d')"
  | (no_fill) "dk_dry_run d \<or> order_terminal_state_is_confirmed (order_metrics bet order)"
      "\<not> flt float_eps (filled_shares bet order)"
      "reconcile_cancellation stamp bet reason release d = (Inr out, d')"
  using assms unfolding reconcile_closed_alt reconcile_fill_alt filled_shares_def [symmetric]
  by (auto split: if_split_asm)

text \<open>What the ledger half means for the life of the bet.\<close>

lemma convert_life:
  assumes "convert_limit_bet_to_position i fa l = (Inr res, l')"
  shows "mr_ok res \<Longrightarrow> life (disk_rows l) i = Some Active \<and> life (disk_rows l') = life (disk_rows l)"
    and "\<not> mr_ok res \<Longrightarrow> disk_rows l' = disk_rows l"
  using converting.file_success [of True i fa l "Inr res" l'] converting.file_failure [of True i fa l "Inr res" l']
    assms by (auto simp: convert_limit_bet_to_position_def)

lemma cancel_life:
  assumes "cancel_bet stamp i reason types l = (Inr res, l')"
  shows "mr_ok res \<Longrightarrow> life (disk_rows l) i = Some Active
      \<and> life (disk_rows l') = (life (disk_rows l))(i \<mapsto> Cancelled)"
    and "\<not> mr_ok res \<Longrightarrow> disk_rows l' = disk_rows l"
  using cancelling.file_success [of True i stamp reason types l "Inr res" l']
    cancelling.file_failure [of True i stamp reason types l "Inr res" l'] assms
  by (auto simp: cancel_bet_def)

text \<open>An exception leaves the books alone.\<close>

lemma ledger_then_error:
  assumes "dbind (dlift (bet_id bet)) (\<lambda>i. dbind (on_ledger (f i)) (\<lambda>result.
      if \<not> mr_ok result then dreturn Unchanged
      else dbind (dmodify g) (\<lambda>_. dreturn x))) d = (Inl e, d')"
    and "\<And>i r l. f i (dk_ledger d) = (r, l) \<Longrightarrow> \<not> succeeded r \<Longrightarrow> disk_rows l = disk_rows (dk_ledger d)"
  shows "disk_rows (dk_ledger d') = disk_rows (dk_ledger d)"
  using assms(1)
proof (cases rule: dbind_elim)
  case (went_on i d1)
  then have "d1 = d" by simp
  with went_on(2) have "on_ledger (f i) d = (Inl e, d')"
    by (auto elim!: dbind_elim split: if_split_asm)
  then show ?thesis
    by (elim on_ledger_elim) (auto simp: lift_error_def dest: assms(2) split: sum.split_asm)
qed simp

lemma reconcile_error:
  assumes "reconcile_closed_limit_order stamp bet reason order release d = (Inl e, d')"
  shows "disk_rows (dk_ledger d') = disk_rows (dk_ledger d)"
proof -
  have convert: "\<not> succeeded r \<Longrightarrow> disk_rows l' = disk_rows l"
    if "convert_limit_bet_to_position i fa l = (r, l')" for i fa l r l'
    using that unfolding convert_limit_bet_to_position_def by (rule converting.file_failure)
  have cancel: "\<not> succeeded r \<Longrightarrow> disk_rows l' = disk_rows l"
    if "cancel_bet stamp i reason types l = (r, l')" for i types l r l'
    using that unfolding cancel_bet_def by (rule cancelling.file_failure)
  show ?thesis
    using assms unfolding reconcile_closed_alt reconcile_fill_alt book_fill_def
      reconcile_cancellation_def Let_def
    by (auto split: if_split_asm intro: ledger_then_error convert cancel)
qed

text \<open>
  C5: Reconciling an order moves the books on evidence only. When the answer is \<open>unchanged\<close>, the
  ledger file, the cash and the order log are as before. A \<open>position\<close> is booked only for an active
  bet and, on a live desk, only when the end of the order is confirmed and the fill is proved by the
  trade history with a price between zero and one; the cash that comes back is the unused part of
  the stake. A \<open>cancelled\<close> bet was active, nothing of it was filled, and its stake comes back. Cash
  only moves for the executor's own ledger and when the caller asks for it.
\<close>

theorem reconciliation_needs_evidence:
  assumes "reconcile_closed_limit_order stamp bet reason order release d = (Inr out, d')"
  shows "(dk_dry_run d \<or> out = Unchanged
           \<or> order_terminal_state_is_confirmed (order_metrics bet order)
             \<and> (out = Position \<longrightarrow> fill_proved order))
    \<and> (case out of
         Unchanged \<Rightarrow> disk_rows (dk_ledger d') = disk_rows (dk_ledger d)
           \<and> dk_bank d' = dk_bank d \<and> dk_log d' = dk_log d
       | Position \<Rightarrow> flt float_eps (filled_shares bet order)
           \<and> (\<exists>i. jget bet ''id'' = JInt i \<and> life (disk_rows (dk_ledger d)) i = Some Active)
           \<and> life (disk_rows (dk_ledger d')) = life (disk_rows (dk_ledger d))
           \<and> dk_bank d' = (if release \<and> dk_own d \<and> flt (Fin 0) (unused_cash bet order)
                           then release_bet (dk_bank d) (unused_cash bet order) else dk_bank d)
       | Cancelled_order \<Rightarrow> \<not> flt float_eps (filled_shares bet order)
           \<and> (\<exists>i. jget bet ''id'' = JInt i \<and> life (disk_rows (dk_ledger d)) i = Some Active
                  \<and> life (disk_rows (dk_ledger d')) = (life (disk_rows (dk_ledger d)))(i \<mapsto> Cancelled))
           \<and> dk_bank d' = (if release \<and> dk_own d then release_bet (dk_bank d) (stake bet)
                           else dk_bank d))"
  using assms
proof (cases rule: reconcile_split)
  case fill
  obtain i fa res l why where *: "jget bet ''id'' = JInt i"
    "convert_limit_bet_to_position i fa (dk_ledger d) = (Inr res, l)"
    "out = (if mr_ok res then Position else Unchanged)"
    "d' = (if mr_ok res
           then book_position bet why (filled_shares bet order)
                  (if release then unused_cash bet order else Fin 0) (d\<lparr>dk_ledger := l\<rparr>)
           else d\<lparr>dk_ledger := l\<rparr>)"
    using fill(3) unfolding unused_cash_def by (rule fill_cases)
  with fill(1,2) convert_life [OF *(2)] show ?thesis
    by (cases "mr_ok res") (auto simp: booking_bank)
next
  case no_fill
  obtain i res l why where *: "jget bet ''id'' = JInt i"
    "cancel_bet stamp i reason (Some RESTING_LIMIT_ORDER_TYPES) (dk_ledger d) = (Inr res, l)"
    "out = (if mr_ok res then Cancelled_order else Unchanged)"
    "d' = (if mr_ok res
           then book_cancellation bet why release (stake bet) (d\<lparr>dk_ledger := l\<rparr>)
           else d\<lparr>dk_ledger := l\<rparr>)"
    using no_fill(3) by (rule cancellation_cases)
  with no_fill(1,2) cancel_life [OF *(2)] show ?thesis
    by (cases "mr_ok res") (auto simp: booking_bank)
qed simp

text \<open>A bet that was booked refuses to be booked again.\<close>

definition booked :: "int \<Rightarrow> ledger \<Rightarrow> bool" where
  "booked i l \<longleftrightarrow>
     (\<forall>fa. \<exists>r l'. convert_limit_bet_to_position i fa l = (Inr r, l') \<and> \<not> mr_ok r
        \<and> disk_rows l' = disk_rows l)
     \<and> (\<forall>stamp reason. \<exists>r l'.
          cancel_bet stamp i reason (Some RESTING_LIMIT_ORDER_TYPES) l = (Inr r, l') \<and> \<not> mr_ok r
          \<and> disk_rows l' = disk_rows l)"

lemma converted_booked:
  assumes "convert_limit_bet_to_position i fa l = (Inr res, l')" "mr_ok res"
  shows "booked i l'"
  unfolding booked_def convert_limit_bet_to_position_def cancel_bet_def
proof (intro conjI allI)
  note again = file_again [OF assms(1) [unfolded convert_limit_bet_to_position_def] assms(2)
      converting.saving_row_contract_axioms]
  show "\<exists>r l''. on_file True i (convert_row fa2) l' = (Inr r, l'') \<and> \<not> mr_ok r
      \<and> disk_rows l'' = disk_rows l'" for fa2
    by (rule again) (rule conjI; erule converted_refused)
  show "\<exists>r l''. on_file True i (cancel_row stamp reason (Some RESTING_LIMIT_ORDER_TYPES)) l' = (Inr r, l'')
      \<and> \<not> mr_ok r \<and> disk_rows l'' = disk_rows l'" for stamp reason
    by (rule again) (rule conjI; erule converted_refused)
qed

lemma cancelled_booked:
  assumes "cancel_bet stamp i reason types l = (Inr res, l')" "mr_ok res"
  shows "booked i l'"
  unfolding booked_def convert_limit_bet_to_position_def cancel_bet_def
proof (intro conjI allI)
  note again = file_again [OF assms(1) [unfolded cancel_bet_def] assms(2)
      cancelling.saving_row_contract_axioms]
  show "\<exists>r l''. on_file True i (convert_row fa) l' = (Inr r, l'') \<and> \<not> mr_ok r
      \<and> disk_rows l'' = disk_rows l'" for fa
    by (rule again) (rule conjI; erule cancelled_refused)
  show "\<exists>r l''. on_file True i (cancel_row stamp2 reason2 (Some RESTING_LIMIT_ORDER_TYPES)) l' = (Inr r, l'')
      \<and> \<not> mr_ok r \<and> disk_rows l'' = disk_rows l'" for stamp2 reason2
    by (rule again) (rule conjI; erule cancelled_refused)
qed

lemma book_nothing:
  assumes "f i (dk_ledger d) = (Inr res, l)" "\<not> mr_ok res" "jget bet ''id'' = JInt i"
  shows "dbind (dlift (bet_id bet)) (\<lambda>i. dbind (on_ledger (f i)) (\<lambda>result.
      if \<not> mr_ok result then dreturn Unchanged
      else dbind (dmodify g) (\<lambda>_. dreturn x))) d = (Inr Unchanged, d\<lparr>dk_ledger := l\<rparr>)"
  using assms bet_id_Inr [of bet i]
  by (simp add: dbind_def dlift_def on_ledger_def lift_error_def dreturn_def)

lemma booked_unchanged:
  assumes "booked i (dk_ledger d)" and "jget bet ''id'' = JInt i"
  shows "\<exists>d'. reconcile_closed_limit_order stamp bet reason order release d = (Inr Unchanged, d')
    \<and> disk_rows (dk_ledger d') = disk_rows (dk_ledger d) \<and> dk_bank d' = dk_bank d"
proof -
  have fill: "\<exists>d'. book_fill bet reason order release shares d = (Inr Unchanged, d')
      \<and> disk_rows (dk_ledger d') = disk_rows (dk_ledger d) \<and> dk_bank d' = dk_bank d" for shares
  proof -
    let ?fa = "fill_arguments order shares (filled_amount bet order shares)
        (if flt (Fin 0) (refund_amount bet (filled_amount bet order shares)) then reason else None)"
    obtain r l where "convert_limit_bet_to_position i ?fa (dk_ledger d) = (Inr r, l)" "\<not> mr_ok r"
      "disk_rows l = disk_rows (dk_ledger d)"
      using assms(1) unfolding booked_def by blast
    then show ?thesis
      unfolding book_fill_def Let_def
      using book_nothing [of "\<lambda>i. convert_limit_bet_to_position i ?fa", OF _ _ assms(2)] by simp
  qed
  have cancellation: "\<exists>d'. reconcile_cancellation stamp bet reason release d = (Inr Unchanged, d')
      \<and> disk_rows (dk_ledger d') = disk_rows (dk_ledger d) \<and> dk_bank d' = dk_bank d"
  proof -
    obtain r l where "cancel_bet stamp i reason (Some RESTING_LIMIT_ORDER_TYPES) (dk_ledger d) = (Inr r, l)"
      "\<not> mr_ok r" "disk_rows l = disk_rows (dk_ledger d)"
      using assms(1) unfolding booked_def by blast
    then show ?thesis
      unfolding reconcile_cancellation_def
      using book_nothing [of "\<lambda>i. cancel_bet stamp i reason (Some RESTING_LIMIT_ORDER_TYPES)",
          OF _ _ assms(2)] by simp
  qed
  show ?thesis
    unfolding reconcile_closed_alt reconcile_fill_alt by (simp add: fill cancellation)
qed


section \<open>Recovering a submission\<close>

text \<open>The stage of the bet after a reconciliation, whatever the result.\<close>

lemma reconcile_life:
  assumes "reconcile_closed_limit_order stamp bet reason order release d = (r, d')"
  shows "life (disk_rows (dk_ledger d')) = life (disk_rows (dk_ledger d))
    \<or> (\<exists>i. jget bet ''id'' = JInt i
         \<and> (dk_dry_run d \<or> order_terminal_state_is_confirmed (order_metrics bet order))
         \<and> \<not> flt float_eps (filled_shares bet order)
         \<and> life (disk_rows (dk_ledger d')) = (life (disk_rows (dk_ledger d)))(i \<mapsto> Cancelled))"
proof (cases r)
  case (Inl e)
  then show ?thesis using assms reconcile_error by auto
next
  case (Inr out)
  have "reconcile_closed_limit_order stamp bet reason order release d = (Inr out, d')"
    using assms Inr by simp
  then show ?thesis
  proof (cases rule: reconcile_split)
    case fill
    from fill(3) show ?thesis
      by (elim fill_cases) (auto dest: convert_life split: if_split_asm)
  next
    case no_fill
    from no_fill(3) show ?thesis
      by (elim cancellation_cases)
        (use no_fill(1,2) in \<open>auto dest: cancel_life split: if_split_asm\<close>)
  qed simp
qed

lemma reload_rows:
  "reload_ledger_entry bet d = (r, d') \<Longrightarrow> disk_rows (dk_ledger d') = disk_rows (dk_ledger d)"
  by (auto simp: reload_ledger_entry_def get_bets_def Let_def elim!: dbind_elim)

lemma journal_life:
  assumes "on_ledger (update_bet_fields i require_open updates) d = (r, d')" and "harmless updates"
  shows "life (disk_rows (dk_ledger d')) = life (disk_rows (dk_ledger d))"
  using assms update_file(2) by (auto elim!: on_ledger_elim)

lemma unit_op_elim:
  assumes "unit_op m d = (r, d')"
  obtains r0 where "m d = (r0, d')"
  using assms by (auto simp: unit_op_def elim!: dbind_elim)

lemma update_submission_life:
  assumes "update_submission_state bet state err order_id d = (r, d')"
  shows "life (disk_rows (dk_ledger d')) = life (disk_rows (dk_ledger d))"
proof (cases "recorded_order_id bet \<noteq> [] \<and> map_option py_str order_id \<notin> {None, Some (recorded_order_id bet)}")
  case True
  then show ?thesis using assms by (auto simp: update_submission_state_def Let_def)
next
  case False
  note run = assms [unfolded update_submission_state_def Let_def if_not_P [OF False]]
  from run show ?thesis
  proof (cases rule: dbind_elim)
    case (went_on i d1)
    then show ?thesis
      by (auto elim!: unit_op_elim dest: journal_life [OF _ journal_harmless(1), simplified])
  qed simp
qed

text \<open>The inspection has shown that the order is over, with the evidence \<open>order\<close>.\<close>

definition shown_closed ::
  "(string \<Rightarrow> parsed_time option) \<Rightarrow> clob \<Rightarrow> dict \<Rightarrow> json list option \<Rightarrow> dict \<Rightarrow> bool" where
  "shown_closed fromiso cl bet orders order \<longleftrightarrow>
     recorded_order_id bet \<noteq> []
     \<and> (\<exists>os st. orders = Some os \<and> resolve_open_clob_order bet os = None
          \<and> inspect_limit_order_state fromiso cl bet os = Inr st
          \<and> os_state st = Closed \<and> os_order st = Some (JObj order))"

lemma closed_state:
  assumes "inspect_limit_order_state fromiso cl bet orders = Inr st" "os_state st = Closed"
  shows "resolve_open_clob_order bet orders = None \<and> (\<exists>order. os_order st = Some (JObj order))"
  using assms
  by (auto simp: inspect_limit_order_state_def Let_def sbind_eq_Inr split: option.split_asm if_split_asm)

lemma settle_submission_life:
  assumes "settle_submission stamp bet st d = (r, d')" and "recorded_order_id bet \<noteq> []"
    and "inspect_limit_order_state fromiso cl bet os = Inr st"
  shows "life (disk_rows (dk_ledger d')) = life (disk_rows (dk_ledger d))
    \<or> (\<exists>i order. jget bet ''id'' = JInt i \<and> shown_closed fromiso cl bet (Some os) order
         \<and> (dk_dry_run d \<or> order_terminal_state_is_confirmed (order_metrics bet order))
         \<and> \<not> flt float_eps (filled_shares bet order)
         \<and> life (disk_rows (dk_ledger d')) = (life (disk_rows (dk_ledger d)))(i \<mapsto> Cancelled))"
proof (cases "os_state st")
  case Closed
  obtain order where order: "resolve_open_clob_order bet os = None" "os_order st = Some (JObj order)"
    using closed_state [OF assms(3) Closed] by blast
  then have "shown_closed fromiso cl bet (Some os) order"
    using assms(2,3) Closed by (auto simp: shown_closed_def)
  moreover obtain r2 where
    "reconcile_closed_limit_order stamp bet (os_reason st) order False d = (r2, d')"
    using assms(1) Closed order(2) by (auto simp: settle_submission_def elim!: unit_op_elim)
  ultimately show ?thesis using reconcile_life by blast
next
  case Resting
  then show ?thesis using assms(1) update_submission_life by (simp add: settle_submission_def)
next
  case Unsettled
  then show ?thesis using assms(1) by (simp add: settle_submission_def)
qed

text \<open>The work of a recovery, once its guards let it through.\<close>

lemma recovery_cases:
  assumes "reconcile_unresolved_submission fromiso cl stamp bet orders d = (r, d')"
  obtains (nothing_closed) "life (disk_rows (dk_ledger d')) = life (disk_rows (dk_ledger d))"
  | (recorded) os st r1 d1 where "\<not> dk_dry_run d" "recorded_order_id bet \<noteq> []" "orders = Some os"
      "inspect_limit_order_state fromiso cl bet os = Inr st" "settle_submission stamp bet st d = (r1, d1)"
      "disk_rows (dk_ledger d') = disk_rows (dk_ledger d1)"
proof (cases "dk_dry_run d \<or> placement_state bet \<notin> {''pending_submit'', ''unknown''}")
  case True
  then show thesis
    using assms nothing_closed by (simp add: reconcile_unresolved_submission_def Let_def)
next
  case live: False
  note run = assms [unfolded reconcile_unresolved_submission_def Let_def if_not_P [OF live]]
  show thesis
  proof (cases "recorded_order_id bet = []")
    case True
    then have "dbind (if placement_state bet = ''pending_submit''
          then update_submission_state bet ''unknown'' (unresolved_reason bet) None else dreturn ())
        (\<lambda>_. reload_ledger_entry bet) d = (r, d')"
      using run by simp
    then have "life (disk_rows (dk_ledger d')) = life (disk_rows (dk_ledger d))"
      by (cases rule: dbind_elim)
        (auto dest!: reload_rows update_submission_life split: if_split_asm)
    then show thesis by (rule nothing_closed)
  next
    case named: False
    consider "d' = d" | os st where "orders = Some os" "inspect_limit_order_state fromiso cl bet os = Inr st"
      "dbind (settle_submission stamp bet st) (\<lambda>_. reload_ledger_entry bet) d = (r, d')"
      using run named by (auto split: option.split_asm sum.split_asm)
    then show thesis
    proof cases
      case 1
      then show thesis using nothing_closed by simp
    next
      case (2 os st)
      obtain r1 d1 where "settle_submission stamp bet st d = (r1, d1)"
        "disk_rows (dk_ledger d') = disk_rows (dk_ledger d1)"
        using 2(3) by (cases rule: dbind_elim) (auto dest: reload_rows)
      with 2 recorded named live show thesis by blast
    qed
  qed
qed

text \<open>
  C17: Recovering a submission whose outcome is unknown never moves cash, and it never writes off
  a bet without proof: the only change in the life of any bet is that this bet is cancelled, and then
  its recorded exchange id is not among the open orders, the order lookup shows the order closed, and
  its confirmed terminal state has no fill. A bet without a recorded id, or a dry run, leaves every
  life as it was.
\<close>

theorem submission_recovery_sound:
  assumes "reconcile_unresolved_submission fromiso cl stamp bet orders d = (r, d')"
  shows "dk_bank d' = dk_bank d
    \<and> (life (disk_rows (dk_ledger d')) = life (disk_rows (dk_ledger d))
       \<or> (\<exists>i order. jget bet ''id'' = JInt i \<and> \<not> dk_dry_run d
            \<and> shown_closed fromiso cl bet orders order
            \<and> order_terminal_state_is_confirmed (order_metrics bet order)
            \<and> \<not> flt float_eps (filled_shares bet order)
            \<and> life (disk_rows (dk_ledger d')) = (life (disk_rows (dk_ledger d)))(i \<mapsto> Cancelled)))"
proof -
  have "dk_bank d' = dk_bank d" using obeysD [OF free_op.o_unresolved assms, of id]
    by (simp add: cashless_relation_def)
  moreover from assms have "life (disk_rows (dk_ledger d')) = life (disk_rows (dk_ledger d))
       \<or> (\<exists>i order. jget bet ''id'' = JInt i \<and> \<not> dk_dry_run d
            \<and> shown_closed fromiso cl bet orders order
            \<and> order_terminal_state_is_confirmed (order_metrics bet order)
            \<and> \<not> flt float_eps (filled_shares bet order)
            \<and> life (disk_rows (dk_ledger d')) = (life (disk_rows (dk_ledger d)))(i \<mapsto> Cancelled))"
  proof (cases rule: recovery_cases)
    case nothing_closed
    then show ?thesis by blast
  next
    case (recorded os st r1 d1)
    then show ?thesis using settle_submission_life [OF recorded(5,2,4)] by auto
  qed
  ultimately show ?thesis by blast
qed

lemma relation_keeps_books:
  assumes "obeys (ledger_relation sha) m" and "ids_ok (disk_rows (dk_ledger d))"
  shows "ids_ok (disk_rows (dk_ledger (snd (m d)))) \<and> grown d (snd (m d))
    \<and> abstract_step\<^sup>*\<^sup>* (life (disk_rows (dk_ledger d))) (life (disk_rows (dk_ledger (snd (m d)))))"
proof -
  have "ledger_relation sha d (snd (m d))"
    using obeysD [OF assms(1), of d "fst (m d)"] by simp
  then show ?thesis
    using run_history [OF _ assms(2)] run_life [OF _ assms(2)] by (auto simp: ledger_relation_def)
qed

text \<open>
  C20: Whatever the executor does to an order - reconciling it, cancelling it, confirming a
  cancellation, journalling its identity, recovering it - with whatever answers of the exchange and
  whatever exceptions, the ledger stays within its abstract specification: ids stay positive and
  unique, and the lives of the bets only move by creating a bet or closing an active one.
\<close>

theorem executor_refines_ledger:
  assumes "ids_ok (disk_rows (dk_ledger d))"
    and "d' \<in> {snd (reconcile_closed_limit_order stamp bet reason order release d),
      snd (finalize_cancelled_limit_order_outcome fromiso xs stamp bet reason retry d),
      snd (cancel_limit_order_for_refresh_outcome fromiso answer xs stamp bet why resolved d),
      snd (reconcile_unresolved_submission fromiso cl stamp bet orders d),
      snd (cancel_submission_attempt stamp bet why d), snd (record_prepared_order_id bet oid d)}"
  shows "ids_ok (disk_rows (dk_ledger d')) \<and> grown d d'
    \<and> abstract_step\<^sup>*\<^sup>* (life (disk_rows (dk_ledger d))) (life (disk_rows (dk_ledger d')))"
proof -
  note kept = any_op.o_reconcile any_op.o_finalize any_op.o_cancel_for_refresh any_op.o_unresolved
    any_op.o_cancel_attempt any_op.o_record_prepared
  from assms(2) show ?thesis
    unfolding insert_iff empty_iff
    by (elim disjE FalseE; simp only:; intro relation_keeps_books [of id] assms(1) kept) simp_all
qed

section \<open>The confirmation of a cancellation ends\<close>

lemma confirm_cancel_reads:
  "(\<And>j. k \<le> j \<Longrightarrow> j < k + n \<Longrightarrow> xs j = ys j) \<Longrightarrow>
   confirm_cancel fromiso xs bet retry k n = confirm_cancel fromiso ys bet retry k n"
proof (induction n arbitrary: k retry)
  case (Suc n)
  have later: "confirm_cancel fromiso xs bet again (Suc k) n = confirm_cancel fromiso ys bet again (Suc k) n"
    for again
    by (rule Suc.IH) (simp add: Suc.prems)
  have now: "xs k = ys k" by (rule Suc.prems) simp_all
  show ?case unfolding confirm_cancel.simps later now ..
qed simp

lemma confirm_cancel_requests:
  "confirm_cancel fromiso xs bet retry k n d = (r, d') \<Longrightarrow>
   \<exists>oids. dk_cancels d' = dk_cancels d @ oids \<and> length oids \<le> (if retry then 1 else 0)"
proof (induction n arbitrary: k retry d)
  case (Suc n)
  from Suc.prems [unfolded confirm_cancel.simps] show ?case
  proof (cases rule: dbind_elim)
    case (went_on st d1)
    let ?target = "or_else (os_order_id st) (nonempty (Some (recorded_order_id bet)))"
    have d1: "d1 = d" using went_on(1) by simp
    consider "d' = d" | "confirm_cancel fromiso xs bet retry (Suc k) n d = (r, d')"
      | "retry" "confirm_cancel fromiso xs bet False (Suc k) n (request_cancel (text_or_empty ?target) d) = (r, d')"
      using went_on(2) d1 by (auto simp: Let_def dbind_def dmodify_def split: if_split_asm)
    then show ?thesis
    proof cases
      case 3
      from Suc.IH [OF 3(2)] 3(1) show ?thesis by (auto simp: request_cancel_def)
    qed (auto dest: Suc.IH)
  qed simp
qed simp

lemma finalize_requests:
  assumes "finalize_cancelled_limit_order_outcome fromiso xs stamp bet why True d = (r, d')"
  shows "\<exists>oids. dk_cancels d' = dk_cancels d @ oids \<and> length oids \<le> 1"
  using assms [unfolded finalize_cancelled_limit_order_outcome_def]
proof (cases rule: dbind_elim)
  case (raised e)
  then show ?thesis using confirm_cancel_requests by fastforce
next
  case (went_on st d1)
  have "obeys same_requests (if os_state st = Closed
      then reconcile_closed_limit_order stamp bet why
        (case os_order st of Some (JObj order) \<Rightarrow> order | _ \<Rightarrow> []) True
      else dreturn Unchanged)"
    by (intro quiet_op.o_rules quiet_op.o_reconcile) simp_all
  from obeysD [OF this went_on(2)] confirm_cancel_requests [OF went_on(1)] show ?thesis
    by (auto simp: same_requests_def)
qed

lemma simulated_requests: "obeys same_requests (cancel_simulated stamp bet reason)"
  unfolding cancel_simulated_def
  by (rule quiet_op.o_bet, intro quiet_op.o_rules quiet_op.o_modify quiet_op.Q_cancel)
    (simp_all add: same_requests_def)

lemma cancellation_requests:
  assumes "cancel_limit_order_for_refresh_outcome fromiso answer xs stamp bet reason resolved d = (r, d')"
  shows "\<exists>oids. dk_cancels d' = dk_cancels d @ oids \<and> length oids \<le> 2"
proof (cases "dk_dry_run d")
  case True
  from obeysD [OF simulated_requests] True assms show ?thesis
    by (auto simp: cancel_limit_order_for_refresh_outcome_def same_requests_def)
next
  case False
  then consider "d' = d" | oid where "d' = request_cancel oid d"
    | oid r where "finalize_cancelled_limit_order_outcome fromiso xs stamp bet (Some reason) True
        (request_cancel oid d) = (r, d')"
    using assms by (auto simp: cancel_limit_order_for_refresh_outcome_def Let_def dbind_def dmodify_def
        split: if_split_asm)
  then show ?thesis
    by cases (auto simp: request_cancel_def dest!: finalize_requests)
qed

abbreviation two_rounds :: "(nat \<Rightarrow> exchange_round) \<Rightarrow> nat \<Rightarrow> exchange_round" where
  "two_rounds xs \<equiv> (\<lambda>k. if k = 0 then xs 0 else xs 1)"

lemma finalize_rounds:
  "finalize_cancelled_limit_order_outcome fromiso xs stamp bet why retry
     = finalize_cancelled_limit_order_outcome fromiso (two_rounds xs) stamp bet why retry"
proof -
  have "confirm_cancel fromiso xs bet retry 0 2 = confirm_cancel fromiso (two_rounds xs) bet retry 0 2"
    by (rule confirm_cancel_reads) (auto simp: less_Suc_eq numeral_2_eq_2)
  moreover have "max 1 POST_CANCEL_CONFIRMATION_ATTEMPTS = 2"
    by (simp add: POST_CANCEL_CONFIRMATION_ATTEMPTS_def)
  ultimately show ?thesis unfolding finalize_cancelled_limit_order_outcome_def by metis
qed

text \<open>
  C39: Cancelling an order for a refresh always comes to an end with a bounded number of calls: besides
  the cancellation itself at most one more is sent, and the answers of the exchange after the second
  round of questions are never read.
\<close>

theorem cancellation_ends:
  "(\<exists>oids. dk_cancels (snd (cancel_limit_order_for_refresh_outcome fromiso answer xs stamp bet reason resolved d))
      = dk_cancels d @ oids \<and> length oids \<le> 2)
   \<and> cancel_limit_order_for_refresh_outcome fromiso answer xs stamp bet reason resolved
      = cancel_limit_order_for_refresh_outcome fromiso answer (\<lambda>k. if k = 0 then xs 0 else xs 1) stamp bet reason
          resolved"
proof -
  obtain r d' where run:
    "cancel_limit_order_for_refresh_outcome fromiso answer xs stamp bet reason resolved d = (r, d')"
    by fastforce
  have "cancel_limit_order_for_refresh_outcome fromiso answer xs stamp bet reason resolved
      = cancel_limit_order_for_refresh_outcome fromiso answer (two_rounds xs) stamp bet reason resolved"
    unfolding cancel_for_refresh_alt
    using finalize_rounds [of fromiso xs stamp bet "Some reason" True] by metis
  then show ?thesis using cancellation_requests [OF run] run by simp
qed

section \<open>A desk with one open order\<close>

definition demo_desk :: desk where
  "demo_desk = \<lparr>dk_dry_run = False, dk_own = True, dk_ledger = open_ledger (Saved [demo_bet]),
     dk_bank = demo_manager, dk_log = [], dk_cancels = []\<rparr>"

text \<open>The evidence of \<open>demo_lookup\<close>, written out: 15 shares for 5.90.\<close>

definition demo_order :: dict where
  "demo_order =
     [(''id'', JStr ''0xabc''), (''status'', JStr ''confirmed_via_trades''),
      (''size_matched'', JFloat (Fin 15)),
      (''actual_fill_amount'', JFloat (Fin (3321404725185741 / 562949953421312))),
      (''actual_fill_price'', JFloat (Fin (7085663413729581 / 18014398509481984))),
      (''actual_fill_source'', JStr ''clob_trade_history''),
      (''actual_fill_trade_ids'', JList [JStr ''x'', JStr ''y''])]"

abbreviation demo_reconciled :: "outcome order_attempt \<times> desk" where
  "demo_reconciled \<equiv>
     reconcile_closed_limit_order ''now'' demo_bet (Some ''filled'') demo_order True demo_desk"

definition reached :: "outcome \<Rightarrow> outcome order_attempt \<times> desk \<Rightarrow> bool" where
  "reached out r = (case fst r of Inr x \<Rightarrow> x = out | Inl _ \<Rightarrow> False)"

lemma reached_iff: "reached out r \<longleftrightarrow> r = (Inr out, snd r)"
  by (cases r) (auto simp: reached_def split: sum.split)

lemma demo_position: "reached Position demo_reconciled"
  by code_simp

theorem reconciliation_needs_evidence_witness:
  "fill_proved demo_order \<and> flt float_eps (filled_shares demo_bet demo_order)
   \<and> dk_bank (snd demo_reconciled) = release_bet demo_manager (unused_cash demo_bet demo_order)"
proof -
  have run: "demo_reconciled = (Inr Position, snd demo_reconciled)"
    using demo_position by (simp add: reached_iff)
  have "dk_own demo_desk" "\<not> dk_dry_run demo_desk" "dk_bank demo_desk = demo_manager"
    by (simp_all add: demo_desk_def)
  moreover have "flt (Fin 0) (unused_cash demo_bet demo_order)" by code_simp
  ultimately show ?thesis
    using reconciliation_needs_evidence [OF run] by simp
qed


text \<open>The exchange reports the order cancelled without a fill.\<close>

definition demo_gone :: clob where
  "demo_gone = \<lparr>cl_get_order = Some (\<lambda>_. Answer (JObj [(''order'', JObj [(''id'', JStr ''0xabc''),
     (''status'', JStr ''CANCELED''), (''size_matched'', JStr ''0'')])])), cl_get_trades = None\<rparr>"

abbreviation demo_recovery :: "dict order_attempt \<times> desk" where
  "demo_recovery \<equiv> reconcile_unresolved_submission (\<lambda>_. None) demo_gone ''now'' demo_bet (Some []) demo_desk"

lemma demo_recovered: "life (disk_rows (dk_ledger (snd demo_recovery))) 1 = Some Cancelled"
  by code_simp

theorem submission_recovery_sound_witness:
  "dk_bank (snd demo_recovery) = demo_manager
   \<and> (\<exists>order. shown_closed (\<lambda>_. None) demo_gone demo_bet (Some []) order
        \<and> order_terminal_state_is_confirmed (order_metrics demo_bet order))"
proof -
  have run: "demo_recovery = (fst demo_recovery, snd demo_recovery)" by simp
  have "dk_bank demo_desk = demo_manager" by (simp add: demo_desk_def)
  moreover have "life (disk_rows (dk_ledger demo_desk)) 1 = Some Active" by code_simp
  ultimately show ?thesis
    using submission_recovery_sound [OF run] demo_recovered by auto
qed

theorem executor_refines_ledger_witness:
  "abstract_step\<^sup>*\<^sup>* (life (disk_rows (dk_ledger demo_desk))) (life (disk_rows (dk_ledger (snd demo_recovery))))
   \<and> life (disk_rows (dk_ledger demo_desk)) 1 = Some Active
   \<and> life (disk_rows (dk_ledger (snd demo_recovery))) 1 = Some Cancelled"
proof -
  have "ids_ok (disk_rows (dk_ledger demo_desk))" by code_simp
  moreover have "life (disk_rows (dk_ledger demo_desk)) 1 = Some Active" by code_simp
  ultimately show ?thesis
    using executor_refines_ledger [OF _ insertI2 [OF insertI2 [OF insertI2 [OF insertI1]]],
        of demo_desk "\<lambda>_. None" demo_gone "''now''" demo_bet "Some []"]
      demo_recovered by blast
qed

end
