(* ===== verification/Accounting.thy ===== *)
theory Accounting
  imports Order_Outcomes Ledger_Sweeps
begin

text \<open>
  \<^verbatim>\<open>src/refresh_live.py\<close>, \<open>_maintain_original_accounting\<close>: before new orders are placed, the saved
  orders of every ledger are recovered, the cash cost of every fill is observed, and resolved
  positions are settled. It composes the order reconciliation, the cash evidence, the ledger and the
  settlement sweep. What the exchange, the clock and the pause switch answer is the record \<open>world\<close>;
  the answers about one row may depend on the row.
\<close>

section \<open>The world\<close>

text \<open>\<open>wd_paused\<close> answers \<open>require_unpaused\<close> at the three places that ask once per row;
  \<open>wd_open_orders\<close> is \<open>None\<close> when the call raises, which is reported like an answer that is no list.\<close>

datatype pause_point = At_mark | At_save | At_settlement

record world =
  wd_fromiso :: "string \<Rightarrow> parsed_time option"
  wd_sha :: "string \<Rightarrow> string"
  wd_stamp :: string
  wd_env :: live_env
  wd_paused_at_start :: bool
  wd_paused :: "pause_point \<Rightarrow> dict \<Rightarrow> bool"
  wd_open_orders :: "json option"
  wd_clob :: "dict \<Rightarrow> clob"
  wd_activity :: "dict \<Rightarrow> json option"
  wd_market :: "string \<Rightarrow> unit + dict option"

definition paused_error :: "'a order_attempt" where
  "paused_error = Inl (OrderRuntimeError ''UFC real trading is paused'')"

section \<open>The ledger documents\<close>

text \<open>\<open>original_accounting_ledgers\<close>: the shape that a ledger document must have.\<close>

fun is_int :: "json \<Rightarrow> bool" where
  "is_int (JInt i) = True"
| "is_int _ = False"

fun is_bool :: "json \<Rightarrow> bool" where
  "is_bool (JBool b) = True"
| "is_bool _ = False"

definition check_document :: "dict \<Rightarrow> dict list order_attempt" where
  "check_document document =
     (let v = jget document ''bets''; rows = map obj_of (list_of v);
          ids = map (\<lambda>row. jget row ''id'') rows
      in if \<not> is_list v \<or> list_ex (\<lambda>row. \<not> is_obj row) (list_of v)
         then Inl (OrderRuntimeError ''Original accounting ledger has an invalid shape'')
         else if list_ex (\<lambda>i. \<not> is_int i) ids \<or> \<not> distinct ids
         then Inl (OrderRuntimeError ''Original accounting ledger has ambiguous original IDs'')
         else if list_ex (\<lambda>row. is_open row \<and> \<not> is_bool (jget row ''dry_run'')) rows
         then Inl (OrderRuntimeError
                ''Original active accounting row has an unclassified real/paper mode'')
         else Inr rows)"

section \<open>Recovering the orders\<close>

datatype recovery = Passed_over | Left_unresolved | Recovered

definition RECOVERABLE_STATES :: "string list" where
  "RECOVERABLE_STATES = [''pending_submit'', ''unknown'', ''submitted'', ''resting'', ''pending'']"

definition SUBMISSION_STATES :: "string list" where
  "SUBMISSION_STATES = [''pending_submit'', ''unknown'']"

definition judge_recovered :: "dict \<Rightarrow> recovery desk_op" where
  "judge_recovered row =
     (if \<not> is_open row then dreturn Recovered
      else dbind (dlift (lift_error (in_names (jget row ''placement_state'') SUBMISSION_STATES)))
             (\<lambda>pending. dreturn (if pending then Left_unresolved else Recovered)))"

definition recover_resting :: "world \<Rightarrow> dict \<Rightarrow> json list \<Rightarrow> recovery desk_op" where
  "recover_resting W original orders =
     (if \<not> truthy (jget original ''order_id'')
      then dlift (Inl (OrderRuntimeError
             ''Original resting order has no durable exchange ID; new orders blocked''))
      else dbind (dlift (inspect_limit_order_state (wd_fromiso W) (wd_clob W original) original orders))
        (\<lambda>st. case os_state st of
            Closed \<Rightarrow>
              dbind (reconcile_closed_limit_order (wd_stamp W) original (os_reason st)
                       (case os_order st of Some (JObj order) \<Rightarrow> order | _ \<Rightarrow> []) False)
                (\<lambda>out. if out = Unchanged then dreturn Left_unresolved
                       else dbind (reload_ledger_entry original) judge_recovered)
          | Resting \<Rightarrow> judge_recovered original
          | Unsettled \<Rightarrow> dreturn Left_unresolved))"

definition recover_open :: "world \<Rightarrow> string \<Rightarrow> dict \<Rightarrow> json list \<Rightarrow> recovery desk_op" where
  "recover_open W path row orders =
     (let original = jset ''_ledger_path'' (JStr path) row
      in dbind (dlift (lift_error (in_names (jget row ''placement_state'') SUBMISSION_STATES)))
        (\<lambda>submission.
           if submission
           then dbind (reconcile_unresolved_submission (wd_fromiso W) (wd_clob W original) (wd_stamp W)
                         original (Some orders)) judge_recovered
           else recover_resting W original orders))"

definition recover_row :: "world \<Rightarrow> string \<Rightarrow> bool \<Rightarrow> dict \<Rightarrow> recovery desk_op" where
  "recover_row W path enabled row =
     (if \<not> is_real row then dreturn Passed_over
      else dbind (dlift (lift_error (in_names (jget row ''placement_state'') RECOVERABLE_STATES)))
        (\<lambda>uncertain.
           if \<not> uncertain then dreturn Passed_over
           else if \<not> enabled
           then dlift (Inl (OrderRuntimeError
                  ''Dormant original owner has an uncertain intent; separate evidence required''))
           else case wd_open_orders W of
                  Some (JList orders) \<Rightarrow> recover_open W path row orders
                | _ \<Rightarrow> dlift (Inl (OrderRuntimeError
                         ''Complete original-order recovery read is unavailable''))))"

text \<open>The counts of unresolved and of reconciled rows.\<close>

fun recover_rows ::
  "world \<Rightarrow> string \<Rightarrow> bool \<Rightarrow> dict list \<Rightarrow> nat \<times> nat \<Rightarrow> (nat \<times> nat) desk_op" where
  "recover_rows W path enabled [] acc = dreturn acc"
| "recover_rows W path enabled (row # rows) (u, n) =
     dbind (recover_row W path enabled row) (\<lambda>r.
       recover_rows W path enabled rows
         (case r of Passed_over \<Rightarrow> (u, n) | Left_unresolved \<Rightarrow> (u + 1, n) | Recovered \<Rightarrow> (u, n + 1)))"

text \<open>A ledger with its path, and whether its trader is enabled.\<close>

record book =
  bk_path :: string
  bk_enabled :: bool
  bk_ledger :: ledger

definition recover_book :: "world \<Rightarrow> book \<Rightarrow> nat \<times> nat \<Rightarrow> (nat \<times> nat) desk_op" where
  "recover_book W b acc d =
     (let (rows, l) = get_open_bets True (bk_ledger b)
      in recover_rows W (bk_path b) (bk_enabled b) rows acc (d\<lparr>dk_ledger := l\<rparr>))"

text \<open>One phase over all ledgers, up to the first exception.\<close>

fun over_books ::
  "(book \<Rightarrow> 'c \<Rightarrow> 'c desk_op) \<Rightarrow> book list \<Rightarrow> 'c \<Rightarrow> desk \<Rightarrow> 'c order_attempt \<times> book list \<times> desk" where
  "over_books f [] acc d = (Inr acc, [], d)"
| "over_books f (b # bs) acc d =
     (let (r, d') = f b acc d; b' = b\<lparr>bk_ledger := dk_ledger d'\<rparr>
      in case r of
           Inl e \<Rightarrow> (Inl e, b' # bs, d')
         | Inr acc' \<Rightarrow> (let (r', bs', d'') = over_books f bs acc' d' in (r', b' # bs', d'')))"

section \<open>Observing the cash cost\<close>

definition unknown_cost :: "string \<Rightarrow> dict" where
  "unknown_cost reason =
     [(''cash_debit_status'', JStr ''unknown''), (''cash_debit_unknown_reason'', JStr reason)]"

definition placed_text :: "dict \<Rightarrow> string" where
  "placed_text row =
     concat (map (\<lambda>c. if c = CHR ''Z'' then ''+00:00'' else [c]) (text_of (jget row ''placed_at'')))"

text \<open>The fields that are recorded: the evidence, or why there is none. An exception other than
  \<open>CashDebitUnavailable\<close> reads as \<open>cash_debit_read_unavailable\<close>.\<close>

definition observe_cost :: "world \<Rightarrow> dict \<Rightarrow> dict" where
  "observe_cost W row =
     (case wd_fromiso W (placed_text row) of
        None \<Rightarrow> unknown_cost ''cash_debit_read_unavailable''
      | Some (Naive _) \<Rightarrow> unknown_cost ''original_placement_time_unavailable''
      | Some (Aware _) \<Rightarrow>
          (case lookup_order_from_trade_history (wd_fromiso W) (wd_clob W row) row
                  (text_of (jget row ''order_id'')) of
             Inl _ \<Rightarrow> unknown_cost ''cash_debit_read_unavailable''
           | Inr None \<Rightarrow> unknown_cost ''original_trade_set_unavailable''
           | Inr (Some order) \<Rightarrow>
               (case wd_activity W row of
                  None \<Rightarrow> unknown_cost ''cash_debit_read_unavailable''
                | Some activity \<Rightarrow>
                    (case observed_cash_debit (wd_sha W) row order activity of
                       Inl reason \<Rightarrow> unknown_cost reason | Inr evidence \<Rightarrow> evidence))))"

definition cost_verified :: "world \<Rightarrow> dict \<Rightarrow> bool" where
  "cost_verified W row = (case verified_cash_debit (wd_sha W) row of Inl _ \<Rightarrow> False | Inr _ \<Rightarrow> True)"

text \<open>\<open>saved.ok\<close>, and the cost of the row that was saved verifies.\<close>

definition saved_verified :: "world \<Rightarrow> mutation_result \<Rightarrow> bool" where
  "saved_verified W res \<longleftrightarrow>
     mr_ok res \<and> (case mr_bet res of None \<Rightarrow> False | Some row \<Rightarrow> cost_verified W row)"

datatype cost_state = Not_filled | Cost_confirmed | Cost_unknown

definition save_cost :: "world \<Rightarrow> int \<Rightarrow> dict \<Rightarrow> dict \<Rightarrow> cost_state desk_op" where
  "save_cost W i row binding =
     (if wd_paused W At_save row then dlift paused_error
      else dbind (on_ledger (record_cash_debit (wd_sha W) i binding (observe_cost W row)))
             (\<lambda>saved. dreturn (if saved_verified W saved then Cost_confirmed else Cost_unknown)))"

definition confirm_cost :: "world \<Rightarrow> dict \<Rightarrow> cost_state desk_op" where
  "confirm_cost W row =
     (if \<not> is_real row \<or> \<not> has_actual_fill row then dreturn Not_filled
      else if cost_verified W row then dreturn Cost_confirmed
      else if wd_paused W At_mark row then dlift paused_error
      else dbind (dlift (bet_id row)) (\<lambda>i.
        dbind (on_ledger (record_cash_debit (wd_sha W) i (fill_binding row)
                 (unknown_cost ''observed_activity_not_yet_confirmed''))) (\<lambda>marked.
          if \<not> mr_ok marked then dreturn Cost_unknown else save_cost W i row (fill_binding row))))"

fun confirm_costs :: "world \<Rightarrow> dict list \<Rightarrow> nat \<times> nat \<Rightarrow> (nat \<times> nat) desk_op" where
  "confirm_costs W [] acc = dreturn acc"
| "confirm_costs W (row # rows) (c, u) =
     dbind (confirm_cost W row) (\<lambda>s.
       confirm_costs W rows
         (case s of Not_filled \<Rightarrow> (c, u) | Cost_confirmed \<Rightarrow> (c + 1, u) | Cost_unknown \<Rightarrow> (c, u + 1)))"

definition confirm_book :: "world \<Rightarrow> book \<Rightarrow> nat \<times> nat \<Rightarrow> (nat \<times> nat) desk_op" where
  "confirm_book W b acc d =
     (if \<not> bk_enabled b then (Inr acc, d\<lparr>dk_ledger := bk_ledger b\<rparr>)
      else let (rows, l) = get_open_bets True (bk_ledger b)
           in confirm_costs W rows acc (d\<lparr>dk_ledger := l\<rparr>))"

section \<open>Settling\<close>

text \<open>\<open>RealPositions\<close>: the sweep sees real rows with an actual fill, and its \<open>settle_bet\<close> refuses while
  trading is paused; the sweep catches that refusal and passes the row over.\<close>

definition settle_real :: "world \<Rightarrow> row_action" where
  "settle_real W row l =
     (if wd_paused W At_settlement row then skip l
      else settle_one (wd_sha W) (wd_stamp W) (resolve_live_mode_from_env (wd_env W) = LM_off)
             (wd_market W) row l)"

definition real_positions :: "dict list \<Rightarrow> dict list" where
  "real_positions rows = filter (\<lambda>row. is_real row \<and> has_actual_fill row) rows"

definition settle_book :: "world \<Rightarrow> book \<Rightarrow> nat \<Rightarrow> nat desk_op" where
  "settle_book W b acc d =
     (if \<not> bk_enabled b then (Inr acc, d\<lparr>dk_ledger := bk_ledger b\<rparr>)
      else let (rows, l) = get_open_bets True (bk_ledger b)
           in case sweep (settle_real W) (real_positions rows) 0 l of
                Inl e \<Rightarrow> (Inl (LedgerError e), d\<lparr>dk_ledger := l\<rparr>)
              | Inr (n, l') \<Rightarrow> (Inr (acc + n), d\<lparr>dk_ledger := l'\<rparr>))"

section \<open>The maintenance\<close>

record maintenance =
  mt_recovered :: nat
  mt_settled :: nat
  mt_confirmed :: nat
  mt_unknown :: nat

datatype maintenance_error = Unresolved_orders nat | Raised_error order_error

definition maintain_original_accounting ::
  "world \<Rightarrow> book list \<Rightarrow> desk \<Rightarrow> (maintenance_error + maintenance) \<times> book list \<times> desk" where
  "maintain_original_accounting W books d =
     (if wd_paused_at_start W
      then (Inl (Raised_error (OrderRuntimeError ''UFC real trading is paused'')), books, d)
      else case over_books (recover_book W) books (0, 0) d of
        (Inl e, books1, d1) \<Rightarrow> (Inl (Raised_error e), books1, d1)
      | (Inr (unresolved, recovered), books1, d1) \<Rightarrow>
          if 0 < unresolved then (Inl (Unresolved_orders unresolved), books1, d1)
          else (case over_books (confirm_book W) books1 (0, 0) d1 of
            (Inl e, books2, d2) \<Rightarrow> (Inl (Raised_error e), books2, d2)
          | (Inr (confirmed, unknown), books2, d2) \<Rightarrow>
              (case over_books (settle_book W) books2 0 d2 of
                (Inl e, books3, d3) \<Rightarrow> (Inl (Raised_error e), books3, d3)
              | (Inr settled, books3, d3) \<Rightarrow>
                  (Inr \<lparr>mt_recovered = recovered, mt_settled = settled, mt_confirmed = confirmed,
                        mt_unknown = unknown\<rparr>, books3, d3))))"

end
