(* ===== verification/Accounting_Laws.thy ===== *)
theory Accounting_Laws
  imports Accounting
begin

text \<open>
  The relations of \<open>Order_Laws\<close> hold for the maintenance of the books as well, once they hold for the
  recording of a cost (\<open>cost_relation\<close>): no cash moves, and work on one bet changes no other bet. Each
  phase goes over the ledgers one by one (\<open>book_phase\<close>).
\<close>

section \<open>The work on one row\<close>

locale cost_relation = desk_preorder +
  fixes may :: "int \<Rightarrow> bool" and sha :: "string \<Rightarrow> string"
  assumes Q_record: "may i \<Longrightarrow> obeys Q (on_ledger (record_cash_debit sha i binding flds))"
begin

lemma o_confirm_cost:
  assumes "allowed_bet may row" "wd_sha W = sha"
  shows "obeys Q (confirm_cost W row)"
  unfolding confirm_cost_def save_cost_def assms(2) paused_error_def
  by (intro o_ite o_return o_lift, rule o_bet, intro o_rules Q_record)
    (use assms(1) in \<open>auto simp: allowed_bet_def\<close>)

lemma o_confirm_costs:
  assumes "\<And>row. row \<in> set rows \<Longrightarrow> allowed_bet may row" "wd_sha W = sha"
  shows "obeys Q (confirm_costs W rows acc)"
  using assms(1)
proof (induction rows arbitrary: acc)
  case (Cons row rows)
  obtain c u where acc: "acc = (c, u)" by (cases acc)
  show ?case
    unfolding acc confirm_costs.simps
    by (intro o_bind o_confirm_cost Cons.IH assms(2)) (simp_all add: Cons.prems)
qed (simp add: o_return)

end

context desk_relation
begin

lemma o_judge: "obeys Q (judge_recovered row)"
  unfolding judge_recovered_def by (intro o_rules)

lemma o_recover_resting:
  assumes "allowed_bet may original"
  shows "obeys Q (recover_resting W original orders)"
proof -
  have "obeys Q (case os_state st of
      Closed \<Rightarrow> dbind (reconcile_closed_limit_order (wd_stamp W) original (os_reason st)
            (case os_order st of Some (JObj order) \<Rightarrow> order | _ \<Rightarrow> []) False)
          (\<lambda>out. if out = Unchanged then dreturn Left_unresolved
                 else dbind (reload_ledger_entry original) judge_recovered)
    | Resting \<Rightarrow> judge_recovered original | Unsettled \<Rightarrow> dreturn Left_unresolved)" for st
    by (cases "os_state st"; simp only: book_state.case;
        intro o_rules o_judge o_reconcile o_reload assms) simp
  then show ?thesis
    unfolding recover_resting_def by (intro o_rules)
qed

lemma o_recover_row:
  assumes "allowed_bet may row"
  shows "obeys Q (recover_row W path enabled row)"
proof -
  have original: "allowed_bet may (jset ''_ledger_path'' (JStr path) row)"
    using assms by (simp add: allowed_bet_def bet_id_def)
  then have "obeys Q (recover_open W path row orders)" for orders
    unfolding recover_open_def Let_def by (intro o_rules o_recover_resting o_judge o_unresolved)
  then have "obeys Q (case wd_open_orders W of
      Some (JList orders) \<Rightarrow> recover_open W path row orders
    | _ \<Rightarrow> dlift (Inl (OrderRuntimeError ''Complete original-order recovery read is unavailable'')))"
    by (auto split: option.split json.split intro: o_lift)
  then show ?thesis
    unfolding recover_row_def by (intro o_rules)
qed

end

interpretation free_cost: cost_relation "cashless_relation sha" "\<lambda>_. True" sha for sha
  by unfold_locales
    (auto simp: relation_defs intro!: obeys_on_ledger intro: ledger_step.cash [THEN run_step])

interpretation single_cost: cost_relation "one_bet_relation i" "\<lambda>j. j = i" sha for i sha
  by unfold_locales
    (auto simp: one_bet_relation_def record_cash_debit_def intro!: obeys_on_ledger
      intro: recording.file_touched)

lemma recover_rows_cashless: "obeys (cashless_relation sha) (recover_rows W path enabled rows acc)"
proof (induction rows arbitrary: acc)
  case (Cons row rows)
  obtain u n where acc: "acc = (u, n)" by (cases acc)
  show ?case
    unfolding acc recover_rows.simps
    by (intro free_op.o_bind free_op.o_recover_row Cons.IH) simp
qed (simp add: free_op.o_return)

lemma confirm_costs_cashless: "obeys (cashless_relation (wd_sha W)) (confirm_costs W rows acc)"
  by (rule free_cost.o_confirm_costs) simp_all

lemma settle_real_run:
  assumes "settle_real W row l = Inr (ok, l')"
  shows "ledger_run (wd_sha W) l l'"
proof (cases "l' = l")
  case False
  then have "settle_one (wd_sha W) (wd_stamp W) (resolve_live_mode_from_env (wd_env W) = LM_off)
      (wd_market W) row l = Inr (ok, l')"
    using assms by (auto simp: settle_real_def skip_def split: if_split_asm)
  with False obtain i r won where "on_file True i (settle_row (wd_sha W) (wd_stamp W) won) l = (r, l')"
    using settle_one_cases by blast
  then show ?thesis
    by (intro run_step ledger_step.settle [of _ "wd_stamp W" i won l r]) (simp add: Ledger.settle_bet_def)
qed simp

lemma settle_sweep_run: "sweep (settle_real W) rows n l = Inr (m, l') \<Longrightarrow> ledger_run (wd_sha W) l l'"
  by (induction rows arbitrary: n l) (auto simp: sbind_eq_Inr dest!: settle_real_run intro: run_trans)

section \<open>One phase over all ledgers\<close>

locale book_phase =
  fixes sha :: "string \<Rightarrow> string" and f :: "book \<Rightarrow> 'c \<Rightarrow> 'c desk_op"
  assumes book_runs: "f b acc d = (r, d') \<Longrightarrow> ledger_run sha (bk_ledger b) (dk_ledger d')"
    and book_cash: "f b acc d = (r, d') \<Longrightarrow> dk_bank d' = dk_bank d"
begin

lemma books_run:
  assumes "over_books f books acc d = (r, books', d')"
  shows "list_all2 (\<lambda>b b'. bk_path b' = bk_path b \<and> bk_enabled b' = bk_enabled b
      \<and> ledger_run sha (bk_ledger b) (bk_ledger b')) books books' \<and> dk_bank d' = dk_bank d"
  using assms
proof (induction books arbitrary: acc d r books' d')
  case (Cons b bs)
  obtain r1 d1 where step: "f b acc d = (r1, d1)" by (cases "f b acc d")
  note one = book_runs [OF step] book_cash [OF step]
  show ?case
  proof (cases r1)
    case (Inl e)
    then show ?thesis using Cons.prems step one by (auto simp: list_all2_same)
  next
    case (Inr acc')
    obtain r2 bs' d2 where rest: "over_books f bs acc' d1 = (r2, bs', d2)"
      by (cases "over_books f bs acc' d1") auto
    from Cons.IH [OF this] show ?thesis using Cons.prems step rest one Inr by auto
  qed
qed simp

end

lemma get_open_bets_True:
  "get_open_bets True l0 = (rows, l) \<longleftrightarrow>
   rows = open_bets_from (disk_rows l0) \<and> l = snd (get_bets True l0)"
  by (auto simp: get_open_bets_def get_bets_def disk_rows_def Let_def)

lemma opened_run: "get_open_bets True l0 = (rows, l) \<Longrightarrow> ledger_run sha l0 l"
  by (simp add: get_open_bets_True get_bets_run)

lemma work_on_book:
  assumes "obeys (cashless_relation sha) m" and "m (d\<lparr>dk_ledger := l\<rparr>) = (r, d')"
    and "get_open_bets True (bk_ledger b) = (rows, l)"
  shows "ledger_run sha (bk_ledger b) (dk_ledger d')" "dk_bank d' = dk_bank d"
  using obeysD [OF assms(1,2)] opened_run [OF assms(3)]
  by (auto simp: cashless_relation_def ledger_relation_def intro: run_trans)

interpretation recovering_books: book_phase sha "recover_book W" for sha W
  by unfold_locales
    (auto simp: recover_book_def split: prod.split_asm intro: work_on_book [OF recover_rows_cashless])

interpretation confirming_books: book_phase "wd_sha W" "confirm_book W" for W
  by unfold_locales
    (auto simp: confirm_book_def split: prod.split_asm if_split_asm
      intro: work_on_book [OF confirm_costs_cashless])

lemma settle_book_cases:
  assumes "settle_book W b acc d = (r, d')"
  obtains (disabled) "\<not> bk_enabled b" "d' = d\<lparr>dk_ledger := bk_ledger b\<rparr>"
  | (failed) rows l where "get_open_bets True (bk_ledger b) = (rows, l)" "d' = d\<lparr>dk_ledger := l\<rparr>"
  | (settled) rows l n l' where "get_open_bets True (bk_ledger b) = (rows, l)"
      "sweep (settle_real W) (real_positions rows) 0 l = Inr (n, l')" "d' = d\<lparr>dk_ledger := l'\<rparr>"
  using assms by (auto simp: settle_book_def split: if_split_asm prod.split_asm sum.split_asm)

interpretation settling_books: book_phase "wd_sha W" "settle_book W" for W
  by unfold_locales
    (auto elim!: settle_book_cases intro: opened_run run_trans [OF opened_run settle_sweep_run])

end
