(* ===== verification/Accounting_Safety.thy ===== *)
theory Accounting_Safety
  imports Accounting_Laws
begin

text \<open>
  The rows of a ledger that are in doubt - open real bets whose placement is pending or unknown - and
  what the phases of the maintenance do to them: the recovery leaves none when it counts none as
  unresolved, and neither the observation of the costs nor the settlement brings one back.
\<close>

section \<open>Rows in doubt\<close>

definition in_doubt :: "dict \<Rightarrow> bool" where
  "in_doubt row \<longleftrightarrow>
     is_open row \<and> is_real row \<and> jget row ''placement_state'' \<in> JStr ` set SUBMISSION_STATES"

text \<open>What \<open>check_document\<close> has established: integer ids, no two the same.\<close>

definition int_ids :: "dict list \<Rightarrow> bool" where
  "int_ids rows \<longleftrightarrow> list_all (\<lambda>row. jget row ''id'' = JInt (row_id row)) rows \<and> distinct (map row_id rows)"

lemma is_int_id: "is_int (jget row ''id'') \<longleftrightarrow> jget row ''id'' = JInt (row_id row)"
  by (cases "jget row ''id''") (simp_all add: row_id_def)

lemma check_document_ids:
  assumes "check_document document = Inr rows"
  shows "int_ids rows"
proof -
  have ints: "list_all (\<lambda>row. jget row ''id'' = JInt (row_id row)) rows"
    and "distinct (map (\<lambda>row. jget row ''id'') rows)"
    using assms
    by (auto simp: check_document_def Let_def list_ex_iff list_all_iff is_int_id comp_def
        split: if_split_asm)
  moreover have "map (\<lambda>row. jget row ''id'') rows = map JInt (map row_id rows)"
    using ints by (simp add: list_all_iff)
  moreover have "distinct (map JInt ids) \<Longrightarrow> distinct ids" for ids by (simp add: distinct_map)
  ultimately show ?thesis by (metis int_ids_def)
qed

lemma int_idsD: "int_ids rows \<Longrightarrow> row \<in> set rows \<Longrightarrow> jget row ''id'' = JInt (row_id row)"
  by (simp add: int_ids_def list_all_iff)

lemma int_ids_key: "int_ids rows \<Longrightarrow> row \<in> set rows \<Longrightarrow> has_key row ''id''"
  using int_idsD [of rows row] by (auto simp: has_key_def jget_def split: option.split_asm)

lemma int_ids_inj: "int_ids rows \<Longrightarrow> a \<in> set rows \<Longrightarrow> b \<in> set rows \<Longrightarrow> row_id a = row_id b \<Longrightarrow> a = b"
  by (auto simp: int_ids_def distinct_map inj_on_def)

lemma touched_int_ids:
  assumes "list_all2 (touched i) rows rows'" and "int_ids rows"
  shows "int_ids rows' \<and> map row_id rows' = map row_id rows"
proof -
  have "map row_id rows' = map row_id rows \<and> list_all (\<lambda>row. jget row ''id'' = JInt (row_id row)) rows'"
    using assms(1) assms(2) [unfolded int_ids_def, THEN conjunct1]
    by (induction rule: list_all2_induct) (auto simp: touched_def row_id_def)
  then show ?thesis using assms(2) by (simp add: int_ids_def)
qed

lemma touched_others:
  assumes "list_all2 (touched i) rows rows'" and "int_ids rows"
  shows "{row \<in> set rows'. row_id row \<noteq> i} = {row \<in> set rows. row_id row \<noteq> i}"
proof -
  have "list_all (\<lambda>row. jget row ''id'' = JInt (row_id row)) rows"
    using assms(2) by (simp add: int_ids_def)
  with assms(1) show ?thesis
  proof (induction rule: list_all2_induct)
    case (Cons b bs b' bs')
    have "row_id b' = row_id b" using Cons.hyps(1) by (auto simp: touched_def row_id_def)
    moreover have "b' = b \<or> row_id b = i"
      using Cons.hyps(1) Cons.prems matches_JInt by (auto simp: touched_def)
    ultimately show ?case using Cons.IH Cons.prems by auto
  qed simp
qed

section \<open>Recovering one row\<close>

lemma reloaded_row:
  assumes "reload_ledger_entry bet d = (Inr row, d')" and "jget bet ''id'' = JInt i"
    and "int_ids (disk_rows (dk_ledger d))" and "file_row \<in> set (disk_rows (dk_ledger d))"
    and "row_id file_row = i"
  shows "disk_rows (dk_ledger d') = disk_rows (dk_ledger d)
    \<and> (row = file_row \<or> row = jset ''_ledger_path'' (jget bet ''_ledger_path'') file_row)"
proof -
  have id: "jget file_row ''id'' = JInt i" using int_idsD [OF assms(3,4)] assms(5) by simp
  have "same_id i file_row"
    using id by (auto simp: same_id_def jget_or_def has_key_def jget_def split: option.split_asm)
  then obtain other where found: "find (same_id i) (disk_rows (dk_ledger d)) = Some other"
    using assms(4) by (cases "find (same_id i) (disk_rows (dk_ledger d))") (auto simp: find_None_iff)
  have other: "other \<in> set (disk_rows (dk_ledger d))" "same_id i other"
    using found by (auto simp: find_Some_iff)
  then have "row_id other = i"
    using int_idsD [OF assms(3) other(1)] int_ids_key [OF assms(3) other(1)]
    by (simp add: same_id_def jget_or_def)
  then have "other = file_row" using int_ids_inj [OF assms(3) other(1) assms(4)] assms(5) by simp
  then show ?thesis
    using assms(1,2) found
    by (auto simp: reload_ledger_entry_def dbind_Inr bet_id_Inr get_bets_def disk_rows_def Let_def
        split: if_split_asm)
qed

lemma judged_recovered:
  assumes "judge_recovered row d = (Inr r, d')" and "r \<noteq> Left_unresolved"
  shows "d' = d \<and> \<not> in_doubt row"
proof -
  have "\<not> is_open row \<or> in_names (jget row ''placement_state'') SUBMISSION_STATES = Inr False"
    using assms by (auto simp: judge_recovered_def dbind_Inr split: if_split_asm)
  moreover have "in_names v SUBMISSION_STATES = Inr False \<Longrightarrow> v \<notin> JStr ` set SUBMISSION_STATES" for v
    by (cases v) (auto simp: in_names_def)
  moreover have "d' = d"
    using assms(1) by (auto simp: judge_recovered_def dbind_Inr split: if_split_asm)
  ultimately show ?thesis by (auto simp: in_doubt_def)
qed

lemma in_doubt_path [simp]: "in_doubt (jset ''_ledger_path'' v row) = in_doubt row"
  by (simp add: in_doubt_def has_status_def is_real_def)

lemma unresolved_returns:
  assumes "reconcile_unresolved_submission fromiso cl stamp bet orders d = (Inr row, d')"
  shows "row = bet \<or> (\<exists>d0. reload_ledger_entry bet d0 = (Inr row, d'))"
  using assms unfolding reconcile_unresolved_alt recover_named_def
  by (auto simp: dbind_Inr split: if_split_asm option.split_asm sum.split_asm)

lemma in_names_Inr: "in_names v names = Inr b \<Longrightarrow> b \<longleftrightarrow> v \<in> JStr ` set names"
  by (cases v) (auto simp: in_names_def)

lemma recover_row_cases:
  assumes "recover_row W path enabled row d = (Inr r, d')"
  obtains (passed) "d' = d"
      "\<not> is_real row \<or> jget row ''placement_state'' \<notin> JStr ` set RECOVERABLE_STATES"
  | (submission) orders row1 d1 where "jget row ''placement_state'' \<in> JStr ` set SUBMISSION_STATES"
      "reconcile_unresolved_submission (wd_fromiso W) (wd_clob W (jset ''_ledger_path'' (JStr path) row))
         (wd_stamp W) (jset ''_ledger_path'' (JStr path) row) (Some orders) d = (Inr row1, d1)"
      "judge_recovered row1 d1 = (Inr r, d')"
  | (resting) orders where
      "recover_resting W (jset ''_ledger_path'' (JStr path) row) orders d = (Inr r, d')"
  using assms
  by (auto simp: recover_row_def recover_open_def dbind_Inr Let_def
      dest!: in_names_Inr split: if_split_asm option.split_asm json.split_asm)

lemma recover_resting_cases:
  assumes "recover_resting W original orders d = (Inr r, d')" and "r \<noteq> Left_unresolved"
  obtains (reloaded) row1 d0 d1 where "reload_ledger_entry original d0 = (Inr row1, d1)"
      "judge_recovered row1 d1 = (Inr r, d')"
  | (still_resting) "judge_recovered original d = (Inr r, d')"
  using assms
  by (auto simp: recover_resting_def dbind_Inr split: if_split_asm book_state.split_asm)
    (metis book_state.exhaust)

text \<open>The row of the file with the id of a recovered row is not in doubt.\<close>

lemma recover_row_resolves:
  assumes run: "recover_row W path enabled row d = (Inr r, d')" and recovered: "r \<noteq> Left_unresolved"
    and row: "row \<in> set (disk_rows (dk_ledger d))" "is_open row" "int_ids (disk_rows (dk_ledger d))"
    and file_row: "file_row \<in> set (disk_rows (dk_ledger d'))" "row_id file_row = row_id row"
    and ids: "int_ids (disk_rows (dk_ledger d'))"
  shows "\<not> in_doubt file_row"
proof -
  have id: "jget row ''id'' = JInt (row_id row)" using int_idsD [OF row(3,1)] .
  have same: "\<not> in_doubt file_row" if "\<not> in_doubt row" "d' = d"
    using int_ids_inj [OF row(3,1) _ file_row(2) [symmetric]] file_row(1) that by auto
  have reload: "\<not> in_doubt file_row"
    if "reload_ledger_entry (jset ''_ledger_path'' (JStr path) row) d0 = (Inr row1, d1)"
      "judge_recovered row1 d1 = (Inr r, d')" for d0 d1 row1
  proof -
    note judged = judged_recovered [OF that(2) recovered]
    have disk: "disk_rows (dk_ledger d1) = disk_rows (dk_ledger d0)"
      using that(1) by (auto simp: reload_ledger_entry_def dbind_Inr get_bets_def disk_rows_def Let_def)
    have "row1 = file_row \<or> row1 = jset ''_ledger_path'' (JStr path) file_row"
      using reloaded_row [OF that(1), of "row_id row" file_row] ids file_row judged id disk by simp
    then show ?thesis using judged by auto
  qed
  from run show ?thesis
  proof (cases rule: recover_row_cases)
    case passed
    then show ?thesis by (intro same) (auto simp: in_doubt_def RECOVERABLE_STATES_def SUBMISSION_STATES_def)
  next
    case (submission orders row1 d1)
    note judged = judged_recovered [OF submission(3) recovered]
    show ?thesis
      using unresolved_returns [OF submission(2)]
    proof (elim disjE exE)
      assume "row1 = jset ''_ledger_path'' (JStr path) row"
      then have "\<not> in_doubt row" using judged by simp
      then have "\<not> is_real row" using submission(1) row(2) by (simp add: in_doubt_def)
      then have "d' = d" using run by (simp add: recover_row_def)
      then show ?thesis by (rule same [OF \<open>\<not> in_doubt row\<close>])
    qed (rule reload [OF _ submission(3)])
  next
    case (resting orders)
    from this recovered show ?thesis
    proof (cases rule: recover_resting_cases)
      case still_resting
      from judged_recovered [OF this recovered] show ?thesis by (intro same) simp_all
    qed (rule reload)
  qed
qed

section \<open>Recovering one ledger\<close>

lemma recover_rows_mono:
  "recover_rows W path enabled rows (u, n) d = (Inr (u', n'), d') \<Longrightarrow> u \<le> u'"
proof (induction rows arbitrary: u n d)
  case (Cons row rows)
  then obtain r d1 where "recover_rows W path enabled rows
      (case r of Passed_over \<Rightarrow> (u, n) | Left_unresolved \<Rightarrow> (u + 1, n) | Recovered \<Rightarrow> (u, n + 1)) d1
        = (Inr (u', n'), d')"
    by (auto simp: dbind_Inr)
  then show ?case by (cases r) (auto dest: Cons.IH)
qed simp

lemma recover_rows_resolve:
  assumes "recover_rows W path enabled rows (u, n) d = (Inr (u, n'), d')"
    and "int_ids (disk_rows (dk_ledger d))" and "set rows \<subseteq> set (disk_rows (dk_ledger d))"
    and "distinct (map row_id rows)" and "list_all is_open rows"
  shows "int_ids (disk_rows (dk_ledger d')) \<and> (\<forall>x \<in> set (disk_rows (dk_ledger d')).
    in_doubt x \<longrightarrow> x \<in> set (disk_rows (dk_ledger d)) \<and> row_id x \<notin> row_id ` set rows)"
  using assms
proof (induction rows arbitrary: n d)
  case (Cons row rows)
  obtain r d1 where step: "recover_row W path enabled row d = (Inr r, d1)"
    and rest: "recover_rows W path enabled rows
      (case r of Passed_over \<Rightarrow> (u, n) | Left_unresolved \<Rightarrow> (u + 1, n) | Recovered \<Rightarrow> (u, n + 1)) d1
        = (Inr (u, n'), d')"
    using Cons.prems(1) by (auto simp: dbind_Inr)
  have recovered: "r \<noteq> Left_unresolved" using rest recover_rows_mono by fastforce
  then obtain n1 where rest: "recover_rows W path enabled rows (u, n1) d1 = (Inr (u, n'), d')"
    using rest by (cases r) auto
  have id: "jget row ''id'' = JInt (row_id row)" using int_idsD [OF Cons.prems(2)] Cons.prems(3) by simp
  have single: "obeys (one_bet_relation (row_id row)) (recover_row W path enabled row)"
    by (rule single_op.o_recover_row) (simp add: allowed_bet_def bet_id_Inr id)
  then have touched: "list_all2 (touched (row_id row)) (disk_rows (dk_ledger d)) (disk_rows (dk_ledger d1))"
    using obeysD [OF single step] by (simp add: one_bet_relation_def)
  have ids: "int_ids (disk_rows (dk_ledger d1))" using touched_int_ids [OF touched Cons.prems(2)] by simp
  note others = touched_others [OF touched Cons.prems(2)]
  have kept: "set rows \<subseteq> set (disk_rows (dk_ledger d1))"
  proof
    fix x assume "x \<in> set rows"
    then have "x \<in> set (disk_rows (dk_ledger d))" "row_id x \<noteq> row_id row"
      using Cons.prems(3,4) by (auto, metis image_eqI)
    then show "x \<in> set (disk_rows (dk_ledger d1))" using others by blast
  qed
  note ih = Cons.IH [OF rest ids kept]
  have gone: "\<not> in_doubt x" if "x \<in> set (disk_rows (dk_ledger d1))" "row_id x = row_id row" for x
    using recover_row_resolves [OF step recovered _ _ Cons.prems(2) that ids] Cons.prems(3,5) by simp
  have "x \<in> set (disk_rows (dk_ledger d)) \<and> row_id x \<notin> row_id ` set (row # rows)"
    if "x \<in> set (disk_rows (dk_ledger d'))" "in_doubt x" for x
  proof -
    have "x \<in> set (disk_rows (dk_ledger d1))" "row_id x \<notin> row_id ` set rows"
      using ih that Cons.prems(4,5) by simp_all
    moreover from this have "row_id x \<noteq> row_id row" using gone that(2) by blast
    ultimately show ?thesis using others by auto
  qed
  then show ?case using ih Cons.prems(4,5) by simp
qed simp

text \<open>A ledger without a row in doubt.\<close>

definition resolved_ledger :: "ledger \<Rightarrow> bool" where
  "resolved_ledger l \<longleftrightarrow> int_ids (disk_rows l) \<and> list_all (\<lambda>row. \<not> in_doubt row) (disk_rows l)"

lemma opened_disk [simp]: "disk_rows (snd (get_bets fresh l)) = disk_rows l"
  by (simp add: get_bets_def disk_rows_def Let_def)

lemma recover_book_resolves:
  assumes "recover_book W b (u, n) d = (Inr (u, n'), d')" and "int_ids (disk_rows (bk_ledger b))"
  shows "resolved_ledger (dk_ledger d')"
proof -
  let ?rows = "open_bets_from (disk_rows (bk_ledger b))"
  let ?d = "d\<lparr>dk_ledger := snd (get_bets True (bk_ledger b))\<rparr>"
  have run: "recover_rows W (bk_path b) (bk_enabled b) ?rows (u, n) ?d = (Inr (u, n'), d')"
    using assms(1) by (auto simp: recover_book_def get_open_bets_True split: prod.split_asm)
  have disk: "disk_rows (dk_ledger ?d) = disk_rows (bk_ledger b)" by simp
  have "set ?rows \<subseteq> set (disk_rows (bk_ledger b))" "distinct (map row_id ?rows)" "list_all is_open ?rows"
    using assms(2) by (auto simp: open_bets_from_def int_ids_def distinct_map_filter list_all_iff)
  note resolved = recover_rows_resolve [OF run, unfolded disk, OF assms(2) this]
  have "\<not> in_doubt x" if "x \<in> set (disk_rows (dk_ledger d'))" for x
  proof
    assume doubt: "in_doubt x"
    then have "x \<in> set (disk_rows (bk_ledger b))" "row_id x \<notin> row_id ` set ?rows"
      using resolved that by blast+
    moreover have "is_open x" using doubt by (simp add: in_doubt_def)
    ultimately show False by (simp add: open_bets_from_def)
  qed
  then show ?thesis using resolved by (simp add: resolved_ledger_def list_all_iff)
qed

lemma recover_book_mono: "recover_book W b (u, n) d = (Inr (u', n'), d') \<Longrightarrow> u \<le> u'"
  by (auto simp: recover_book_def split: prod.split_asm dest: recover_rows_mono)

lemma over_books_Inr:
  assumes "over_books f (b # bs) acc d = (Inr acc'', books', d'')"
  obtains acc' d' bs' where "f b acc d = (Inr acc', d')"
    "over_books f bs acc' d' = (Inr acc'', bs', d'')" "books' = b\<lparr>bk_ledger := dk_ledger d'\<rparr> # bs'"
proof -
  obtain r d' where one: "f b acc d = (r, d')" by (cases "f b acc d")
  show thesis
  proof (cases r)
    case (Inl e)
    then show thesis using assms one by simp
  next
    case (Inr acc')
    obtain r' bs' d2 where "over_books f bs acc' d' = (r', bs', d2)" by (cases "over_books f bs acc' d'") auto
    then show thesis using assms one Inr by (intro that [of acc' d' bs']) simp_all
  qed
qed

lemma over_recover_mono:
  "over_books (recover_book W) books (u, n) d = (Inr (u', n'), books', d') \<Longrightarrow> u \<le> u'"
proof (induction books arbitrary: u n d books' d')
  case (Cons b bs)
  then obtain acc1 d1 bs' where "recover_book W b (u, n) d = (Inr acc1, d1)"
    "over_books (recover_book W) bs acc1 d1 = (Inr (u', n'), bs', d')"
    by (elim over_books_Inr)
  then show ?case
    using recover_book_mono [of W b u n d "fst acc1" "snd acc1" d1]
      Cons.IH [of "fst acc1" "snd acc1" d1 bs' d'] by simp
qed simp

lemma recovered_books:
  assumes "over_books (recover_book W) books (u, n) d = (Inr (u, n'), books', d')"
    and "list_all (\<lambda>b. int_ids (disk_rows (bk_ledger b))) books"
  shows "list_all (\<lambda>b. resolved_ledger (bk_ledger b)) books'"
  using assms
proof (induction books arbitrary: n d books')
  case (Cons b bs)
  from Cons.prems(1) obtain acc1 d1 bs' where first: "recover_book W b (u, n) d = (Inr acc1, d1)"
    and others: "over_books (recover_book W) bs acc1 d1 = (Inr (u, n'), bs', d')"
    and books': "books' = b\<lparr>bk_ledger := dk_ledger d1\<rparr> # bs'"
    by (elim over_books_Inr)
  obtain u1 n1 where acc1: "acc1 = (u1, n1)" by (cases acc1)
  have "u1 = u" using recover_book_mono over_recover_mono first others acc1 by (meson le_antisym)
  then have one: "recover_book W b (u, n) d = (Inr (u, n1), d1)"
    and rest: "over_books (recover_book W) bs (u, n1) d1 = (Inr (u, n'), bs', d')"
    using first others acc1 by simp_all
  show ?case
    using Cons.IH [OF rest] recover_book_resolves [OF one] Cons.prems(2) books' by simp
qed simp

section \<open>The later phases\<close>

lemma resolved_rows:
  assumes "list_all2 (\<lambda>a b. jget b ''id'' = jget a ''id'' \<and> (in_doubt b \<longrightarrow> in_doubt a)) (disk_rows l) (disk_rows l')"
    and "resolved_ledger l"
  shows "resolved_ledger l'"
proof -
  have "map row_id (disk_rows l') = map row_id (disk_rows l)"
    using assms(1) by (auto simp: list_all2_conv_all_nth row_id_def intro: nth_equalityI)
  then have "int_ids (disk_rows l')"
    using assms by (auto simp: resolved_ledger_def int_ids_def list_all2_conv_all_nth list_all_length row_id_def)
  moreover have "list_all (\<lambda>row. \<not> in_doubt row) (disk_rows l')"
    using assms by (auto simp: resolved_ledger_def list_all2_conv_all_nth list_all_length)
  ultimately show ?thesis by (simp add: resolved_ledger_def)
qed

definition stays_resolved :: "desk \<Rightarrow> desk \<Rightarrow> bool" where
  "stays_resolved d d' \<longleftrightarrow> (resolved_ledger (dk_ledger d) \<longrightarrow> resolved_ledger (dk_ledger d'))"

lemma recorded_resolved:
  assumes "record_cash_debit sha i binding flds l = (r, l')" and "resolved_ledger l"
  shows "resolved_ledger l'"
proof (rule resolved_rows [OF _ assms(2)], rule on_file_rows)
  show "mutate_locked (on_row False i (record_row sha binding flds)) l = (r, l')"
    using assms(1) by (simp add: record_cash_debit_def)
  fix bet s bet'
  assume "record_row sha binding flds bet = Inr (s, bet', True)"
  note keeps = record_row_keeps [OF this]
  show "jget bet' ''id'' = jget bet ''id'' \<and> (in_doubt bet' \<longrightarrow> in_doubt bet)"
    using keeps [of "''id''"] keeps [of "''status''"] keeps [of "''dry_run''"] keeps [of "''placement_state''"]
    by (simp add: cash_debit_fields_def in_doubt_def has_status_def is_real_def)
qed simp

interpretation calm_cost: cost_relation stays_resolved "\<lambda>_. True" sha for sha
  by unfold_locales
    (auto simp: stays_resolved_def intro!: obeys_on_ledger intro: recorded_resolved)

lemma opened_resolved: "resolved_ledger (snd (get_bets fresh l)) = resolved_ledger l"
  by (simp add: resolved_ledger_def)

lemma confirm_book_resolved:
  assumes "confirm_book W b acc d = (r, d')" and "resolved_ledger (bk_ledger b)"
  shows "resolved_ledger (dk_ledger d')"
proof (cases "bk_enabled b")
  case True
  then obtain rows where
    "confirm_costs W rows acc (d\<lparr>dk_ledger := snd (get_bets True (bk_ledger b))\<rparr>) = (r, d')"
    using assms(1) by (auto simp: confirm_book_def get_open_bets_True split: prod.split_asm)
  from obeysD [OF calm_cost.o_confirm_costs this] assms(2) show ?thesis
    by (simp add: stays_resolved_def opened_resolved)
qed (use assms in \<open>auto simp: confirm_book_def\<close>)

text \<open>How the settlement changes a row: an open row whose cost is known is won or lost.\<close>

definition settled_paid :: "world \<Rightarrow> dict \<Rightarrow> dict \<Rightarrow> bool" where
  "settled_paid W c c' \<longleftrightarrow> closed_by (\<lambda>s. s \<in> {Won, Lost}) c c'
     \<and> (is_real c \<and> has_actual_fill c \<and> \<not> is_crypto_5m_bet c \<longrightarrow> cost_verified W c)"

lemma settle_row_paid:
  assumes "settle_row (wd_sha W) stamp won bet = Inr (s, bet', True)"
  shows "settled_paid W bet bet'"
proof -
  have opened: "is_open bet"
    by (rule ccontr) (use assms in \<open>simp add: settle_row_def refused_def\<close>)
  then have "closed_by (\<lambda>s. s \<in> {Won, Lost}) bet bet'"
    using settling.keeps_id [OF assms] settling.lands [OF assms] by (simp add: closed_by_def)
  moreover have "settlement_amount (wd_sha W) bet \<noteq> None"
    by (rule notI) (use assms opened in \<open>simp add: settle_row_def refused_def\<close>)
  then have "is_real bet \<and> has_actual_fill bet \<and> \<not> is_crypto_5m_bet bet \<longrightarrow> cost_verified W bet"
    using opened by (auto simp: settlement_amount_def Let_def cost_verified_def split: sum.split_asm if_split_asm)
  ultimately show ?thesis by (simp add: settled_paid_def)
qed

lemma settle_real_rows:
  assumes "settle_real W b l = Inr (ok, l')"
  shows "list_all2 (\<lambda>c c'. c' = c \<or> same_number b c \<and> \<not> wd_paused W At_settlement b \<and> settled_paid W c c')
    (disk_rows l) (disk_rows l')"
proof (cases "l' = l")
  case False
  then have live: "\<not> wd_paused W At_settlement b" and "settle_one (wd_sha W) (wd_stamp W)
      (resolve_live_mode_from_env (wd_env W) = LM_off) (wd_market W) b l = Inr (ok, l')"
    using assms by (auto simp: settle_real_def skip_def split: if_split_asm)
  then obtain i r won where id: "jget b ''id'' = JInt i"
    and run: "on_file True i (settle_row (wd_sha W) (wd_stamp W) won) l = (r, l')"
    using settle_one_cases False by blast
  show ?thesis
    by (rule on_file_rows [OF run]) (use live id in \<open>auto simp: same_number_def dest: settle_row_paid\<close>)
qed simp

lemma settled_paid_closed: "settled_paid W c c' \<Longrightarrow> \<not> is_open c' \<and> jget c' ''id'' = jget c ''id''"
  by (auto simp: settled_paid_def closed_by_def lifecycle_simps(1) [symmetric])

lemma settle_sweep_rows:
  "sweep (settle_real W) bs n l = Inr (m, l') \<Longrightarrow>
   list_all2 (\<lambda>c c'. c' = c \<or> (\<exists>b \<in> set bs. same_number b c \<and> \<not> wd_paused W At_settlement b)
     \<and> settled_paid W c c') (disk_rows l) (disk_rows l')"
proof (induction bs arbitrary: n l)
  case (Cons b bs)
  then obtain ok l1 where step: "settle_real W b l = Inr (ok, l1)"
    "sweep (settle_real W) bs (if ok then n + 1 else n) l1 = Inr (m, l')"
    by (auto simp: sbind_eq_Inr)
  show ?case
    by (rule list_all2_trans [OF _ settle_real_rows [OF step(1)] Cons.IH [OF step(2)]])
      (auto dest: settled_paid_closed simp: settled_paid_def closed_by_def)
qed (auto intro: list_all2_refl)

lemma settle_book_resolved:
  assumes "settle_book W b acc d = (r, d')" and "resolved_ledger (bk_ledger b)"
  shows "resolved_ledger (dk_ledger d')"
  using assms(1)
proof (cases rule: settle_book_cases)
  case (settled rows l n l')
  have "resolved_ledger l" using settled(1) assms(2) by (simp add: get_open_bets_True opened_resolved)
  then have "resolved_ledger l'"
    by (rule resolved_rows [rotated], intro list_all2_mono [OF settle_sweep_rows [OF settled(2)]])
      (auto dest: settled_paid_closed simp: in_doubt_def)
  then show ?thesis using settled(3) by simp
qed (use assms(2) in \<open>auto simp: get_open_bets_True opened_resolved\<close>)

lemma over_books_resolved:
  assumes "\<And>b acc d r d'. f b acc d = (r, d') \<Longrightarrow> resolved_ledger (bk_ledger b) \<Longrightarrow> resolved_ledger (dk_ledger d')"
    and "over_books f books acc d = (r, books', d')" and "list_all (\<lambda>b. resolved_ledger (bk_ledger b)) books"
  shows "list_all (\<lambda>b. resolved_ledger (bk_ledger b)) books'"
  using assms(2,3)
proof (induction books arbitrary: acc d r books' d')
  case (Cons b bs)
  obtain r1 d1 where step: "f b acc d = (r1, d1)" by (cases "f b acc d")
  have "resolved_ledger (dk_ledger d1)" using assms(1) [OF step] Cons.prems(2) by simp
  then show ?case
    using Cons.prems step Cons.IH [of _ d1] by (auto simp: Let_def split: sum.split_asm prod.split_asm)
qed simp

section \<open>The whole maintenance\<close>

end
