(* ===== verification/Accounting_Outcomes.thy ===== *)
theory Accounting_Outcomes
  imports Accounting_Safety
begin

text \<open>
  What the maintenance of the books promises as a whole: it moves no cash and keeps every ledger
  within its abstract specification, whatever happens; when it returns normally, no real submission
  is left in doubt; and it only settles real positions whose cost is verified.
\<close>

section \<open>The four ends of the maintenance\<close>

lemma maintain_cases:
  assumes "maintain_original_accounting W books d = (r, books', d')"
  obtains (paused) e where "r = Inl e" "books' = books" "d' = d"
  | (recovering) e res where "r = Inl e"
      "over_books (recover_book W) books (0, 0) d = (res, books', d')"
  | (confirming) e n books1 d1 res where "r = Inl e"
      "over_books (recover_book W) books (0, 0) d = (Inr (0, n), books1, d1)"
      "over_books (confirm_book W) books1 (0, 0) d1 = (res, books', d')"
  | (settling) n books1 d1 c u books2 d2 res where
      "over_books (recover_book W) books (0, 0) d = (Inr (0, n), books1, d1)"
      "over_books (confirm_book W) books1 (0, 0) d1 = (Inr (c, u), books2, d2)"
      "over_books (settle_book W) books2 0 d2 = (res, books', d')"
proof (cases "wd_paused_at_start W")
  case True
  then show thesis
    by (intro paused [of "Raised_error (OrderRuntimeError ''UFC real trading is paused'')"])
      (use assms in \<open>simp_all add: maintain_original_accounting_def\<close>)
next
  case False
  note run = assms [unfolded maintain_original_accounting_def if_not_P [OF False]]
  obtain res1 books1 d1 where first: "over_books (recover_book W) books (0, 0) d = (res1, books1, d1)"
    by (cases "over_books (recover_book W) books (0, 0) d") auto
  show thesis
  proof (cases "\<exists>n. res1 = Inr (0, n)")
    case False
    then show thesis
      using run first by (cases res1) (auto intro!: recovering split: prod.split_asm if_split_asm)
  next
    case True
    then obtain n where n: "res1 = Inr (0, n)" by blast
    obtain res2 books2 d2 where second: "over_books (confirm_book W) books1 (0, 0) d1 = (res2, books2, d2)"
      by (cases "over_books (confirm_book W) books1 (0, 0) d1") auto
    show thesis
    proof (cases res2)
      case (Inl e)
      then show thesis using run first second n by (auto intro: confirming)
    next
      case (Inr cu)
      obtain c u where cu: "cu = (c, u)" by (cases cu)
      obtain res3 books3 d3 where third: "over_books (settle_book W) books2 0 d2 = (res3, books3, d3)"
        by (cases "over_books (settle_book W) books2 0 d2") auto
      have "books3 = books' \<and> d3 = d'"
        using run first second third n Inr cu by (auto split: sum.split_asm)
      then show thesis using settling first second third n Inr cu by blast
    qed
  qed
qed

definition kept_book :: "(string \<Rightarrow> string) \<Rightarrow> book \<Rightarrow> book \<Rightarrow> bool" where
  "kept_book sha b b' \<longleftrightarrow> bk_path b' = bk_path b \<and> bk_enabled b' = bk_enabled b
     \<and> ledger_run sha (bk_ledger b) (bk_ledger b')"

lemma kept_book_refl [simp]: "kept_book sha b b"
  by (simp add: kept_book_def)

lemma kept_books_trans:
  "list_all2 (kept_book sha) as bs \<Longrightarrow> list_all2 (kept_book sha) bs cs \<Longrightarrow> list_all2 (kept_book sha) as cs"
  by (rule list_all2_trans [of "kept_book sha" "kept_book sha"])
    (auto simp: kept_book_def intro: run_trans)

lemma phases_keep:
  "over_books (recover_book W) books acc d = (r, books', d') \<Longrightarrow>
     list_all2 (kept_book (wd_sha W)) books books' \<and> dk_bank d' = dk_bank d"
  "over_books (confirm_book W) books acc d = (r, books', d') \<Longrightarrow>
     list_all2 (kept_book (wd_sha W)) books books' \<and> dk_bank d' = dk_bank d"
  "over_books (settle_book W) books n d = (r', books', d') \<Longrightarrow>
     list_all2 (kept_book (wd_sha W)) books books' \<and> dk_bank d' = dk_bank d"
  unfolding kept_book_def [abs_def]
  by (fact recovering_books.books_run confirming_books.books_run settling_books.books_run)+

lemma maintenance_runs:
  assumes "maintain_original_accounting W books d = (r, books', d')"
  shows "list_all2 (kept_book (wd_sha W)) books books' \<and> dk_bank d' = dk_bank d"
  using assms
proof (cases rule: maintain_cases)
  case paused
  then show ?thesis by (simp add: list_all2_refl)
next
  case (recovering e res)
  from phases_keep(1) [OF this(2)] show ?thesis .
next
  case (confirming e n books1 d1 res)
  from phases_keep(1) [OF this(2)] phases_keep(2) [OF this(3)] show ?thesis
    by (auto intro: kept_books_trans)
next
  case (settling n books1 d1 c u books2 d2 res)
  from phases_keep(1) [OF this(1)] phases_keep(2) [OF this(2)] phases_keep(3) [OF this(3)] show ?thesis
    by (auto intro: kept_books_trans)
qed

text \<open>
  C19: The maintenance keeps the books, however it ends - normally, with unresolved orders, or with an
  exception in the middle: no cash moves, no ledger is lost or exchanged for another, the ids of every
  ledger stay positive and unique, and the lives of its bets only move by creating a bet or closing an
  active one.
\<close>

theorem maintenance_keeps_books:
  assumes "maintain_original_accounting W books d = (r, books', d')"
    and "list_all (\<lambda>b. ids_ok (disk_rows (bk_ledger b))) books"
  shows "dk_bank d' = dk_bank d
    \<and> list_all2 (\<lambda>b b'. bk_path b' = bk_path b \<and> bk_enabled b' = bk_enabled b
        \<and> ids_ok (disk_rows (bk_ledger b'))
        \<and> abstract_step\<^sup>*\<^sup>* (life (disk_rows (bk_ledger b))) (life (disk_rows (bk_ledger b')))) books books'"
proof -
  note run = maintenance_runs [OF assms(1)]
  have "list_all2 (\<lambda>b b'. ids_ok (disk_rows (bk_ledger b)) \<and> kept_book (wd_sha W) b b') books books'"
    using run assms(2) by (simp add: list_all2_conv_all_nth list_all_length)
  then have "list_all2 (\<lambda>b b'. bk_path b' = bk_path b \<and> bk_enabled b' = bk_enabled b
      \<and> ids_ok (disk_rows (bk_ledger b'))
      \<and> abstract_step\<^sup>*\<^sup>* (life (disk_rows (bk_ledger b))) (life (disk_rows (bk_ledger b')))) books books'"
    by (rule list_all2_mono) (auto simp: kept_book_def dest: run_history run_life)
  then show ?thesis using run by blast
qed

section \<open>Nothing is left in doubt\<close>

text \<open>
  C4: When the maintenance returns normally, the fate of every real submission is known: no ledger
  holds an open real bet whose placement is still pending or unknown. New orders are only placed after
  it has returned, so a submission in doubt stops them. The ledgers are the documents that
  \<open>original_accounting_ledgers\<close> accepted.
\<close>

theorem maintenance_resolves_submissions:
  assumes "maintain_original_accounting W books d = (Inr summary, books', d')"
    and "list_all (\<lambda>b. \<exists>document. check_document document = Inr (disk_rows (bk_ledger b))) books"
  shows "list_all (\<lambda>b. list_all (\<lambda>row. \<not> (is_open row \<and> is_real row
      \<and> jget row ''placement_state'' \<in> {JStr ''pending_submit'', JStr ''unknown''})) (disk_rows (bk_ledger b))) books'"
  using assms(1)
proof (cases rule: maintain_cases)
  case (settling n books1 d1 c u books2 d2 res)
  have "list_all (\<lambda>b. int_ids (disk_rows (bk_ledger b))) books"
    using assms(2) check_document_ids by (fastforce simp: list_all_iff)
  from recovered_books [OF settling(1) this]
  have "list_all (\<lambda>b. resolved_ledger (bk_ledger b)) books1" .
  then have "list_all (\<lambda>b. resolved_ledger (bk_ledger b)) books2"
    by (rule over_books_resolved [OF _ settling(2), rotated]) (rule confirm_book_resolved)
  then have "list_all (\<lambda>b. resolved_ledger (bk_ledger b)) books'"
    by (rule over_books_resolved [OF _ settling(3), rotated]) (rule settle_book_resolved)
  then show ?thesis
    by (auto simp: list_all_iff resolved_ledger_def in_doubt_def SUBMISSION_STATES_def)
qed simp_all

section \<open>Only paid positions are settled\<close>

definition settled_position :: "world \<Rightarrow> dict \<Rightarrow> dict \<Rightarrow> bool" where
  "settled_position W c c' \<longleftrightarrow>
     is_open c \<and> is_real c \<and> has_actual_fill c \<and> (is_crypto_5m_bet c \<or> cost_verified W c)
     \<and> \<not> wd_paused W At_settlement c
     \<and> jget c' ''id'' = jget c ''id'' \<and> lifecycle c' \<in> {Won, Lost}"

lemma settle_book_rows:
  assumes "settle_book W b acc d = (r, d')" and "int_ids (disk_rows (bk_ledger b))"
  shows "list_all2 (\<lambda>c c'. c' = c \<or> bk_enabled b \<and> settled_position W c c')
    (disk_rows (bk_ledger b)) (disk_rows (dk_ledger d'))"
proof (cases "bk_enabled b")
  case enabled: True
  from assms(1) show ?thesis
  proof (cases rule: settle_book_cases)
    case (settled rows l n l')
    have rows: "rows = open_bets_from (disk_rows (bk_ledger b))" "disk_rows l = disk_rows (bk_ledger b)"
      using settled(1) by (simp_all add: get_open_bets_True)
    note swept = settle_sweep_rows [OF settled(2), unfolded rows(2)]
    have own: "x = c" if "x \<in> set (disk_rows (bk_ledger b))" "c \<in> set (disk_rows (bk_ledger b))" "same_number x c" for x c
      using that int_idsD [OF assms(2)] int_ids_inj [OF assms(2)] matches_JInt
      by (metis same_number_def json.inject(2))
    have "disk_rows l' ! k = disk_rows (bk_ledger b) ! k
        \<or> settled_position W (disk_rows (bk_ledger b) ! k) (disk_rows l' ! k)"
      if "k < length (disk_rows (bk_ledger b))" for k
    proof -
      let ?c = "disk_rows (bk_ledger b) ! k"
      have c: "?c \<in> set (disk_rows (bk_ledger b))" using that by simp
      from list_all2_nthD [OF swept that] show ?thesis
      proof (elim disjE conjE bexE)
        fix x
        assume x: "x \<in> set (real_positions rows)" "same_number x ?c" "\<not> wd_paused W At_settlement x"
          and paid: "settled_paid W ?c (disk_rows l' ! k)"
        have "x = ?c" using own [OF _ c x(2)] x(1) by (simp add: real_positions_def rows open_bets_from_def)
        then show ?thesis
          using x paid by (auto simp: settled_position_def settled_paid_def closed_by_def real_positions_def)
      qed simp
    qed
    then show ?thesis
      using enabled settled(3) list_all2_lengthD [OF swept] by (simp add: list_all2_conv_all_nth)
  qed (use enabled in \<open>simp_all add: get_open_bets_True\<close>)
qed (use assms(1) in \<open>auto simp: settle_book_def list_all2_conv_all_nth\<close>)


section \<open>Concrete runs\<close>

text \<open>A submission whose order the exchange reports as cancelled without a fill.\<close>

definition demo_world :: world where
  "demo_world = \<lparr>wd_fromiso = (\<lambda>_. None), wd_sha = id, wd_stamp = ''now'', wd_env = real_env,
     wd_paused_at_start = False, wd_paused = (\<lambda>_ _. False), wd_open_orders = Some (JList []),
     wd_clob = (\<lambda>_. demo_gone), wd_activity = (\<lambda>_. None), wd_market = decided_market\<rparr>"

definition demo_book :: "dict list \<Rightarrow> book" where
  "demo_book rows = \<lparr>bk_path = ''/logs/bet_ledger.json'', bk_enabled = True, bk_ledger = open_ledger (Saved rows)\<rparr>"

abbreviation demo_maintained :: "(maintenance_error + maintenance) \<times> book list \<times> desk" where
  "demo_maintained \<equiv> maintain_original_accounting demo_world [demo_book [Order_Trades.demo_bet]] demo_desk"

lemma demo_maintenance_ends:
  "\<exists>summary. fst demo_maintained = Inr summary \<and> mt_recovered summary = 1"
proof -
  have "(case fst demo_maintained of Inl _ \<Rightarrow> False | Inr s \<Rightarrow> mt_recovered s = 1)" by code_simp
  then show ?thesis by (simp split: sum.split_asm)
qed

theorem maintenance_resolves_submissions_witness:
  "in_doubt Order_Trades.demo_bet
   \<and> list_all (\<lambda>b. list_all (\<lambda>row. \<not> (is_open row \<and> is_real row
      \<and> jget row ''placement_state'' \<in> {JStr ''pending_submit'', JStr ''unknown''})) (disk_rows (bk_ledger b)))
      (fst (snd demo_maintained))"
proof -
  obtain summary where "demo_maintained = (Inr summary, fst (snd demo_maintained), snd (snd demo_maintained))"
    using demo_maintenance_ends by (metis prod.collapse)
  note resolved = maintenance_resolves_submissions [OF this]
  have "check_document [(''bets'', JList [JObj Order_Trades.demo_bet])] = Inr [Order_Trades.demo_bet]"
    by code_simp
  then have "list_all (\<lambda>b. \<exists>document. check_document document = Inr (disk_rows (bk_ledger b)))
      [demo_book [Order_Trades.demo_bet]]"
    by (auto simp: demo_book_def open_ledger_def disk_rows_def read_bets_from_disk_def)
  moreover have "in_doubt Order_Trades.demo_bet"
    by (simp add: in_doubt_def SUBMISSION_STATES_def) code_simp
  ultimately show ?thesis using resolved by blast
qed

theorem maintenance_keeps_books_witness:
  "dk_bank (snd (snd demo_maintained)) = demo_manager
   \<and> list_all (\<lambda>b. ids_ok (disk_rows (bk_ledger b))) (fst (snd demo_maintained))"
proof -
  have run: "demo_maintained = (fst demo_maintained, fst (snd demo_maintained), snd (snd demo_maintained))"
    by simp
  have "list_all (\<lambda>b. ids_ok (disk_rows (bk_ledger b))) [demo_book [Order_Trades.demo_bet]]" by code_simp
  from maintenance_keeps_books [OF run this] show ?thesis
    by (auto simp: demo_desk_def list_all2_Cons1)
qed

text \<open>Two decided real positions: the crypto bet is settled, the fight bet waits for its cost.\<close>

definition demo_position :: "int \<Rightarrow> string \<Rightarrow> dict" where
  "demo_position i type =
     [(''id'', JInt i), (''status'', JStr ''open''), (''dry_run'', JBool False), (''order_type'', JStr type),
      (''token_id'', JStr ''t1''), (''condition_id'', JStr ''0xc''), (''actual_fill_amount'', JInt 6),
      (''actual_filled_shares'', JInt 12), (''actual_fill_source'', JStr ''clob_trade_history'')]"

abbreviation demo_settlement :: "nat order_attempt \<times> book list \<times> desk" where
  "demo_settlement \<equiv> over_books (settle_book demo_world)
     [demo_book [demo_position 1 ''btc5m_marketable_limit'', demo_position 2 ''filled_limit'']] 0 demo_desk"

definition demo_settled_rows :: "dict list" where
  "demo_settled_rows = concat (map (\<lambda>b. disk_rows (bk_ledger b)) (fst (snd demo_settlement)))"

lemma demo_settled_lives: "map lifecycle demo_settled_rows = [Won, Active]"
  by code_simp


end
