(* ===== verification/Trading_Controls.thy ===== *)
theory Trading_Controls
  imports Paths Json
begin

text \<open>
  \<^verbatim>\<open>src/trading_controls.py\<close>: the pause switch that the supervisor and the order executor share. The
  switch is a file; a record that cannot be read counts as a pause. The part of the file system that
  matters is a map from paths to contents, and the system calls that can fail are named.
\<close>

section \<open>Reading the switch\<close>

text \<open>\<open>Unreadable\<close> stands for a file that cannot be opened or decoded, or holds no JSON text.\<close>

datatype control_file = Unreadable | Holds json

type_synonym control_files = "path \<Rightarrow> control_file option"

datatype control_error = Paused_error string | Pause_value_error string | Pause_io_error

fun truth_value :: "json \<Rightarrow> bool option" where
  "truth_value (JBool b) = Some b"
| "truth_value _ = None"

definition control_path :: "string \<Rightarrow> path" where
  "control_path base = path_join (path_of base) ''control.json''"

definition unpaused_record :: "bool \<Rightarrow> string \<Rightarrow> dict" where
  "unpaused_record paused source = [(''paused'', JBool paused), (''source'', JStr source)]"

text \<open>\<open>environ\<close> is the value of \<open>UFC_REFRESH_TRADING_STATE_DIR\<close>.\<close>

definition paused_status :: "string option \<Rightarrow> string option \<Rightarrow> control_files \<Rightarrow> dict" where
  "paused_status state_dir environ files =
     (let base = (if text_or_empty state_dir \<noteq> [] then text_or_empty state_dir else text_or_empty environ)
      in if base = [] then unpaused_record False ''unconfigured''
         else case files (control_path base) of
                None \<Rightarrow> unpaused_record False ''no_pause_requested''
              | Some (Holds (JObj d)) \<Rightarrow>
                  if truth_value (jget d ''paused'') = None
                  then unpaused_record True ''unreadable_pause_record'' else d
              | Some _ \<Rightarrow> unpaused_record True ''unreadable_pause_record'')"

definition require_unpaused :: "string option \<Rightarrow> control_files \<Rightarrow> control_error + unit" where
  "require_unpaused environ files =
     (if truthy (jget (paused_status None environ files) ''paused'')
      then Inl (Paused_error ''UFC real trading is paused'') else Inr ())"

section \<open>Setting the switch\<close>

datatype pause_step = Make_directory | Make_temporary | Write_payload | Replace_file | Remove_temporary

text \<open>The \<open>finally\<close> clause.\<close>

definition discard :: "(pause_step \<Rightarrow> bool) \<Rightarrow> path \<Rightarrow> control_files \<Rightarrow> control_files" where
  "discard fails temporary files =
     (if fails Remove_temporary then files else files(temporary := None))"

definition set_paused ::
  "(pause_step \<Rightarrow> bool) \<Rightarrow> path \<Rightarrow> string \<Rightarrow> string \<Rightarrow> json \<Rightarrow> control_files
   \<Rightarrow> (control_error + dict) \<times> control_files" where
  "set_paused fails temporary now state_dir paused files =
     (if truth_value paused = None
      then (Inl (Pause_value_error ''paused must be a boolean''), files)
      else if fails Make_directory \<or> fails Make_temporary then (Inl Pause_io_error, files)
      else (let payload = [(''paused'', paused), (''updated_at_utc'', JStr now),
                           (''source'', JStr ''authenticated_control'')];
                opened = files(temporary := Some Unreadable);
                written = files(temporary := Some (Holds (JObj payload)))
            in if fails Write_payload then (Inl Pause_io_error, discard fails temporary opened)
               else if fails Replace_file then (Inl Pause_io_error, discard fails temporary written)
               else (Inr payload,
                     written(temporary := None,
                             control_path state_dir := Some (Holds (JObj payload))))))"

section \<open>What the switch promises\<close>

lemma truth_value_Some [simp]: "truth_value v = Some b \<longleftrightarrow> v = JBool b"
  by (cases v) auto

lemma unpaused_iff:
  "require_unpaused environ files = Inr () \<longleftrightarrow>
     text_or_empty environ = []
     \<or> files (control_path (text_or_empty environ)) = None
     \<or> (\<exists>d. files (control_path (text_or_empty environ)) = Some (Holds (JObj d))
            \<and> jget d ''paused'' = JBool False)"
proof -
  have "truth_value (jget d ''paused'') \<noteq> None \<Longrightarrow>
      (\<not> truthy (jget d ''paused'') \<longleftrightarrow> jget d ''paused'' = JBool False)" for d
    by auto
  then show ?thesis
    by (auto simp: require_unpaused_def paused_status_def unpaused_record_def jget_def text_or_empty_def Let_def
        split: option.split control_file.split json.split)
qed

text \<open>
  C40: Setting the pause switch takes effect or leaves the switch alone. When \<open>set_paused\<close> returns, the
  value was a boolean, a real order is refused from then on exactly when it was true, and the
  temporary file is gone; when it raises, whatever step failed, the control file is as it was. No
  other file changes.
\<close>

theorem pause_takes_effect:
  assumes run: "set_paused fails temporary now dir v files = (r, files')"
    and "dir \<noteq> []" and "temporary \<noteq> control_path dir"
  shows "(case r of
      Inr payload \<Rightarrow> (\<exists>b. v = JBool b
        \<and> (require_unpaused (Some dir) files' = Inr () \<longleftrightarrow> \<not> b)) \<and> files' temporary = None
    | Inl _ \<Rightarrow> files' (control_path dir) = files (control_path dir)
        \<and> require_unpaused (Some dir) files' = require_unpaused (Some dir) files)
    \<and> (\<forall>p. p \<notin> {temporary, control_path dir} \<longrightarrow> files' p = files p)"
proof -
  have same: "files' (control_path dir) = files (control_path dir) \<Longrightarrow>
      require_unpaused (Some dir) files' = require_unpaused (Some dir) files"
    using assms(2) by (simp add: require_unpaused_def paused_status_def text_or_empty_def)
  have written: "require_unpaused (Some dir) files' = Inr () \<longleftrightarrow> \<not> b"
    if "files' (control_path dir) = Some (Holds (JObj ((''paused'', JBool b) # rest)))" for b rest
    using that assms(2) by (simp add: unpaused_iff text_or_empty_def jget_def)
  show ?thesis
    using run assms(3) same written
    by (auto simp: set_paused_def discard_def Let_def split: if_split_asm)
qed

text \<open>The pause of a running service: the switch is set, and an unreadable record stays a pause.\<close>

definition switch_off :: control_files where
  "switch_off = (\<lambda>_. None)"

definition set_switch :: "bool \<Rightarrow> (control_error + dict) \<times> control_files" where
  "set_switch b = set_paused (\<lambda>_. False) (path_of ''/data/.control-x'') ''2026-07-04T12:00:00+00:00''
     ''/data'' (JBool b) switch_off"

theorem pause_takes_effect_witness:
  "require_unpaused (Some ''/data'') (snd (set_switch True)) \<noteq> Inr ()
   \<and> require_unpaused (Some ''/data'') (snd (set_switch False)) = Inr ()
   \<and> require_unpaused (Some ''/data'') (switch_off(control_path ''/data'' := Some Unreadable)) \<noteq> Inr ()"
proof -
  have other: "path_of ''/data/.control-x'' \<noteq> control_path ''/data''" by code_simp
  have "require_unpaused (Some ''/data'') (snd (set_switch b)) = Inr () \<longleftrightarrow> \<not> b" for b
  proof -
    have "\<exists>payload. fst (set_switch b) = Inr payload"
      by (simp add: set_switch_def set_paused_def Let_def)
    then obtain payload where "set_switch b = (Inr payload, snd (set_switch b))"
      by (metis prod.collapse)
    from pause_takes_effect [OF this [unfolded set_switch_def] _ other] show ?thesis
      by (auto simp: set_switch_def)
  qed
  then show ?thesis by (simp add: unpaused_iff text_or_empty_def)
qed

end
