(* ===== verification/Order_Lock.thy ===== *)
theory Order_Lock
  imports Paths Py_Text
begin

text \<open>
  \<^verbatim>\<open>src/polymarket/executor.py\<close>: the lock under which an order is placed. Its file is named by a hash of the
  coordinated ledgers and of what the order is for, so that the two primary traders exclude each other on a
  market. The lock itself, a file lock and a lock of the process, is taken as working.
\<close>

text \<open>\<open>_coordinated_ledger_paths\<close>: the ledgers of the two primary traders, sorted, when the own ledger is
  one of them; a ledger that has no file yet is left out, except the own one.\<close>

definition coordinated_ledger_paths :: "string list \<Rightarrow> (string \<Rightarrow> bool) \<Rightarrow> string \<Rightarrow> string list" where
  "coordinated_ledger_paths traders exists_at own =
     (let paths = remdups (filter (\<lambda>p. p = own \<or> exists_at p) traders)
      in if own \<in> set paths then sort paths else [own])"

text \<open>\<open>_placement_lock_scope\<close> and \<open>_placement_lock_path\<close>; \<open>str.casefold\<close> and SHA-256 are arguments.\<close>

definition placement_lock_scope ::
  "(string \<Rightarrow> string) \<Rightarrow> string \<Rightarrow> string \<Rightarrow> string \<Rightarrow> string \<Rightarrow> bool \<Rightarrow> string list" where
  "placement_lock_scope casefold market_id token_id fighter side dry_run =
     (let market = py_strip market_id; token = py_strip token_id
      in [if dry_run then ''dry_run'' else ''live'',
          if market \<noteq> [] then [] else py_lower (py_strip side),
          if market \<noteq> [] then ''market:'' @ market
          else if token \<noteq> [] then ''token:'' @ token
          else ''fighter:'' @ casefold (py_strip fighter)])"

definition lock_key :: "string list \<Rightarrow> string list \<Rightarrow> string" where
  "lock_key paths scope = py_join ''|'' (paths @ scope)"

definition placement_lock_path :: "(string \<Rightarrow> string) \<Rightarrow> string list \<Rightarrow> string list \<Rightarrow> path" where
  "placement_lock_path sha paths scope =
     path_join (path_parent (path_of (hd paths))) (''.'' @ sha (lock_key paths scope) @ ''.order.lock'')"

end
