(* ===== verification/Order_Submission.thy ===== *)
theory Order_Submission
  imports Order_Reconcile Trading_Controls
begin

text \<open>
  Submitting an order: \<open>create_limit_order\<close> of \<^verbatim>\<open>src/polymarket/client.py\<close> and the end of
  \<open>_place_bet_locked\<close> and \<open>_place_near_miss_limit_locked\<close> in \<^verbatim>\<open>src/polymarket/executor.py\<close>: the intent is
  journalled in the ledger, the signed identity of the order is journalled before the order is sent,
  and the answer, or the exception, decides what the ledger, the bankroll and the order log say. The
  SDK of the exchange and its network are the record \<open>order_sdk\<close> of what they answer or raise.
\<close>

section \<open>Failures\<close>

text \<open>An exception of the SDK or its transport: its text, its HTTP status, and whether it is a transport
  error of \<open>httpx\<close>. Other exceptions come from the executor's guard, from the checks of the client
  and from the books.\<close>

record remote_failure =
  rf_text :: string
  rf_status :: "int option"
  rf_transport :: bool

datatype submit_failure = Guard_rejected string | Local_failure string | Books_failure order_error
  | Exchange_failure remote_failure

text \<open>\<open>str(exc)\<close>; the first two cases of the books are the ones a submission can meet.\<close>

fun order_error_text :: "order_error \<Rightarrow> string" where
  "order_error_text (OrderRuntimeError s) = s"
| "order_error_text (LedgerError (RuntimeError s)) = s"
| "order_error_text (LedgerError (ValueError s)) = s"
| "order_error_text (LedgerError (KeyError k)) = str_repr k"
| "order_error_text _ = []"

fun failure_text :: "submit_failure \<Rightarrow> string" where
  "failure_text (Guard_rejected s) = s"
| "failure_text (Local_failure s) = s"
| "failure_text (Books_failure e) = order_error_text e"
| "failure_text (Exchange_failure r) = rf_text r"

fun failure_status :: "submit_failure \<Rightarrow> int option" where
  "failure_status (Exchange_failure r) = rf_status r"
| "failure_status _ = None"

fun failure_is_transport :: "submit_failure \<Rightarrow> bool" where
  "failure_is_transport (Exchange_failure r) = rf_transport r"
| "failure_is_transport _ = False"

fun is_guard_rejection :: "submit_failure \<Rightarrow> bool" where
  "is_guard_rejection (Guard_rejected _) = True"
| "is_guard_rejection _ = False"

definition CLOB_ORDER_UNCERTAIN_STATUSES :: "int list" where
  "CLOB_ORDER_UNCERTAIN_STATUSES = [408, 425, 429, 500, 502, 503, 504, 520, 521, 522, 523, 524, 530]"

definition CLOB_ORDER_UNCERTAIN_PATTERNS :: "string list" where
  "CLOB_ORDER_UNCERTAIN_PATTERNS =
     [''deadlineexceeded'', ''deadline exceeded'', ''context deadline exceeded'', ''context canceled'',
      ''timeout'', ''timed out'', ''temporarily unavailable'', ''server error'',
      ''internal server error'', ''bad gateway'', ''service unavailable'', ''gateway timeout'',
      ''connection reset'', ''connection aborted'', ''network error'', ''server disconnected'',
      ''streaminputs.send_headers'', ''send_headers'']"

definition is_uncertain_clob_order_submission_error :: "submit_failure \<Rightarrow> bool" where
  "is_uncertain_clob_order_submission_error e \<longleftrightarrow>
     mentions CLOB_ORDER_UNCERTAIN_PATTERNS (py_lower (failure_text e))
     \<or> failure_status e \<in> Some ` set CLOB_ORDER_UNCERTAIN_STATUSES
     \<or> failure_is_transport e"

definition known_rejections :: "string list" where
  "known_rejections =
     [''trading restricted in your region'', ''status_code=403'', ''status_code=400'',
      ''insufficient balance'', ''not enough balance'', ''not enough allowance'',
      ''invalid tick size'', ''minimum tick size'']"

definition order_failure_is_warning :: "submit_failure \<Rightarrow> bool" where
  "order_failure_is_warning e \<longleftrightarrow>
     is_guard_rejection e
     \<or> \<not> is_uncertain_clob_order_submission_error e
       \<and> mentions known_rejections (py_lower (failure_text e))"

section \<open>Operations that may raise\<close>

type_synonym ('s, 'a) raising = "'s \<Rightarrow> (submit_failure + 'a) \<times> 's"

definition xreturn :: "'a \<Rightarrow> ('s, 'a) raising" where
  "xreturn x s = (Inr x, s)"

definition xraise :: "submit_failure \<Rightarrow> ('s, 'a) raising" where
  "xraise e s = (Inl e, s)"

definition xmodify :: "('s \<Rightarrow> 's) \<Rightarrow> ('s, unit) raising" where
  "xmodify g s = (Inr (), g s)"

definition xbind :: "('s, 'a) raising \<Rightarrow> ('a \<Rightarrow> ('s, 'b) raising) \<Rightarrow> ('s, 'b) raising" where
  "xbind m f s = (case m s of (Inl e, s') \<Rightarrow> (Inl e, s') | (Inr x, s') \<Rightarrow> f x s')"

text \<open>\<open>try: m except Exception as e: h(e)\<close>\<close>

definition xcatch :: "('s, 'a) raising \<Rightarrow> (submit_failure \<Rightarrow> ('s, 'a) raising) \<Rightarrow> ('s, 'a) raising" where
  "xcatch m h s = (case m s of (Inl e, s') \<Rightarrow> h e s' | (Inr x, s') \<Rightarrow> (Inr x, s'))"

section \<open>The client\<close>

text \<open>What the SDK does for this order: connecting, signing (the result is the hash of the signed
  order) and sending.\<close>

record order_sdk =
  sdk_connect :: "remote_failure option"
  sdk_sign :: "remote_failure + string"
  sdk_post :: "remote_failure + json"

definition POLYMARKET_MIN_BUY_ORDER_USD :: pyfloat where
  "POLYMARKET_MIN_BUY_ORDER_USD = Fin 1"

definition POLYMARKET_LIMIT_SIZE_DECIMALS :: nat where
  "POLYMARKET_LIMIT_SIZE_DECIMALS = 2"

text \<open>\<open>math.floor\<close>, with the text of the exception, and the quotient of two integers as a float.\<close>

fun math_floor :: "pyfloat \<Rightarrow> string + int" where
  "math_floor (Fin x) = Inr \<lfloor>x\<rfloor>"
| "math_floor NaN = Inl ''cannot convert float NaN to integer''"
| "math_floor _ = Inl ''cannot convert float infinity to integer''"

definition int_ratio :: "int \<Rightarrow> int \<Rightarrow> pyfloat" where
  "int_ratio a b = to_float (of_int a / of_int b)"

definition rounded_down_limit_buy_notional :: "pyfloat \<Rightarrow> pyfloat \<Rightarrow> string + pyfloat" where
  "rounded_down_limit_buy_notional price quantity =
     (let factor = 10 ^ POLYMARKET_LIMIT_SIZE_DECIMALS
      in sbind (math_floor (fmul (fadd quantity (lit (1 / 10 ^ 12))) (Fin (of_int factor))))
           (\<lambda>n. Inr (fmul (int_ratio n factor) price)))"

text \<open>The checks of the arguments, with the text of the \<open>ValueError\<close>.\<close>

definition limit_order_refusal :: "string \<Rightarrow> pyfloat \<Rightarrow> pyfloat \<Rightarrow> string option" where
  "limit_order_refusal side price quantity =
     (if \<not> (flt (Fin 0) price \<and> flt price (Fin 1))
      then Some (''Limit order price must be in (0, 1), got '' @ float_repr price)
      else if fle quantity (Fin 0)
      then Some (''Limit order size must be positive, got '' @ float_repr quantity)
      else if py_upper side \<notin> {''BUY'', ''SELL''}
      then Some (''Limit order side must be 'BUY' or 'SELL', got '' @ str_repr side)
      else if py_upper side = ''BUY''
      then (case rounded_down_limit_buy_notional price quantity of
              Inl msg \<Rightarrow> Some msg
            | Inr notional \<Rightarrow>
                if flt notional POLYMARKET_MIN_BUY_ORDER_USD
                then Some ''Limit BUY order notional must be at least $1.00 after size rounding''
                else None)
      else None)"

text \<open>\<open>_prepare\<close>: without a callback nothing is signed yet.\<close>

definition prepare_order ::
  "order_sdk \<Rightarrow> (string \<Rightarrow> ('s, unit) raising) option \<Rightarrow> ('s, string option) raising" where
  "prepare_order sdk on_order_prepared =
     (case on_order_prepared of
        None \<Rightarrow> xreturn None
      | Some persist \<Rightarrow>
          (case sdk_sign sdk of
             Inl e \<Rightarrow> xraise (Exchange_failure e)
           | Inr order_id \<Rightarrow> xbind (persist order_id) (\<lambda>_. xreturn (Some order_id))))"

text \<open>\<open>posted\<close> notes in the state that the order was sent.\<close>

definition post_order ::
  "order_sdk \<Rightarrow> (string option \<Rightarrow> 's \<Rightarrow> 's) \<Rightarrow> string option \<Rightarrow> ('s, json) raising" where
  "post_order sdk posted signed =
     xbind (xmodify (posted signed))
       (\<lambda>_. case sdk_post sdk of Inl e \<Rightarrow> xraise (Exchange_failure e) | Inr response \<Rightarrow> xreturn response)"

definition create_limit_order ::
  "order_sdk \<Rightarrow> (string option \<Rightarrow> 's \<Rightarrow> 's) \<Rightarrow> string \<Rightarrow> pyfloat \<Rightarrow> pyfloat
   \<Rightarrow> ('s, unit) raising option \<Rightarrow> (string \<Rightarrow> ('s, unit) raising) option \<Rightarrow> ('s, json) raising" where
  "create_limit_order sdk posted side price quantity pre_submit_check on_order_prepared =
     (case limit_order_refusal side price quantity of
        Some msg \<Rightarrow> xraise (Local_failure msg)
      | None \<Rightarrow>
          (case sdk_connect sdk of
             Some e \<Rightarrow> xraise (Exchange_failure e)
           | None \<Rightarrow>
               xbind (prepare_order sdk on_order_prepared) (\<lambda>signed.
                 xbind (case pre_submit_check of None \<Rightarrow> xreturn () | Some check \<Rightarrow> check)
                   (\<lambda>_. post_order sdk posted signed))))"

section \<open>The state of a submission\<close>

text \<open>The desk, the journalled bet, the order info that goes to the log, and the orders that were sent,
  each with the ledger at that moment.\<close>

record submission =
  sb_desk :: desk
  sb_bet :: dict
  sb_info :: dict
  sb_posts :: "(string option \<times> ledger) list"

type_synonym 'a sub_op = "(submission, 'a) raising"

definition on_desk :: "(dict \<Rightarrow> 'a desk_op) \<Rightarrow> 'a sub_op" where
  "on_desk f s =
     (let (r, d) = f (sb_bet s) (sb_desk s)
      in (case r of Inl e \<Rightarrow> Inl (Books_failure e) | Inr x \<Rightarrow> Inr x, s\<lparr>sb_desk := d\<rparr>))"

definition set_info :: "string \<Rightarrow> json \<Rightarrow> unit sub_op" where
  "set_info k v = xmodify (\<lambda>s. s\<lparr>sb_info := jset k v (sb_info s)\<rparr>)"

definition sent :: "string option \<Rightarrow> submission \<Rightarrow> submission" where
  "sent signed s = s\<lparr>sb_posts := sb_posts s @ [(signed, dk_ledger (sb_desk s))]\<rparr>"

text \<open>The environment: the pause switch when the intent is journalled and right before the order is
  sent, the SDK, and the texts of the clock.\<close>

record submit_env =
  se_environ :: "string option"
  se_journal_switch :: control_files
  se_submit_switch :: control_files
  se_sdk :: order_sdk
  se_placed_at :: string
  se_cancelled_at :: string
  se_charged_at :: string

datatype order_kind = Limit_bid | Marketable_limit | Near_miss_limit

fun kind_type :: "order_kind \<Rightarrow> string" where
  "kind_type Limit_bid = ''limit_bid''"
| "kind_type Marketable_limit = ''marketable_limit''"
| "kind_type Near_miss_limit = ''near_miss_limit''"

fun kind_label :: "order_kind \<Rightarrow> string" where
  "kind_label Limit_bid = ''limit bid''"
| "kind_label Marketable_limit = ''marketable limit''"
| "kind_label Near_miss_limit = ''near-miss limit''"

section \<open>The journal\<close>

definition LEDGER_SIGNAL_METADATA_FIELDS :: "string list" where
  "LEDGER_SIGNAL_METADATA_FIELDS =
     [''signal_confidence'', ''signal_source'', ''probability_source'', ''card_date'']"

definition live_bet_args :: "order_kind \<Rightarrow> new_bet_args \<Rightarrow> new_bet_args" where
  "live_bet_args kind a =
     a\<lparr>nb_dry_run := False, nb_order_type := JStr (kind_type kind), nb_order_id := JNull,
       nb_status := ''open'', nb_placement_state := Some ''pending_submit'', nb_submission_error := JNull\<rparr>"

definition dry_run_args :: "order_kind \<Rightarrow> new_bet_args \<Rightarrow> new_bet_args" where
  "dry_run_args kind a =
     a\<lparr>nb_dry_run := True, nb_order_type := JStr (kind_type kind), nb_order_id := JNull,
       nb_status := ''open'', nb_placement_state := None, nb_submission_error := JNull\<rparr>"

definition add_to_ledger :: "string \<Rightarrow> new_bet_args \<Rightarrow> dict sub_op" where
  "add_to_ledger stamp a s =
     (let d = sb_desk s; (r, l) = add_bet stamp a (dk_ledger d)
      in (case r of Inl e \<Rightarrow> Inl (Books_failure (LedgerError e)) | Inr bet \<Rightarrow> Inr bet,
          s\<lparr>sb_desk := d\<lparr>dk_ledger := l\<rparr>\<rparr>))"

fun pause_text :: "control_error \<Rightarrow> string" where
  "pause_text (Paused_error s) = s"
| "pause_text (Pause_value_error s) = s"
| "pause_text Pause_io_error = []"

definition journal_live_order_attempt :: "submit_env \<Rightarrow> order_kind \<Rightarrow> new_bet_args \<Rightarrow> dict sub_op" where
  "journal_live_order_attempt env kind a =
     (case require_unpaused (se_environ env) (se_journal_switch env) of
        Inl e \<Rightarrow> xraise (Local_failure (pause_text e))
      | Inr _ \<Rightarrow> add_to_ledger (se_placed_at env) (live_bet_args kind a))"

text \<open>\<open>_require_unpaused\<close> and the callback that journals the signed identity.\<close>

definition unpaused_guard :: "submit_env \<Rightarrow> unit sub_op" where
  "unpaused_guard env =
     (case require_unpaused (se_environ env) (se_submit_switch env) of
        Inl e \<Rightarrow> xraise (Guard_rejected (pause_text e)) | Inr _ \<Rightarrow> xreturn ())"

definition journal_identity :: "string \<Rightarrow> unit sub_op" where
  "journal_identity order_id =
     xbind (on_desk (\<lambda>bet. record_prepared_order_id bet order_id))
       (\<lambda>bet. xmodify (\<lambda>s. s\<lparr>sb_bet := bet\<rparr>))"

section \<open>The answer\<close>

definition extract_order_id :: "json \<Rightarrow> json" where
  "extract_order_id resp =
     (case resp of
        JObj d \<Rightarrow>
          (let oid = jor (jget d ''orderID'') (jget d ''id'')
           in if truthy oid then oid
              else case jget d ''orderIDs'' of JList (x # _) \<Rightarrow> x | _ \<Rightarrow> JNull)
      | _ \<Rightarrow> JNull)"

definition pending_submission_reason :: "order_kind \<Rightarrow> string \<Rightarrow> string" where
  "pending_submission_reason kind detail = kind_label kind @ '' submission unresolved: '' @ detail"

text \<open>A marketable limit also journals the amount that was sent; a refused update is only logged.\<close>

definition record_amounts :: "order_kind \<Rightarrow> new_bet_args \<Rightarrow> unit sub_op" where
  "record_amounts kind a =
     (if kind \<noteq> Marketable_limit then xreturn ()
      else on_desk (\<lambda>bet. dbind (dlift (bet_id bet)) (\<lambda>i. unit_op (on_ledger (update_bet_fields i True
             [(''requested_amount'', rounded (nb_amount a) 2),
              (''submitted_amount'', rounded (nb_amount a) 2)])))))"

definition record_answer :: "order_kind \<Rightarrow> new_bet_args \<Rightarrow> json \<Rightarrow> unit sub_op" where
  "record_answer kind a oid =
     (if truthy oid
      then xbind (set_info ''status'' (JStr ''placed'')) (\<lambda>_.
             xbind (record_amounts kind a) (\<lambda>_.
               on_desk (\<lambda>bet. update_submission_state bet ''submitted'' JNull (Some oid))))
      else xbind (set_info ''status'' (JStr ''unknown'')) (\<lambda>_.
             xbind (set_info ''error'' (JStr (kind_label kind @ '' response missing durable order id''))) (\<lambda>_.
               on_desk (\<lambda>bet. update_submission_state bet ''unknown''
                 (JStr (pending_submission_reason kind ''response missing durable order id'')) None))))"

text \<open>What the order info says of a sent order, before its id is read.\<close>

definition note_response :: "order_kind \<Rightarrow> new_bet_args \<Rightarrow> json \<Rightarrow> unit sub_op" where
  "note_response kind a response =
     xmodify (\<lambda>s. s\<lparr>sb_info := jupdate (sb_info s)
       ([(''response'', response)]
        @ (case kind of
             Limit_bid \<Rightarrow> [(''order_type'', JStr ''limit_bid'')]
           | Marketable_limit \<Rightarrow>
               [(''order_type'', JStr ''marketable_limit''),
                (''requested_bet_size_usd'', JFloat (nb_amount a)),
                (''submitted_amount'', rounded (nb_amount a) 2)]
           | Near_miss_limit \<Rightarrow> []))\<rparr>)"

definition submit_attempt :: "submit_env \<Rightarrow> order_kind \<Rightarrow> new_bet_args \<Rightarrow> unit sub_op" where
  "submit_attempt env kind a =
     xbind (create_limit_order (se_sdk env) sent ''BUY'' (nb_price a) (nb_shares a)
              (Some (unpaused_guard env)) (Some journal_identity)) (\<lambda>response.
       xbind (note_response kind a response) (\<lambda>_.
         record_answer kind a (extract_order_id response)))"

definition record_failure :: "submit_env \<Rightarrow> order_kind \<Rightarrow> submit_failure \<Rightarrow> unit sub_op" where
  "record_failure env kind e =
     (if order_failure_is_warning e
      then xbind (set_info ''status'' (JStr ''failed'')) (\<lambda>_.
             xbind (set_info ''error'' (JStr (failure_text e))) (\<lambda>_.
               on_desk (\<lambda>bet. cancel_submission_attempt (se_cancelled_at env) bet
                 (''submit_failed: '' @ failure_text e))))
      else xbind (set_info ''status'' (JStr ''unknown'')) (\<lambda>_.
             xbind (set_info ''error'' (JStr (failure_text e))) (\<lambda>_.
               on_desk (\<lambda>bet. update_submission_state bet ''unknown''
                 (JStr (pending_submission_reason kind (failure_text e))) None))))"

section \<open>The submission\<close>

definition submit_live :: "submit_env \<Rightarrow> order_kind \<Rightarrow> new_bet_args \<Rightarrow> unit sub_op" where
  "submit_live env kind a =
     xbind (journal_live_order_attempt env kind a) (\<lambda>bet.
       xbind (xmodify (\<lambda>s. s\<lparr>sb_bet := bet\<rparr>)) (\<lambda>_.
         xbind (set_info ''ledger_bet_id'' (jget bet ''id'')) (\<lambda>_.
           xcatch (submit_attempt env kind a) (record_failure env kind))))"

definition submit_simulated :: "submit_env \<Rightarrow> order_kind \<Rightarrow> new_bet_args \<Rightarrow> unit sub_op" where
  "submit_simulated env kind a =
     xbind (set_info ''status'' (JStr ''dry_run'')) (\<lambda>_.
       xbind (set_info ''order_type'' (JStr (kind_type kind))) (\<lambda>_.
         xbind (add_to_ledger (se_placed_at env) (dry_run_args kind a)) (\<lambda>_. xreturn ())))"

text \<open>The cash is charged for an order that was placed or simulated; every result is logged.\<close>

definition charges :: "dict \<Rightarrow> bool" where
  "charges info \<longleftrightarrow> jget info ''status'' \<in> {JStr ''placed'', JStr ''dry_run''}"

definition charge_bank :: "submit_env \<Rightarrow> new_bet_args \<Rightarrow> manager \<Rightarrow> manager" where
  "charge_bank env a m =
     fst (place_bet (se_charged_at env) m (nb_amount a) (py_str (nb_fighter a)) (nb_decimal_odds a)
            (nb_model_prob a) (nb_market_prob a))"

definition close_submission :: "submit_env \<Rightarrow> new_bet_args \<Rightarrow> submission \<Rightarrow> submission" where
  "close_submission env a s =
     (let d = sb_desk s; info = sb_info s
      in s\<lparr>sb_desk := log_entry info
             (if charges info then d\<lparr>dk_bank := charge_bank env a (dk_bank d)\<rparr> else d)\<rparr>)"

definition new_submission :: "dict \<Rightarrow> desk \<Rightarrow> submission" where
  "new_submission info d = \<lparr>sb_desk = d, sb_bet = [], sb_info = info, sb_posts = []\<rparr>"

definition submit_order ::
  "submit_env \<Rightarrow> order_kind \<Rightarrow> new_bet_args \<Rightarrow> dict \<Rightarrow> desk \<Rightarrow> (submit_failure + dict) \<times> submission" where
  "submit_order env kind a info d =
     xbind (if dk_dry_run d then submit_simulated env kind a else submit_live env kind a) (\<lambda>_.
       xbind (xmodify (close_submission env a)) (\<lambda>_ s. (Inr (sb_info s), s)))
       (new_submission info d)"

end
