(* ===== verification/Order_Sizing.thy ===== *)
theory Order_Sizing
  imports Order_Submission Value
begin

text \<open>
  \<^verbatim>\<open>src/polymarket/executor.py\<close>: how large an order is and at what price it is worth placing. The order
  book of the exchange, the cash and minimum checks, the rounding of order sizes, the price of a resting
  bid, and the fee of an order that takes from the book. An exception is the \<open>Inl\<close> side, with its text.
\<close>

section \<open>Cash and minimum\<close>

definition POLYMARKET_MIN_ORDER_USD :: pyfloat where
  "POLYMARKET_MIN_ORDER_USD = Fin 2"

definition skip_for_insufficient_cash :: "manager \<Rightarrow> pyfloat \<Rightarrow> bool" where
  "skip_for_insufficient_cash m amount \<longleftrightarrow> \<not> fle amount (fadd (bm_cash m) float_eps)"

definition skip_for_min_order_size :: "pyfloat \<Rightarrow> bool" where
  "skip_for_min_order_size amount \<longleftrightarrow> \<not> fle POLYMARKET_MIN_ORDER_USD amount"

text \<open>\<open>_bet_size_multiplier\<close>\<close>

definition bet_size_multiplier :: "dict \<Rightarrow> pyfloat" where
  "bet_size_multiplier bet =
     (case float_of (jget_or bet ''size_multiplier'' (JFloat (Fin 1))) of
        None \<Rightarrow> Fin 1
      | Some m \<Rightarrow> if m = NaN \<or> fle m (Fin 0) then Fin 1 else m)"

section \<open>Rounding an order\<close>

fun math_ceil :: "pyfloat \<Rightarrow> string + int" where
  "math_ceil (Fin x) = Inr \<lceil>x\<rceil>"
| "math_ceil NaN = Inl ''cannot convert float NaN to integer''"
| "math_ceil _ = Inl ''cannot convert float infinity to integer''"

definition tiny :: pyfloat where
  "tiny = lit (1 / 10 ^ 12)"

definition round_down_decimal_places :: "pyfloat \<Rightarrow> nat \<Rightarrow> string + pyfloat" where
  "round_down_decimal_places x places =
     (let factor = 10 ^ places
      in sbind (math_floor (fmul (fadd x tiny) (Fin (of_int factor)))) (\<lambda>n. Inr (int_ratio n factor)))"

definition round_up_decimal_places :: "pyfloat \<Rightarrow> nat \<Rightarrow> string + pyfloat" where
  "round_up_decimal_places x places =
     (let factor = 10 ^ places
      in sbind (math_ceil (fmul (fsub x tiny) (Fin (of_int factor)))) (\<lambda>n. Inr (int_ratio n factor)))"

text \<open>\<open>_adjust_buy_limit_for_min_notional\<close>: the amount and the shares of the order.\<close>

definition adjust_buy_limit_for_min_notional :: "pyfloat \<Rightarrow> pyfloat \<Rightarrow> string + pyfloat \<times> pyfloat" where
  "adjust_buy_limit_for_min_notional price amount =
     (if fle price (Fin 0) then Inr (amount, Fin 0)
      else (let shares = fquot amount price; least = fsub POLYMARKET_MIN_ORDER_USD float_eps
            in if flt amount least then Inr (amount, shares)
               else sbind (round_down_decimal_places shares POLYMARKET_LIMIT_SIZE_DECIMALS) (\<lambda>submitted.
                      if fle least (fmul submitted price) then Inr (amount, shares)
                      else sbind (round_up_decimal_places (fquot POLYMARKET_MIN_ORDER_USD price)
                                    POLYMARKET_LIMIT_SIZE_DECIMALS) (\<lambda>min_shares.
                             sbind (round_up_decimal_places (fmul min_shares price) 2) (\<lambda>reserve.
                               Inr (py_max amount reserve, py_max shares min_shares))))))"

text \<open>The highest price on the tick grid that leaves the required edge.\<close>

definition maker_bid_price :: "pyfloat \<Rightarrow> pyfloat \<Rightarrow> pyfloat \<Rightarrow> string + pyfloat" where
  "maker_bid_price blended min_edge tick =
     (case fdiv (fsub blended min_edge) tick of
        None \<Rightarrow> Inl ''float division by zero''
      | Some q \<Rightarrow> sbind (math_floor q) (\<lambda>n. Inr (fround (fmul (to_float (of_int n)) tick) 4)))"

section \<open>The order book\<close>

text \<open>\<open>_normalize_orderbook_side\<close>: the levels of one side with their prices and sizes as floats, the lowest
  price first; the sort is stable. The bids are read too, because a malformed bid raises, but their
  order plays no role for a buyer. A price or size that is infinite or not a number counts as malformed.\<close>

definition level_decimal :: "json \<Rightarrow> rat option" where
  "level_decimal v =
     map_option (\<lambda>(neg, d). if neg then - dec_val d else dec_val d) (dec_parse (py_str v))"

definition read_level :: "string \<Rightarrow> json \<Rightarrow> string + rat \<times> pyfloat \<times> pyfloat" where
  "read_level side level =
     (let price = jget (obj_of level) ''price''; quantity = jget (obj_of level) ''size''
      in if price = JNull \<or> quantity = JNull
         then Inl (''malformed orderbook '' @ side @ '' level: missing price/size'')
         else case (level_decimal price, level_decimal quantity, float_of price, float_of quantity) of
                (Some p, Some _, Some x, Some y) \<Rightarrow> Inr (p, x, y)
              | _ \<Rightarrow> Inl (''malformed orderbook '' @ side @ '' level: invalid price/size''))"

definition normalize_orderbook_side :: "dict \<Rightarrow> string \<Rightarrow> string + (pyfloat \<times> pyfloat) list" where
  "normalize_orderbook_side book side =
     sbind (smap (read_level side) (list_of (jget book side))) (\<lambda>levels. Inr (map snd (sort_key fst levels)))"

text \<open>\<open>_book_to_dict\<close>, of which the asks are used.\<close>

definition orderbook_asks :: "dict \<Rightarrow> string + (pyfloat \<times> pyfloat) list" where
  "orderbook_asks book =
     sbind (normalize_orderbook_side book ''bids'') (\<lambda>_. normalize_orderbook_side book ''asks'')"

text \<open>The answer to \<open>get_order_book\<close>, or the text of what it raises.\<close>

type_synonym book_answer = "string + dict"

definition get_orderbook :: "book_answer \<Rightarrow> string + (pyfloat \<times> pyfloat) list" where
  "get_orderbook answer = sbind answer orderbook_asks"

definition MIN_BOOK_LIQUIDITY :: pyfloat where
  "MIN_BOOK_LIQUIDITY = Fin 50"

definition MAX_SLIPPAGE :: pyfloat where
  "MAX_SLIPPAGE = lit (3 / 100)"

definition MAX_BET_VS_BOOK_RATIO :: pyfloat where
  "MAX_BET_VS_BOOK_RATIO = lit (25 / 100)"

datatype liquidity_reason = Liquid | Fetch_failed string | No_asks | Thin_book pyfloat | Slips pyfloat pyfloat

record liquidity =
  lq_ok :: bool
  lq_adjusted :: pyfloat
  lq_available :: pyfloat
  lq_best_ask_liquidity :: pyfloat
  lq_slippage :: pyfloat
  lq_best_ask :: "pyfloat option"
  lq_reason :: liquidity_reason

definition fresh_liquidity :: "pyfloat \<Rightarrow> liquidity" where
  "fresh_liquidity desired =
     \<lparr>lq_ok = True, lq_adjusted = desired, lq_available = Fin 0, lq_best_ask_liquidity = Fin 0,
      lq_slippage = Fin 0, lq_best_ask = None, lq_reason = Liquid\<rparr>"

text \<open>The walk over the asks: the cost of the levels, and of those at the best price, until one and a
  half times the order is found.\<close>

fun walk_asks :: "pyfloat \<Rightarrow> pyfloat \<Rightarrow> (pyfloat \<times> pyfloat) list \<Rightarrow> pyfloat \<times> pyfloat \<Rightarrow> pyfloat \<times> pyfloat" where
  "walk_asks enough best [] acc = acc"
| "walk_asks enough best ((p, n) # levels) (sampled, at_best) =
     (let cost = fmul p n; sampled' = fadd sampled cost;
          at_best' = (if fle (fabs (fsub p best)) float_eps then fadd at_best cost else at_best)
      in if fle enough sampled' then (sampled', at_best')
         else walk_asks enough best levels (sampled', at_best'))"

text \<open>The walk that fills an order: its cost and its shares.\<close>

fun fill_asks :: "pyfloat \<Rightarrow> (pyfloat \<times> pyfloat) list \<Rightarrow> pyfloat \<times> pyfloat \<Rightarrow> string + pyfloat \<times> pyfloat" where
  "fill_asks order [] acc = Inr acc"
| "fill_asks order ((p, n) # levels) (cost, shares) =
     (let remaining = fsub order cost
      in if fle remaining (Fin 0) then Inr (cost, shares)
         else (let take_cost = py_min (fmul p n) remaining
               in case fdiv take_cost p of
                    None \<Rightarrow> Inl ''float division by zero''
                  | Some take_shares \<Rightarrow>
                      fill_asks order levels (fadd cost take_cost, fadd shares take_shares)))"

definition slippage_of :: "pyfloat \<Rightarrow> pyfloat \<times> pyfloat \<Rightarrow> pyfloat" where
  "slippage_of best fill =
     (if flt (Fin 0) best then fquot (fsub (fquot (fst fill) (snd fill)) best) best else Fin 0)"

definition judge_slippage :: "pyfloat \<Rightarrow> (pyfloat \<times> pyfloat) list \<Rightarrow> liquidity \<Rightarrow> string + liquidity" where
  "judge_slippage best asks l =
     sbind (fill_asks (lq_adjusted l) asks (Fin 0, Fin 0)) (\<lambda>fill.
       if flt (Fin 0) (snd fill)
       then (let s = slippage_of best fill; l' = l\<lparr>lq_slippage := s\<rparr>
             in Inr (if flt MAX_SLIPPAGE s
                     then l'\<lparr>lq_ok := False, lq_reason := Slips s (lq_adjusted l)\<rparr> else l'))
       else Inr l)"

definition judge_book :: "pyfloat \<Rightarrow> bool \<Rightarrow> (pyfloat \<times> pyfloat) list \<Rightarrow> string + liquidity" where
  "judge_book desired allow_partial_remainder asks =
     (case asks of
        [] \<Rightarrow> Inr ((fresh_liquidity desired)\<lparr>lq_ok := False, lq_reason := No_asks\<rparr>)
      | (best, _) # _ \<Rightarrow>
          (let (sampled, at_best) =
                 walk_asks (fmul desired (lit (3 / 2))) best asks (Fin 0, Fin 0);
               l = (fresh_liquidity desired)\<lparr>lq_best_ask := Some best, lq_available := sampled,
                     lq_best_ask_liquidity := at_best\<rparr>;
               cap = fmul sampled MAX_BET_VS_BOOK_RATIO
           in if allow_partial_remainder then Inr l
              else if flt sampled MIN_BOOK_LIQUIDITY
              then Inr (l\<lparr>lq_ok := False, lq_reason := Thin_book sampled\<rparr>)
              else judge_slippage best asks (if flt cap desired then l\<lparr>lq_adjusted := cap\<rparr> else l)))"

definition check_liquidity :: "book_answer \<Rightarrow> pyfloat \<Rightarrow> bool \<Rightarrow> string + liquidity" where
  "check_liquidity answer desired allow_partial_remainder =
     (case get_orderbook answer of
        Inl msg \<Rightarrow> Inr ((fresh_liquidity desired)\<lparr>lq_ok := False, lq_reason := Fetch_failed msg\<rparr>)
      | Inr asks \<Rightarrow> judge_book desired allow_partial_remainder asks)"

section \<open>The fee of a taker\<close>

text \<open>The power of two floats is the argument \<open>pow\<close>.\<close>

definition expected_taker_fee_per_share ::
  "(pyfloat \<Rightarrow> pyfloat \<Rightarrow> pyfloat) \<Rightarrow> pyfloat \<Rightarrow> pyfloat \<Rightarrow> pyfloat \<Rightarrow> pyfloat" where
  "expected_taker_fee_per_share pow price fee_rate fee_exponent =
     (if fle price (Fin 0) \<or> fle (Fin 1) price \<or> fle fee_rate (Fin 0) then Fin 0
      else (let base = py_max (fmul price (fsub (Fin 1) price)) (Fin 0)
            in fmul fee_rate (pow base (py_max fee_exponent (Fin 0)))))"

record fee_view =
  fv_rate :: pyfloat
  fv_exponent :: pyfloat
  fv_per_share :: pyfloat
  fv_amount :: pyfloat
  fv_gross_edge :: pyfloat
  fv_net_edge :: pyfloat
  fv_net_price :: pyfloat

definition market_buy_fee_view ::
  "(pyfloat \<Rightarrow> pyfloat \<Rightarrow> pyfloat) \<Rightarrow> dict \<Rightarrow> pyfloat \<Rightarrow> pyfloat \<Rightarrow> pyfloat \<Rightarrow> fee_view" where
  "market_buy_fee_view pow bet price amount blended =
     (let rate = safe_float (jget bet ''fee_rate'') (Fin 0);
          exponent = safe_float (jget bet ''fee_exponent'') (if flt (Fin 0) rate then Fin 1 else Fin 0);
          per_share = expected_taker_fee_per_share pow price rate exponent;
          shares = (if flt (Fin 0) price then fquot amount price else Fin 0);
          net_price = fadd price per_share
      in \<lparr>fv_rate = rate, fv_exponent = exponent, fv_per_share = per_share,
          fv_amount = fmul shares per_share, fv_gross_edge = fsub blended price,
          fv_net_edge = fsub blended net_price, fv_net_price = net_price\<rparr>)"

end
