(* ===== verification/Sizing_Laws.thy ===== *)
theory Sizing_Laws
  imports Order_Sizing
begin

text \<open>
  What the sizing promises: an order that it passes on is never smaller than asked for and is never
  refused by the client for its price, its size or its value.
\<close>

section \<open>Rounding by less than a hundredth\<close>

lemma near:
  assumes "1 \<le> x" "x \<le> 2 ^ 59"
  obtains y where "to_float x = Fin y" "99 * x \<le> 100 * y" "100 * y \<le> 101 * x"
proof -
  have small: "pow2 (- 1022) \<le> \<bar>x\<bar>"
    using pow2_mono [of "- 1022" 0] assms(1) by simp
  have "\<bar>rnd x - x\<bar> \<le> \<bar>x\<bar> * pow2 (- 53)" by (rule rnd_rel_error [OF small])
  also have "\<dots> \<le> \<bar>x\<bar> * (1 / 100)" by (rule mult_left_mono) (simp_all add: pow2_def)
  finally have "\<bar>rnd x - x\<bar> \<le> x / 100" using assms(1) by simp
  moreover have "to_float x = Fin (rnd x)" using assms by (intro to_float_small) simp
  ultimately show thesis by (intro that [of "rnd x"]) linarith+
qed

lemma near_percent:
  assumes "1 \<le> x" "x \<le> 2 ^ 50"
  obtains y where "to_float (x * 100) = Fin y" "99 * x \<le> y" "y \<le> 101 * x"
  using near [of "x * 100"] assms by (auto simp: field_simps)

lemma near_part:
  assumes "100 \<le> x" "x \<le> 2 ^ 59"
  obtains y where "to_float (x / 100) = Fin y" "99 * x \<le> 10000 * y" "10000 * y \<le> 101 * x"
  using near [of "x / 100"] assms by (auto simp: field_simps)

lemma tiny_value: "\<exists>t. tiny = Fin t \<and> 0 \<le> t \<and> t \<le> 1 / 1000"
proof -
  have "ranged 0 (1 / 1000) tiny" by code_simp
  then show ?thesis by (auto elim!: rangedE)
qed

text \<open>Rounding a size to two places changes it by little.\<close>

lemma floor_shares:
  assumes "3 / 2 \<le> x" "x \<le> 2 ^ 40"
  obtains y where "round_down_decimal_places (Fin x) 2 = Inr (Fin y)" "9 * x \<le> 10 * y" "10 * y \<le> 11 * x"
proof -
  obtain t where t: "tiny = Fin t" "0 \<le> t" "t \<le> 1 / 1000" using tiny_value by blast
  obtain a where a: "to_float (x + t) = Fin a" "99 * x + 99 * t \<le> 100 * a" "100 * a \<le> 101 * x + 101 * t"
    using near [of "x + t"] assms t(2,3) by (auto simp: algebra_simps)
  obtain b where b: "to_float (a * 100) = Fin b" "99 * a \<le> b" "b \<le> 101 * a"
    using near_percent [of a] assms a(2,3) t(2,3) by auto
  have n: "b - 1 < of_int \<lfloor>b\<rfloor>" "of_int \<lfloor>b\<rfloor> \<le> b" by linarith+
  obtain y where y: "to_float (of_int \<lfloor>b\<rfloor> / 100) = Fin y" "99 * of_int \<lfloor>b\<rfloor> \<le> 10000 * y"
    "10000 * y \<le> 101 * of_int \<lfloor>b\<rfloor>"
    using near_part [of "of_int \<lfloor>b\<rfloor>"] assms a(2,3) b(2,3) n t(2,3) by auto
  have "98 * x \<le> b" "b \<le> 103 * x" using a(2,3) b(2,3) t(2,3) assms(1) by linarith+
  then have "97 * x \<le> of_int \<lfloor>b\<rfloor> + x" "of_int \<lfloor>b\<rfloor> \<le> 103 * x" using n assms(1) by linarith+
  then have bounds: "9 * x \<le> 10 * y" "10 * y \<le> 11 * x" using y(2,3) assms(1) by linarith+
  show thesis
  proof (rule that)
    show "round_down_decimal_places (Fin x) 2 = Inr (Fin y)"
      by (simp add: round_down_decimal_places_def t(1) a(1) b(1) y(1) int_ratio_def Let_def)
  qed (rule bounds)+
qed

lemma ceil_shares:
  assumes "3 / 2 \<le> x" "x \<le> 2 ^ 40"
  obtains y where "round_up_decimal_places (Fin x) 2 = Inr (Fin y)" "9 * x \<le> 10 * y" "10 * y \<le> 12 * x"
proof -
  obtain t where t: "tiny = Fin t" "0 \<le> t" "t \<le> 1 / 1000" using tiny_value by blast
  obtain a where a: "to_float (x - t) = Fin a" "99 * x - 99 * t \<le> 100 * a" "100 * a \<le> 101 * x - 101 * t"
    using near [of "x - t"] assms t(2,3) by (auto simp: algebra_simps)
  obtain b where b: "to_float (a * 100) = Fin b" "99 * a \<le> b" "b \<le> 101 * a"
    using near_percent [of a] assms a(2,3) t(2,3) by auto
  have n: "b \<le> of_int \<lceil>b\<rceil>" "of_int \<lceil>b\<rceil> < b + 1" by linarith+
  obtain y where y: "to_float (of_int \<lceil>b\<rceil> / 100) = Fin y" "99 * of_int \<lceil>b\<rceil> \<le> 10000 * y"
    "10000 * y \<le> 101 * of_int \<lceil>b\<rceil>"
    using near_part [of "of_int \<lceil>b\<rceil>"] assms a(2,3) b(2,3) n t(2,3) by auto
  have "97 * x \<le> b" "b \<le> 103 * x" using a(2,3) b(2,3) t(2,3) assms(1) by linarith+
  then have "97 * x \<le> of_int \<lceil>b\<rceil>" "of_int \<lceil>b\<rceil> \<le> 104 * x" using n assms(1) by linarith+
  then have bounds: "9 * x \<le> 10 * y" "10 * y \<le> 12 * x" using y(2,3) assms(1) by linarith+
  show thesis
  proof (rule that)
    show "round_up_decimal_places (Fin x) 2 = Inr (Fin y)"
      by (simp add: round_up_decimal_places_def fsub_def t(1) a(1) b(1) y(1) int_ratio_def Let_def)
  qed (rule bounds)+
qed

section \<open>What the client is given\<close>

text \<open>The client rounds the size as the executor does.\<close>

lemma client_notional:
  "round_down_decimal_places q 2 = Inr y \<Longrightarrow> rounded_down_limit_buy_notional price q = Inr (fmul y price)"
  by (auto simp: round_down_decimal_places_def rounded_down_limit_buy_notional_def tiny_def
      POLYMARKET_LIMIT_SIZE_DECIMALS_def Let_def sbind_eq_Inr)

lemma client_accepts:
  assumes "0 < p" "p < 1" "0 < q" "round_down_decimal_places (Fin q) 2 = Inr (Fin y)" "fle (Fin 1) (fmul (Fin y) (Fin p))"
  shows "limit_order_refusal ''BUY'' (Fin p) (Fin q) = None"
proof -
  have "py_upper ''BUY'' = ''BUY''" by code_simp
  moreover have "\<not> flt (fmul (Fin y) (Fin p)) POLYMARKET_MIN_BUY_ORDER_USD"
    using assms(5) by (cases "fmul (Fin y) (Fin p)") (auto simp: POLYMARKET_MIN_BUY_ORDER_USD_def fle_def feq_def)
  ultimately show ?thesis
    using assms(1-3) client_notional [OF assms(4), of "Fin p"]
    by (simp add: limit_order_refusal_def fle_def feq_def)
qed

lemma least_value: "fle (Fin 1) (fsub POLYMARKET_MIN_ORDER_USD float_eps)"
  "fle (fsub POLYMARKET_MIN_ORDER_USD float_eps) (Fin 2)"
  by code_simp+

lemma near_quotient:
  assumes "1 / 10000 \<le> p" "p < 1" "2 \<le> a" "a \<le> 1000000"
  obtains s where "fquot (Fin a) (Fin p) = Fin s" "99 * (a / p) \<le> 100 * s" "100 * s \<le> 101 * (a / p)"
    "3 / 2 \<le> s" "s \<le> 2 ^ 40"
proof -
  have p: "0 < p" using assms(1) by simp
  then have "2 \<le> a / p" using assms(2,3) by (simp add: le_divide_eq)
  have "1000000 \<le> 1000000 * 10000 * p" using assms(1) by simp
  then have "a / p \<le> 10000000000" using p assms(4) by (simp add: divide_le_eq)
  obtain s where s: "to_float (a / p) = Fin s" "99 * (a / p) \<le> 100 * s" "100 * s \<le> 101 * (a / p)"
    using near [of "a / p"] \<open>2 \<le> a / p\<close> \<open>a / p \<le> _\<close> by auto
  show thesis
    by (rule that [of s])
      (use s \<open>2 \<le> a / p\<close> \<open>a / p \<le> 10000000000\<close> p in \<open>auto simp: fquot_def\<close>)
qed

text \<open>An order of the least size is worth more than the client asks for.\<close>

lemma least_order:
  assumes "1 / 10000 \<le> p" "p < 1"
  obtains m c where "round_up_decimal_places (fquot POLYMARKET_MIN_ORDER_USD (Fin p)) 2 = Inr (Fin m)"
    "3 / 2 \<le> m" "m \<le> 2 ^ 30" "17 / 10 \<le> m * p"
    "round_up_decimal_places (fmul (Fin m) (Fin p)) 2 = Inr (Fin c)" "c \<le> 3"
proof -
  obtain q where q: "fquot (Fin 2) (Fin p) = Fin q" "99 * (2 / p) \<le> 100 * q" "100 * q \<le> 101 * (2 / p)" "3 / 2 \<le> q"
    "q \<le> 2 ^ 40"
    using near_quotient [OF assms, of 2] by auto
  have p: "0 < p" using assms(1) by simp
  have "198 \<le> 100 * (q * p)" "100 * (q * p) \<le> 202"
    using q(2,3) p by (simp_all add: field_simps)
  have "2 / p \<le> 20000" using assms(1) p by (simp add: divide_le_eq)
  then have "q \<le> 20200" using q(3) by simp
  obtain m where m: "round_up_decimal_places (Fin q) 2 = Inr (Fin m)" "9 * q \<le> 10 * m" "10 * m \<le> 12 * q"
    using ceil_shares [OF q(4,5)] .
  have "9 * (q * p) \<le> 10 * (m * p)" "10 * (m * p) \<le> 12 * (q * p)"
    using mult_right_mono [OF m(2), of p] mult_right_mono [OF m(3), of p] p by (simp_all add: mult.assoc)
  then have mp: "17 \<le> 10 * (m * p)" "m * p \<le> 243 / 100"
    using \<open>198 \<le> 100 * (q * p)\<close> \<open>100 * (q * p) \<le> 202\<close> by linarith+
  have "q * p \<le> q * 1" using assms(2) q(4) by (intro mult_left_mono) auto
  then have "198 \<le> 100 * q" using \<open>198 \<le> 100 * (q * p)\<close> by linarith
  then have m_range: "3 / 2 \<le> m" "m \<le> 2 ^ 30" using m(2,3) \<open>q \<le> 20200\<close> by simp_all
  obtain v where v: "to_float (m * p) = Fin v" "99 * (m * p) \<le> 100 * v" "100 * v \<le> 101 * (m * p)"
    using near [of "m * p"] mp by auto
  obtain c where c: "round_up_decimal_places (Fin v) 2 = Inr (Fin c)" "9 * v \<le> 10 * c" "10 * c \<le> 12 * v"
    using ceil_shares [of v] mp v(2,3) by auto
  show thesis
    by (rule that [of m c])
      (use m(1) m_range mp v c q(1) in \<open>auto simp: POLYMARKET_MIN_ORDER_USD_def\<close>)
qed

text \<open>A size of at least the least size passes the client.\<close>

lemma large_enough:
  assumes "1 / 10000 \<le> p" "p < 1" "3 / 2 \<le> m" "17 / 10 \<le> m * p" "m \<le> s" "s \<le> 2 ^ 40"
  shows "limit_order_refusal ''BUY'' (Fin p) (Fin s) = None"
proof -
  have p: "0 < p" using assms(1) by simp
  obtain y where y: "round_down_decimal_places (Fin s) 2 = Inr (Fin y)" "9 * s \<le> 10 * y" "10 * y \<le> 11 * s"
    using floor_shares [of s] assms(3,5,6) by auto
  have "m * p \<le> s * p" using assms(5) p by simp
  moreover have "9 * (s * p) \<le> 10 * (y * p)" using mult_right_mono [OF y(2), of p] p by (simp add: mult.assoc)
  ultimately have "153 / 100 \<le> y * p" using assms(4) by linarith
  moreover have "y * p \<le> 2 ^ 50"
  proof -
    have "y * p \<le> y * 1" using assms(2,3,5) y(2) by (intro mult_left_mono) auto
    then show ?thesis using y(3) assms(6) by simp
  qed
  ultimately obtain v where "to_float (y * p) = Fin v" "99 * (y * p) \<le> 100 * v"
    using near [of "y * p"] by auto
  then have "fle (Fin 1) (fmul (Fin y) (Fin p))" using \<open>153 / 100 \<le> y * p\<close> by (auto simp: fle_def feq_def)
  then show ?thesis using client_accepts [OF p assms(2) _ y(1)] assms(3,5) by simp
qed



end
