(* ===== verification/Order_Metadata.thy ===== *)
theory Order_Metadata
  imports Order_Evidence
begin

text \<open>
  \<^verbatim>\<open>src/polymarket/executor.py\<close>: the execution metadata of a market - tick size, negative risk and the
  taker fee - gathered from a cache, the row of the bet, the table of markets and the exchange. Rows are
  dictionaries of scalars and objects. The answer of \<open>get_clob_market_info\<close> is an argument.
\<close>

section \<open>Reading a mapping\<close>

definition metadata_missing :: "json \<Rightarrow> bool" where
  "metadata_missing v \<longleftrightarrow>
     v = JNull \<or> v = JFloat NaN \<or> py_lower (py_strip (py_str v)) \<in> {'''', ''none'', ''nan'', ''nat''}"

definition coerce_neg_risk :: "json \<Rightarrow> bool option" where
  "coerce_neg_risk v =
     (if metadata_missing v then None
      else case v of
             JBool b \<Rightarrow> Some b
           | _ \<Rightarrow>
               (let raw = py_lower (py_strip (py_str v))
                in if raw \<in> {''1'', ''true'', ''yes'', ''y'', ''on''} then Some True
                   else if raw \<in> {''0'', ''false'', ''no'', ''n'', ''off''} then Some False
                   else None))"

text \<open>The first of the keys that has a value.\<close>

definition first_present :: "string list \<Rightarrow> dict \<Rightarrow> json option" where
  "first_present keys d =
     map_option (jget d) (List.find (\<lambda>k. \<not> metadata_missing (jget d k)) keys)"

definition present_in :: "string list \<Rightarrow> json \<Rightarrow> json option" where
  "present_in keys v = (if is_obj v then first_present keys (obj_of v) else None)"

definition fee_rate_from_mapping :: "dict \<Rightarrow> pyfloat option" where
  "fee_rate_from_mapping values =
     (case present_in [''r'', ''rate'', ''fee_rate'', ''feeRate''] (jget values ''fee_details'') of
        Some v \<Rightarrow> Some (safe_float v (Fin 0))
      | None \<Rightarrow>
     (case present_in [''taker_fee_rate'', ''takerFeeRate'', ''taker'', ''fee_rate'', ''feeRate'']
             (jor (jget values ''fee_schedule'') (jget values ''feeSchedule'')) of
        Some v \<Rightarrow> Some (safe_float v (Fin 0))
      | None \<Rightarrow>
     (case first_present [''fee_rate'', ''taker_fee_rate'', ''takerBaseFee'', ''taker_base_fee''] values of
        Some v \<Rightarrow> Some (safe_float v (Fin 0))
      | None \<Rightarrow>
     (case first_present [''fee_rate_bps'', ''taker_fee_rate_bps'', ''takerBaseFeeBps''] values of
        Some v \<Rightarrow> fdiv (safe_float v (Fin 0)) (Fin 10000)
      | None \<Rightarrow> None))))"

definition fee_exponent_from_mapping :: "dict \<Rightarrow> pyfloat option" where
  "fee_exponent_from_mapping values =
     (case present_in [''e'', ''exponent'', ''fee_exponent'', ''feeExponent''] (jget values ''fee_details'') of
        Some v \<Rightarrow> Some (safe_float v (Fin 1))
      | None \<Rightarrow> map_option (\<lambda>v. safe_float v (Fin 1)) (first_present [''fee_exponent'', ''feeExponent''] values))"

text \<open>The entries of a dictionary that are set only when there is a value.\<close>

definition optional_entry :: "string \<Rightarrow> json option \<Rightarrow> dict" where
  "optional_entry k v = (case v of None \<Rightarrow> [] | Some x \<Rightarrow> [(k, x)])"

definition metadata_from_market_row :: "dict \<Rightarrow> dict" where
  "metadata_from_market_row values =
     (let tick = jget values ''tick_size''; source = jget values ''fee_source'';
          rate = fee_rate_from_mapping values
      in (if metadata_missing tick then [] else [(''tick_size'', JStr (py_str tick))])
         @ optional_entry ''neg_risk'' (map_option JBool (coerce_neg_risk (jget values ''neg_risk'')))
         @ (case rate of
              None \<Rightarrow> []
            | Some r \<Rightarrow>
                [(''fee_rate'', JFloat r),
                 (''fee_source'', JStr (if metadata_missing source then ''gamma''
                                        else py_lower (py_strip (py_str source))))])
         @ optional_entry ''fee_exponent'' (map_option JFloat (fee_exponent_from_mapping values)))"

section \<open>The answer of the exchange\<close>

text \<open>The tokens of a market; \<open>None\<close> when the value cannot be iterated over.\<close>

definition token_ids_of :: "dict \<Rightarrow> string list option" where
  "token_ids_of info =
     (let v = jor (jget info ''t'') (jget info ''tokens'');
          id_of = (\<lambda>token. jor (jor (jget token ''t'') (jget token ''token_id'')) (jget token ''asset_id''))
      in if \<not> truthy v then Some []
         else case v of
                JList xs \<Rightarrow>
                  Some (map py_str (filter truthy (map (\<lambda>x. id_of (obj_of x)) (filter is_obj xs))))
              | JStr _ \<Rightarrow> Some []
              | JObj _ \<Rightarrow> Some []
              | _ \<Rightarrow> None)"

definition first_key :: "string list \<Rightarrow> dict \<Rightarrow> string option" where
  "first_key keys d = List.find (has_key d) keys"

text \<open>\<open>float(details[key]) if key else 0.0\<close>\<close>

definition fee_field :: "string list \<Rightarrow> dict \<Rightarrow> pyfloat option" where
  "fee_field keys details =
     (case first_key keys details of None \<Rightarrow> Some (Fin 0) | Some k \<Rightarrow> float_of (jget details k))"

definition fee_value_ok :: "pyfloat \<Rightarrow> bool" where
  "fee_value_ok x \<longleftrightarrow> is_fin x \<and> fle (Fin 0) x"

definition clob_fees :: "pyfloat \<Rightarrow> pyfloat \<Rightarrow> dict" where
  "clob_fees rate exponent =
     [(''fee_rate'', JFloat rate), (''fee_exponent'', JFloat exponent), (''fee_source'', JStr ''clob'')]"

definition clob_fee_metadata :: "dict \<Rightarrow> string list \<Rightarrow> dict" where
  "clob_fee_metadata info tokens =
     (let key = first_key [''fd'', ''fee_details'', ''feeDetails''] info;
          details = (case key of None \<Rightarrow> JNull | Some k \<Rightarrow> jget info k)
      in if tokens = [] then []
         else if details = JNull \<or> details = JObj [] then clob_fees (Fin 0) (Fin 0)
         else if \<not> is_obj details then []
         else case (fee_field [''r'', ''rate'', ''fee_rate'', ''feeRate''] (obj_of details),
                    fee_field [''e'', ''exponent'', ''fee_exponent'', ''feeExponent''] (obj_of details)) of
                (Some rate, Some exponent) \<Rightarrow>
                  if fee_value_ok rate \<and> fee_value_ok exponent then clob_fees rate exponent else []
              | _ \<Rightarrow> [])"

definition metadata_from_clob_market_info :: "json \<Rightarrow> (dict \<times> string list) option" where
  "metadata_from_clob_market_info answer =
     (case answer of
        JObj info \<Rightarrow>
          (let tick = jor (jor (jor (jget info ''mts'') (jget info ''minimum_tick_size''))
                              (jget info ''minimumTickSize'')) (jget info ''tick_size'');
               neg_risk = coerce_neg_risk (jget_or info ''nr'' (jget info ''neg_risk''))
           in map_option (\<lambda>tokens.
                ((if metadata_missing tick then [] else [(''tick_size'', JStr (py_str tick))])
                 @ optional_entry ''neg_risk'' (map_option JBool neg_risk)
                 @ clob_fee_metadata info tokens, tokens)) (token_ids_of info))
      | _ \<Rightarrow> Some ([], []))"

section \<open>The cache and the hydrated row\<close>

type_synonym metadata_cache = "string \<Rightarrow> dict"

definition EXECUTION_METADATA_FIELDS :: "string list" where
  "EXECUTION_METADATA_FIELDS = [''tick_size'', ''neg_risk'', ''fee_rate'', ''fee_exponent'', ''fee_source'']"

definition cache_execution_metadata :: "string list \<Rightarrow> dict \<Rightarrow> metadata_cache \<Rightarrow> metadata_cache" where
  "cache_execution_metadata keys metadata cache =
     (let cleaned = filter (\<lambda>(k, v). k \<in> set EXECUTION_METADATA_FIELDS \<and> \<not> metadata_missing v) metadata
      in fold (\<lambda>raw c. let key = py_strip raw
                       in if key = [] \<or> cleaned = [] then c else c(key := jupdate (c key) cleaned)) keys cache)"

definition metadata_keys :: "dict \<Rightarrow> string \<Rightarrow> string list" where
  "metadata_keys bet token_id =
     [stripped (jget bet ''condition_id''), stripped (jget bet ''market_id''), py_strip token_id]"

definition matching_market :: "string list \<Rightarrow> dict list \<Rightarrow> dict option" where
  "matching_market keys markets =
     List.find (\<lambda>m. list_ex (\<lambda>k. k \<noteq> []
         \<and> k \<in> set (map (\<lambda>f. stripped (jget m f)) [''condition_id'', ''market_id'', ''token_id_yes'', ''token_id_no''])) keys)
       markets"

definition known_metadata :: "metadata_cache \<Rightarrow> dict \<Rightarrow> dict list \<Rightarrow> string \<Rightarrow> dict" where
  "known_metadata cache bet markets token_id =
     (let keys = metadata_keys bet token_id;
          cached = fold (\<lambda>k m. if k = [] then m else jupdate m (cache k)) keys [];
          merged = jupdate cached (metadata_from_market_row bet)
      in case matching_market keys markets of
           None \<Rightarrow> merged
         | Some market \<Rightarrow> jupdate merged (metadata_from_market_row market))"

definition needs_canonical :: "dict \<Rightarrow> bool" where
  "needs_canonical merged \<longleftrightarrow>
     metadata_missing (jget merged ''tick_size'') \<or> coerce_neg_risk (jget merged ''neg_risk'') = None
     \<or> metadata_missing (jget merged ''fee_rate'') \<or> metadata_missing (jget merged ''fee_exponent'')
     \<or> py_lower (py_str (jget_or merged ''fee_source'' (JStr []))) \<noteq> ''clob''"

text \<open>\<open>market_info\<close> is \<open>None\<close> when the client has no such method; it answers \<open>None\<close> when it raises.\<close>

type_synonym market_info = "(string \<Rightarrow> json option) option"

definition with_canonical ::
  "market_info \<Rightarrow> dict \<Rightarrow> dict \<Rightarrow> metadata_cache \<Rightarrow> dict \<times> metadata_cache" where
  "with_canonical market_info bet merged cache =
     (let condition_id = stripped (jget bet ''condition_id'')
      in case market_info of
           None \<Rightarrow> (merged, cache)
         | Some get_info \<Rightarrow>
             if \<not> needs_canonical merged \<or> condition_id = [] then (merged, cache)
             else case Option.bind (get_info condition_id) metadata_from_clob_market_info of
                    None \<Rightarrow> (merged, cache)
                  | Some (metadata, tokens) \<Rightarrow>
                      if metadata = [] then (merged, cache)
                      else (jupdate merged metadata,
                            cache_execution_metadata
                              (condition_id # tokens @ [text_of (jget bet ''market_id'')]) metadata cache))"

definition hydrated_fees :: "dict \<Rightarrow> dict" where
  "hydrated_fees merged =
     (let rate = jget merged ''fee_rate''; exponent = jget merged ''fee_exponent'';
          source = jget merged ''fee_source''
      in (if metadata_missing rate then [] else [(''fee_rate'', JFloat (safe_float rate (Fin 0)))])
         @ (if \<not> metadata_missing exponent
            then [(''fee_exponent'', JFloat (safe_float exponent (Fin 1)))]
            else if \<not> metadata_missing rate \<and> flt (Fin 0) (safe_float rate (Fin 0))
            then [(''fee_exponent'', JFloat (Fin 1))] else [])
         @ (if metadata_missing source then [] else [(''fee_source'', source)]))"

definition hydrate_execution_metadata ::
  "market_info \<Rightarrow> dict list \<Rightarrow> string \<Rightarrow> dict \<Rightarrow> metadata_cache \<Rightarrow> dict option \<times> metadata_cache" where
  "hydrate_execution_metadata market_info markets token_id bet cache =
     (let (merged, cache') =
            with_canonical market_info bet (known_metadata cache bet markets token_id) cache;
          tick = jget merged ''tick_size''
      in case coerce_neg_risk (jget merged ''neg_risk'') of
           None \<Rightarrow> (None, cache')
         | Some neg_risk \<Rightarrow>
             if metadata_missing tick then (None, cache')
             else (let hydrated = jupdate bet ([(''tick_size'', JStr (py_str tick)), (''neg_risk'', JBool neg_risk)]
                                               @ hydrated_fees merged)
                   in (Some hydrated,
                       cache_execution_metadata (metadata_keys bet token_id)
                         (metadata_from_market_row hydrated) cache')))"

definition canonical_taker_fee_metadata_available :: "dict \<Rightarrow> bool" where
  "canonical_taker_fee_metadata_available bet \<longleftrightarrow>
     py_lower (stripped (jget bet ''fee_source'')) = ''clob''
     \<and> \<not> metadata_missing (jget bet ''fee_rate'') \<and> \<not> metadata_missing (jget bet ''fee_exponent'')"

end
