(* ===== verification/Order_Conflicts.thy ===== *)
theory Order_Conflicts
  imports Order_Reconcile
begin

text \<open>
  \<^verbatim>\<open>src/polymarket/executor.py\<close>: what may stand in the way of a new order. The open bets of the ledgers
  that the primary traders share, the orders that rest on the exchange and the positions of the wallet.
  A lower-priority tracker, identified by its ledger, does not block a primary trader. The ledgers are
  files by path; opening one never raises, an unreadable file is an empty ledger.
\<close>

section \<open>The coordinated ledgers\<close>

definition ledger_entry_blocks_new_order :: "dict \<Rightarrow> bool \<Rightarrow> bool" where
  "ledger_entry_blocks_new_order entry dry_run \<longleftrightarrow> \<not> truthy (jget entry ''dry_run'') \<or> dry_run"

text \<open>The desk with the executor's own ledger, and the files of all ledgers; the file of the own ledger is
  read through the desk.\<close>

record trading_floor =
  tf_path :: string
  tf_desk :: desk
  tf_files :: "string \<Rightarrow> disk"

definition rows_at :: "trading_floor \<Rightarrow> string \<Rightarrow> dict list" where
  "rows_at f path =
     read_bets_from_disk (if path = tf_path f then lg_disk (dk_ledger (tf_desk f)) else tf_files f path)"

text \<open>Reading the own ledger afresh also replaces its rows in memory.\<close>

definition refresh_own :: "trading_floor \<Rightarrow> trading_floor" where
  "refresh_own f = f\<lparr>tf_desk := (tf_desk f)\<lparr>dk_ledger := snd (get_bets True (dk_ledger (tf_desk f)))\<rparr>\<rparr>"

definition tag_entry :: "string \<Rightarrow> dict \<Rightarrow> dict" where
  "tag_entry path bet = jset ''_ledger_path'' (JStr path) bet"

definition coordinated_open_bets :: "string list \<Rightarrow> trading_floor \<Rightarrow> dict list" where
  "coordinated_open_bets paths f =
     concat (map (\<lambda>path. map (tag_entry path) (open_bets_from (rows_at f path))) paths)"

definition own_open_bets :: "trading_floor \<Rightarrow> dict list" where
  "own_open_bets f = open_bets_from (rows_at f (tf_path f))"

text \<open>An operation of the executor on the ledger of an entry: another ledger is opened for it, and the
  cash of the bankroll is not that ledger's.\<close>

definition entry_path :: "trading_floor \<Rightarrow> dict \<Rightarrow> string" where
  "entry_path f entry =
     (if truthy (jget entry ''_ledger_path'') then py_str (jget entry ''_ledger_path'') else tf_path f)"

definition on_entry_ledger ::
  "dict \<Rightarrow> 'a desk_op \<Rightarrow> trading_floor \<Rightarrow> 'a order_attempt \<times> trading_floor" where
  "on_entry_ledger entry m f =
     (let path = entry_path f entry; d = tf_desk f
      in if path = tf_path f then (let (r, d') = m d in (r, f\<lparr>tf_desk := d'\<rparr>))
         else (let (r, d') = m (d\<lparr>dk_ledger := open_ledger (tf_files f path), dk_own := False\<rparr>)
               in (r, f\<lparr>tf_desk := d'\<lparr>dk_ledger := dk_ledger d, dk_own := dk_own d\<rparr>,
                        tf_files := (tf_files f)(path := lg_disk (dk_ledger d'))\<rparr>)))"

section \<open>Exposure of the trackers\<close>

definition PRIMARY_TRADERS :: "string list" where
  "PRIMARY_TRADERS = [''S'', ''C'']"

definition TEST_TRACKERS :: "string list" where
  "TEST_TRACKERS = [''M'', ''G'']"

record owner =
  ow_primary :: bool
  ow_shares :: pyfloat
  ow_orders :: "string list"

definition no_owner :: owner where
  "no_owner = \<lparr>ow_primary = False, ow_shares = Fin 0, ow_orders = []\<rparr>"

text \<open>The shares that a tracker's open bet holds.\<close>

definition tracker_fill :: "dict \<Rightarrow> pyfloat" where
  "tracker_fill bet =
     (let order_type = py_lower (stripped (jget bet ''order_type''));
          shares = safe_float (jget bet ''shares'') (Fin 0);
          reported = py_max (safe_float (jget bet ''actual_filled_shares'') (Fin 0))
                       (safe_float (jget bet ''filled_shares'') (Fin 0));
          filled = (if order_type = ''filled_limit'' then py_max reported shares else reported);
          held = (if fle filled (Fin 0) \<and> py_lower (stripped (jget bet ''placement_state'')) \<in> {''filled'', ''matched''}
                  then shares else filled)
      in if order_type = ''imported'' then Fin 0 else py_max held (Fin 0))"

definition on_token :: "string \<Rightarrow> dict \<Rightarrow> bool" where
  "on_token token bet \<longleftrightarrow> stripped (jget bet ''token_id'') = token"

definition tracker_orders :: "string \<Rightarrow> dict list \<Rightarrow> string list" where
  "tracker_orders token bets =
     filter (\<lambda>i. i \<noteq> []) (map (\<lambda>b. stripped (jor (jget b ''order_id'') (jget b ''orderID'')))
       (filter (\<lambda>b. \<not> truthy (jget b ''dry_run'') \<and> on_token token b) bets))"

definition blocking_on_token :: "string \<Rightarrow> dict list \<Rightarrow> dict list" where
  "blocking_on_token token bets =
     filter (\<lambda>b. ledger_entry_blocks_new_order b False \<and> on_token token b) (open_bets_from bets)"

definition add_ledger :: "string \<Rightarrow> string \<times> dict list \<Rightarrow> owner \<Rightarrow> owner" where
  "add_ledger token lr w =
     (let (label, bets) = lr; live = blocking_on_token token bets
      in if label \<in> set PRIMARY_TRADERS then w\<lparr>ow_primary := ow_primary w \<or> live \<noteq> []\<rparr>
         else if label \<in> set TEST_TRACKERS
         then w\<lparr>ow_orders := ow_orders w @ tracker_orders token bets,
                ow_shares := foldl (\<lambda>t b. fadd t (tracker_fill b)) (ow_shares w)
                  (filter (\<lambda>b. py_lower (stripped (jget b ''order_type'')) \<noteq> ''imported'') live)\<rparr>
         else w)"

text \<open>The ledgers of all traders, with their labels; only a primary trader looks at them.\<close>

type_synonym registry = "(string \<times> string) list"

definition priority_conflict_attribution :: "registry \<Rightarrow> trading_floor \<Rightarrow> string \<Rightarrow> owner" where
  "priority_conflict_attribution registry f token =
     (if list_ex (\<lambda>(label, path). label \<in> set PRIMARY_TRADERS \<and> path = tf_path f) registry
      then fold (\<lambda>(label, path). add_ledger token (label, rows_at f path)) registry no_owner
      else no_owner)"

section \<open>Orders and positions\<close>

text \<open>\<open>None\<close> means that the client has no such method; the other answers are what the call or its cache
  gives, or the text of what it raises.\<close>

type_synonym listing = "string + json list"

datatype conflict = Unverified_orders string | Open_orders nat | Unverified_positions string
  | Held_position string

definition normalized_tokens :: "string list \<Rightarrow> string list" where
  "normalized_tokens tokens = filter (\<lambda>t. t \<noteq> []) (map py_strip tokens)"

definition order_asset :: "dict \<Rightarrow> string" where
  "order_asset payload = stripped (jget_or payload ''asset_id'' (jget payload ''token_id''))"

definition blocking_order :: "registry \<Rightarrow> trading_floor \<Rightarrow> string list \<Rightarrow> json \<Rightarrow> bool" where
  "blocking_order registry f tokens order =
     (let payload = unwrap_clob_order order; asset = order_asset payload;
          owner = priority_conflict_attribution registry f asset;
          order_id = py_strip (text_or_empty (open_order_id (JObj payload)))
      in asset \<in> set tokens
         \<and> \<not> (\<not> ow_primary owner \<and> order_id \<noteq> [] \<and> order_id \<in> set (ow_orders owner)))"

definition authoritative_open_clob_order_conflict ::
  "registry \<Rightarrow> listing option \<Rightarrow> trading_floor \<Rightarrow> string list \<Rightarrow> conflict option" where
  "authoritative_open_clob_order_conflict registry open_orders f token_ids =
     (let tokens = normalized_tokens token_ids
      in if dk_dry_run (tf_desk f) \<or> tokens = [] then None
         else case open_orders of
                None \<Rightarrow> None
              | Some (Inl msg) \<Rightarrow> Some (Unverified_orders msg)
              | Some (Inr orders) \<Rightarrow>
                  (let dupes = filter (blocking_order registry f tokens) orders
                   in if dupes = [] then None else Some (Open_orders (length dupes))))"

definition TRACKER_SHARE_TOLERANCE :: pyfloat where
  "TRACKER_SHARE_TOLERANCE = lit (2 / 100)"

definition blocking_position :: "registry \<Rightarrow> trading_floor \<Rightarrow> string list \<Rightarrow> json \<Rightarrow> bool" where
  "blocking_position registry f tokens position =
     (let p = obj_of position; asset = stripped (jget_or p ''asset'' (jget p ''token_id''));
          owner = priority_conflict_attribution registry f asset;
          shares = safe_float (jget p ''size'') (Fin 0)
      in asset \<in> set tokens
         \<and> \<not> (\<not> ow_primary owner \<and> flt (Fin 0) (ow_shares owner)
               \<and> fle shares (fadd (fadd (ow_shares owner) TRACKER_SHARE_TOLERANCE) float_eps)))"

definition authoritative_wallet_conflict ::
  "registry \<Rightarrow> listing \<Rightarrow> listing option \<Rightarrow> trading_floor \<Rightarrow> string list \<Rightarrow> conflict option" where
  "authoritative_wallet_conflict registry positions open_orders f token_ids =
     (let tokens = normalized_tokens token_ids
      in if dk_dry_run (tf_desk f) \<or> tokens = [] then None
         else case positions of
                Inl msg \<Rightarrow> Some (Unverified_positions msg)
              | Inr held \<Rightarrow>
                  (case List.find (blocking_position registry f tokens) held of
                     Some p \<Rightarrow> Some (Held_position (stripped (jget_or (obj_of p) ''asset'' (jget (obj_of p) ''token_id''))))
                   | None \<Rightarrow> authoritative_open_clob_order_conflict registry open_orders f tokens))"

end
