(* ===== verification/Order_Placement.thy ===== *)
theory Order_Placement
  imports Order_Sizing Order_Metadata Order_Conflicts
begin

text \<open>
  \<^verbatim>\<open>src/polymarket/executor.py\<close>: the decision to place an order, \<open>_place_bet_locked\<close> and
  \<open>_place_near_miss_limit_locked\<close>. A candidate bet passes one gate after the other; it is skipped at the
  first gate that refuses it, or it becomes an order that is submitted. The state is the trading floor
  (the desk and the files of the other ledgers), the cache of execution metadata and the orders that were
  sent. What the exchange, the clock and the configuration answer is the record \<open>placement_env\<close>. A bet is
  a row of value detection; its numeric columns hold floats, and a missing one is NaN, as in a data frame.
  The lock on the market, the audit records and the log are left out.
\<close>

section \<open>Operations that may skip the bet\<close>

record placing =
  pl_floor :: trading_floor
  pl_cache :: metadata_cache
  pl_posts :: "(string option \<times> ledger) list"

text \<open>A bet is left at a gate, named as in the audit records, or an exception is raised.\<close>

datatype exit = Skips string | Raises submit_failure

type_synonym 'a placing_op = "placing \<Rightarrow> (exit + 'a) \<times> placing"

definition preturn :: "'a \<Rightarrow> 'a placing_op" where
  "preturn x s = (Inr x, s)"

definition pskip :: "string \<Rightarrow> 'a placing_op" where
  "pskip gate s = (Inl (Skips gate), s)"

definition pbind :: "'a placing_op \<Rightarrow> ('a \<Rightarrow> 'b placing_op) \<Rightarrow> 'b placing_op" where
  "pbind m f s = (case m s of (Inl e, s') \<Rightarrow> (Inl e, s') | (Inr x, s') \<Rightarrow> f x s')"

definition plift :: "string + 'a \<Rightarrow> 'a placing_op" where
  "plift r s = (case r of Inl msg \<Rightarrow> Inl (Raises (Local_failure msg)) | Inr x \<Rightarrow> Inr x, s)"

definition pask :: "(placing \<Rightarrow> 'a) \<Rightarrow> 'a placing_op" where
  "pask g s = (Inr (g s), s)"

definition pmodify :: "(placing \<Rightarrow> placing) \<Rightarrow> unit placing_op" where
  "pmodify g s = (Inr (), g s)"

text \<open>Leaving the bet at a gate when a condition holds.\<close>

definition pstop :: "bool \<Rightarrow> string \<Rightarrow> unit placing_op" where
  "pstop stops gate = (if stops then pskip gate else preturn ())"

definition dry :: "placing \<Rightarrow> bool" where
  "dry s = dk_dry_run (tf_desk (pl_floor s))"

definition bank :: "placing \<Rightarrow> manager" where
  "bank s = dk_bank (tf_desk (pl_floor s))"

section \<open>The surroundings\<close>

record placement_env =
  pe_fromiso :: "string \<Rightarrow> parsed_time option"
  pe_max_hours :: int
  pe_now :: instant
  pe_limit_now :: instant
  pe_pull_now :: instant
  pe_force_limit :: bool
  pe_force_market :: bool
  pe_skip_wallet :: bool
  pe_min_edge :: pyfloat
  pe_scaling_base :: pyfloat
  pe_paths :: "string list"
  pe_registry :: registry
  pe_clob :: "dict \<Rightarrow> clob"
  pe_fetched_orders :: "dict \<Rightarrow> json list option"
  pe_reconciled_at :: string
  pe_positions :: listing
  pe_open_orders :: "listing option"
  pe_cached_orders :: "listing option"
  pe_market_info :: market_info
  pe_markets :: "dict list"
  pe_book :: book_answer
  pe_pow :: "pyfloat \<Rightarrow> pyfloat \<Rightarrow> pyfloat"
  pe_submit :: submit_env

section \<open>Reading the bet\<close>

definition column :: "dict \<Rightarrow> string \<Rightarrow> pyfloat" where
  "column bet k = safe_float (jget bet k) NaN"

definition text_column :: "dict \<Rightarrow> string \<Rightarrow> string" where
  "text_column bet k = py_str (jget_or bet k (JStr []))"

definition blended_of :: "dict \<Rightarrow> pyfloat" where
  "blended_of bet = safe_float (jget_or bet ''blended_prob'' (jget bet ''model_prob'')) NaN"

definition on_side_a :: "dict \<Rightarrow> bool" where
  "on_side_a bet \<longleftrightarrow> jget bet ''bet_side'' = JStr ''a''"

definition bet_token :: "dict \<Rightarrow> json" where
  "bet_token bet = jget_or bet (if on_side_a bet then ''token_id_yes'' else ''token_id_no'') (JStr [])"

definition opponent_of :: "dict \<Rightarrow> string" where
  "opponent_of bet = text_column bet (if on_side_a bet then ''fighter_b'' else ''fighter_a'')"

text \<open>\<open>_ledger_signal_metadata_from_bet\<close>\<close>

definition ledger_signal_metadata_from_bet :: "dict \<Rightarrow> dict" where
  "ledger_signal_metadata_from_bet bet =
     map (\<lambda>k. (k, jget bet k)) (filter (\<lambda>k. \<not> metadata_missing (jget bet k)) LEDGER_SIGNAL_METADATA_FIELDS)"

section \<open>The time of the fight\<close>

definition LIMIT_BID_PRE_EVENT_HOURS :: int where
  "LIMIT_BID_PRE_EVENT_HOURS = 2"

definition bet_event_time :: "(string \<Rightarrow> parsed_time option) \<Rightarrow> dict \<Rightarrow> string option" where
  "bet_event_time fromiso bet =
     (let candidates = map (\<lambda>k. text_of (jget bet k)) [''event_date'', ''commence_time'', ''market_event_date'']
      in case List.find (\<lambda>t. parse_event_timestamp fromiso (Some t) \<noteq> None) candidates of
           Some t \<Rightarrow> Some t
         | None \<Rightarrow> List.find (\<lambda>t. py_strip t \<noteq> []) candidates)"

definition window_at :: "placement_env \<Rightarrow> dict \<Rightarrow> int option \<Rightarrow> bool \<Rightarrow> instant \<Rightarrow> window_status option" where
  "window_at env bet close_buffer dry_run now =
     bet_window_status (pe_fromiso env) (pe_max_hours env) (bet_event_time (pe_fromiso env) bet) now
       close_buffer (\<not> dry_run)"

definition limit_bid_window_status :: "placement_env \<Rightarrow> dict \<Rightarrow> bool \<Rightarrow> instant \<Rightarrow> window_status option" where
  "limit_bid_window_status env bet dry_run now =
     window_at env bet (Some (LIMIT_BID_PRE_EVENT_HOURS * hour)) dry_run now"

definition window_refuses :: "window_status option \<Rightarrow> bool" where
  "window_refuses st \<longleftrightarrow> (case st of None \<Rightarrow> False | Some w \<Rightarrow> \<not> bw_open w)"

definition limit_bid_window_open :: "placement_env \<Rightarrow> dict \<Rightarrow> bool \<Rightarrow> bool" where
  "limit_bid_window_open env bet dry_run \<longleftrightarrow>
     \<not> window_refuses (limit_bid_window_status env bet dry_run (pe_limit_now env))"

definition inside_limit_bid_pull_window :: "placement_env \<Rightarrow> dict \<Rightarrow> bool \<Rightarrow> bool" where
  "inside_limit_bid_pull_window env bet dry_run \<longleftrightarrow>
     (case limit_bid_window_status env bet dry_run (pe_pull_now env) of
        None \<Rightarrow> False | Some w \<Rightarrow> bw_state w = WS_too_late)"

definition window_gate :: "placement_env \<Rightarrow> dict \<Rightarrow> int option \<Rightarrow> string \<Rightarrow> unit placing_op" where
  "window_gate env bet close_buffer gate =
     pbind (pask (\<lambda>s. window_at env bet close_buffer (dry s) (pe_now env))) (\<lambda>st.
       case st of
         None \<Rightarrow> preturn ()
       | Some w \<Rightarrow> pstop (\<not> bw_open w)
                     (if bw_state w = WS_event_time_unavailable then ''event_time_unavailable'' else gate))"

section \<open>One open bet on a market\<close>

definition bet_on_market :: "string \<Rightarrow> bool \<Rightarrow> dict \<Rightarrow> bool" where
  "bet_on_market mid dry_run b \<longleftrightarrow>
     jget b ''market_id'' = JStr mid \<and> ledger_entry_blocks_new_order b dry_run"

text \<open>The open bets on the market; the own ledger is read afresh.\<close>

definition refresh_floor :: "placing \<Rightarrow> placing" where
  "refresh_floor s = s\<lparr>pl_floor := refresh_own (pl_floor s)\<rparr>"

definition existing_bets :: "placement_env \<Rightarrow> bool \<Rightarrow> string \<Rightarrow> dict list placing_op" where
  "existing_bets env own_only mid s =
     (let f = pl_floor s
      in (Inr (filter (bet_on_market mid (dry s))
                 (if own_only then own_open_bets f else coordinated_open_bets (pe_paths env) f)),
          if own_only \<or> tf_path f \<in> set (pe_paths env) then refresh_floor s else s))"

definition reconcile_entry :: "placement_env \<Rightarrow> dict \<Rightarrow> dict placing_op" where
  "reconcile_entry env entry s =
     (let (r, f) = on_entry_ledger entry
            (reconcile_unresolved_submission (pe_fromiso env) (pe_clob env entry) (pe_reconciled_at env)
               entry (pe_fetched_orders env entry)) (pl_floor s)
      in (case r of Inl e \<Rightarrow> Inl (Raises (Books_failure e)) | Inr b \<Rightarrow> Inr b, s\<lparr>pl_floor := f\<rparr>))"

fun reconcile_entries :: "placement_env \<Rightarrow> dict list \<Rightarrow> dict list placing_op" where
  "reconcile_entries env [] = preturn []"
| "reconcile_entries env (e # es) =
     pbind (reconcile_entry env e) (\<lambda>b. pbind (reconcile_entries env es) (\<lambda>bs. preturn (b # bs)))"

definition still_open :: "string \<Rightarrow> bool \<Rightarrow> dict \<Rightarrow> bool" where
  "still_open mid dry_run b \<longleftrightarrow> bet_on_market mid dry_run b \<and> is_open b"

definition market_gate :: "placement_env \<Rightarrow> bool \<Rightarrow> dict \<Rightarrow> unit placing_op" where
  "market_gate env own_only bet =
     (let mid = text_column bet ''market_id''
      in if mid = [] then preturn ()
         else pbind (existing_bets env own_only mid) (\<lambda>existing.
                pbind (pask dry) (\<lambda>dry_run.
                  if existing = [] then preturn ()
                  else if dry_run then pskip ''duplicate_open_position''
                  else pbind (reconcile_entries env existing) (\<lambda>bs.
                         pstop (filter (still_open mid dry_run) bs \<noteq> []) ''duplicate_open_position''))))"

text \<open>An open limit order for the same fighter in the own ledger.\<close>

definition limit_for_fighter :: "json \<Rightarrow> bool \<Rightarrow> dict \<Rightarrow> bool" where
  "limit_for_fighter fighter dry_run b \<longleftrightarrow>
     py_eq (jget b ''fighter'') fighter \<and> jget b ''order_type'' \<in> JStr ` set RESTING_LIMIT_ORDER_TYPES
     \<and> ledger_entry_blocks_new_order b dry_run"

definition no_open_limit :: "dict \<Rightarrow> unit placing_op" where
  "no_open_limit bet =
     pbind (pask (\<lambda>s. filter (limit_for_fighter (jget bet ''bet_on'') (dry s)) (own_open_bets (pl_floor s))))
       (\<lambda>existing. pbind (pmodify refresh_floor) (\<lambda>_.
          pstop (existing \<noteq> []) ''duplicate_open_limit_order''))"

section \<open>Metadata and conflicts\<close>

definition hydrate :: "placement_env \<Rightarrow> dict \<Rightarrow> dict placing_op" where
  "hydrate env bet s =
     (let (r, c) = hydrate_execution_metadata (pe_market_info env) (pe_markets env)
                     (text_of (bet_token bet)) bet (pl_cache s)
      in (case r of None \<Rightarrow> Inl (Skips ''executor_market_metadata'') | Some b \<Rightarrow> Inr b, s\<lparr>pl_cache := c\<rparr>))"

text \<open>Attributing an exposure reads the own ledger afresh when the own ledger is a primary trader's.\<close>

definition attribution_read :: "placement_env \<Rightarrow> placing \<Rightarrow> placing" where
  "attribution_read env s =
     (if list_ex (\<lambda>(label, path). label \<in> set PRIMARY_TRADERS \<and> path = tf_path (pl_floor s)) (pe_registry env)
      then refresh_floor s else s)"

definition wallet_gate :: "placement_env \<Rightarrow> string list \<Rightarrow> unit placing_op" where
  "wallet_gate env tokens =
     pbind (pask (\<lambda>s. authoritative_wallet_conflict (pe_registry env) (pe_positions env) (pe_open_orders env)
                        (pl_floor s) tokens)) (\<lambda>conflict.
       pbind (pmodify (\<lambda>s. if dry s \<or> normalized_tokens tokens = [] \<or> isl (pe_positions env) then s
                           else attribution_read env s)) (\<lambda>_.
         pstop (conflict \<noteq> None) ''wallet_conflict''))"

definition listed :: "listing option \<Rightarrow> bool" where
  "listed answer \<longleftrightarrow> (case answer of Some (Inr _) \<Rightarrow> True | _ \<Rightarrow> False)"

definition open_order_gate :: "placement_env \<Rightarrow> string list \<Rightarrow> unit placing_op" where
  "open_order_gate env tokens =
     pbind (pask (\<lambda>s. authoritative_open_clob_order_conflict (pe_registry env) (pe_cached_orders env)
                        (pl_floor s) tokens)) (\<lambda>conflict.
       pbind (pmodify (\<lambda>s. if dry s \<or> normalized_tokens tokens = []
                              \<or> \<not> listed (pe_cached_orders env) then s
                           else attribution_read env s)) (\<lambda>_.
         pstop (conflict \<noteq> None) ''duplicate_open_clob_order''))"

section \<open>The price\<close>

record quote =
  qt_price :: pyfloat
  qt_edge :: pyfloat
  qt_odds :: pyfloat
  qt_limit :: bool
  qt_size :: pyfloat
  qt_fee :: "fee_view option"
  qt_at_ask :: pyfloat

definition quote_at :: "pyfloat \<Rightarrow> pyfloat \<Rightarrow> pyfloat \<Rightarrow> bool \<Rightarrow> quote" where
  "quote_at wanted blended price limit =
     \<lparr>qt_price = price, qt_edge = fsub blended price, qt_odds = implied_prob_to_decimal_odds price,
      qt_limit = limit, qt_size = wanted, qt_fee = None, qt_at_ask = Fin 0\<rparr>"

text \<open>\<open>override_bet_size\<close>, when it counts.\<close>

definition override_size :: "dict \<Rightarrow> pyfloat option" where
  "override_size bet =
     (let x = column bet ''override_bet_size'' in if flt (Fin 0) x then Some x else None)"

definition initial_size :: "manager \<Rightarrow> dict \<Rightarrow> pyfloat" where
  "initial_size m bet =
     (case override_size bet of
        Some x \<Rightarrow> py_min x (fmul (bm_equity m) (bm_max_bet m))
      | None \<Rightarrow> fround (fmul (kelly_bet_size m (blended_of bet) (column bet ''decimal_odds''))
                          (bet_size_multiplier bet)) 2)"

text \<open>A resting bid at the price that leaves the required edge, below the ask.\<close>

definition resting_bid :: "placement_env \<Rightarrow> string \<Rightarrow> pyfloat \<Rightarrow> pyfloat \<Rightarrow> pyfloat \<Rightarrow> pyfloat \<Rightarrow> quote placing_op" where
  "resting_bid env gate blended tick ask wanted =
     pbind (plift (maker_bid_price blended (pe_min_edge env) tick)) (\<lambda>bid.
       pbind (pstop (fle bid (Fin 0) \<or> fle ask bid) gate) (\<lambda>_. preturn (quote_at wanted blended bid True)))"

definition forced_bid :: "placement_env \<Rightarrow> pyfloat \<Rightarrow> pyfloat \<Rightarrow> pyfloat \<Rightarrow> pyfloat \<Rightarrow> quote placing_op" where
  "forced_bid env blended tick ask wanted =
     pbind (plift (maker_bid_price blended (pe_min_edge env) tick)) (\<lambda>willing.
       let price = py_min willing (fround (fsub ask tick) 4)
       in pbind (pstop (fle price (Fin 0) \<or> fle ask price) ''limit_price'')
            (\<lambda>_. preturn (quote_at wanted blended price True)))"

definition choose_price ::
  "placement_env \<Rightarrow> dict \<Rightarrow> pyfloat \<Rightarrow> pyfloat \<Rightarrow> pyfloat \<Rightarrow> pyfloat \<Rightarrow> quote placing_op" where
  "choose_price env bet blended tick ask wanted =
     (if pe_force_limit env then forced_bid env blended tick ask wanted
      else if pe_force_market env then preturn (quote_at wanted blended ask False)
      else if flt (fsub blended ask) (pe_min_edge env)
      then pbind (no_open_limit bet) (\<lambda>_. resting_bid env ''limit_price'' blended tick ask wanted)
      else preturn (quote_at wanted blended ask False))"

text \<open>The Kelly wanted at the live odds, unless the size is given.\<close>

definition resize :: "dict \<Rightarrow> pyfloat \<Rightarrow> quote \<Rightarrow> quote placing_op" where
  "resize bet blended q =
     (if override_size bet \<noteq> None then preturn q
      else pbind (pask (\<lambda>s. kelly_bet_size (bank s) blended (qt_odds q))) (\<lambda>wanted.
             pbind (pstop (fle wanted (Fin 0)) ''bet_size_live_odds'') (\<lambda>_. preturn (q\<lparr>qt_size := wanted\<rparr>))))"

text \<open>An order that takes from the book pays the taker fee; when the fee eats the edge, a resting bid is
  tried instead.\<close>

definition after_fee ::
  "placement_env \<Rightarrow> dict \<Rightarrow> pyfloat \<Rightarrow> pyfloat \<Rightarrow> pyfloat \<Rightarrow> liquidity \<Rightarrow> quote \<Rightarrow> quote placing_op" where
  "after_fee env bet blended tick ask liq q =
     (if qt_limit q then preturn q
      else pbind (pstop (pe_market_info env \<noteq> None \<and> \<not> canonical_taker_fee_metadata_available bet)
                   ''taker_fee_metadata'') (\<lambda>_.
             let view = market_buy_fee_view (pe_pow env) bet (qt_price q) (qt_size q) blended
             in if flt (fv_net_edge view) (pe_min_edge env)
                then pbind (pstop (pe_force_market env) ''taker_fee_net_edge'') (\<lambda>_.
                       pbind (no_open_limit bet) (\<lambda>_.
                         resting_bid env ''maker_bid_after_fee'' blended tick ask (qt_size q)))
                else preturn (q\<lparr>qt_edge := fv_net_edge view,
                                qt_odds := implied_prob_to_decimal_odds (fv_net_price view),
                                qt_fee := Some view, qt_at_ask := lq_best_ask_liquidity liq\<rparr>)))"

definition live_quote :: "placement_env \<Rightarrow> dict \<Rightarrow> pyfloat \<Rightarrow> pyfloat \<Rightarrow> pyfloat \<Rightarrow> quote placing_op" where
  "live_quote env bet blended tick wanted =
     pbind (plift (check_liquidity (pe_book env) wanted (\<not> pe_force_limit env))) (\<lambda>liq.
       pbind (pstop (\<not> lq_ok liq) ''liquidity'') (\<lambda>_.
         case lq_best_ask liq of
           None \<Rightarrow> pskip ''live_ask_unavailable''
         | Some ask \<Rightarrow>
             pbind (pstop (fle ask (Fin 0)) ''live_ask_unavailable'') (\<lambda>_.
               pbind (choose_price env bet blended tick ask wanted) (\<lambda>q.
                 pbind (resize bet blended q) (\<lambda>q'. after_fee env bet blended tick ask liq q')))))"

text \<open>A simulated order is priced on the snapshot.\<close>

definition simulated_quote :: "placement_env \<Rightarrow> dict \<Rightarrow> pyfloat \<Rightarrow> pyfloat \<Rightarrow> pyfloat \<Rightarrow> quote placing_op" where
  "simulated_quote env bet blended tick wanted =
     (let market = column bet ''market_prob''
      in if pe_force_limit env
         then pbind (plift (maker_bid_price blended (pe_min_edge env) tick)) (\<lambda>willing.
                case filter (flt (Fin 0)) [willing, fround (fsub market tick) 4] of
                  [] \<Rightarrow> pskip ''limit_price''
                | p # ps \<Rightarrow> preturn (quote_at wanted blended (foldl py_min p ps) True))
         else preturn ((quote_at wanted blended market False)\<lparr>qt_edge := column bet ''edge'',
                         qt_odds := column bet ''decimal_odds''\<rparr>))"

section \<open>The last gates\<close>

text \<open>Cash and minimum, after the size is raised to what survives the rounding of the exchange; the result
  is the amount and the shares.\<close>

definition affordable :: "pyfloat \<Rightarrow> unit placing_op" where
  "affordable amount =
     pbind (pask bank) (\<lambda>m.
       pbind (pstop (skip_for_insufficient_cash m amount) ''insufficient_cash'') (\<lambda>_.
         pstop (skip_for_min_order_size amount) ''minimum_order_size''))"

definition last_gates :: "placement_env \<Rightarrow> dict \<Rightarrow> quote \<Rightarrow> (pyfloat \<times> pyfloat) placing_op" where
  "last_gates env bet q =
     pbind (pask dry) (\<lambda>dry_run.
       pbind (pstop (qt_limit q \<and> \<not> limit_bid_window_open env bet dry_run) ''limit_bid_window'') (\<lambda>_.
         pbind (pstop (fle (qt_price q) (Fin 0)) ''execution_price'') (\<lambda>_.
           pbind (plift (adjust_buy_limit_for_min_notional (qt_price q) (qt_size q))) (\<lambda>(amount, shares).
             pbind (pstop (\<not> dry_run \<and> \<not> qt_limit q \<and> inside_limit_bid_pull_window env bet dry_run
                           \<and> flt (fadd (qt_at_ask q) float_eps) amount) ''partial_liquidity_pull_window'') (\<lambda>_.
               pbind (affordable amount) (\<lambda>_.
                 pbind (if \<not> dry_run \<and> qt_limit q then open_order_gate env [text_of (bet_token bet)]
                        else preturn ()) (\<lambda>_. preturn (amount, shares))))))))"

section \<open>The order\<close>

record order =
  or_kind :: order_kind
  or_args :: new_bet_args
  or_info :: dict

text \<open>The arguments of the ledger and of the client; the submission fills in the rest.\<close>

definition order_args :: "dict \<Rightarrow> quote \<Rightarrow> pyfloat \<Rightarrow> pyfloat \<Rightarrow> dict \<Rightarrow> new_bet_args" where
  "order_args bet q amount shares metadata =
     \<lparr>nb_fighter = jget bet ''bet_on'', nb_opponent = JStr (opponent_of bet), nb_side = jget bet ''bet_side'',
      nb_amount = amount, nb_price = qt_price q, nb_shares = shares, nb_token_id = bet_token bet,
      nb_market_id = JStr (text_column bet ''market_id''), nb_model_prob = column bet ''model_prob'',
      nb_market_prob = column bet ''market_prob'', nb_edge = qt_edge q, nb_decimal_odds = qt_odds q,
      nb_dry_run = False, nb_event_date = JStr (text_column bet ''event_date''),
      nb_market_event_date = JStr (text_column bet ''market_event_date''), nb_order_type = JNull,
      nb_order_id = JNull, nb_status = ''open'', nb_placement_state = None, nb_submission_error = JNull,
      nb_condition_id = JStr (text_column bet ''condition_id''), nb_reason = JStr (text_column bet ''reason''),
      nb_metadata = metadata\<rparr>"

definition order_info :: "dict \<Rightarrow> quote \<Rightarrow> pyfloat \<Rightarrow> pyfloat \<Rightarrow> bool \<Rightarrow> dict" where
  "order_info bet q amount shares dry_run =
     [(''fighter'', jget bet ''bet_on''), (''side'', JStr ''BUY''), (''token_id'', bet_token bet),
      (''price'', rounded (qt_price q) 4), (''shares'', rounded shares 2), (''bet_size_usd'', JFloat amount),
      (''model_prob'', JFloat (column bet ''model_prob'')), (''market_prob'', JFloat (column bet ''market_prob'')),
      (''edge'', JFloat (qt_edge q)), (''dry_run'', JBool dry_run)]"

definition fee_info :: "quote \<Rightarrow> dict" where
  "fee_info q =
     (case qt_fee q of
        None \<Rightarrow> []
      | Some v \<Rightarrow>
          [(''gross_edge'', JFloat (fv_gross_edge v)), (''net_edge'', JFloat (fv_net_edge v)),
           (''estimated_taker_fee_usd'', JFloat (fv_amount v)), (''fee_rate'', JFloat (fv_rate v)),
           (''fee_exponent'', JFloat (fv_exponent v))])"

definition build_order :: "dict \<Rightarrow> quote \<Rightarrow> pyfloat \<times> pyfloat \<Rightarrow> bool \<Rightarrow> order" where
  "build_order bet q sized dry_run =
     (let (amount, shares) = sized; metadata = ledger_signal_metadata_from_bet bet
      in \<lparr>or_kind = (if qt_limit q then Limit_bid else Marketable_limit),
          or_args = order_args bet q amount shares metadata,
          or_info = jupdate (order_info bet q amount shares dry_run) (metadata @ fee_info q)\<rparr>)"

definition submit_placement :: "placement_env \<Rightarrow> order \<Rightarrow> dict placing_op" where
  "submit_placement env ord s =
     (let f = pl_floor s;
          (r, sub) = submit_order (pe_submit env) (or_kind ord) (or_args ord) (or_info ord) (tf_desk f)
      in (case r of Inl e \<Rightarrow> Inl (Raises e) | Inr info \<Rightarrow> Inr info,
          s\<lparr>pl_floor := f\<lparr>tf_desk := sb_desk sub\<rparr>, pl_posts := pl_posts s @ sb_posts sub\<rparr>))"

section \<open>Placing a bet\<close>

text \<open>The token on the other side of the market.\<close>

definition opposite_token :: "dict \<Rightarrow> string" where
  "opposite_token bet = text_of (jget bet (if on_side_a bet then ''token_id_no'' else ''token_id_yes''))"

text \<open>The gates that do not depend on the price.\<close>

definition first_gates :: "placement_env \<Rightarrow> dict \<Rightarrow> dict placing_op" where
  "first_gates env bet =
     pbind (pstop (\<not> truthy (bet_token bet)) ''executor_missing_token'') (\<lambda>_.
       pbind (window_gate env bet
                (if pe_force_limit env then Some (LIMIT_BID_PRE_EVENT_HOURS * hour) else None) ''bet_window'') (\<lambda>_.
         pbind (market_gate env (pe_skip_wallet env) bet) (\<lambda>_.
           pbind (hydrate env bet) (\<lambda>hydrated.
             pbind (if pe_skip_wallet env then preturn () else wallet_gate env [opposite_token hydrated])
               (\<lambda>_. preturn hydrated)))))"

text \<open>\<open>float(bet.get("tick_size"))\<close>\<close>

definition tick_of :: "dict \<Rightarrow> string + pyfloat" where
  "tick_of bet =
     (case float_of (jget bet ''tick_size'') of
        Some x \<Rightarrow> Inr x
      | None \<Rightarrow> Inl (''could not convert string to float: '' @ str_repr (text_of (jget bet ''tick_size''))))"

definition price_bet :: "placement_env \<Rightarrow> dict \<Rightarrow> dict \<Rightarrow> quote placing_op" where
  "price_bet env bet hydrated =
     pbind (pask (\<lambda>s. initial_size (bank s) hydrated)) (\<lambda>wanted.
       pbind (pstop (fle wanted (Fin 0)) ''bet_size'') (\<lambda>_.
         pbind (plift (tick_of hydrated)) (\<lambda>tick.
           pbind (pask dry) (\<lambda>dry_run.
             if dry_run then simulated_quote env hydrated (blended_of bet) tick wanted
             else live_quote env hydrated (blended_of bet) tick wanted))))"

definition prepare_placement :: "placement_env \<Rightarrow> dict \<Rightarrow> order placing_op" where
  "prepare_placement env bet =
     pbind (first_gates env bet) (\<lambda>hydrated.
       pbind (price_bet env bet hydrated) (\<lambda>q.
         pbind (last_gates env hydrated q) (\<lambda>sized.
           pbind (pask dry) (\<lambda>dry_run. preturn (build_order hydrated q sized dry_run)))))"

definition place_bet_locked :: "placement_env \<Rightarrow> dict \<Rightarrow> dict placing_op" where
  "place_bet_locked env bet = pbind (prepare_placement env bet) (submit_placement env)"

end
