(* ===== verification/Near_Miss.thy ===== *)
theory Near_Miss
  imports Order_Placement
begin

text \<open>
  \<open>_place_near_miss_limit_locked\<close> of \<^verbatim>\<open>src/polymarket/executor.py\<close>: a resting bid for a fight that barely
  misses the edge. It is never an order that takes from the book, and it has to stay below the market.
\<close>

definition market_tokens :: "dict \<Rightarrow> string list" where
  "market_tokens bet =
     [text_of (jget bet ''token_id_yes''), text_of (jget bet ''token_id_no''), text_of (bet_token bet)]"

definition near_miss_gates :: "placement_env \<Rightarrow> dict \<Rightarrow> dict placing_op" where
  "near_miss_gates env bet =
     pbind (pstop (\<not> truthy (bet_token bet)) ''executor_missing_token'') (\<lambda>_.
       pbind (window_gate env bet (Some (LIMIT_BID_PRE_EVENT_HOURS * hour)) ''limit_bid_window'') (\<lambda>_.
         pbind (market_gate env False bet) (\<lambda>_.
           pbind (hydrate env bet) (\<lambda>hydrated.
             pbind (wallet_gate env (market_tokens hydrated)) (\<lambda>_.
               pbind (no_open_limit bet) (\<lambda>_.
                 pbind (open_order_gate env [text_of (bet_token bet)]) (\<lambda>_. preturn hydrated)))))))"

text \<open>The price leaves the edge that the odds of the market ask for, and stays below the market.\<close>

definition near_miss_quote :: "placement_env \<Rightarrow> dict \<Rightarrow> dict \<Rightarrow> quote placing_op" where
  "near_miss_quote env bet hydrated =
     (let tick = column hydrated ''tick_size''; market = column bet ''market_prob''; blended = blended_of bet;
          required = scaled_min_edge (implied_prob_to_decimal_odds market) (Some (pe_scaling_base env))
      in pbind (pstop (tick = NaN \<or> fle tick (Fin 0)) ''tick_size'') (\<lambda>_.
           pbind (plift (maker_bid_price blended required tick)) (\<lambda>bid.
             pbind (pstop (fle bid (Fin 0)) ''limit_price'') (\<lambda>_.
               pbind (pstop (fle market bid) ''limit_price'') (\<lambda>_.
                 preturn (quote_at (Fin 0) blended bid True))))))"

definition near_miss_size :: "dict \<Rightarrow> quote \<Rightarrow> (pyfloat \<times> pyfloat) placing_op" where
  "near_miss_size bet q =
     pbind (pask (\<lambda>s. fround (fmul (kelly_bet_size (bank s) (blended_of bet) (qt_odds q))
                                (bet_size_multiplier bet)) 2)) (\<lambda>wanted.
       pbind (pstop (fle wanted (Fin 0)) ''bet_size'') (\<lambda>_.
         pbind (plift (adjust_buy_limit_for_min_notional (qt_price q) wanted)) (\<lambda>(amount, shares).
           pbind (affordable amount) (\<lambda>_. preturn (amount, shares)))))"

definition near_miss_order :: "dict \<Rightarrow> quote \<Rightarrow> pyfloat \<times> pyfloat \<Rightarrow> bool \<Rightarrow> order" where
  "near_miss_order bet q sized dry_run =
     (let (amount, shares) = sized
      in \<lparr>or_kind = Near_miss_limit, or_args = order_args bet q amount shares [],
          or_info = order_info bet q amount shares dry_run @ [(''order_type'', JStr ''near_miss_limit'')]\<rparr>)"

definition prepare_near_miss :: "placement_env \<Rightarrow> dict \<Rightarrow> order placing_op" where
  "prepare_near_miss env bet =
     pbind (near_miss_gates env bet) (\<lambda>hydrated.
       pbind (near_miss_quote env bet hydrated) (\<lambda>q.
         pbind (near_miss_size hydrated q) (\<lambda>sized.
           pbind (pask dry) (\<lambda>dry_run. preturn (near_miss_order hydrated q sized dry_run)))))"

definition place_near_miss_limit_locked :: "placement_env \<Rightarrow> dict \<Rightarrow> dict placing_op" where
  "place_near_miss_limit_locked env bet = pbind (prepare_near_miss env bet) (submit_placement env)"

end
