(* ===== verification/Submission_Laws.thy ===== *)
theory Submission_Laws
  imports Order_Submission Order_Laws Ledger_Settlement
begin

text \<open>
  What a submission does to the books. The journalled bet is the last row of the ledger, and every
  operation of the submission changes that row only; so the whole submission is followed on one row,
  from the intent to one of its three ends.
\<close>

section \<open>The last row of a ledger\<close>

definition last_row :: "dict list \<Rightarrow> dict \<Rightarrow> desk \<Rightarrow> bool" where
  "last_row bets row d \<longleftrightarrow>
     \<not> lg_read_only (dk_ledger d) \<and> disk_rows (dk_ledger d) = bets @ [row]
     \<and> list_all positive_id (bets @ [row]) \<and> (\<forall>b \<in> set bets. row_id b < row_id row)"

lemma last_row_matches:
  assumes "last_row bets row d"
  shows "matches (row_id row) row" "\<forall>b \<in> set bets. \<not> matches (row_id row) b"
proof -
  have "jget row ''id'' = JInt (row_id row)" "\<forall>b \<in> set bets. jget b ''id'' = JInt (row_id b) \<and> row_id b < row_id row"
    using assms by (auto simp: last_row_def positive_id_iff list_all_iff)
  then show "matches (row_id row) row" "\<forall>b \<in> set bets. \<not> matches (row_id row) b"
    using matches_JInt by auto
qed

lemma last_row_file:
  assumes "last_row bets row d" "f row = Inr (s, row', True)" "jget row' ''id'' = jget row ''id''"
  shows "\<exists>l. on_file strict (row_id row) f (dk_ledger d) = (Inr \<lparr>mr_status = s, mr_bet = Some row'\<rparr>, l)
    \<and> last_row bets row' (d\<lparr>dk_ledger := l\<rparr>)"
proof -
  have ids: "row_id row' = row_id row" "positive_id row' = positive_id row"
    using assms(3) by (simp_all add: row_id_def positive_id_def)
  have "on_row strict (row_id row) f (bets @ [row])
      = Inr (\<lparr>mr_status = s, mr_bet = Some row'\<rparr>, True, bets @ [row'])"
    using on_row_at [where f = f and post = "[]", OF _ last_row_matches [OF assms(1)] assms(2)] assms(1)
    by (simp add: last_row_def)
  then show ?thesis
    using assms(1) ids by (auto simp: last_row_def mutate_locked_def disk_rows_def [symmetric] Let_def)
qed

lemma last_row_update:
  assumes "last_row bets row d" "harmless u" "u \<noteq> []" "ro \<longrightarrow> is_open row"
  shows "\<exists>l. on_ledger (update_bet_fields (row_id row) ro u) d
      = (Inr \<lparr>mr_status = ''updated'', mr_bet = Some (jupdate row u)\<rparr>, d\<lparr>dk_ledger := l\<rparr>)
    \<and> last_row bets (jupdate row u) (d\<lparr>dk_ledger := l\<rparr>)"
proof -
  have "update_fields_row ro u row = Inr (''updated'', jupdate row u, True)"
    using assms(4) by (auto simp: update_fields_row_def updated_row_def)
  from last_row_file [where f = "update_fields_row ro u" and strict = True, OF assms(1) this] assms(2,3) show ?thesis
    by (auto simp: harmless_def jget_jupdate_other update_bet_fields_def on_ledger_def lift_error_def)
qed

lemma last_row_cancel:
  assumes "last_row bets row d" "is_open row"
  shows "\<exists>l. on_ledger (cancel_bet stamp (row_id row) reason None) d
      = (Inr \<lparr>mr_status = ''updated'', mr_bet = Some (cancelled_row stamp reason row)\<rparr>, d\<lparr>dk_ledger := l\<rparr>)
    \<and> last_row bets (cancelled_row stamp reason row) (d\<lparr>dk_ledger := l\<rparr>)"
proof -
  have "cancel_row stamp reason None row = Inr (''updated'', cancelled_row stamp reason row, True)"
    using assms(2) by (simp add: cancel_row_def updated_row_def)
  from last_row_file [where f = "cancel_row stamp reason None" and strict = True, OF assms(1) this] show ?thesis
    by (auto simp: cancel_bet_def on_ledger_def lift_error_def cancelling.keeps_id [OF \<open>cancel_row _ _ _ _ = _\<close>])
qed

section \<open>A journalled submission\<close>

lemma xbind_return [simp]: "xbind (xreturn x) f = f x"
  by (simp add: xbind_def xreturn_def fun_eq_iff)

lemma xbind_raise [simp]: "xbind (xraise e) f = xraise e"
  by (simp add: xbind_def xraise_def fun_eq_iff)

lemma xbind_modify [simp]: "xbind (xmodify g) f s = f () (g s)"
  by (simp add: xbind_def xmodify_def)

lemma xbind_run [simp]: "m s = (Inr x, s') \<Longrightarrow> xbind m f s = f x s'"
  by (simp add: xbind_def)

lemma xbind_stop [simp]: "m s = (Inl e, s') \<Longrightarrow> xbind m f s = (Inl e, s')"
  by (simp add: xbind_def)

lemma xreturn_simp [simp]: "xreturn x s = (Inr x, s)"
  by (simp add: xreturn_def)

lemma xraise_simp [simp]: "xraise e s = (Inl e, s)"
  by (simp add: xraise_def)

lemma xmodify_simp [simp]: "xmodify g s = (Inr (), g s)"
  by (simp add: xmodify_def)

lemma set_info_simp [simp]: "set_info k v s = (Inr (), s\<lparr>sb_info := jset k v (sb_info s)\<rparr>)"
  by (simp add: set_info_def)

text \<open>The last row is the bet of the submission, and nothing but the ledger of the desk has changed.\<close>

definition journalled :: "desk \<Rightarrow> dict list \<Rightarrow> dict \<Rightarrow> submission \<Rightarrow> bool" where
  "journalled d bets row s \<longleftrightarrow>
     last_row bets row (sb_desk s) \<and> (\<exists>l. sb_desk s = d\<lparr>dk_ledger := l\<rparr>)
     \<and> jget (sb_bet s) ''id'' = jget row ''id'' \<and> jget (sb_bet s) ''order_id'' = jget row ''order_id''"

lemma journalled_id: "journalled d bets row s \<Longrightarrow> bet_id (sb_bet s) = Inr (row_id row)"
  by (auto simp: journalled_def last_row_def bet_id_def positive_id_iff split: json.split)

lemma journalled_info [simp]:
  "journalled d bets row (s\<lparr>sb_info := x\<rparr>) = journalled d bets row s"
  "journalled d bets row (s\<lparr>sb_posts := y\<rparr>) = journalled d bets row s"
  by (simp_all add: journalled_def)

text \<open>A run of an operation on the desk that succeeds and leaves \<open>row\<close> as the last row.\<close>

definition desk_writes :: "dict list \<Rightarrow> 'a desk_op \<Rightarrow> desk \<Rightarrow> 'a \<Rightarrow> dict \<Rightarrow> bool" where
  "desk_writes bets m d x row \<longleftrightarrow>
     (\<exists>l. m d = (Inr x, d\<lparr>dk_ledger := l\<rparr>) \<and> last_row bets row (d\<lparr>dk_ledger := l\<rparr>))"

lemma writes_bind:
  assumes "desk_writes bets m d x row" "\<And>l. last_row bets row (d\<lparr>dk_ledger := l\<rparr>) \<Longrightarrow>
    desk_writes bets (f x) (d\<lparr>dk_ledger := l\<rparr>) y row'"
  shows "desk_writes bets (dbind m f) d y row'"
  using assms by (fastforce simp: desk_writes_def dbind_def)

lemma writes_lift: "last_row bets row d \<Longrightarrow> desk_writes bets (dlift (Inr x)) d x row"
  unfolding desk_writes_def dlift_def by (rule exI [of _ "dk_ledger d"]) simp

lemma writes_return: "last_row bets row d \<Longrightarrow> desk_writes bets (dreturn x) d x row"
  unfolding desk_writes_def dreturn_def by (rule exI [of _ "dk_ledger d"]) simp

lemma writes_unit: "desk_writes bets m d x row \<Longrightarrow> desk_writes bets (unit_op m) d () row"
  unfolding unit_op_def by (erule writes_bind) (rule writes_return)

lemma writes_update:
  assumes "last_row bets row d" "harmless u" "u \<noteq> []" "ro \<longrightarrow> is_open row" "i = row_id row"
  shows "desk_writes bets (on_ledger (update_bet_fields i ro u)) d
    \<lparr>mr_status = ''updated'', mr_bet = Some (jupdate row u)\<rparr> (jupdate row u)"
  using last_row_update [OF assms(1-4)] assms(5) by (auto simp: desk_writes_def)

lemma writes_cancel:
  assumes "last_row bets row d" "is_open row" "i = row_id row"
  shows "desk_writes bets (on_ledger (cancel_bet stamp i reason None)) d
    \<lparr>mr_status = ''updated'', mr_bet = Some (cancelled_row stamp reason row)\<rparr> (cancelled_row stamp reason row)"
  using last_row_cancel [OF assms(1,2)] assms(3) by (auto simp: desk_writes_def)

lemma on_desk_writes:
  assumes "journalled d bets row s" "desk_writes bets (f (sb_bet s)) (sb_desk s) x row'"
    and "jget row' ''id'' = jget row ''id''" "jget row' ''order_id'' = jget row ''order_id''"
  shows "\<exists>s'. on_desk f s = (Inr x, s') \<and> journalled d bets row' s'
    \<and> sb_info s' = sb_info s \<and> sb_posts s' = sb_posts s"
  using assms unfolding journalled_def desk_writes_def on_desk_def by fastforce

text \<open>The journal entries of a submission.\<close>

definition state_fields :: "string \<Rightarrow> json \<Rightarrow> json option \<Rightarrow> dict" where
  "state_fields state err order_id =
     [(''placement_state'', JStr state), (''submission_error'', err)]
     @ (case order_id of None \<Rightarrow> [] | Some oid \<Rightarrow> [(''order_id'', oid)])"

lemma writes_state:
  assumes "last_row bets row d" "is_open row" "bet_id bet = Inr (row_id row)"
    and "recorded_order_id bet = [] \<or> map_option py_str order_id \<in> {None, Some (recorded_order_id bet)}"
  shows "desk_writes bets (update_submission_state bet state err order_id) d () (jupdate row (state_fields state err order_id))"
proof -
  let ?u = "state_fields state err order_id"
  have u: "harmless ?u" "?u \<noteq> []" by (auto simp: state_fields_def harmless_def split: option.split)
  have "desk_writes bets (dbind (dlift (Inr (row_id row))) (\<lambda>i. unit_op (on_ledger (update_bet_fields i True ?u))))
      d () (jupdate row ?u)"
    by (rule writes_bind [OF writes_lift [OF assms(1)]], rule writes_unit, rule writes_update [OF _ u])
      (simp_all add: assms(2))
  then show ?thesis using assms(3,4) by (auto simp: update_submission_alt state_fields_def)
qed

lemma writes_fields:
  assumes "last_row bets row d" "is_open row" "bet_id bet = Inr (row_id row)" "harmless u" "u \<noteq> []"
  shows "desk_writes bets (dbind (dlift (bet_id bet)) (\<lambda>i. unit_op (on_ledger (update_bet_fields i True u))))
    d () (jupdate row u)"
  unfolding assms(3)
  by (rule writes_bind [OF writes_lift [OF assms(1)]], rule writes_unit, rule writes_update [OF _ assms(4,5)])
    (simp_all add: assms(2))

lemma writes_identity:
  assumes "last_row bets row d" "is_open row" "bet_id bet = Inr (row_id row)" "oid \<noteq> []"
    and "recorded_order_id bet = []"
  shows "desk_writes bets (record_prepared_order_id bet oid) d (jset ''order_id'' (JStr oid) bet)
    (jset ''order_id'' (JStr oid) row)"
proof -
  have "desk_writes bets (dbind (dlift (Inr (row_id row))) (\<lambda>i.
      dbind (on_ledger (update_bet_fields i True [(''order_id'', JStr oid)])) (\<lambda>result.
        if mr_ok result then dreturn (jset ''order_id'' (JStr oid) bet)
        else dlift (Inl (OrderRuntimeError ''Order intent is no longer open; submission aborted'')))))
      d (jset ''order_id'' (JStr oid) bet) (jset ''order_id'' (JStr oid) row)"
    by (rule writes_bind [OF writes_lift [OF assms(1)]], rule writes_bind [OF writes_update])
      (auto simp: assms(2) mr_ok_def intro: writes_return)
  then show ?thesis using assms(3-5) by (simp add: record_prepared_alt)
qed

lemma mr_ok_updated [simp]: "mr_ok \<lparr>mr_status = ''updated'', mr_bet = b\<rparr>"
  by (simp add: mr_ok_def)

definition failed_row :: "string \<Rightarrow> string \<Rightarrow> dict \<Rightarrow> dict" where
  "failed_row stamp reason row =
     jupdate (cancelled_row stamp (Some reason) row)
       [(''placement_state'', JStr ''failed''), (''submission_error'', JStr reason)]"

lemma writes_failure:
  assumes "last_row bets row d" "is_open row" "bet_id bet = Inr (row_id row)"
  shows "desk_writes bets (cancel_submission_attempt stamp bet reason) d () (failed_row stamp reason row)"
proof -
  have ids: "row_id (cancelled_row stamp (Some reason) row) = row_id row"
    by (simp add: row_id_def cancelled_row_def Let_def)
  let ?c = "cancelled_row stamp (Some reason) row"
  let ?u = "[(''placement_state'', JStr ''failed''), (''submission_error'', JStr reason)]"
  have marked: "desk_writes bets (unit_op (on_ledger (update_bet_fields (row_id row) False ?u))) d0 () (jupdate ?c ?u)"
    if "last_row bets ?c d0" for d0
    by (rule writes_unit, rule writes_update [OF that]) (simp_all add: ids del: jupdate_simps)
  let ?rest = "\<lambda>i. dbind (on_ledger (cancel_bet stamp i (Some reason) None)) (\<lambda>result.
      if \<not> mr_ok result then dreturn () else unit_op (on_ledger (update_bet_fields i False ?u)))"
  have step: "desk_writes bets (?rest (row_id row)) d0 () (jupdate ?c ?u)" if "last_row bets row d0" for d0
  proof (rule writes_bind)
    show "desk_writes bets (on_ledger (cancel_bet stamp (row_id row) (Some reason) None)) d0
        \<lparr>mr_status = ''updated'', mr_bet = Some ?c\<rparr> ?c"
      using that assms(2) refl by (rule writes_cancel)
    show "desk_writes bets (if \<not> mr_ok \<lparr>mr_status = ''updated'', mr_bet = Some ?c\<rparr> then dreturn ()
        else unit_op (on_ledger (update_bet_fields (row_id row) False ?u))) (d0\<lparr>dk_ledger := l\<rparr>) () (jupdate ?c ?u)"
      if "last_row bets ?c (d0\<lparr>dk_ledger := l\<rparr>)" for l
      using marked [OF that] by (simp only: mr_ok_updated not_True_eq_False if_False)
  qed
  have "desk_writes bets (dbind (dlift (Inr (row_id row))) ?rest) d () (jupdate ?c ?u)"
    using writes_lift [OF assms(1)] by (rule writes_bind [where f = ?rest]) (rule step)
  then show ?thesis
    unfolding cancel_submission_attempt_def assms(3) failed_row_def .
qed

section \<open>The stages of the bet\<close>

definition order_terms :: "dict \<Rightarrow> json list" where
  "order_terms row = map (jget row)
     [''id'', ''market_id'', ''token_id'', ''price'', ''shares'', ''amount'', ''dry_run'', ''order_type'']"

text \<open>\<open>row\<close> is the bet \<open>row0\<close> with this status, placement state and order id.\<close>

definition bet_stage :: "dict \<Rightarrow> string \<Rightarrow> string \<Rightarrow> json \<Rightarrow> dict \<Rightarrow> bool" where
  "bet_stage row0 status state oid row \<longleftrightarrow>
     order_terms row = order_terms row0 \<and> jget row ''status'' = JStr status
     \<and> jget row ''placement_state'' = JStr state \<and> jget row ''order_id'' = oid"

lemma stage_open: "bet_stage row0 ''open'' state oid row \<Longrightarrow> is_open row"
  by (simp add: bet_stage_def has_status_def)

lemma stage_fields:
  "bet_stage row0 ''open'' st oid row \<Longrightarrow>
   bet_stage row0 ''open'' state (case new of None \<Rightarrow> oid | Some x \<Rightarrow> x) (jupdate row (state_fields state err new))"
  by (auto simp: bet_stage_def order_terms_def state_fields_def jget_jset split: option.split)

lemma stage_identity:
  "bet_stage row0 ''open'' st oid row \<Longrightarrow> bet_stage row0 ''open'' st (JStr new) (jset ''order_id'' (JStr new) row)"
  by (simp add: bet_stage_def order_terms_def jget_jset)

lemma stage_failed:
  "bet_stage row0 status st oid row \<Longrightarrow> bet_stage row0 ''cancelled'' ''failed'' oid (failed_row stamp reason row)"
  by (simp add: bet_stage_def order_terms_def failed_row_def cancelled_row_def Let_def jget_jset)

section \<open>Following a submission\<close>

text \<open>The bet \<open>row0\<close> of the submission is journalled, and it has reached a stage.\<close>

definition at_stage ::
  "desk \<Rightarrow> dict list \<Rightarrow> dict \<Rightarrow> string \<Rightarrow> string \<Rightarrow> json \<Rightarrow> submission \<Rightarrow> bool" where
  "at_stage d bets row0 status state oid s \<longleftrightarrow>
     (\<exists>row l. last_row bets row (sb_desk s) \<and> sb_desk s = d\<lparr>dk_ledger := l\<rparr>
        \<and> bet_id (sb_bet s) = Inr (row_id row) \<and> bet_stage row0 status state oid row)"

lemma at_stage_frame [simp]:
  "at_stage d bets row0 status state oid (s\<lparr>sb_info := x\<rparr>) = at_stage d bets row0 status state oid s"
  "at_stage d bets row0 status state oid (s\<lparr>sb_posts := y\<rparr>) = at_stage d bets row0 status state oid s"
  by (simp_all add: at_stage_def)

lemma stage_id: "bet_stage row0 status state oid row \<Longrightarrow> row_id row = row_id row0"
  by (simp add: bet_stage_def order_terms_def row_id_def)

text \<open>An operation of the desk that writes the last row moves the submission to a new stage.\<close>

lemma on_desk_stage:
  assumes "at_stage d bets row0 status state oid s"
    and writes: "\<And>row. last_row bets row (sb_desk s) \<Longrightarrow> bet_id (sb_bet s) = Inr (row_id row) \<Longrightarrow>
      bet_stage row0 status state oid row \<Longrightarrow> desk_writes bets (f (sb_bet s)) (sb_desk s) x (g row)"
    and moved: "\<And>row. bet_stage row0 status state oid row \<Longrightarrow> bet_stage row0 status' state' oid' (g row)"
  obtains s' where "on_desk f s = (Inr x, s')" "at_stage d bets row0 status' state' oid' s'"
    "sb_info s' = sb_info s" "sb_posts s' = sb_posts s" "sb_bet s' = sb_bet s"
proof -
  obtain row l where row: "last_row bets row (sb_desk s)" "sb_desk s = d\<lparr>dk_ledger := l\<rparr>"
    "bet_id (sb_bet s) = Inr (row_id row)" "bet_stage row0 status state oid row"
    using assms(1) by (auto simp: at_stage_def)
  obtain l' where l': "f (sb_bet s) (sb_desk s) = (Inr x, (sb_desk s)\<lparr>dk_ledger := l'\<rparr>)"
    "last_row bets (g row) ((sb_desk s)\<lparr>dk_ledger := l'\<rparr>)"
    using writes [OF row(1,3,4)] by (auto simp: desk_writes_def)
  have "row_id (g row) = row_id row" using stage_id [OF row(4)] stage_id [OF moved [OF row(4)]] by simp
  then have "at_stage d bets row0 status' state' oid' (s\<lparr>sb_desk := (sb_desk s)\<lparr>dk_ledger := l'\<rparr>\<rparr>)"
    using l'(2) row(2,3) moved [OF row(4)] by (auto simp: at_stage_def)
  then show thesis
    by (rule that [of "s\<lparr>sb_desk := (sb_desk s)\<lparr>dk_ledger := l'\<rparr>\<rparr>", rotated]) (simp_all add: on_desk_def l'(1))
qed

lemma state_stage:
  assumes "at_stage d bets row0 ''open'' st oid s"
    and "recorded_order_id (sb_bet s) = [] \<or> map_option py_str new \<in> {None, Some (recorded_order_id (sb_bet s))}"
  obtains s' where "on_desk (\<lambda>bet. update_submission_state bet state err new) s = (Inr (), s')"
    "at_stage d bets row0 ''open'' state (case new of None \<Rightarrow> oid | Some x \<Rightarrow> x) s'"
    "sb_info s' = sb_info s" "sb_posts s' = sb_posts s"
  by (rule on_desk_stage [OF assms(1), where f = "\<lambda>bet. update_submission_state bet state err new" and x = "()"
        and g = "\<lambda>row. jupdate row (state_fields state err new)" and status' = "''open''" and state' = state
        and oid' = "case new of None \<Rightarrow> oid | Some x \<Rightarrow> x"])
    (auto intro: writes_state [OF _ stage_open _ assms(2)] stage_fields)

lemma failed_stage:
  assumes "at_stage d bets row0 ''open'' st oid s"
  obtains s' where "on_desk (\<lambda>bet. cancel_submission_attempt stamp bet reason) s = (Inr (), s')"
    "at_stage d bets row0 ''cancelled'' ''failed'' oid s'" "sb_info s' = sb_info s" "sb_posts s' = sb_posts s"
  by (rule on_desk_stage [OF assms, where f = "\<lambda>bet. cancel_submission_attempt stamp bet reason" and x = "()"
        and g = "failed_row stamp reason" and status' = "''cancelled''" and state' = "''failed''" and oid' = oid])
    (auto intro: writes_failure [OF _ stage_open] stage_failed)

lemma amounts_stage:
  assumes "at_stage d bets row0 ''open'' st oid s"
  obtains s' where "record_amounts kind a s = (Inr (), s')" "at_stage d bets row0 ''open'' st oid s'"
    "sb_info s' = sb_info s" "sb_posts s' = sb_posts s" "sb_bet s' = sb_bet s"
proof (cases "kind = Marketable_limit")
  case True
  let ?u = "[(''requested_amount'', rounded (nb_amount a) 2), (''submitted_amount'', rounded (nb_amount a) 2)]"
  let ?f = "\<lambda>bet. dbind (dlift (bet_id bet)) (\<lambda>i. unit_op (on_ledger (update_bet_fields i True ?u)))"
  have u: "harmless ?u" "?u \<noteq> []" by (simp_all add: harmless_def)
  have writes: "desk_writes bets (?f (sb_bet s)) (sb_desk s) () (jupdate row ?u)"
    if "last_row bets row (sb_desk s)" "bet_id (sb_bet s) = Inr (row_id row)"
      "bet_stage row0 ''open'' st oid row" for row
    using that(1) stage_open [OF that(3)] that(2) u by (rule writes_fields)
  have moved: "bet_stage row0 ''open'' st oid (jupdate row ?u)" if "bet_stage row0 ''open'' st oid row" for row
    using that by (simp add: bet_stage_def order_terms_def jget_jset)
  have run: "record_amounts kind a = on_desk ?f" using True by (simp add: record_amounts_def)
  show thesis
    by (rule on_desk_stage [where f = ?f and x = "()" and g = "\<lambda>row. jupdate row ?u", OF assms writes moved])
      (assumption+, rule that [unfolded run])
qed (use assms that in \<open>simp add: record_amounts_def\<close>)

text \<open>The signed identity is journalled before the order is sent.\<close>

lemma at_stage_bet:
  "bet_id b = bet_id (sb_bet s) \<Longrightarrow>
   at_stage d bets row0 status state oid (s\<lparr>sb_bet := b\<rparr>) = at_stage d bets row0 status state oid s"
  by (simp add: at_stage_def)

lemma bet_id_order_id [simp]: "bet_id (jset ''order_id'' v bet) = bet_id bet"
  by (simp add: bet_id_def jget_jset)

lemma identity_refused: "journal_identity [] s = (Inl (Books_failure (OrderRuntimeError ''Signed order has no durable identity'')), s)"
  by (simp add: journal_identity_def xbind_def on_desk_def record_prepared_order_id_def)

lemma identity_journalled:
  assumes "at_stage d bets row0 ''open'' st oid s" "recorded_order_id (sb_bet s) = []" "h \<noteq> []"
  obtains s' where "journal_identity h s = (Inr (), s')" "at_stage d bets row0 ''open'' st (JStr h) s'"
    "sb_info s' = sb_info s" "sb_posts s' = sb_posts s" "jget (sb_bet s') ''order_id'' = JStr h"
proof -
  let ?b = "jset ''order_id'' (JStr h) (sb_bet s)"
  have writes: "desk_writes bets (record_prepared_order_id (sb_bet s) h) (sb_desk s) ?b (jset ''order_id'' (JStr h) row)"
    if "last_row bets row (sb_desk s)" "bet_id (sb_bet s) = Inr (row_id row)" "bet_stage row0 ''open'' st oid row" for row
    using that(1) stage_open [OF that(3)] that(2) assms(3,2) by (rule writes_identity)
  obtain s' where s': "on_desk (\<lambda>bet. record_prepared_order_id bet h) s = (Inr ?b, s')"
    "at_stage d bets row0 ''open'' st (JStr h) s'" "sb_info s' = sb_info s" "sb_posts s' = sb_posts s" "sb_bet s' = sb_bet s"
    by (rule on_desk_stage [where f = "\<lambda>bet. record_prepared_order_id bet h" and x = ?b
          and g = "jset ''order_id'' (JStr h)", OF assms(1) writes stage_identity])
  show thesis
    by (rule that [of "s'\<lparr>sb_bet := ?b\<rparr>"])
      (simp_all add: journal_identity_def s' at_stage_bet [of ?b s'])
qed

section \<open>The client\<close>

text \<open>Either nothing was sent, or the order was sent under the journalled identity.\<close>

definition sent_order :: "submit_env \<Rightarrow> string \<Rightarrow> submission \<Rightarrow> submission \<Rightarrow> bool" where
  "sent_order env h s s' \<longleftrightarrow>
     sdk_sign (se_sdk env) = Inr h \<and> h \<noteq> [] \<and> require_unpaused (se_environ env) (se_submit_switch env) = Inr ()
     \<and> sb_posts s' = sb_posts s @ [(Some h, dk_ledger (sb_desk s'))] \<and> jget (sb_bet s') ''order_id'' = JStr h"

text \<open>The order can be sent: it passes the checks of the client, the SDK connects and signs it, and
  trading is not paused.\<close>

definition sendable :: "submit_env \<Rightarrow> new_bet_args \<Rightarrow> bool" where
  "sendable env a \<longleftrightarrow>
     limit_order_refusal ''BUY'' (nb_price a) (nb_shares a) = None \<and> sdk_connect (se_sdk env) = None
     \<and> (case sdk_sign (se_sdk env) of Inl _ \<Rightarrow> False | Inr h \<Rightarrow> h \<noteq> [])
     \<and> require_unpaused (se_environ env) (se_submit_switch env) = Inr ()"

abbreviation live_client :: "submit_env \<Rightarrow> new_bet_args \<Rightarrow> json sub_op" where
  "live_client env a \<equiv> create_limit_order (se_sdk env) sent ''BUY'' (nb_price a) (nb_shares a)
     (Some (unpaused_guard env)) (Some journal_identity)"

lemma client_cases:
  assumes "at_stage d bets row0 ''open'' st JNull s" "recorded_order_id (sb_bet s) = []"
    and "live_client env a s = (r, s')"
  obtains (unsent) e oid where "r = Inl e" "at_stage d bets row0 ''open'' st oid s'"
      "sb_posts s' = sb_posts s" "sb_info s' = sb_info s" "\<not> sendable env a"
  | (posted) h where "at_stage d bets row0 ''open'' st (JStr h) s'" "sent_order env h s s'"
      "sb_info s' = sb_info s"
      "r = (case sdk_post (se_sdk env) of Inl e \<Rightarrow> Inl (Exchange_failure e) | Inr v \<Rightarrow> Inr v)" "sendable env a"
proof -
  have stop: thesis if "r = Inl e" "s' = s" "\<not> sendable env a" for e
    using unsent [OF that(1)] assms(1) that(2,3) by simp
  consider (early) e where "live_client env a s = (Inl e, s)" "\<not> sendable env a"
    | (signing) h where "sdk_sign (se_sdk env) = Inr h" "h \<noteq> []"
        "live_client env a s = xbind (journal_identity h) (\<lambda>_. xbind (unpaused_guard env)
           (\<lambda>_. post_order (se_sdk env) sent (Some h))) s"
        "sendable env a \<longleftrightarrow> require_unpaused (se_environ env) (se_submit_switch env) = Inr ()"
  proof (cases "limit_order_refusal ''BUY'' (nb_price a) (nb_shares a)")
    case None
    show thesis
    proof (cases "sdk_connect (se_sdk env)")
      case no_error: None
      show thesis
      proof (cases "sdk_sign (se_sdk env)")
        case (Inr h)
        then show thesis
          using None no_error early signing [OF Inr] identity_refused [of s]
          by (cases "h = []") (auto simp: sendable_def create_limit_order_def prepare_order_def xbind_def fun_eq_iff split: prod.split sum.split)
      qed (use None no_error early in \<open>simp add: sendable_def create_limit_order_def prepare_order_def\<close>)
    qed (use None early in \<open>simp add: sendable_def create_limit_order_def\<close>)
  qed (use early in \<open>simp add: sendable_def create_limit_order_def\<close>)
  then show thesis
  proof cases
    case (signing h)
    obtain s1 where s1: "journal_identity h s = (Inr (), s1)" "at_stage d bets row0 ''open'' st (JStr h) s1"
      "sb_info s1 = sb_info s" "sb_posts s1 = sb_posts s" "jget (sb_bet s1) ''order_id'' = JStr h"
      using identity_journalled [OF assms(1,2) signing(2)] by blast
    show thesis
    proof (cases "require_unpaused (se_environ env) (se_submit_switch env)")
      case (Inl e)
      then have "unpaused_guard env = xraise (Guard_rejected (pause_text e))"
        by (simp add: unpaused_guard_def)
      then have "r = Inl (Guard_rejected (pause_text e))" "s' = s1"
        using assms(3) signing(3) by (simp_all add: s1(1))
      then show thesis using unsent s1 signing(4) Inl by simp
    next
      case (Inr u)
      then have "unpaused_guard env = xreturn ()" by (simp add: unpaused_guard_def)
      then have "post_order (se_sdk env) sent (Some h) s1 = (r, s')"
        using assms(3) signing(3) by (simp add: s1(1))
      then have "s' = sent (Some h) s1"
        "r = (case sdk_post (se_sdk env) of Inl e \<Rightarrow> Inl (Exchange_failure e) | Inr v \<Rightarrow> Inr v)"
        by (cases "sdk_post (se_sdk env)"; simp add: post_order_def)+
      then show thesis
        using posted [of h] s1 signing Inr by (simp add: sent_order_def sent_def)
    qed
  qed (use stop assms(3) in simp)
qed

section \<open>The answer and the failure\<close>

lemma stripped_JStr [simp]: "stripped (JStr h) = py_strip h"
  by (simp add: stripped_def)

abbreviation identity_conflict :: submit_failure where
  "identity_conflict \<equiv> Books_failure (OrderRuntimeError
     ''CLOB response order id differs from the journalled signed order'')"

lemma identity_conflict_doubtful: "\<not> order_failure_is_warning identity_conflict"
  by code_simp

lemma answer_cases:
  assumes "at_stage d bets row0 ''open'' st (JStr h) s" "jget (sb_bet s) ''order_id'' = JStr h"
    and "record_answer kind a oid s = (r, s')"
  obtains (placed) "r = Inr ()" "at_stage d bets row0 ''open'' ''submitted'' oid s'"
      "py_strip h = [] \<or> py_str oid = py_strip h" "jget (sb_info s') ''status'' = JStr ''placed''"
      "sb_posts s' = sb_posts s"
  | (unnamed) "r = Inr ()" "at_stage d bets row0 ''open'' ''unknown'' (JStr h) s'"
      "jget (sb_info s') ''status'' = JStr ''unknown''" "sb_posts s' = sb_posts s"
  | (conflict) "r = Inl identity_conflict" "at_stage d bets row0 ''open'' st (JStr h) s'" "sb_posts s' = sb_posts s"
proof (cases "truthy oid")
  case True
  let ?s = "s\<lparr>sb_info := jset ''status'' (JStr ''placed'') (sb_info s)\<rparr>"
  obtain s1 where s1: "record_amounts kind a ?s = (Inr (), s1)" "at_stage d bets row0 ''open'' st (JStr h) s1"
    "sb_info s1 = sb_info ?s" "sb_posts s1 = sb_posts s" "sb_bet s1 = sb_bet s"
    using amounts_stage [of d bets row0 st "JStr h" ?s kind a] assms(1) by auto
  have rest: "on_desk (\<lambda>bet. update_submission_state bet ''submitted'' JNull (Some oid)) s1 = (r, s')"
    using assms(3) True by (simp add: record_answer_def s1(1))
  have named: "recorded_order_id (sb_bet s1) = py_strip h" by (simp add: recorded_order_id_def s1(5) assms(2))
  show thesis
  proof (cases "py_strip h = [] \<or> py_str oid = py_strip h")
    case True
    then have "recorded_order_id (sb_bet s1) = []
        \<or> map_option py_str (Some oid) \<in> {None, Some (recorded_order_id (sb_bet s1))}"
      using named by auto
    from state_stage [OF s1(2) this, of "''submitted''" JNull] obtain s2 where
      "on_desk (\<lambda>bet. update_submission_state bet ''submitted'' JNull (Some oid)) s1 = (Inr (), s2)"
      "at_stage d bets row0 ''open'' ''submitted'' oid s2" "sb_info s2 = sb_info s1" "sb_posts s2 = sb_posts s1"
      by auto
    then show thesis using placed True rest s1(3,4) by simp
  next
    case False
    then have "r = Inl identity_conflict" "s' = s1"
      using rest named by (auto simp: on_desk_def update_submission_state_def)
    then show thesis using conflict s1(2,4) by simp
  qed
next
  case False
  let ?s = "s\<lparr>sb_info := jset ''error'' (JStr (kind_label kind @ '' response missing durable order id''))
      (jset ''status'' (JStr ''unknown'') (sb_info s))\<rparr>"
  let ?err = "JStr (pending_submission_reason kind ''response missing durable order id'')"
  have "at_stage d bets row0 ''open'' st (JStr h) ?s" using assms(1) by simp
  from state_stage [OF this, of None "''unknown''" ?err] obtain s2 where
    "on_desk (\<lambda>bet. update_submission_state bet ''unknown'' ?err None) ?s = (Inr (), s2)"
    "at_stage d bets row0 ''open'' ''unknown'' (JStr h) s2" "sb_info s2 = sb_info ?s" "sb_posts s2 = sb_posts ?s"
    by auto
  then show thesis using unnamed assms(3) False by (auto simp: record_answer_def jget_jset)
qed

lemma failure_cases:
  assumes "at_stage d bets row0 ''open'' st oid s"
  obtains (rejected) s' where "record_failure env kind e s = (Inr (), s')" "order_failure_is_warning e"
      "at_stage d bets row0 ''cancelled'' ''failed'' oid s'"
      "jget (sb_info s') ''status'' = JStr ''failed''" "sb_posts s' = sb_posts s"
  | (doubtful) s' where "record_failure env kind e s = (Inr (), s')" "\<not> order_failure_is_warning e"
      "at_stage d bets row0 ''open'' ''unknown'' oid s'"
      "jget (sb_info s') ''status'' = JStr ''unknown''" "sb_posts s' = sb_posts s"
proof -
  let ?s = "\<lambda>status. s\<lparr>sb_info := jset ''error'' (JStr (failure_text e)) (jset ''status'' (JStr status) (sb_info s))\<rparr>"
  have start: "at_stage d bets row0 ''open'' st oid (?s status)" for status using assms by simp
  show thesis
  proof (cases "order_failure_is_warning e")
    case True
    from failed_stage [OF start [of "''failed''"], of "se_cancelled_at env" "''submit_failed: '' @ failure_text e"]
    obtain s2 where "on_desk (\<lambda>bet. cancel_submission_attempt (se_cancelled_at env) bet
          (''submit_failed: '' @ failure_text e)) (?s ''failed'') = (Inr (), s2)"
      "at_stage d bets row0 ''cancelled'' ''failed'' oid s2" "sb_info s2 = sb_info (?s ''failed'')"
      "sb_posts s2 = sb_posts s" by auto
    with True show thesis by (intro rejected [of s2]) (simp_all add: record_failure_def jget_jset)
  next
    case False
    let ?err = "JStr (pending_submission_reason kind (failure_text e))"
    from state_stage [OF start [of "''unknown''"], of None "''unknown''" ?err]
    obtain s2 where "on_desk (\<lambda>bet. update_submission_state bet ''unknown'' ?err None) (?s ''unknown'') = (Inr (), s2)"
      "at_stage d bets row0 ''open'' ''unknown'' oid s2" "sb_info s2 = sb_info (?s ''unknown'')"
      "sb_posts s2 = sb_posts s" by auto
    with False show thesis by (intro doubtful [of s2]) (simp_all add: record_failure_def jget_jset)
  qed
qed

end
