(* ===== verification/Submission_Outcomes.thy ===== *)
theory Submission_Outcomes
  imports Submission_Laws Order_Outcomes
begin

text \<open>
  The properties of a submission: an order is only sent when the intent and the identity of the order
  are on file, and every submission of a live desk ends with books that agree with what is known of
  the order.
\<close>

section \<open>The intent\<close>

lemma add_bet_row:
  assumes "add_bet stamp a l = (Inr bet, l')"
  shows "\<exists>i. bet = jupdate (add_row_base stamp a i) (nb_metadata a)" "lg_read_only l' = lg_read_only l"
  using assms
  by (auto simp: add_bet_def mutate_locked_def add_row_def sbind_eq_Inr Let_def split: if_split_asm sum.split_asm)

text \<open>The terms of a live order; the first term is the id.\<close>

definition live_terms :: "order_kind \<Rightarrow> new_bet_args \<Rightarrow> json list" where
  "live_terms kind a =
     [nb_market_id a, nb_token_id a, rounded (nb_price a) 4, rounded (nb_shares a) 2, rounded (nb_amount a) 2,
      JBool False, JStr (kind_type kind)]"

definition signal_metadata :: "new_bet_args \<Rightarrow> bool" where
  "signal_metadata a \<longleftrightarrow> fst ` set (nb_metadata a) \<subseteq> set LEDGER_SIGNAL_METADATA_FIELDS"

lemma live_bet_fields:
  assumes "signal_metadata a"
  shows "tl (order_terms (jupdate (add_row_base stamp (live_bet_args kind a) i) (nb_metadata a))) = live_terms kind a"
    and "jget (jupdate (add_row_base stamp (live_bet_args kind a) i) (nb_metadata a)) ''status'' = JStr ''open''"
    and "jget (jupdate (add_row_base stamp (live_bet_args kind a) i) (nb_metadata a)) ''placement_state'' = JStr ''pending_submit''"
    and "jget (jupdate (add_row_base stamp (live_bet_args kind a) i) (nb_metadata a)) ''order_id'' = JNull"
proof -
  have other: "jget (jupdate (add_row_base stamp (live_bet_args kind a) i) (nb_metadata a)) k
      = jget (add_row_base stamp (live_bet_args kind a) i) k"
    if "k \<notin> set LEDGER_SIGNAL_METADATA_FIELDS" for k
    using assms that by (intro jget_jupdate_other) (auto simp: signal_metadata_def)
  show "tl (order_terms (jupdate (add_row_base stamp (live_bet_args kind a) i) (nb_metadata a))) = live_terms kind a"
    by (simp add: order_terms_def other LEDGER_SIGNAL_METADATA_FIELDS_def live_terms_def)
      (simp add: add_row_base_def jget_Cons live_bet_args_def)
  show "jget (jupdate (add_row_base stamp (live_bet_args kind a) i) (nb_metadata a)) ''status'' = JStr ''open''"
    "jget (jupdate (add_row_base stamp (live_bet_args kind a) i) (nb_metadata a)) ''placement_state'' = JStr ''pending_submit''"
    "jget (jupdate (add_row_base stamp (live_bet_args kind a) i) (nb_metadata a)) ''order_id'' = JNull"
    by (simp_all add: other LEDGER_SIGNAL_METADATA_FIELDS_def)
      (simp_all add: add_row_base_def jget_Cons live_bet_args_def default_placement_def)
qed

text \<open>A desk that can take a live order.\<close>

definition ready_desk :: "desk \<Rightarrow> bool" where
  "ready_desk d \<longleftrightarrow>
     \<not> dk_dry_run d \<and> \<not> lg_read_only (dk_ledger d) \<and> list_all positive_id (disk_rows (dk_ledger d))"

abbreviation old_rows :: "desk \<Rightarrow> dict list" where
  "old_rows d \<equiv> disk_rows (dk_ledger d)"

lemma journal_stage:
  assumes "ready_desk d" "signal_metadata a" "require_unpaused (se_environ env) (se_journal_switch env) = Inr u"
  obtains bet s where "journal_live_order_attempt env kind a (new_submission info d) = (Inr bet, s)"
    "last_row (old_rows d) bet (sb_desk s)" "\<exists>l. sb_desk s = d\<lparr>dk_ledger := l\<rparr>"
    "bet_stage bet ''open'' ''pending_submit'' JNull bet" "tl (order_terms bet) = live_terms kind a"
    "sb_info s = info" "sb_posts s = []"
proof -
  let ?a = "live_bet_args kind a"
  obtain r l where add: "add_bet (se_placed_at env) ?a (dk_ledger d) = (r, l)" by fastforce
  have meta: "nb_metadata ?a = nb_metadata a" by (simp add: live_bet_args_def)
  have "''id'' \<notin> fst ` set (nb_metadata ?a)"
    using assms(2) by (auto simp: meta signal_metadata_def LEDGER_SIGNAL_METADATA_FIELDS_def)
  from add_bet_file [OF add _ _ this] assms(1) obtain bet where bet: "r = Inr bet"
    "disk_rows l = old_rows d @ [bet]" "positive_id bet" "\<forall>b \<in> set (old_rows d). row_id b < row_id bet"
    by (auto simp: ready_desk_def)
  obtain i where i: "bet = jupdate (add_row_base (se_placed_at env) ?a i) (nb_metadata a)"
    using add_bet_row(1) [OF add [unfolded bet(1)]] meta by auto
  have "\<not> lg_read_only l" using add_bet_row(2) [OF add [unfolded bet(1)]] assms(1) by (simp add: ready_desk_def)
  then have "last_row (old_rows d) bet (d\<lparr>dk_ledger := l\<rparr>)"
    using bet assms(1) by (simp add: last_row_def ready_desk_def)
  moreover have "bet_stage bet ''open'' ''pending_submit'' JNull bet"
    using live_bet_fields(2-4) [OF assms(2)] by (simp add: bet_stage_def i)
  moreover have "tl (order_terms bet) = live_terms kind a"
    unfolding i by (rule live_bet_fields(1) [OF assms(2)])
  ultimately show thesis
    by (intro that [of bet "(new_submission info d)\<lparr>sb_desk := d\<lparr>dk_ledger := l\<rparr>\<rparr>"])
      (auto simp: journal_live_order_attempt_def assms(3) add_to_ledger_def add bet(1) new_submission_def)
qed

section \<open>The ends of a submission\<close>

text \<open>What was sent, and what was on file at that moment.\<close>

definition posts_journalled :: "submit_env \<Rightarrow> dict list \<Rightarrow> dict \<Rightarrow> (string option \<times> ledger) list \<Rightarrow> bool" where
  "posts_journalled env bets row0 posts \<longleftrightarrow>
     posts = []
     \<or> (\<exists>h l row. posts = [(Some h, l)] \<and> sdk_sign (se_sdk env) = Inr h \<and> h \<noteq> []
          \<and> require_unpaused (se_environ env) (se_submit_switch env) = Inr ()
          \<and> disk_rows l = bets @ [row] \<and> bet_stage row0 ''open'' ''pending_submit'' (JStr h) row)"

text \<open>The order id of an order that was sent but not placed is the signed one.\<close>

definition keeps_identity :: "submit_env \<Rightarrow> submission \<Rightarrow> json \<Rightarrow> bool" where
  "keeps_identity env s oid \<longleftrightarrow> sb_posts s = [] \<or> (\<exists>h. sdk_sign (se_sdk env) = Inr h \<and> h \<noteq> [] \<and> oid = JStr h)"

text \<open>A sent order is written off only when the exchange has refused it for certain.\<close>

definition written_off :: "submit_env \<Rightarrow> submission \<Rightarrow> bool" where
  "written_off env s \<longleftrightarrow>
     sb_posts s = [] \<or> (\<exists>e. sdk_post (se_sdk env) = Inl e \<and> order_failure_is_warning (Exchange_failure e))"

definition ended :: "submit_env \<Rightarrow> desk \<Rightarrow> dict list \<Rightarrow> dict \<Rightarrow> submission \<Rightarrow> bool" where
  "ended env d bets row0 s \<longleftrightarrow>
     (\<exists>oid. jget (sb_info s) ''status'' = JStr ''placed'' \<and> at_stage d bets row0 ''open'' ''submitted'' oid s
        \<and> sb_posts s \<noteq> []
        \<and> (\<exists>h. sdk_sign (se_sdk env) = Inr h \<and> (py_strip h = [] \<or> py_str oid = py_strip h)))
     \<or> (\<exists>oid. jget (sb_info s) ''status'' = JStr ''unknown'' \<and> at_stage d bets row0 ''open'' ''unknown'' oid s
        \<and> keeps_identity env s oid)
     \<or> (\<exists>oid. jget (sb_info s) ''status'' = JStr ''failed'' \<and> at_stage d bets row0 ''cancelled'' ''failed'' oid s
        \<and> keeps_identity env s oid \<and> written_off env s)"

lemma handled:
  assumes "at_stage d bets row0 ''open'' ''pending_submit'' oid s" "keeps_identity env s oid"
    and "order_failure_is_warning e \<longrightarrow> written_off env s"
  obtains s' where "record_failure env kind e s = (Inr (), s')" "ended env d bets row0 s'" "sb_posts s' = sb_posts s"
  using assms(1)
proof (cases rule: failure_cases [where env = env and kind = kind and e = e])
  case (rejected s')
  then show thesis using that assms(2,3) by (auto simp: ended_def keeps_identity_def written_off_def)
next
  case (doubtful s')
  then show thesis using that assms(2) by (auto simp: ended_def keeps_identity_def)
qed

lemma sent_journalled:
  assumes "at_stage d bets row0 ''open'' ''pending_submit'' (JStr h) s'" "sent_order env h s s'" "sb_posts s = []"
  shows "posts_journalled env bets row0 (sb_posts s')"
  using assms by (auto simp: posts_journalled_def sent_order_def at_stage_def last_row_def)

text \<open>The attempt, with the handler of its exceptions.\<close>

lemma attempt_ends:
  assumes "at_stage d bets row0 ''open'' ''pending_submit'' JNull s" "recorded_order_id (sb_bet s) = []" "sb_posts s = []"
  obtains (finished) s' where "xcatch (submit_attempt env kind a) (record_failure env kind) s = (Inr (), s')"
    "ended env d bets row0 s'" "posts_journalled env bets row0 (sb_posts s')" "sb_posts s' \<noteq> [] \<longleftrightarrow> sendable env a"
proof -
  obtain r s1 where run: "live_client env a s = (r, s1)" by fastforce
  from assms(1,2) run show thesis
  proof (cases rule: client_cases)
    case (unsent e oid)
    have "submit_attempt env kind a s = (Inl e, s1)" using run unsent(1) by (simp add: submit_attempt_def)
    moreover obtain s' where "record_failure env kind e s1 = (Inr (), s')" "ended env d bets row0 s'"
      "sb_posts s' = sb_posts s1"
      using handled [OF unsent(2), of env e] unsent(3) assms(3) by (auto simp: keeps_identity_def written_off_def)
    ultimately show thesis
      using finished [of s'] unsent(3,5) assms(3) by (simp add: xcatch_def posts_journalled_def)
  next
    case (posted h)
    have kept: "keeps_identity env x (JStr h)" for x
      using posted(2) by (auto simp: keeps_identity_def sent_order_def)
    have journal: "posts_journalled env bets row0 (sb_posts s1)"
      using posted(1,2) assms(3) by (rule sent_journalled)
    have went: "sb_posts s1 \<noteq> [] \<longleftrightarrow> sendable env a" using posted(2,5) by (simp add: sent_order_def)
    have failed: thesis if "submit_attempt env kind a s = (Inl e, x)" "sb_posts x = sb_posts s1"
        "at_stage d bets row0 ''open'' ''pending_submit'' (JStr h) x"
        "order_failure_is_warning e \<longrightarrow> written_off env x" for e x
    proof -
      note facts = that
      obtain s' where "record_failure env kind e x = (Inr (), s')" "ended env d bets row0 s'" "sb_posts s' = sb_posts x"
        using handled [OF facts(3) kept facts(4), of kind] by blast
      then show thesis using finished [of s'] facts(1,2) journal went by (simp add: xcatch_def)
    qed
    show thesis
    proof (cases r)
      case (Inl e)
      then have "written_off env s1" if "order_failure_is_warning e"
        using posted(4) that by (auto simp: written_off_def split: sum.split_asm)
      then show thesis using failed [of e s1] run posted(1) Inl by (simp add: submit_attempt_def)
    next
      case (Inr response)
      let ?oid = "extract_order_id response"
      define s2 where "s2 = snd (note_response kind a response s1)"
      have s2: "note_response kind a response s1 = (Inr (), s2)"
        "at_stage d bets row0 ''open'' ''pending_submit'' (JStr h) s2" "sb_posts s2 = sb_posts s1"
        "jget (sb_bet s2) ''order_id'' = JStr h"
        using posted(1,2) by (simp_all add: s2_def note_response_def sent_order_def)
      obtain q s3 where answer: "record_answer kind a ?oid s2 = (q, s3)" by fastforce
      have attempt: "submit_attempt env kind a s = (q, s3)"
        using run Inr s2(1) answer by (simp add: submit_attempt_def)
      from s2(2,4) answer show thesis
      proof (cases rule: answer_cases)
        case placed
        then have "ended env d bets row0 s3"
          using posted(2) s2(3) unfolding ended_def sent_order_def by fastforce
        then show thesis
          using finished [of s3] placed(1,5) attempt journal went s2(3) by (simp add: xcatch_def)
      next
        case unnamed
        then have "ended env d bets row0 s3" using kept [of s3] unfolding ended_def by blast
        then show thesis
          using finished [of s3] unnamed(1,4) attempt journal went s2(3) by (simp add: xcatch_def)
      next
        case conflict
        then show thesis using failed [of identity_conflict s3] attempt s2(3) identity_conflict_doubtful by simp
      qed
    qed
  qed
qed

lemma submission_cases:
  assumes "submit_order env kind a info d = (r, s)" "ready_desk d" "signal_metadata a"
  obtains (paused) e where "r = Inl e" "require_unpaused (se_environ env) (se_journal_switch env) \<noteq> Inr ()"
      "sb_desk s = d" "sb_posts s = []"
  | (finished) row0 s1 where "r = Inr (sb_info s1)" "s = close_submission env a s1"
      "ended env d (old_rows d) row0 s1" "posts_journalled env (old_rows d) row0 (sb_posts s1)"
      "tl (order_terms row0) = live_terms kind a" "\<forall>b \<in> set (old_rows d). row_id b < row_id row0"
      "require_unpaused (se_environ env) (se_journal_switch env) = Inr ()" "sb_posts s1 \<noteq> [] \<longleftrightarrow> sendable env a"
proof (cases "require_unpaused (se_environ env) (se_journal_switch env)")
  case (Inl e)
  have "submit_live env kind a (new_submission info d) = (Inl (Local_failure (pause_text e)), new_submission info d)"
    by (simp add: submit_live_def journal_live_order_attempt_def Inl)
  then show thesis
    using paused [of "Local_failure (pause_text e)"] assms(1,2) Inl
    by (auto simp: submit_order_def ready_desk_def new_submission_def)
next
  case (Inr u)
  obtain bet s0 where j: "journal_live_order_attempt env kind a (new_submission info d) = (Inr bet, s0)"
    "last_row (old_rows d) bet (sb_desk s0)" "\<exists>l. sb_desk s0 = d\<lparr>dk_ledger := l\<rparr>"
    "bet_stage bet ''open'' ''pending_submit'' JNull bet" "tl (order_terms bet) = live_terms kind a"
    "sb_info s0 = info" "sb_posts s0 = []"
    using journal_stage [OF assms(2,3) Inr] .
  let ?s = "s0\<lparr>sb_bet := bet, sb_info := jset ''ledger_bet_id'' (jget bet ''id'') info\<rparr>"
  have "positive_id bet" "\<forall>b \<in> set (old_rows d). row_id b < row_id bet" using j(2) by (auto simp: last_row_def)
  then have id: "bet_id bet = Inr (row_id bet)" by (simp add: positive_id_iff bet_id_Inr)
  then have "at_stage d (old_rows d) bet ''open'' ''pending_submit'' JNull ?s"
    using j(2,3,4) by (auto simp: at_stage_def)
  moreover have "recorded_order_id (sb_bet ?s) = []" "sb_posts ?s = []"
    using j(4,7) by (simp_all add: recorded_order_id_def bet_stage_def stripped_def)
  ultimately obtain s1 where s1: "xcatch (submit_attempt env kind a) (record_failure env kind) ?s = (Inr (), s1)"
    "ended env d (old_rows d) bet s1" "posts_journalled env (old_rows d) bet (sb_posts s1)" "sb_posts s1 \<noteq> [] \<longleftrightarrow> sendable env a"
    using attempt_ends [where kind = kind and a = a] by blast
  have "submit_live env kind a (new_submission info d) = (Inr (), s1)"
    using s1(1) j(6) by (simp add: submit_live_def j(1))
  then have "r = Inr (sb_info s1)" "s = close_submission env a s1"
    using assms(1,2) by (auto simp: submit_order_def ready_desk_def close_submission_def Let_def)
  then show thesis
    using finished [OF _ _ s1(2,3) j(5)] \<open>\<forall>b \<in> set (old_rows d). row_id b < row_id bet\<close> Inr s1(4) by simp
qed

section \<open>The properties of a submission\<close>

lemma simulated_sends_nothing:
  assumes "submit_order env kind a info d = (r, s)" "dk_dry_run d"
  shows "sb_posts s = []"
  using assms
  by (auto simp: submit_order_def submit_simulated_def add_to_ledger_def new_submission_def close_submission_def
      xbind_def Let_def split: prod.split_asm sum.split_asm)

lemma closed_desk:
  "dk_ledger (sb_desk (close_submission env a s)) = dk_ledger (sb_desk s)"
  "sb_posts (close_submission env a s) = sb_posts s"
  by (simp_all add: close_submission_def Let_def)

text \<open>
  C6: An order is sent at most once, and only after its intent and its identity are on file: at the
  moment of sending, the last row of the ledger file is an open bet with the terms of the order, in the
  state \<open>pending_submit\<close>, under the hash of the signed order. It is sent exactly when the desk is live, it
  passes the checks of the client, the SDK connects and signs it, and the pause switch is off both when
  the intent is journalled and right before sending.
\<close>

theorem order_sent_only_when_journalled:
  assumes "submit_order env kind a info d = (r, s)" "dk_dry_run d \<or> ready_desk d" "signal_metadata a"
  shows "length (sb_posts s) \<le> 1
    \<and> (sb_posts s \<noteq> [] \<longleftrightarrow> \<not> dk_dry_run d \<and> sendable env a
        \<and> require_unpaused (se_environ env) (se_journal_switch env) = Inr ())
    \<and> (\<forall>(signed, l) \<in> set (sb_posts s).
         (\<exists>h row. signed = Some h \<and> sdk_sign (se_sdk env) = Inr h \<and> h \<noteq> []
             \<and> disk_rows l = disk_rows (dk_ledger d) @ [row] \<and> tl (order_terms row) = live_terms kind a
             \<and> jget row ''status'' = JStr ''open'' \<and> jget row ''placement_state'' = JStr ''pending_submit''
             \<and> jget row ''order_id'' = JStr h))"
proof (cases "dk_dry_run d")
  case True
  then show ?thesis using simulated_sends_nothing [OF assms(1)] by simp
next
  case False
  then have "ready_desk d" using assms(2) by blast
  from assms(1) this assms(3) show ?thesis
  proof (cases rule: submission_cases)
    case (finished row0 s1)
    from finished(4) show ?thesis
      unfolding posts_journalled_def
      using finished(2,5,7,8) False closed_desk(2) [of env a s1] by (auto simp: bet_stage_def order_terms_def)
  qed simp
qed

text \<open>
  C7: Every submission of a live desk ends with books that agree with what is known of the order. It is
  refused outright only when trading is paused, and then nothing has changed. Otherwise one bet with the
  terms of the order is on file and the result is in the log: a placed order was sent, is open and
  \<open>submitted\<close>, and its stake is charged; an order in doubt stays open as \<open>unknown\<close> under its signed
  identity and nothing is charged; a failed order is cancelled, nothing is charged, and it was never
  sent or the exchange has refused it for certain.
\<close>

theorem submission_agrees_with_books:
  assumes "submit_order env kind a info d = (r, s)" "ready_desk d" "signal_metadata a"
  shows "case r of
      Inl _ \<Rightarrow> require_unpaused (se_environ env) (se_journal_switch env) \<noteq> Inr () \<and> sb_desk s = d \<and> sb_posts s = []
    | Inr info' \<Rightarrow> (\<exists>row. disk_rows (dk_ledger (sb_desk s)) = disk_rows (dk_ledger d) @ [row]
        \<and> (\<forall>b \<in> set (disk_rows (dk_ledger d)). row_id b < row_id row)
        \<and> tl (order_terms row) = live_terms kind a \<and> dk_log (sb_desk s) = dk_log d @ [info']
        \<and> (jget info' ''status'', jget row ''status'', jget row ''placement_state'')
            \<in> {(JStr ''placed'', JStr ''open'', JStr ''submitted''), (JStr ''unknown'', JStr ''open'', JStr ''unknown''),
               (JStr ''failed'', JStr ''cancelled'', JStr ''failed'')}
        \<and> dk_bank (sb_desk s) = (if jget info' ''status'' = JStr ''placed'' then charge_bank env a (dk_bank d) else dk_bank d)
        \<and> (jget info' ''status'' = JStr ''placed'' \<longrightarrow> sb_posts s \<noteq> [])
        \<and> (jget info' ''status'' = JStr ''failed'' \<longrightarrow> written_off env s)
        \<and> (jget info' ''status'' \<noteq> JStr ''placed'' \<longrightarrow> keeps_identity env s (jget row ''order_id'')))"
  using assms
proof (cases rule: submission_cases)
  case (finished row0 s1)
  have bank: "dk_bank (sb_desk s) = (if charges (sb_info s1) then charge_bank env a (dk_bank (sb_desk s1)) else dk_bank (sb_desk s1))"
    and log: "dk_log (sb_desk s) = dk_log (sb_desk s1) @ [sb_info s1]"
    and same: "dk_ledger (sb_desk s) = dk_ledger (sb_desk s1)" "sb_posts s = sb_posts s1"
    by (simp_all add: finished(2) close_submission_def Let_def)
  have known: "keeps_identity env s = keeps_identity env s1" "written_off env s = written_off env s1"
    by (auto simp: keeps_identity_def written_off_def same)
  have row: "\<exists>row. old_rows (sb_desk s) = old_rows d @ [row] \<and> (\<forall>b \<in> set (old_rows d). row_id b < row_id row)
      \<and> tl (order_terms row) = live_terms kind a \<and> dk_log (sb_desk s1) = dk_log d \<and> dk_bank (sb_desk s1) = dk_bank d
      \<and> jget row ''status'' = JStr st \<and> jget row ''placement_state'' = JStr state \<and> jget row ''order_id'' = oid"
    if "at_stage d (old_rows d) row0 st state oid s1" for st state oid
    using that finished(5) same by (auto simp: at_stage_def last_row_def bet_stage_def)
  obtain st state oid where stage: "at_stage d (old_rows d) row0 st state oid s1"
    and status: "(jget (sb_info s1) ''status'', JStr st, JStr state)
        \<in> {(JStr ''placed'', JStr ''open'', JStr ''submitted''), (JStr ''unknown'', JStr ''open'', JStr ''unknown''),
           (JStr ''failed'', JStr ''cancelled'', JStr ''failed'')}"
    and known_order: "jget (sb_info s1) ''status'' = JStr ''placed'' \<longrightarrow> sb_posts s1 \<noteq> []"
      "jget (sb_info s1) ''status'' = JStr ''failed'' \<longrightarrow> written_off env s1"
      "jget (sb_info s1) ''status'' \<noteq> JStr ''placed'' \<longrightarrow> keeps_identity env s1 oid"
    using finished(3) unfolding ended_def by fastforce
  have "charges (sb_info s1) \<longleftrightarrow> jget (sb_info s1) ''status'' = JStr ''placed''"
    using status by (auto simp: charges_def)
  then show ?thesis
    using row [OF stage] status known_order unfolding finished(1) bank log known same sum.case by auto
qed simp

section \<open>A submission\<close>

definition demo_intent :: new_bet_args where
  "demo_intent =
     \<lparr>nb_fighter = JStr ''Jane Doe'', nb_opponent = JStr ''Ann Roe'', nb_side = JStr ''a'',
      nb_amount = Fin 5, nb_price = Fin (1 / 2), nb_shares = Fin 10, nb_token_id = JStr ''t1'',
      nb_market_id = JStr ''m1'', nb_model_prob = Fin (5 / 8), nb_market_prob = Fin (1 / 2),
      nb_edge = Fin (1 / 8), nb_decimal_odds = Fin 2, nb_dry_run = False, nb_event_date = JStr [],
      nb_market_event_date = JStr [], nb_order_type = JNull, nb_order_id = JNull, nb_status = ''open'',
      nb_placement_state = None, nb_submission_error = JNull, nb_condition_id = JStr ''c1'',
      nb_reason = JStr [], nb_metadata = []\<rparr>"

definition demo_env :: "(remote_failure + json) \<Rightarrow> submit_env" where
  "demo_env post = \<lparr>se_environ = None, se_journal_switch = switch_off, se_submit_switch = switch_off,
     se_sdk = \<lparr>sdk_connect = None, sdk_sign = Inr ''0xdef'', sdk_post = post\<rparr>,
     se_placed_at = ''t0'', se_cancelled_at = ''t1'', se_charged_at = ''t2''\<rparr>"

definition demo_submission :: "(remote_failure + json) \<Rightarrow> (submit_failure + dict) \<times> submission" where
  "demo_submission post = submit_order (demo_env post) Limit_bid demo_intent [] demo_desk"

text \<open>The exchange accepts the order, or the connection breaks.\<close>

definition accepted :: "remote_failure + json" where
  "accepted = Inr (JObj [(''orderID'', JStr ''0xdef'')])"

definition broken :: "remote_failure + json" where
  "broken = Inl \<lparr>rf_text = ''Request exception'', rf_status = None, rf_transport = True\<rparr>"

lemma demo_ready: "ready_desk demo_desk" "signal_metadata demo_intent"
  by code_simp+

lemma demo_sendable: "sendable (demo_env post) demo_intent"
proof -
  have "limit_order_refusal ''BUY'' (nb_price demo_intent) (nb_shares demo_intent) = None" by code_simp
  then show ?thesis by (simp add: sendable_def demo_env_def unpaused_iff text_or_empty_def)
qed

lemma demo_unpaused: "require_unpaused (se_environ (demo_env post)) (se_journal_switch (demo_env post)) = Inr ()"
  by (simp add: demo_env_def unpaused_iff text_or_empty_def)

theorem order_sent_only_when_journalled_witness:
  "\<exists>l row. sb_posts (snd (demo_submission accepted)) = [(Some ''0xdef'', l)] \<and> disk_rows l = [demo_bet, row]
     \<and> jget row ''placement_state'' = JStr ''pending_submit'' \<and> jget row ''order_id'' = JStr ''0xdef''"
proof -
  have run: "submit_order (demo_env accepted) Limit_bid demo_intent [] demo_desk
      = (fst (demo_submission accepted), snd (demo_submission accepted))"
    by (simp add: demo_submission_def)
  have "sdk_sign (se_sdk (demo_env accepted)) = Inr ''0xdef''" by (simp add: demo_env_def)
  moreover have "disk_rows (dk_ledger demo_desk) = [demo_bet]" "\<not> dk_dry_run demo_desk"
    by (simp_all add: demo_desk_def read_bets_from_disk_def)
  ultimately show ?thesis
    using order_sent_only_when_journalled [OF run] demo_ready demo_sendable [of accepted] demo_unpaused [of accepted]
    by (cases "sb_posts (snd (demo_submission accepted))") auto
qed

theorem submission_agrees_with_books_witness:
  "\<exists>info row. fst (demo_submission broken) = Inr info
     \<and> disk_rows (dk_ledger (sb_desk (snd (demo_submission broken)))) = [demo_bet, row]
     \<and> jget row ''status'' = JStr ''open'' \<and> tl (order_terms row) = live_terms Limit_bid demo_intent"
proof -
  have run: "submit_order (demo_env broken) Limit_bid demo_intent [] demo_desk
      = (fst (demo_submission broken), snd (demo_submission broken))"
    by (simp add: demo_submission_def)
  have rows: "disk_rows (dk_ledger demo_desk) = [demo_bet]"
    by (simp add: demo_desk_def read_bets_from_disk_def)
  have "sb_posts (snd (demo_submission broken)) \<noteq> []"
    using run demo_ready
    by (cases rule: submission_cases) (use demo_unpaused demo_sendable closed_desk(2) in auto)
  moreover have "sdk_post (se_sdk (demo_env broken)) = broken" by (simp add: demo_env_def)
  moreover have "\<not> order_failure_is_warning (Exchange_failure e)" if "broken = Inl e" for e
  proof -
    have "case broken of Inl e \<Rightarrow> \<not> order_failure_is_warning (Exchange_failure e) | Inr _ \<Rightarrow> False" by code_simp
    then show ?thesis by (simp add: that)
  qed
  ultimately have "\<not> written_off (demo_env broken) (snd (demo_submission broken))"
    by (auto simp: written_off_def)
  then show ?thesis
    using submission_agrees_with_books [OF run demo_ready] demo_unpaused rows
    by (cases "fst (demo_submission broken)") auto
qed

end
