(* ===== verification/Placement_Laws.thy ===== *)
theory Placement_Laws
  imports Near_Miss Submission_Outcomes
begin

text \<open>
  What every step of a placement leaves alone, proved once: a preorder on the state of a placement that the
  elementary steps keep (locale \<open>placing_relation\<close>) is kept by the preparation of an order. It is interpreted
  on two relations: nothing is sent and no cash moves; and after the gate of the market, the files of the
  ledgers do not change either.
\<close>

section \<open>Composing operations\<close>

lemma pbind_Inr:
  "pbind m f s = (Inr y, s') \<longleftrightarrow> (\<exists>x s1. m s = (Inr x, s1) \<and> f x s1 = (Inr y, s'))"
  by (auto simp: pbind_def split: prod.splits sum.splits)

lemma pbind_elim:
  assumes "pbind m f s = (r, s')"
  obtains (left) e where "m s = (Inl e, s')" "r = Inl e"
  | (went_on) x s1 where "m s = (Inr x, s1)" "f x s1 = (r, s')"
  using assms by (cases "m s"; cases "fst (m s)") (auto simp: pbind_def)

lemma preturn_iff [simp]: "preturn x s = (r, s') \<longleftrightarrow> r = Inr x \<and> s' = s"
  by (auto simp: preturn_def)

lemma pskip_iff [simp]: "pskip gate s = (r, s') \<longleftrightarrow> r = Inl (Skips gate) \<and> s' = s"
  by (auto simp: pskip_def)

lemma pask_iff [simp]: "pask g s = (r, s') \<longleftrightarrow> r = Inr (g s) \<and> s' = s"
  by (auto simp: pask_def)

lemma pmodify_iff [simp]: "pmodify g s = (r, s') \<longleftrightarrow> r = Inr () \<and> s' = g s"
  by (auto simp: pmodify_def)

lemma pstop_Inr [simp]: "pstop b gate s = (Inr u, s') \<longleftrightarrow> \<not> b \<and> s' = s"
  by (auto simp: pstop_def)

lemma plift_Inr [simp]: "plift r s = (Inr x, s') \<longleftrightarrow> r = Inr x \<and> s' = s"
  by (auto simp: plift_def split: sum.splits)

lemmas placing_steps = pbind_Inr Let_def

section \<open>The contract of a step\<close>

definition keeps :: "(placing \<Rightarrow> placing \<Rightarrow> bool) \<Rightarrow> 'a placing_op \<Rightarrow> bool" where
  "keeps R m \<longleftrightarrow> (\<forall>s r s'. m s = (r, s') \<longrightarrow> R s s')"

lemma keepsD: "keeps R m \<Longrightarrow> m s = (r, s') \<Longrightarrow> R s s'"
  by (simp add: keeps_def)

locale placing_relation =
  fixes R :: "placing \<Rightarrow> placing \<Rightarrow> bool"
  assumes R_refl: "R s s"
    and R_trans: "R a b \<Longrightarrow> R b c \<Longrightarrow> R a c"
    and R_refresh: "R s (refresh_floor s)"
    and R_cache: "R s (s\<lparr>pl_cache := cache\<rparr>)"
begin

lemma k_return: "keeps R (preturn x)"
  by (simp add: keeps_def R_refl)

lemma k_skip: "keeps R (pskip gate)"
  by (simp add: keeps_def R_refl)

lemma k_stop: "keeps R (pstop b gate)"
  by (simp add: pstop_def k_return k_skip)

lemma k_ask: "keeps R (pask g)"
  by (simp add: keeps_def R_refl)

lemma k_lift: "keeps R (plift r)"
  by (simp add: keeps_def plift_def R_refl)

lemma k_modify: "(\<And>s. R s (g s)) \<Longrightarrow> keeps R (pmodify g)"
  by (simp add: keeps_def)

lemma k_bind: "keeps R m \<Longrightarrow> (\<And>x. keeps R (f x)) \<Longrightarrow> keeps R (pbind m f)"
  unfolding keeps_def by (blast elim: pbind_elim intro: R_trans)

lemma k_if: "(b \<Longrightarrow> keeps R m) \<Longrightarrow> (\<not> b \<Longrightarrow> keeps R n) \<Longrightarrow> keeps R (if b then m else n)"
  by simp

lemmas k_rules = k_bind k_return k_skip k_stop k_ask k_lift k_if

lemma R_attribution: "R s (attribution_read env s)"
  by (simp add: attribution_read_def R_refresh R_refl)

lemma k_window: "keeps R (window_gate env bet buffer gate)"
  unfolding window_gate_def
  by (intro k_rules) (auto split: option.split intro: k_rules)

lemma k_hydrate: "keeps R (hydrate env bet)"
  by (auto simp: keeps_def hydrate_def R_cache split: prod.splits)

lemma k_wallet: "keeps R (wallet_gate env tokens)"
  unfolding wallet_gate_def
  by (intro k_rules k_modify) (simp add: R_attribution R_refl)

lemma k_open_order: "keeps R (open_order_gate env tokens)"
  unfolding open_order_gate_def
  by (intro k_rules k_modify) (simp add: R_attribution R_refl)

lemma k_no_open_limit: "keeps R (no_open_limit bet)"
  unfolding no_open_limit_def by (intro k_rules k_modify R_refresh)

lemmas k_gates = k_window k_hydrate k_wallet k_open_order k_no_open_limit

lemma k_bid: "keeps R (resting_bid env gate blended tick ask wanted)" "keeps R (forced_bid env blended tick ask wanted)"
  unfolding resting_bid_def forced_bid_def Let_def by (intro k_rules)+

lemma k_choose: "keeps R (choose_price env bet blended tick ask wanted)"
  unfolding choose_price_def by (intro k_rules k_bid k_gates)

lemma k_after_fee: "keeps R (after_fee env bet blended tick ask liq q)"
  unfolding after_fee_def Let_def by (intro k_rules k_bid k_gates)

lemma k_live_quote: "keeps R (live_quote env bet blended tick wanted)"
  unfolding live_quote_def resize_def
  by (intro k_rules) (auto split: option.split intro!: k_rules k_choose k_after_fee)

lemma k_simulated: "keeps R (simulated_quote env bet blended tick wanted)"
  unfolding simulated_quote_def Let_def
  by (intro k_rules) (auto split: list.split intro: k_rules)

lemma k_price: "keeps R (price_bet env bet hydrated)"
  unfolding price_bet_def by (intro k_rules k_live_quote k_simulated)

lemma k_affordable: "keeps R (affordable amount)"
  unfolding affordable_def by (intro k_rules)

lemma k_last: "keeps R (last_gates env bet q)"
  unfolding last_gates_def case_prod_beta by (intro k_rules k_affordable k_gates)

lemma k_near_miss: "keeps R (near_miss_quote env bet hydrated)" "keeps R (near_miss_size bet q)"
  unfolding near_miss_quote_def near_miss_size_def Let_def case_prod_beta by (intro k_rules k_affordable)+

lemma k_existing: "keeps R (existing_bets env own mid)"
  by (auto simp: keeps_def existing_bets_def Let_def R_refresh R_refl)

end

text \<open>The gate of the market also reconciles submissions.\<close>

locale reconciling_relation = placing_relation +
  assumes R_reconcile: "keeps R (reconcile_entry env e)"
begin

lemma k_entries: "keeps R (reconcile_entries env es)"
  by (induction es) (auto intro!: k_rules R_reconcile)

lemma k_market: "keeps R (market_gate env own bet)"
  unfolding market_gate_def Let_def by (intro k_rules k_existing k_entries)

lemma k_prepare: "keeps R (prepare_placement env bet)" "keeps R (prepare_near_miss env bet)"
  unfolding prepare_placement_def first_gates_def prepare_near_miss_def near_miss_gates_def
  by (intro k_rules k_market k_gates k_price k_last k_near_miss)+

end

section \<open>Two relations\<close>

text \<open>Nothing is sent, no cash moves, and the desk keeps its mode and its ledger.\<close>

definition nothing_spent :: "placing \<Rightarrow> placing \<Rightarrow> bool" where
  "nothing_spent s s' \<longleftrightarrow>
     pl_posts s' = pl_posts s \<and> dry s' = dry s \<and> bank s' = bank s
     \<and> tf_path (pl_floor s') = tf_path (pl_floor s)"

text \<open>Also, every ledger file keeps its rows.\<close>

definition floor_rows :: "placing \<Rightarrow> string \<Rightarrow> dict list" where
  "floor_rows s = rows_at (pl_floor s)"

definition same_books :: "placing \<Rightarrow> placing \<Rightarrow> bool" where
  "same_books s s' \<longleftrightarrow> nothing_spent s s' \<and> floor_rows s' = floor_rows s"

lemma own_rows_disk: "rows_at f (tf_path f) = disk_rows (dk_ledger (tf_desk f))"
  by (simp add: rows_at_def disk_rows_def)

lemma refresh_floor_keeps [simp]:
  "pl_posts (refresh_floor s) = pl_posts s" "dry (refresh_floor s) = dry s" "bank (refresh_floor s) = bank s"
  "tf_path (pl_floor (refresh_floor s)) = tf_path (pl_floor s)" "floor_rows (refresh_floor s) = floor_rows s"
  by (auto simp: refresh_floor_def refresh_own_def dry_def bank_def floor_rows_def rows_at_def fun_eq_iff
      get_bets_def Let_def)

lemma cache_keeps [simp]:
  "dry (s\<lparr>pl_cache := cache\<rparr>) = dry s" "bank (s\<lparr>pl_cache := cache\<rparr>) = bank s"
  "floor_rows (s\<lparr>pl_cache := cache\<rparr>) = floor_rows s"
  by (simp_all add: dry_def bank_def floor_rows_def)

interpretation still: placing_relation same_books
  by unfold_locales (auto simp: same_books_def nothing_spent_def)

lemma entry_desk:
  assumes "on_entry_ledger entry m f = (r, f')"
  obtains d d' where "m d = (r, d')" "dk_bank d = dk_bank (tf_desk f)" "dk_dry_run d = dk_dry_run (tf_desk f)"
    "dk_ledger d = (if entry_path f entry = tf_path f then dk_ledger (tf_desk f) else open_ledger (tf_files f (entry_path f entry)))"
    "dk_bank (tf_desk f') = dk_bank d'" "dk_dry_run (tf_desk f') = dk_dry_run d'" "tf_path f' = tf_path f"
    "rows_at f' = (rows_at f)(entry_path f entry := disk_rows (dk_ledger d'))"
  using assms
  by (cases "entry_path f entry = tf_path f")
    (fastforce simp: on_entry_ledger_def Let_def rows_at_def disk_rows_def fun_eq_iff split: prod.splits)+

lemma reconcile_entry_keeps: "keeps nothing_spent (reconcile_entry env e)"
proof (unfold keeps_def, intro allI impI)
  fix s r s'
  assume "reconcile_entry env e s = (r, s')"
  then obtain r0 f where run: "on_entry_ledger e (reconcile_unresolved_submission (pe_fromiso env)
      (pe_clob env e) (pe_reconciled_at env) e (pe_fetched_orders env e)) (pl_floor s) = (r0, f)"
    and s': "s' = s\<lparr>pl_floor := f\<rparr>"
    by (auto simp: reconcile_entry_def split: prod.splits)
  from run show "nothing_spent s s'"
  proof (rule entry_desk)
    fix d d'
    assume "reconcile_unresolved_submission (pe_fromiso env) (pe_clob env e) (pe_reconciled_at env) e
      (pe_fetched_orders env e) d = (r0, d')"
    then have "cashless_relation id d d'"
      by (rule obeysD [OF free_op.o_unresolved [OF may_any], rotated])
    moreover assume "dk_bank d = dk_bank (tf_desk (pl_floor s))" "dk_dry_run d = dk_dry_run (tf_desk (pl_floor s))"
      "dk_bank (tf_desk f) = dk_bank d'" "dk_dry_run (tf_desk f) = dk_dry_run d'" "tf_path f = tf_path (pl_floor s)"
    ultimately show ?thesis
      by (simp add: nothing_spent_def s' dry_def bank_def cashless_relation_def ledger_relation_def grown_def)
  qed
qed

interpretation spending: reconciling_relation nothing_spent
  by unfold_locales (auto simp: reconcile_entry_keeps, auto simp: nothing_spent_def)

end
