(* ===== verification/One_Bet.thy ===== *)
theory One_Bet
  imports Placement_Laws
begin

text \<open>
  The gate of the market: when a placement passes it, no coordinated ledger holds an open bet on the market
  that counts. Every entry that was open is reconciled under the lock, and only an entry that is closed
  then, in its own file, lets the placement go on.
\<close>

section \<open>Reconciling one entry\<close>

lemma reload_result:
  assumes "reload_ledger_entry bet d = (Inr b, d')" "bet_id bet = Inr i"
  shows "case find (same_id i) (disk_rows (dk_ledger d')) of
      None \<Rightarrow> b = bet | Some row \<Rightarrow> b \<in> {row, jset ''_ledger_path'' (jget bet ''_ledger_path'') row}"
  using assms
  by (auto simp: reload_ledger_entry_def dbind_Inr get_bets_def Let_def disk_rows_def split: option.splits if_split_asm)

lemma unresolved_result:
  assumes "reconcile_unresolved_submission fromiso cl stamp bet orders d = (Inr b, d')" "bet_id bet = Inr i"
  shows "b = bet \<or> (\<exists>row. find (same_id i) (disk_rows (dk_ledger d')) = Some row
           \<and> b \<in> {row, jset ''_ledger_path'' (jget bet ''_ledger_path'') row})"
proof -
  consider "b = bet" | d1 where "reload_ledger_entry bet d1 = (Inr b, d')"
    using assms(1)
    by (auto simp: reconcile_unresolved_alt recover_named_def dbind_Inr split: if_split_asm option.splits sum.splits)
  then show ?thesis
    by cases (auto dest: reload_result [OF _ assms(2)] split: option.splits)
qed

lemma jset_path_open [simp]: "still_open mid live (jset ''_ledger_path'' v b) = still_open mid live b"
  by (simp add: still_open_def bet_on_market_def ledger_entry_blocks_new_order_def has_status_def jget_jset)

lemma tag_entry_simps [simp]:
  "still_open mid live (tag_entry p b) = still_open mid live b" "bet_on_market mid live (tag_entry p b) = bet_on_market mid live b"
  "row_id (tag_entry p b) = row_id b" "bet_id (tag_entry p b) = bet_id b"
  "p \<noteq> [] \<Longrightarrow> entry_path f (tag_entry p b) = p"
  unfolding tag_entry_def
  by (simp_all add: bet_on_market_def ledger_entry_blocks_new_order_def row_id_def bet_id_def entry_path_def jget_jset)
    (simp add: py_str_def)

lemma tag_entry_inj:
  assumes "tag_entry q c = tag_entry p row" "q \<noteq> []" "p \<noteq> []"
  shows "q = p \<and> row_id c = row_id row"
  using assms by (metis tag_entry_simps(3,5))

lemma same_id_row: "positive_id r \<Longrightarrow> same_id i r \<longleftrightarrow> row_id r = i"
  using has_key_positive_id [of r] by (auto simp: same_id_def jget_or_def has_key_def positive_id_iff)

lemma touched_ids: "touched i b b' \<Longrightarrow> row_id b' = row_id b \<and> positive_id b' = positive_id b"
  by (auto simp: touched_def row_id_def positive_id_def)

lemma touched_rows:
  assumes "list_all2 (touched i) bets bets'" "ids_ok bets"
  shows "ids_ok bets'" "b' \<in> set bets' \<Longrightarrow> row_id b' \<noteq> i \<Longrightarrow> b' \<in> set bets"
proof -
  have "map row_id bets' = map row_id bets" "list_all positive_id bets' = list_all positive_id bets"
    using assms(1) by (induction rule: list_all2_induct) (auto dest: touched_ids)
  then show ok: "ids_ok bets'" using assms(2) by (simp add: ids_ok_def)
  assume b': "b' \<in> set bets'" "row_id b' \<noteq> i"
  then obtain b where "b \<in> set bets" "touched i b b'"
    using assms(1) by (metis in_set_conv_nth list_all2_conv_all_nth)
  moreover have "positive_id b" using calculation(1) assms(2) by (simp add: ids_ok_def list_all_iff)
  ultimately show "b' \<in> set bets"
    using b'(2) touched_ids by (auto simp: touched_def matches_JInt positive_id_iff)
qed

lemma entry_cleared:
  assumes "reconcile_entry env (tag_entry p row) s = (Inr b, s')" "p \<noteq> []" "positive_id row"
    and "still_open mid live row" "\<not> still_open mid live b" "ids_ok (floor_rows s p)"
  shows "ids_ok (floor_rows s' p)" "q \<noteq> p \<Longrightarrow> floor_rows s' q = floor_rows s q"
    and "b' \<in> set (floor_rows s' p) \<Longrightarrow> still_open mid live b' \<Longrightarrow> b' \<in> set (floor_rows s p) \<and> row_id b' \<noteq> row_id row"
proof -
  let ?e = "tag_entry p row" and ?op = "reconcile_unresolved_submission (pe_fromiso env)
    (pe_clob env (tag_entry p row)) (pe_reconciled_at env) (tag_entry p row) (pe_fetched_orders env (tag_entry p row))"
  obtain f where run: "on_entry_ledger ?e ?op (pl_floor s) = (Inr b, f)" and s': "s' = s\<lparr>pl_floor := f\<rparr>"
    using assms(1) by (auto simp: reconcile_entry_def split: prod.splits sum.splits)
  obtain d d' where d: "?op d = (Inr b, d')" "disk_rows (dk_ledger d) = floor_rows s p"
    "rows_at f = (rows_at (pl_floor s))(p := disk_rows (dk_ledger d'))"
    using run by (rule entry_desk)
      (use assms(2) in \<open>auto simp: floor_rows_def rows_at_def disk_rows_def open_ledger_def split: if_split_asm\<close>)
  have id: "bet_id ?e = Inr (row_id row)" using assms(3) by (simp add: positive_id_iff bet_id_Inr)
  have "allowed_bet (\<lambda>j. j = row_id row) ?e" using id by (simp add: allowed_bet_def)
  then have "one_bet_relation (row_id row) d d'" using obeysD [OF single_op.o_unresolved d(1)] by blast
  then have rows: "list_all2 (touched (row_id row)) (floor_rows s p) (floor_rows s' p)"
    using d(2,3) by (simp add: one_bet_relation_def s' floor_rows_def)
  show ok: "ids_ok (floor_rows s' p)" using touched_rows(1) [OF rows assms(6)] .
  show "q \<noteq> p \<Longrightarrow> floor_rows s' q = floor_rows s q" using d(3) by (simp add: s' floor_rows_def)
  assume b': "b' \<in> set (floor_rows s' p)" "still_open mid live b'"
  have "b \<noteq> ?e" using assms(4,5) by auto
  then obtain r where r: "find (same_id (row_id row)) (floor_rows s' p) = Some r" "\<not> still_open mid live r"
    using unresolved_result [OF d(1) id] assms(5) d(3) by (auto simp: s' floor_rows_def)
  then have "r \<in> set (floor_rows s' p)" "row_id r = row_id row"
    using ok by (auto simp: find_Some_iff ids_ok_def list_all_iff same_id_row)
  then have "row_id b' \<noteq> row_id row"
    using b' r(2) ok unfolding ids_ok_def distinct_map by (metis inj_onD)
  then show "b' \<in> set (floor_rows s p) \<and> row_id b' \<noteq> row_id row"
    using touched_rows(2) [OF rows assms(6)] b'(1) by blast
qed

section \<open>All entries\<close>

text \<open>The open bets that count are among the entries that are still to be reconciled.\<close>

definition covered :: "string list \<Rightarrow> string \<Rightarrow> bool \<Rightarrow> dict list \<Rightarrow> placing \<Rightarrow> bool" where
  "covered paths mid live es s \<longleftrightarrow>
     (\<forall>p \<in> set paths. ids_ok (floor_rows s p)
        \<and> (\<forall>b \<in> set (floor_rows s p). still_open mid live b \<longrightarrow> tag_entry p b \<in> set es))
     \<and> (\<forall>e \<in> set es. \<exists>p row. e = tag_entry p row \<and> p \<in> set paths \<and> positive_id row \<and> still_open mid live row)"

lemma entries_cleared:
  assumes "reconcile_entries env es s = (Inr bs, s')" "\<forall>b \<in> set bs. \<not> still_open mid live b" "[] \<notin> set paths"
    and "covered paths mid live es s"
  shows "covered paths mid live [] s'"
  using assms
proof (induction es arbitrary: s bs)
  case (Cons e es)
  obtain b s1 bs' where run: "reconcile_entry env e s = (Inr b, s1)" "reconcile_entries env es s1 = (Inr bs', s')"
    "bs = b # bs'"
    using Cons.prems(1) by (auto simp: placing_steps)
  obtain p row where e: "e = tag_entry p row" "p \<in> set paths" "positive_id row" "still_open mid live row"
    using Cons.prems(4) by (auto simp: covered_def)
  have p: "p \<noteq> []" "ids_ok (floor_rows s p)" using e(2) Cons.prems(3,4) by (auto simp: covered_def)
  have open_b: "\<not> still_open mid live b" using Cons.prems(2) run(3) by simp
  note step = entry_cleared [OF run(1) [unfolded e(1)] p(1) e(3,4) open_b p(2)]
  have "tag_entry q c \<in> set es"
    if "q \<in> set paths" "c \<in> set (floor_rows s1 q)" "still_open mid live c" for q c
  proof -
    have "c \<in> set (floor_rows s q) \<and> (q = p \<longrightarrow> row_id c \<noteq> row_id row)"
      using step(2,3) that by (cases "q = p") auto
    moreover have "q \<noteq> []" using that(1) Cons.prems(3) by auto
    ultimately have "tag_entry q c \<in> set (e # es)" "tag_entry q c \<noteq> e"
      using Cons.prems(4) that tag_entry_inj [of q c p row] p(1) by (auto simp: covered_def e(1))
    then show ?thesis by simp
  qed
  moreover have "ids_ok (floor_rows s1 q)" if "q \<in> set paths" for q
    using step(1,2) that Cons.prems(4) by (cases "q = p") (auto simp: covered_def)
  ultimately have "covered paths mid live es s1"
    using Cons.prems(4) unfolding covered_def by (metis list.set_intros(2))
  then show ?case using Cons.IH [OF run(2)] Cons.prems(2,3) run(3) by simp
qed (simp add: covered_def)

lemma existing_covered:
  assumes "\<forall>p \<in> set paths. ids_ok (floor_rows s p)"
  shows "covered paths mid live (filter (bet_on_market mid live) (coordinated_open_bets paths (pl_floor s))) s"
  using assms
  by (auto simp: covered_def coordinated_open_bets_def open_bets_from_def floor_rows_def still_open_def ids_ok_def
      list_all_iff) blast

text \<open>No coordinated ledger holds an open bet on the market that counts.\<close>

definition market_free :: "string list \<Rightarrow> string \<Rightarrow> bool \<Rightarrow> placing \<Rightarrow> bool" where
  "market_free paths mid live s \<longleftrightarrow> (\<forall>p \<in> set paths. \<forall>b \<in> set (floor_rows s p). \<not> still_open mid live b)"

lemma market_gate_frees:
  assumes "market_gate env False bet s = (Inr u, s')" "text_column bet ''market_id'' = mid" "mid \<noteq> []"
    and "[] \<notin> set (pe_paths env)" "\<forall>p \<in> set (pe_paths env). ids_ok (floor_rows s p)"
  shows "market_free (pe_paths env) mid (dry s) s'"
proof -
  let ?es = "filter (bet_on_market mid (dry s)) (coordinated_open_bets (pe_paths env) (pl_floor s))"
  obtain s1 where s1: "existing_bets env False mid s = (Inr ?es, s1)" "same_books s s1"
    using still.R_refresh still.R_refl by (auto simp: existing_bets_def Let_def)
  then have dry: "dry s1 = dry s" and rows: "floor_rows s1 = floor_rows s"
    by (auto simp: same_books_def nothing_spent_def)
  have covered: "covered (pe_paths env) mid (dry s) ?es s1"
    using existing_covered [OF assms(5)] rows by (simp add: covered_def)
  have free: "covered (pe_paths env) mid (dry s) [] t \<Longrightarrow> market_free (pe_paths env) mid (dry s) t" for t
    by (auto simp: covered_def market_free_def)
  consider "?es = []" "s' = s1"
    | bs where "reconcile_entries env ?es s1 = (Inr bs, s')" "\<forall>b \<in> set bs. \<not> still_open mid (dry s) b"
    using assms(1-3) s1(1) dry
    by (auto simp: market_gate_def placing_steps filter_empty_conv split: if_split_asm)
  then show ?thesis
  proof cases
    case 1
    then show ?thesis using free covered by simp
  next
    case 2
    then show ?thesis using entries_cleared [OF 2 assms(4) covered] free by blast
  qed
qed

end
