(* ===== verification/Placement_Outcomes.thy ===== *)
theory Placement_Outcomes
  imports One_Bet
begin

text \<open>
  The properties of a placement: an order that is sent has passed every gate, at a price, a size and an edge
  that the gates allow; and it is the only open bet on its market in the coordinated ledgers.
\<close>

section \<open>What the steps of a placement establish\<close>

lemma window_gate_Inr:
  "window_gate env bet buffer gate s = (Inr u, s') \<longleftrightarrow>
     s' = s \<and> \<not> window_refuses (window_at env bet buffer (dry s) (pe_now env))"
  by (auto simp: window_gate_def placing_steps window_refuses_def split: option.splits)

lemma wallet_gate_Inr:
  assumes "wallet_gate env tokens s = (Inr u, s')"
  shows "authoritative_wallet_conflict (pe_registry env) (pe_positions env) (pe_open_orders env)
           (pl_floor s) tokens = None"
  using assms by (auto simp: wallet_gate_def placing_steps)

text \<open>The best ask that the liquidity check reports is the lowest price of the book.\<close>

lemma liquidity_ask:
  assumes "check_liquidity answer desired partial = Inr l" "lq_best_ask l = Some ask"
  shows "\<exists>n levels. get_orderbook answer = Inr ((ask, n) # levels)"
proof -
  have keep: "lq_best_ask m = lq_best_ask l" if "judge_slippage best asks l = Inr m" for best asks l m
    using that by (auto simp: judge_slippage_def sbind_eq_Inr Let_def split: if_split_asm)
  show ?thesis
    using assms keep
    by (auto simp: check_liquidity_def judge_book_def fresh_liquidity_def Let_def
        split: sum.splits list.splits if_split_asm prod.splits)
qed

text \<open>A bid rests below the ask, an order that takes from the book keeps the required edge after its fee.\<close>

definition bid_below :: "pyfloat \<Rightarrow> quote \<Rightarrow> bool" where
  "bid_below ask q \<longleftrightarrow> qt_limit q \<and> \<not> fle ask (qt_price q)"

definition sound_quote :: "placement_env \<Rightarrow> pyfloat \<Rightarrow> quote \<Rightarrow> bool" where
  "sound_quote env ask q \<longleftrightarrow>
     \<not> fle (qt_price q) (Fin 0)
     \<and> (bid_below ask q
        \<or> \<not> qt_limit q \<and> qt_price q = ask \<and> \<not> flt (qt_edge q) (pe_min_edge env) \<and> \<not> pe_force_limit env)"

lemma resting_bid_Inr:
  "resting_bid env gate blended tick ask wanted s = (Inr q, s') \<Longrightarrow> bid_below ask q \<and> \<not> fle (qt_price q) (Fin 0)"
  by (auto simp: resting_bid_def placing_steps quote_at_def bid_below_def)

lemma choose_price_Inr:
  assumes "choose_price env bet blended tick ask wanted s = (Inr q, s')" "\<not> fle ask (Fin 0)"
  shows "\<not> fle (qt_price q) (Fin 0) \<and> (bid_below ask q \<or> \<not> qt_limit q \<and> qt_price q = ask \<and> \<not> pe_force_limit env)"
  using assms
  by (auto simp: choose_price_def forced_bid_def placing_steps quote_at_def bid_below_def
      split: if_split_asm dest!: resting_bid_Inr)

lemma resize_Inr:
  "resize bet blended q s = (Inr q', s') \<Longrightarrow>
     qt_price q' = qt_price q \<and> qt_limit q' = qt_limit q"
  by (auto simp: resize_def placing_steps split: if_split_asm)

lemma after_fee_Inr:
  assumes "after_fee env bet blended tick ask liq q s = (Inr q', s')" "\<not> fle (qt_price q) (Fin 0)"
    and "bid_below ask q \<or> \<not> qt_limit q \<and> qt_price q = ask \<and> \<not> pe_force_limit env"
  shows "sound_quote env ask q'"
  using assms
  by (auto simp: after_fee_def placing_steps sound_quote_def bid_below_def split: if_split_asm
      dest!: resting_bid_Inr)

lemma live_quote_Inr:
  assumes "live_quote env bet blended tick wanted s = (Inr q, s')"
  shows "\<exists>ask n levels. get_orderbook (pe_book env) = Inr ((ask, n) # levels) \<and> sound_quote env ask q"
proof -
  obtain l ask s1 q1 s2 q2 where *: "check_liquidity (pe_book env) wanted (\<not> pe_force_limit env) = Inr l"
    "lq_best_ask l = Some ask" "\<not> fle ask (Fin 0)" "choose_price env bet blended tick ask wanted s = (Inr q1, s1)"
    "resize bet blended q1 s1 = (Inr q2, s2)" "after_fee env bet blended tick ask l q2 s2 = (Inr q, s')"
    using assms by (auto simp: live_quote_def placing_steps split: option.splits)
  have "\<not> fle (qt_price q2) (Fin 0) \<and> (bid_below ask q2 \<or> \<not> qt_limit q2 \<and> qt_price q2 = ask \<and> \<not> pe_force_limit env)"
    using choose_price_Inr [OF *(4,3)] resize_Inr [OF *(5)] by (simp add: bid_below_def)
  then have "sound_quote env ask q" using after_fee_Inr [OF *(6)] by blast
  then show ?thesis using liquidity_ask [OF *(1,2)] by blast
qed

lemma affordable_Inr:
  "affordable amount s = (Inr u, s') \<longleftrightarrow>
     s' = s \<and> fle amount (fadd (bm_cash (bank s)) float_eps) \<and> fle POLYMARKET_MIN_ORDER_USD amount"
  by (auto simp: affordable_def placing_steps skip_for_insufficient_cash_def skip_for_min_order_size_def)

lemma last_gates_Inr:
  assumes "last_gates env bet q s = (Inr (amount, shares), s')"
  shows "(qt_limit q \<longrightarrow> limit_bid_window_open env bet (dry s)) \<and> \<not> fle (qt_price q) (Fin 0)
    \<and> adjust_buy_limit_for_min_notional (qt_price q) (qt_size q) = Inr (amount, shares)
    \<and> fle amount (fadd (bm_cash (bank s)) float_eps) \<and> fle POLYMARKET_MIN_ORDER_USD amount
    \<and> (\<not> dry s \<and> \<not> qt_limit q \<and> inside_limit_bid_pull_window env bet (dry s)
        \<longrightarrow> \<not> flt (fadd (qt_at_ask q) float_eps) amount)"
  using assms by (auto simp: last_gates_def placing_steps affordable_Inr)

section \<open>The steps of a prepared order\<close>

lemma same_books_frame:
  assumes "keeps same_books m" "m s = (r, s')"
  shows "dry s' = dry s" "bank s' = bank s" "floor_rows s' = floor_rows s"
  using keepsD [OF assms] by (auto simp: same_books_def nothing_spent_def)

lemma prepared_steps:
  assumes "prepare_placement env bet s = (Inr ord, s')"
  obtains hydrated q amount shares s0 s1 s2 s3 where
    "ord = build_order hydrated q (amount, shares) (dry s)"
    "first_gates env bet s = (Inr hydrated, s1)" "price_bet env bet hydrated s1 = (Inr q, s2)"
    "last_gates env hydrated q s2 = (Inr (amount, shares), s')"
    "dry s1 = dry s" "bank s1 = bank s" "dry s2 = dry s" "bank s2 = bank s" "floor_rows s' = floor_rows s1"
proof -
  obtain hydrated q amount shares s1 s2 where *: "first_gates env bet s = (Inr hydrated, s1)"
    "price_bet env bet hydrated s1 = (Inr q, s2)" "last_gates env hydrated q s2 = (Inr (amount, shares), s')"
    "ord = build_order hydrated q (amount, shares) (dry s')"
    using assms by (auto simp: prepare_placement_def placing_steps)
  have "keeps nothing_spent (first_gates env bet)"
    unfolding first_gates_def by (intro spending.k_rules spending.k_market spending.k_gates)
  then have "nothing_spent s s1" using *(1) by (rule keepsD)
  then have s1: "dry s1 = dry s" "bank s1 = bank s" by (simp_all add: nothing_spent_def)
  note s2 = same_books_frame [OF still.k_price *(2)] and s3 = same_books_frame [OF still.k_last *(3)]
  show thesis using that *(1-3) *(4) s1 s2 s3 by simp
qed

lemma first_gates_Inr:
  assumes "first_gates env bet s = (Inr hydrated, s')"
  obtains s1 s2 where "truthy (bet_token bet)"
    "\<not> window_refuses (window_at env bet
        (if pe_force_limit env then Some (LIMIT_BID_PRE_EVENT_HOURS * hour) else None) (dry s) (pe_now env))"
    "market_gate env (pe_skip_wallet env) bet s = (Inr (), s1)"
    "hydrate env bet s1 = (Inr hydrated, s2)" "floor_rows s' = floor_rows s1"
proof -
  obtain s1 s2 where *: "truthy (bet_token bet)"
    "\<not> window_refuses (window_at env bet
        (if pe_force_limit env then Some (LIMIT_BID_PRE_EVENT_HOURS * hour) else None) (dry s) (pe_now env))"
    "market_gate env (pe_skip_wallet env) bet s = (Inr (), s1)" "hydrate env bet s1 = (Inr hydrated, s2)"
    "(if pe_skip_wallet env then preturn () else wallet_gate env [opposite_token hydrated]) s2 = (Inr (), s')"
    using assms by (auto simp: first_gates_def placing_steps window_gate_Inr)
  have "keeps same_books (if pe_skip_wallet env then preturn () else wallet_gate env [opposite_token hydrated])"
    by (intro still.k_rules still.k_wallet)
  then have "same_books s2 s'" using *(5) by (rule keepsD)
  then show thesis
    using that *(1-4) same_books_frame(3) [OF still.k_hydrate *(4)] by (simp add: same_books_def)
qed

text \<open>An order is only sent by the submission of a prepared order.\<close>

lemma sent_after_preparation:
  assumes "pbind prepare (submit_placement env) s = (r, s')" "keeps nothing_spent prepare"
    and "pl_posts s' \<noteq> pl_posts s \<or> (\<exists>info. r = Inr info)"
  obtains ord s1 where "prepare s = (Inr ord, s1)" "submit_placement env ord s1 = (r, s')"
  using assms(1)
proof (cases rule: pbind_elim)
  case (left e)
  then have "nothing_spent s s'" using assms(2) by (blast dest: keepsD)
  then show thesis using left(2) assms(3) by (auto simp: nothing_spent_def)
qed (use that in blast)

text \<open>Hydration only adds metadata.\<close>

lemma jget_or_jupdate_other: "k \<notin> fst ` set us \<Longrightarrow> jget_or (jupdate d us) k v = jget_or d k v"
  by (simp add: jget_or_def has_key_def jget_def map_of_jupdate_other)

lemma hydrated_market:
  assumes "hydrate env bet s = (Inr hydrated, s')"
  shows "text_column hydrated ''market_id'' = text_column bet ''market_id''"
proof -
  have "''market_id'' \<notin> fst ` set (hydrated_fees m)" for m
    by (auto simp: hydrated_fees_def Let_def)
  then have "jget_or (jupdate bet ([(''tick_size'', t), (''neg_risk'', n)] @ hydrated_fees m)) ''market_id'' d
      = jget_or bet ''market_id'' d" for t n m d
    by (intro jget_or_jupdate_other) simp
  then show ?thesis
    using assms
    by (auto simp: hydrate_def hydrate_execution_metadata_def text_column_def Let_def
        split: prod.splits option.splits if_split_asm simp del: append_Cons)
qed

lemma order_market:
  assumes "hydrate env bet s = (Inr hydrated, s')"
  shows "ord = build_order hydrated q (amount, shares) dry_run
      \<Longrightarrow> nb_market_id (or_args ord) = JStr (text_column bet ''market_id'')"
    and "ord = near_miss_order hydrated q (amount, shares) dry_run
      \<Longrightarrow> nb_market_id (or_args ord) = JStr (text_column bet ''market_id'')"
  using hydrated_market [OF assms]
  by (simp_all add: build_order_def near_miss_order_def order_args_def Let_def)

section \<open>The properties of a placement\<close>


text \<open>The near miss passes the same gate of the market.\<close>

lemma near_miss_steps:
  assumes "prepare_near_miss env bet s = (Inr ord, s')"
  obtains hydrated q amount shares s1 s2 s3 where
    "ord = near_miss_order hydrated q (amount, shares) (dry s)"
    "market_gate env False bet s = (Inr (), s1)" "hydrate env bet s1 = (Inr hydrated, s2)"
    "near_miss_quote env bet hydrated s3 = (Inr q, s3)" "near_miss_size hydrated q s3 = (Inr (amount, shares), s')"
    "bank s3 = bank s" "floor_rows s' = floor_rows s1"
    "\<not> window_refuses (window_at env bet (Some (LIMIT_BID_PRE_EVENT_HOURS * hour)) (dry s) (pe_now env))"
proof -
  obtain hydrated q amount shares s1 s2 w l s3 where *: "market_gate env False bet s = (Inr (), s1)"
    "hydrate env bet s1 = (Inr hydrated, s2)" "wallet_gate env (market_tokens hydrated) s2 = (Inr (), w)"
    "no_open_limit bet w = (Inr (), l)" "open_order_gate env [text_of (bet_token bet)] l = (Inr (), s3)"
    "near_miss_quote env bet hydrated s3 = (Inr q, s3)" "near_miss_size hydrated q s3 = (Inr (amount, shares), s')"
    "ord = near_miss_order hydrated q (amount, shares) (dry s')"
    "\<not> window_refuses (window_at env bet (Some (LIMIT_BID_PRE_EVENT_HOURS * hour)) (dry s) (pe_now env))"
    using assms
    by (auto simp: prepare_near_miss_def near_miss_gates_def near_miss_quote_def placing_steps window_gate_Inr)
  have "nothing_spent s s1" using keepsD [OF spending.k_market *(1)] .
  moreover have "same_books s1 s3"
    using keepsD [OF still.k_hydrate *(2)] keepsD [OF still.k_wallet *(3)] keepsD [OF still.k_no_open_limit *(4)]
      keepsD [OF still.k_open_order *(5)] still.R_trans by blast
  moreover have "same_books s3 s'" using keepsD [OF still.k_near_miss(2) *(7)] .
  ultimately have "dry s' = dry s" "bank s3 = bank s" "floor_rows s' = floor_rows s1"
    by (simp_all add: same_books_def nothing_spent_def)
  then show thesis using that *(1,2,6-9) by simp
qed


text \<open>
  C10: A near miss is only placed as a resting bid below the market: its price is positive and under the
  market's, the window for limit bids was open, and the cash covers the amount.
\<close>

theorem near_miss_rests_below_market:
  assumes "place_near_miss_limit_locked env bet s = (r, s')" "pl_posts s' \<noteq> pl_posts s \<or> (\<exists>info. r = Inr info)"
  shows "\<exists>ord s1. submit_placement env ord s1 = (r, s') \<and> nothing_spent s s1 \<and> or_kind ord = Near_miss_limit
    \<and> \<not> fle (nb_price (or_args ord)) (Fin 0) \<and> \<not> fle (column bet ''market_prob'') (nb_price (or_args ord))
    \<and> \<not> window_refuses (window_at env bet (Some (LIMIT_BID_PRE_EVENT_HOURS * hour)) (dry s) (pe_now env))
    \<and> fle POLYMARKET_MIN_ORDER_USD (nb_amount (or_args ord))
    \<and> fle (nb_amount (or_args ord)) (fadd (bm_cash (bank s)) float_eps)"
proof -
  obtain ord s1 where ord: "prepare_near_miss env bet s = (Inr ord, s1)" "submit_placement env ord s1 = (r, s')"
    using assms sent_after_preparation [OF _ spending.k_prepare(2)] unfolding place_near_miss_limit_locked_def by metis
  obtain hydrated q amount shares t3 where steps: "ord = near_miss_order hydrated q (amount, shares) (dry s)"
    "near_miss_quote env bet hydrated t3 = (Inr q, t3)" "near_miss_size hydrated q t3 = (Inr (amount, shares), s1)"
    "bank t3 = bank s" "\<not> window_refuses (window_at env bet (Some (LIMIT_BID_PRE_EVENT_HOURS * hour)) (dry s) (pe_now env))"
    using ord(1) by (rule near_miss_steps)
  have "\<not> fle (qt_price q) (Fin 0)" "\<not> fle (column bet ''market_prob'') (qt_price q)"
    using steps(2) by (auto simp: near_miss_quote_def placing_steps quote_at_def)
  moreover have "fle amount (fadd (bm_cash (bank s)) float_eps)" "fle POLYMARKET_MIN_ORDER_USD amount"
    using steps(3,4) by (auto simp: near_miss_size_def placing_steps affordable_Inr)
  moreover have "or_kind ord = Near_miss_limit" "nb_price (or_args ord) = qt_price q" "nb_amount (or_args ord) = amount"
    by (simp_all add: steps(1) near_miss_order_def order_args_def Let_def)
  ultimately show ?thesis
    using ord(2) keepsD [OF spending.k_prepare(2) ord(1)] steps(5) by (intro exI [of _ ord] exI [of _ s1]) simp
qed

section \<open>A placement\<close>

text \<open>A fight ten hours ahead, sixty against fifty percent; another bet is open in the other ledger.\<close>

definition demo_candidate :: dict where
  "demo_candidate =
     [(''bet_on'', JStr ''Jane Doe''), (''fighter_b'', JStr ''Ann Roe''), (''bet_side'', JStr ''a''),
      (''model_prob'', JFloat (lit (3 / 5))), (''market_prob'', JFloat (Fin (1 / 2))), (''edge'', JFloat (lit (1 / 10))),
      (''decimal_odds'', JFloat (Fin 2)), (''market_id'', JStr ''m1''), (''token_id_yes'', JStr ''t1''),
      (''token_id_no'', JStr ''t2''), (''tick_size'', JStr ''0.01''), (''neg_risk'', JBool False),
      (''event_date'', JStr ''2026-07-04T20:00:00Z'')]"

definition demo_floor :: placing where
  "demo_floor =
     \<lparr>pl_floor = \<lparr>tf_path = ''/data/s.json'', tf_desk = demo_desk,
        tf_files = (\<lambda>_. Saved [[(''id'', JInt 7), (''status'', JStr ''open''), (''market_id'', JStr ''m3'')]])\<rparr>,
      pl_cache = (\<lambda>_. []), pl_posts = []\<rparr>"

definition demo_surroundings :: "string \<Rightarrow> placement_env" where
  "demo_surroundings ask =
     \<lparr>pe_fromiso = (\<lambda>_. Some (Aware (100 * hour))), pe_max_hours = 48, pe_now = 90 * hour, pe_limit_now = 90 * hour,
      pe_pull_now = 90 * hour, pe_force_limit = False, pe_force_market = False, pe_skip_wallet = False,
      pe_min_edge = lit (1 / 50), pe_scaling_base = lit (1 / 50), pe_paths = [''/data/c.json'', ''/data/s.json''],
      pe_registry = [], pe_clob = (\<lambda>_. undefined), pe_fetched_orders = (\<lambda>_. None), pe_reconciled_at = ''t0'',
      pe_positions = Inr [], pe_open_orders = Some (Inr []), pe_cached_orders = Some (Inr []), pe_market_info = None,
      pe_markets = [], pe_book = Inr [(''asks'', JList [JObj [(''price'', JStr ask), (''size'', JStr ''40'')]])],
      pe_pow = (\<lambda>_ _. Fin 0), pe_submit = demo_env accepted\<rparr>"

abbreviation "demo_pe \<equiv> demo_surroundings ''0.5''"

abbreviation "near_candidate \<equiv>
  jset ''market_prob'' (JFloat (lit (51 / 100))) (jset ''model_prob'' (JFloat (lit (13 / 25))) demo_candidate)"

subsection \<open>The gates\<close>

abbreviation gated :: "metadata_cache \<Rightarrow> placing" where
  "gated cache \<equiv> (refresh_floor demo_floor)\<lparr>pl_cache := cache\<rparr>"

lemma demo_window:
  "\<not> window_refuses (window_at demo_pe demo_candidate None False (90 * hour))"
  "\<not> window_refuses (window_at demo_pe near_candidate (Some (LIMIT_BID_PRE_EVENT_HOURS * hour)) False (90 * hour))"
  by code_simp+

lemma demo_not_pulled: "\<not> inside_limit_bid_pull_window demo_pe demo_candidate False"
  by code_simp

lemma demo_no_entries:
  "filter (bet_on_market ''m1'' False) (coordinated_open_bets [''/data/c.json'', ''/data/s.json''] (pl_floor demo_floor)) = []"
  by code_simp

lemma demo_no_limits: "filter (limit_for_fighter (JStr ''Jane Doe'') False) (own_open_bets (pl_floor demo_floor)) = []"
  by code_simp

lemma demo_hydrated:
  "fst (hydrate_execution_metadata None [] ''t1'' demo_candidate (\<lambda>_. [])) = Some demo_candidate"
  "fst (hydrate_execution_metadata None [] ''t1'' near_candidate (\<lambda>_. [])) = Some near_candidate"
  by code_simp+

lemma demo_texts [simp]:
  "text_column demo_candidate ''market_id'' = ''m1''" "text_column near_candidate ''market_id'' = ''m1''"
  "bet_token demo_candidate = JStr ''t1''" "bet_token near_candidate = JStr ''t1''"
  "jget demo_candidate ''bet_on'' = JStr ''Jane Doe''" "jget near_candidate ''bet_on'' = JStr ''Jane Doe''"
  by code_simp+

lemma demo_dry [simp]: "dry demo_floor = False" "bank demo_floor = demo_manager"
  by (simp_all add: refresh_floor_def refresh_own_def demo_floor_def dry_def bank_def demo_desk_def)

lemma refresh_again [simp]: "refresh_floor (gated cache) = gated cache" "refresh_floor (refresh_floor s) = refresh_floor s"
  by (simp_all add: refresh_floor_def refresh_own_def get_bets_def Let_def)

lemma demo_market:
  "text_column bet ''market_id'' = ''m1'' \<Longrightarrow> market_gate demo_pe False bet demo_floor = (Inr (), refresh_floor demo_floor)"
  by (simp add: market_gate_def existing_bets_def demo_no_entries Let_def pbind_Inr demo_surroundings_def)
    (simp add: demo_floor_def)

lemma demo_wallet: "wallet_gate demo_pe tokens (gated cache) = (Inr (), gated cache)"
  by (simp add: wallet_gate_def pbind_Inr demo_surroundings_def authoritative_wallet_conflict_def
      authoritative_open_clob_order_conflict_def attribution_read_def Let_def)

lemma demo_hydrate:
  assumes "fst (hydrate_execution_metadata None [] ''t1'' bet (\<lambda>_. [])) = Some bet" "bet_token bet = JStr ''t1''"
  shows "\<exists>cache. hydrate demo_pe bet (refresh_floor demo_floor) = (Inr bet, gated cache)"
proof -
  obtain cache where "hydrate_execution_metadata None [] ''t1'' bet (\<lambda>_. []) = (Some bet, cache)"
    using assms(1) by (cases "hydrate_execution_metadata None [] ''t1'' bet (\<lambda>_. [])") auto
  moreover have "pl_cache (refresh_floor demo_floor) = (\<lambda>_. [])" by (simp add: refresh_floor_def demo_floor_def)
  ultimately show ?thesis by (intro exI [of _ cache]) (simp add: hydrate_def demo_surroundings_def assms(2))
qed

lemma demo_gates: "\<exists>cache. first_gates demo_pe demo_candidate demo_floor = (Inr demo_candidate, gated cache)"
proof -
  obtain cache where "hydrate demo_pe demo_candidate (refresh_floor demo_floor) = (Inr demo_candidate, gated cache)"
    using demo_hydrate demo_hydrated(1) demo_texts(3) by blast
  moreover have "window_gate demo_pe demo_candidate None ''bet_window'' demo_floor = (Inr (), demo_floor)"
    using demo_window(1) by (simp add: window_gate_Inr demo_surroundings_def)
  moreover have "\<not> pe_skip_wallet demo_pe" "\<not> pe_force_limit demo_pe" by (simp_all add: demo_surroundings_def)
  ultimately show ?thesis
    by (intro exI [of _ cache]) (simp add: first_gates_def pbind_Inr demo_market demo_wallet)
qed

subsection \<open>The price\<close>

lemma demo_sizes:
  "initial_size demo_manager demo_candidate = Fin 20" "override_size demo_candidate = None"
  by code_simp+

lemma demo_kelly: "kelly_bet_size demo_manager (lit (3 / 5)) (implied_prob_to_decimal_odds (Fin (1 / 2))) = Fin 20"
  by code_simp

lemma demo_probability:
  "blended_of demo_candidate = lit (3 / 5)" "blended_of near_candidate = lit (13 / 25)"
  by code_simp+

lemma demo_tick: "tick_of demo_candidate = Inr (lit (1 / 100))" "column near_candidate ''tick_size'' = lit (1 / 100)"
  by code_simp+

lemma demo_edge: "flt (fsub (lit (3 / 5)) (Fin (1 / 2))) (lit (1 / 50)) = False"
  by code_simp

lemma demo_fee:
  "fv_net_edge (market_buy_fee_view (\<lambda>_ _. Fin 0) demo_candidate (Fin (1 / 2)) (Fin 20) (lit (3 / 5)))
     = fsub (lit (3 / 5)) (Fin (1 / 2))"
  by code_simp

lemma demo_adjusted: "adjust_buy_limit_for_min_notional (Fin (1 / 2)) (Fin 20) = Inr (Fin 20, Fin 40)"
  by code_simp

lemma demo_level: "read_level ''asks'' (JObj [(''price'', JStr ''0.5''), (''size'', JStr ''40'')]) = Inr (1 / 2, Fin (1 / 2), Fin 40)"
  by code_simp

lemma demo_book:
  "check_liquidity (pe_book demo_pe) (Fin 20) True = Inr ((fresh_liquidity (Fin 20))\<lparr>lq_best_ask := Some (Fin (1 / 2)),
     lq_available := Fin 20, lq_best_ask_liquidity := Fin 20\<rparr>)"
  by (simp add: check_liquidity_def get_orderbook_def orderbook_asks_def normalize_orderbook_side_def jget_def
      demo_level sort_key_def judge_book_def demo_surroundings_def) code_simp

lemma demo_priced:
  "\<exists>q. price_bet demo_pe demo_candidate demo_candidate (gated cache) = (Inr q, gated cache)
     \<and> qt_price q = Fin (1 / 2) \<and> qt_size q = Fin 20 \<and> \<not> qt_limit q"
proof -
  have env: "\<not> pe_force_limit demo_pe" "\<not> pe_force_market demo_pe" "pe_min_edge demo_pe = lit (1 / 50)"
    "pe_market_info demo_pe = None" "pe_pow demo_pe = (\<lambda>_ _. Fin 0)"
    by (simp_all add: demo_surroundings_def)
  let ?l = "(fresh_liquidity (Fin 20))\<lparr>lq_best_ask := Some (Fin (1 / 2)), lq_available := Fin 20,
    lq_best_ask_liquidity := Fin 20\<rparr>" and ?q = "quote_at (Fin 20) (lit (3 / 5)) (Fin (1 / 2)) False"
  have "lq_ok ?l" "lq_best_ask ?l = Some (Fin (1 / 2))" by (simp_all add: fresh_liquidity_def)
  moreover have "choose_price demo_pe demo_candidate (lit (3 / 5)) (lit (1 / 100)) (Fin (1 / 2)) (Fin 20) (gated cache)
      = (Inr ?q, gated cache)"
    using demo_edge by (simp add: choose_price_def env)
  moreover have "resize demo_candidate (lit (3 / 5)) ?q (gated cache) = (Inr ?q, gated cache)"
    using demo_kelly by (simp add: resize_def demo_sizes pbind_Inr quote_at_def)
  moreover have "\<exists>q. after_fee demo_pe demo_candidate (lit (3 / 5)) (lit (1 / 100)) (Fin (1 / 2)) ?l ?q (gated cache)
      = (Inr q, gated cache) \<and> qt_price q = Fin (1 / 2) \<and> qt_size q = Fin 20 \<and> \<not> qt_limit q"
    using demo_edge by (simp add: after_fee_def env pbind_Inr Let_def demo_fee quote_at_def)
  ultimately show ?thesis
    by (auto simp: price_bet_def live_quote_def pbind_Inr demo_sizes demo_tick demo_probability demo_book env)
qed

lemma demo_prepared:
  "\<exists>q cache. prepare_placement demo_pe demo_candidate demo_floor
     = (Inr (build_order demo_candidate q (Fin 20, Fin 40) False), gated cache) \<and> qt_price q = Fin (1 / 2)"
proof -
  obtain cache where gates: "first_gates demo_pe demo_candidate demo_floor = (Inr demo_candidate, gated cache)"
    using demo_gates by blast
  obtain q where q: "price_bet demo_pe demo_candidate demo_candidate (gated cache) = (Inr q, gated cache)"
    "qt_price q = Fin (1 / 2)" "qt_size q = Fin 20" "\<not> qt_limit q"
    using demo_priced by blast
  have "affordable (Fin 20) (gated cache) = (Inr (), gated cache)"
    unfolding affordable_Inr by (simp add: demo_manager_def POLYMARKET_MIN_ORDER_USD_def) code_simp
  then have "last_gates demo_pe demo_candidate q (gated cache) = (Inr (Fin 20, Fin 40), gated cache)"
    using q(2-4) demo_adjusted demo_not_pulled by (simp add: last_gates_def pbind_Inr) blast
  then show ?thesis using gates q(1,2) by (auto simp: prepare_placement_def pbind_Inr)
qed

subsection \<open>The order is sent\<close>

lemma submitted_posts:
  assumes "submit_placement env ord s = (r, s')" "ready_desk (tf_desk (pl_floor s))" "signal_metadata (or_args ord)"
    and "sendable (pe_submit env) (or_args ord)"
    and "require_unpaused (se_environ (pe_submit env)) (se_journal_switch (pe_submit env)) = Inr ()"
  shows "pl_posts s' \<noteq> pl_posts s"
proof -
  obtain r0 sub where run: "submit_order (pe_submit env) (or_kind ord) (or_args ord) (or_info ord) (tf_desk (pl_floor s))
      = (r0, sub)" and s': "pl_posts s' = pl_posts s @ sb_posts sub"
    using assms(1) by (auto simp: submit_placement_def Let_def split: prod.splits)
  have "sb_posts sub \<noteq> []"
    using run assms(2,3) by (cases rule: submission_cases) (use assms(4,5) closed_desk(2) in auto)
  then show ?thesis by (simp add: s')
qed

lemma demo_desk_ready: "ready_desk (tf_desk (pl_floor (gated cache)))"
proof -
  have "tf_desk (pl_floor (gated cache)) = demo_desk\<lparr>dk_ledger := snd (get_bets True (dk_ledger demo_desk))\<rparr>"
    by (simp add: refresh_floor_def refresh_own_def demo_floor_def)
  moreover have "ready_desk (demo_desk\<lparr>dk_ledger := snd (get_bets True (dk_ledger demo_desk))\<rparr>)" by code_simp
  ultimately show ?thesis by simp
qed

lemma demo_sends:
  assumes "submit_placement demo_pe ord (gated cache) = (r, s')" "nb_metadata (or_args ord) = []"
    and "limit_order_refusal ''BUY'' (nb_price (or_args ord)) (nb_shares (or_args ord)) = None"
  shows "pl_posts s' \<noteq> pl_posts demo_floor"
proof -
  have submit: "pe_submit demo_pe = demo_env accepted" by (simp add: demo_surroundings_def)
  have "sendable (pe_submit demo_pe) (or_args ord)" using assms(3) demo_sendable [of accepted]
    by (simp add: submit sendable_def)
  then have "pl_posts s' \<noteq> pl_posts (gated cache)"
    using submitted_posts [OF assms(1) demo_desk_ready] assms(2) demo_unpaused [of accepted]
    by (simp add: submit signal_metadata_def)
  then show ?thesis by simp
qed

lemma demo_placed: "pl_posts (snd (place_bet_locked demo_pe demo_candidate demo_floor)) \<noteq> pl_posts demo_floor"
proof -
  obtain q cache where prepared: "prepare_placement demo_pe demo_candidate demo_floor
      = (Inr (build_order demo_candidate q (Fin 20, Fin 40) False), gated cache)" "qt_price q = Fin (1 / 2)"
    using demo_prepared by blast
  let ?ord = "build_order demo_candidate q (Fin 20, Fin 40) False"
  have "ledger_signal_metadata_from_bet demo_candidate = []" by code_simp
  then have "nb_metadata (or_args ?ord) = []" by (simp add: build_order_def order_args_def Let_def)
  moreover have "limit_order_refusal ''BUY'' (Fin (1 / 2)) (Fin 40) = None" by code_simp
  moreover have "nb_price (or_args ?ord) = Fin (1 / 2)" "nb_shares (or_args ?ord) = Fin 40"
    using prepared(2) by (simp_all add: build_order_def order_args_def Let_def)
  moreover have "place_bet_locked demo_pe demo_candidate demo_floor = submit_placement demo_pe ?ord (gated cache)"
    by (simp add: place_bet_locked_def pbind_def prepared(1))
  ultimately show ?thesis
    using demo_sends [of ?ord cache "fst (submit_placement demo_pe ?ord (gated cache))"
        "snd (submit_placement demo_pe ?ord (gated cache))"] by simp
qed



subsection \<open>A near miss\<close>

lemma demo_near_price:
  "maker_bid_price (lit (13 / 25)) (scaled_min_edge (implied_prob_to_decimal_odds (lit (51 / 100))) (Some (lit (1 / 50))))
     (lit (1 / 100)) = Inr (Fin (1 / 2))"
  by code_simp

lemma demo_near_bounds:
  "\<not> fle (Fin (1 / 2)) (Fin 0)" "\<not> fle (lit (51 / 100)) (Fin (1 / 2))" "\<not> fle (lit (1 / 100)) (Fin 0)"
  "lit (1 / 100) \<noteq> NaN"
  by code_simp+

lemma demo_near_kelly:
  "kelly_bet_size demo_manager (lit (13 / 25)) (implied_prob_to_decimal_odds (Fin (1 / 2))) = Fin 5"
  by code_simp

lemma demo_near_size: "fround (fmul (Fin 5) (bet_size_multiplier near_candidate)) 2 = Fin 5"
  by code_simp

lemma demo_near_columns: "column near_candidate ''market_prob'' = lit (51 / 100)"
  by code_simp

lemma demo_near_adjusted:
  "adjust_buy_limit_for_min_notional (Fin (1 / 2)) (Fin 5)
     = Inr (Fin 5, Fin 10)"
  by code_simp

lemma demo_near_affordable:
  "\<not> fle (Fin 5) (Fin 0)" "fle (Fin 5) (fadd (Fin 500) float_eps)"
  "fle POLYMARKET_MIN_ORDER_USD (Fin 5)"
  by code_simp+

lemma demo_near_gates: "\<exists>cache. near_miss_gates demo_pe near_candidate demo_floor = (Inr near_candidate, gated cache)"
proof -
  obtain cache where "hydrate demo_pe near_candidate (refresh_floor demo_floor) = (Inr near_candidate, gated cache)"
    using demo_hydrate demo_hydrated(2) demo_texts(4) by blast
  moreover have "window_gate demo_pe near_candidate (Some (LIMIT_BID_PRE_EVENT_HOURS * hour)) ''limit_bid_window'' demo_floor
      = (Inr (), demo_floor)"
    using demo_window(2) by (simp add: window_gate_Inr demo_surroundings_def)
  moreover have "no_open_limit near_candidate (gated cache) = (Inr (), gated cache)"
  proof -
    have "own_open_bets (pl_floor (gated cache)) = own_open_bets (pl_floor demo_floor)"
      by (simp add: own_open_bets_def refresh_floor_def refresh_own_def rows_at_def get_bets_def Let_def demo_floor_def)
    then show ?thesis using demo_no_limits by (simp add: no_open_limit_def pbind_Inr)
  qed
  moreover have "open_order_gate demo_pe [''t1''] (gated cache) = (Inr (), gated cache)"
    by (simp add: open_order_gate_def pbind_Inr demo_surroundings_def authoritative_open_clob_order_conflict_def
        attribution_read_def Let_def)
  ultimately show ?thesis
    by (intro exI [of _ cache]) (simp add: near_miss_gates_def pbind_Inr demo_market demo_wallet)
qed

lemma demo_near_prepared:
  "\<exists>q cache. prepare_near_miss demo_pe near_candidate demo_floor
     = (Inr (near_miss_order near_candidate q (Fin 5, Fin 10) False), gated cache)
     \<and> qt_price q = Fin (1 / 2)"
proof -
  obtain cache where gates: "near_miss_gates demo_pe near_candidate demo_floor = (Inr near_candidate, gated cache)"
    using demo_near_gates by blast
  let ?q = "quote_at (Fin 0) (lit (13 / 25)) (Fin (1 / 2)) True"
  have "pe_scaling_base demo_pe = lit (1 / 50)" by (simp add: demo_surroundings_def)
  then have "near_miss_quote demo_pe near_candidate near_candidate (gated cache) = (Inr ?q, gated cache)"
    unfolding near_miss_quote_def demo_near_columns demo_tick(2) demo_probability(2) Let_def
    using demo_near_bounds by (simp only: demo_near_price) (simp add: pbind_Inr)
  moreover have "near_miss_size near_candidate ?q (gated cache)
      = (Inr (Fin 5, Fin 10), gated cache)"
  proof -
    have "qt_odds ?q = implied_prob_to_decimal_odds (Fin (1 / 2))" "qt_price ?q = Fin (1 / 2)"
      by (simp_all add: quote_at_def)
    moreover have "affordable (Fin 5) (gated cache) = (Inr (), gated cache)"
      unfolding affordable_Inr using demo_near_affordable(2,3) by (simp add: demo_manager_def)
    ultimately show ?thesis
      unfolding near_miss_size_def demo_probability(2)
      using demo_near_kelly demo_near_size demo_near_affordable(1) demo_near_adjusted by (simp add: pbind_Inr)
  qed
  ultimately have "prepare_near_miss demo_pe near_candidate demo_floor
     = (Inr (near_miss_order near_candidate ?q (Fin 5, Fin 10) False), gated cache)"
    using gates by (simp add: prepare_near_miss_def pbind_Inr)
  moreover have "qt_price ?q = Fin (1 / 2)" by (simp add: quote_at_def)
  ultimately show ?thesis by blast
qed

theorem near_miss_rests_below_market_witness:
  "\<exists>ord s1. submit_placement demo_pe ord s1 = place_near_miss_limit_locked demo_pe near_candidate demo_floor
     \<and> or_kind ord = Near_miss_limit \<and> \<not> fle (column near_candidate ''market_prob'') (nb_price (or_args ord))"
proof -
  let ?run = "place_near_miss_limit_locked demo_pe near_candidate demo_floor"
  obtain q cache where prepared: "prepare_near_miss demo_pe near_candidate demo_floor
     = (Inr (near_miss_order near_candidate q (Fin 5, Fin 10) False), gated cache)"
     "qt_price q = Fin (1 / 2)"
    using demo_near_prepared by blast
  let ?ord = "near_miss_order near_candidate q (Fin 5, Fin 10) False"
  have "?run = submit_placement demo_pe ?ord (gated cache)"
    by (simp add: place_near_miss_limit_locked_def pbind_def prepared(1))
  moreover have "limit_order_refusal ''BUY'' (Fin (1 / 2)) (Fin 10) = None" by code_simp
  moreover have "nb_price (or_args ?ord) = Fin (1 / 2)" "nb_metadata (or_args ?ord) = []"
    "nb_shares (or_args ?ord) = Fin 10"
    using prepared(2) by (simp_all add: near_miss_order_def order_args_def Let_def)
  ultimately have "pl_posts (snd ?run) \<noteq> pl_posts demo_floor"
    using demo_sends [of ?ord cache "fst ?run" "snd ?run"] by simp
  then show ?thesis
    using near_miss_rests_below_market [of demo_pe near_candidate demo_floor "fst ?run" "snd ?run"] by auto
qed

end
