(* ===== verification/Spec2Isabelle.thy ===== *)
theory Spec2Isabelle
  imports Live_Control Betting_Window Cash_Debit Value Bankroll Ledger_Settlement Ledger_Merge Ledger_Sweeps
    Schedule_Typing Accounting_Outcomes Trading_Controls
    Order_Lock Sizing_Laws Placement_Outcomes
begin

text \<open>
  Verification development of the UFC betting bot: the Python program under \<^verbatim>\<open>src/\<close> that keeps fight
  data and model predictions up to date, compares the predictions with the prices of the Polymarket
  exchange, buys the outcomes that are under-priced, and keeps the books of what it bought.

  \<^bold>\<open>The parts and how they interact.\<close> A refresh worker asks the \<^emph>\<open>update schedule\<close> whether a weekly data
  update or a monthly model candidate is due, claims it, works, and completes the claim. The
  published predictions reach the trading consumer, which first asks the \<^emph>\<open>start-up control\<close> whether it
  may trade with real money, and the \<^emph>\<open>betting window\<close> whether it is the time to do so. \<^emph>\<open>Value detection\<close>
  turns one prediction row into at most one bet; the \<^emph>\<open>bankroll manager\<close> sizes the bet and reserves the
  cash. The \<^emph>\<open>placement\<close> of the executor takes the bet through its gates - window, open bets on the market,
  metadata, exposure of the wallet, price, size, cash - and hands what is left to the \<^emph>\<open>submission\<close>. An order
  is written into the \<^emph>\<open>bet ledger\<close> before it is sent, becomes a holding when its fill is
  known, receives the \<^emph>\<open>cash evidence\<close> of the fill, and is settled or cancelled - by an operator through
  the \<^emph>\<open>merged view\<close> of all ledgers, or by the \<^emph>\<open>sweeps\<close>. What has become of an order, the \<^emph>\<open>order
  reconciliation\<close> finds out from the exchange, and tells the ledger and the bankroll manager; before new
  orders are placed, the \<^emph>\<open>accounting maintenance\<close> recovers every saved order, observes the cost of every
  fill and settles what has been decided. The \<^emph>\<open>pause switch\<close> stops all of this.

  \<^bold>\<open>Python's world.\<close>
  \<^item> \<open>Prelude\<close>: strings, truth values, \<open>x or default\<close>, errors as sums, lemmas on lists.
  \<^item> \<open>Binary64\<close>: \<open>float\<close> as rationals with the rounding of IEEE 754, infinities and NaN; \<open>round(x, n)\<close>;
    monotonicity, sign and error bounds of rounding.
  \<^item> \<open>Json\<close>: the dictionaries of JSON files and API responses, with Python's \<open>==\<close>.
  \<^item> \<open>Decimal\<close>, \<open>Py_Text\<close>: \<open>decimal.Decimal\<close> with 28 digits, the texts of \<open>str\<close> and \<open>repr\<close>, and
    their parsers; printing a decimal and reading it back gives the decimal.
  \<^item> \<open>Paths\<close>: \<open>pathlib\<close> on POSIX. \<open>Calendar\<close>: \<open>datetime\<close> ordinals, ISO weeks and ISO texts.

  \<^bold>\<open>The program.\<close>
  \<^item> \<open>Live_Control\<close> is \<^verbatim>\<open>src/live_control.py\<close>. The environment is the record \<open>live_env\<close>; the lists
    of checks, errors and warnings are the record \<open>check_log\<close>, threaded through the checks in their
    order. Real trading is allowed exactly when a list of conditions on the environment holds.
  \<^item> \<open>Betting_Window\<close> is \<^verbatim>\<open>src/betting_window.py\<close>: when the window is open, and that it does not reopen.
  \<^item> \<open>Value\<close> is \<^verbatim>\<open>src/strategy/value.py\<close>: blending, filters, near misses and the conviction strategy.
    Every returned bet satisfies every filter, and the routine that explains a rejection agrees
    with the one that decides.
  \<^item> \<open>Bankroll\<close> is \<^verbatim>\<open>src/strategy/bankroll.py\<close>. Its state is the record \<open>manager\<close>; \<open>manager_step\<close> are
    its operations in any order.
  \<^item> \<open>Cash_Debit\<close> is \<^verbatim>\<open>src/polymarket/fill_cashflow.py\<close>: evidence for the cash cost of a fill, its
    verification, and that what is observed verifies, on this bet and on no other.
  \<^item> \<open>Ledger_Rows\<close>, \<open>Ledger\<close>, \<open>Ledger_Merge\<close>, \<open>Ledger_Sweeps\<close> are \<^verbatim>\<open>src/polymarket/tracker.py\<close>: reading a
    row; \<open>BetLedger\<close>, whose state is the ledger file (record \<open>ledger\<close>); the merged view; the passes
    over the open bets.
  \<^item> \<open>Order_Evidence\<close>, \<open>Order_Reconcile\<close> are the part of \<^verbatim>\<open>src/polymarket/executor.py\<close> that reads orders and
    trades (the exchange is the record \<open>clob\<close>) and books the fate of an order. The state is the record
    \<open>desk\<close>: the ledger, the bankroll manager, the order log and the cancellations that were requested;
    an operation is a \<open>desk_op\<close>, an exception its \<open>Inl\<close> side.
  \<^item> \<open>Order_Submission\<close> is \<open>create_limit_order\<close> of \<^verbatim>\<open>src/polymarket/client.py\<close> and the part of
    \<^verbatim>\<open>src/polymarket/executor.py\<close> that journals an intent, sends the order and books the answer (record
    \<open>submission\<close>; the SDK is the record \<open>order_sdk\<close>). \<open>Order_Sizing\<close> is the rounding of an order, the order
    book, the liquidity check and the taker fee; \<open>Order_Metadata\<close> the execution metadata of a market;
    \<open>Order_Conflicts\<close> the open bets of the shared ledgers and the exposure of the wallet.
  \<^item> \<open>Order_Placement\<close> and \<open>Near_Miss\<close> are \<open>_place_bet_locked\<close> and \<open>_place_near_miss_limit_locked\<close>, which
    compose these: an operation (\<open>placing_op\<close>) runs on the record \<open>placing\<close>, leaves the bet at a gate, raises,
    or goes on; the surroundings are the record \<open>placement_env\<close>. \<open>Order_Lock\<close> is the scope of their lock.
  \<^item> \<open>Accounting\<close> is \<open>_maintain_original_accounting\<close> of \<^verbatim>\<open>src/refresh_live.py\<close>, over a list of ledgers (record
    \<open>book\<close>) and the answers of its surroundings (record \<open>world\<close>); it composes the order reconciliation,
    the cash evidence, the ledger and the settlement sweep.
  \<^item> \<open>Trading_Controls\<close> is \<^verbatim>\<open>src/trading_controls.py\<close>, the pause switch: a file, and a record that cannot be
    read counts as a pause.
  \<^item> \<open>Schedule\<close>, \<open>Schedule_Complete\<close>, \<open>Schedule_Monthly\<close> are \<^verbatim>\<open>src/data/ufc_update_schedule.py\<close>. The state
    is the JSON object of the state file (\<open>state_file\<close>); an operation is a function from the file to
    a result and the file.

  \<^bold>\<open>Laws, and the interfaces they are stated in.\<close>
  \<^item> \<open>Ledger_Laws\<close>: the contract of a mutator of one ledger row (locale \<open>row_contract\<close>, with guards
    \<open>guarded_row_contract\<close>, with saving \<open>saving_row_contract\<close>), interpreted on settling, cancelling,
    converting, pricing and recording; the abstract life cycle of a bet.
  \<^item> \<open>Ledger_Histories\<close>: \<open>ledger_step\<close> runs of any operations; every run is a run of \<open>abstract_step\<close>, in
    which a bet is only known by its life cycle; closed rows never change.
  \<^item> \<open>Ledger_Settlement\<close>: what a settlement writes; evidence recorded is what a settlement charges.
  \<^item> \<open>Ledger_Sweeps\<close> has the locales \<open>closing_row_contract\<close> and \<open>closing_sweep\<close>, interpreted on both sweeps.
  \<^item> \<open>Order_Laws\<close>: a relation between the desk before and after that holds for the elementary changes
    (locales \<open>desk_preorder\<close>, \<open>booking_relation\<close>, \<open>desk_relation\<close>) holds for every operation; interpreted
    on four relations. \<open>Order_Trades\<close>: the evidence of the trade history is the sum of the confirmed
    fills of the order, each counted once. \<open>Order_Outcomes\<close>: an order is only closed on confirmed
    evidence, its cash comes back at most once, recovery invents no cash, a cancellation ends.
  \<^item> \<open>Submission_Laws\<close>, \<open>Submission_Outcomes\<close>: an order is sent once and only when it is journalled, and the
    books agree with what is known of it however the submission ends. \<open>Sizing_Laws\<close>: an order that the
    executor has sized passes the checks of the client. \<open>Placement_Laws\<close> has the locales
    \<open>placing_relation\<close> and \<open>reconciling_relation\<close>, relations that every step of a placement keeps;
    \<open>One_Bet\<close> shows that the gate of the market leaves no open bet on it, and \<open>Placement_Outcomes\<close> states
    what an order that is sent has gone through.
  \<^item> \<open>Accounting_Laws\<close> extends these relations to the maintenance (locale \<open>cost_relation\<close>) and lifts them
    over the ledgers (locale \<open>book_phase\<close>); \<open>Accounting_Safety\<close> follows the rows in doubt through the
    phases; \<open>Accounting_Outcomes\<close> states what the maintenance promises.
  \<^item> \<open>Schedule_Laws\<close>, \<open>Schedule_Moves\<close>: the stages of a slot and the contract \<open>schedule_transition\<close> of the
    six operations; \<open>Schedule_Histories\<close>: \<open>schedule_step\<close> runs, in which slots only move forward and
    are claimed once; \<open>Schedule_Typing\<close>: the contract \<open>typed_transition\<close>, which keeps the records well
    formed, so that planning never fails and a due update is granted.

  \<^bold>\<open>Bounds and fuel.\<close> No loop of the modelled code needs fuel: the loops run over lists and are
  structural recursions. The confirmation of a cancellation counts its two rounds down, and it is
  proved that no third answer of the exchange is read. The search for the shortest digits of a float runs over the 17 lengths
  that suffice for binary64. The properties of the schedule that mention \<open>clock_ok\<close> ask that the ISO
  years of the clock have four digits, as \<open>datetime\<close> itself requires.

  \<^bold>\<open>Arguments.\<close> What is not under \<^verbatim>\<open>src/\<close> is an argument of the definitions: the file system, SHA-256, the
  parser \<open>datetime.fromisoformat\<close>, \<open>str.casefold\<close>, the power of two floats, the time zone database, the clock, the factory of claim ids, the
  sorting of a pandas frame, the responses of the exchange. The lock on a file and the atomic
  replacement of its content are taken as working, so an operation is a function on the file; only for
  the pause switch the steps of the replacement can fail one by one.

  \<^bold>\<open>Not modelled.\<close> Log output and the texts that only reach it. Strings with code points above 255; the
  sign of a zero; the exponent limits of \<open>Decimal\<close>. Of the schedule \<open>register_accepted_update\<close> and
  \<open>reconcile_monthly_inputs\<close>, which build an input directory between two locked sections. Of the
  executor the matching of predictions to markets, the plan of a refresh over all open orders, the
  import of account positions and the records of the decision audit. The
  other parts of the repository are network collection and scraping, pandas transformations,
  training and evaluation of models with scikit-learn and XGBoost, file publication, process
  supervision and the dashboards: their effects are outside the program text, or they have none
  on the state of trading.
\<close>

end
